(* ===== verification/Prelude.thy ===== *)
theory Prelude
  imports Main "HOL-Library.Word" "HOL-Library.Monad_Syntax" "HOL-Library.Multiset"
begin

text \<open>
  Shared vocabulary of the development.

  \<^item> Machine integers of the C code: \<open>u8\<close>, \<open>u16\<close>, \<open>u32\<close>, \<open>u64\<close> are words of that width.
  \<^item> A memory block is a list; \<open>rd\<close>, \<open>wr\<close>, \<open>slice\<close> and \<open>blit\<close> are the accesses the C code makes to
    it (a load, a store, a block load and a \<open>memcpy\<close> or \<open>memmove\<close> into it). An access outside the block is
    \<open>None\<close>: undefined behaviour of the source is a value of the model, never an arbitrary
    result.
  \<^item> Collections: \<open>mem_simps\<close> rewrites accesses, \<open>mem_elims\<close> inverts successful ones.
\<close>

unbundle bit_operations_syntax

named_theorems mem_simps \<open>rewrite rules for accesses to memory blocks\<close>
named_theorems mem_elims \<open>inversion of successful accesses to memory blocks\<close>

type_synonym u8 = "8 word"
type_synonym u16 = "16 word"
type_synonym u32 = "32 word"
type_synonym u64 = "64 word"

section \<open>Memory blocks\<close>

definition rd :: "'a list \<Rightarrow> nat \<Rightarrow> 'a option" where
  "rd xs i = (if i < length xs then Some (xs ! i) else None)"

definition wr :: "'a list \<Rightarrow> nat \<Rightarrow> 'a \<Rightarrow> 'a list option" where
  "wr xs i v = (if i < length xs then Some (xs[i := v]) else None)"

definition slice :: "'a list \<Rightarrow> nat \<Rightarrow> nat \<Rightarrow> 'a list option" where
  "slice xs i n = (if i + n \<le> length xs then Some (take n (drop i xs)) else None)"

definition blit :: "'a list \<Rightarrow> nat \<Rightarrow> 'a list \<Rightarrow> 'a list option" where
  "blit xs i ys =
     (if i + length ys \<le> length xs then Some (take i xs @ ys @ drop (i + length ys) xs) else None)"

lemma rd_Some_iff [mem_simps]: "rd xs i = Some v \<longleftrightarrow> i < length xs \<and> xs ! i = v"
  by (auto simp: rd_def)

lemma wr_Some_iff [mem_simps]: "wr xs i v = Some ys \<longleftrightarrow> i < length xs \<and> ys = xs[i := v]"
  by (auto simp: wr_def)

lemma slice_Some_iff [mem_simps]:
  "slice xs i n = Some ys \<longleftrightarrow> i + n \<le> length xs \<and> ys = take n (drop i xs)"
  by (auto simp: slice_def)

lemma blit_Some_iff [mem_simps]:
  "blit xs i ys = Some zs \<longleftrightarrow>
     i + length ys \<le> length xs \<and> zs = take i xs @ ys @ drop (i + length ys) xs"
  by (auto simp: blit_def)

lemma rd_in_range [simp]: "i < length xs \<Longrightarrow> rd xs i = Some (xs ! i)"
  by (simp add: rd_def)

lemma length_blit: "blit xs i ys = Some zs \<Longrightarrow> length zs = length xs"
  by (auto simp: blit_Some_iff)

lemma take_blit_before: "blit xs i ys = Some zs \<Longrightarrow> n \<le> i \<Longrightarrow> take n zs = take n xs"
  by (auto simp: blit_Some_iff min_def)

lemma take_blit_end:
  "blit xs i ys = Some zs \<Longrightarrow> take (i + length ys) zs = take i xs @ ys"
  by (auto simp: blit_Some_iff)

lemma drop_blit_after:
  "blit xs i ys = Some zs \<Longrightarrow> i + length ys \<le> n \<Longrightarrow> drop n zs = drop n xs"
  by (auto simp: blit_Some_iff)

lemma slice_blit:
  "blit xs i ys = Some zs \<Longrightarrow> slice zs i (length ys) = Some ys"
  by (auto simp: blit_Some_iff slice_Some_iff)

lemma nth_blit:
  assumes "blit xs i ys = Some zs" and "k < length xs"
  shows "zs ! k = (if i \<le> k \<and> k < i + length ys then ys ! (k - i) else xs ! k)"
  using assms by (auto simp: blit_Some_iff nth_append min_def)

lemma take_Suc_snoc: "n < length xs \<Longrightarrow> take (Suc n) xs = take n xs @ [xs ! n]"
  by (rule take_Suc_conv_app_nth)

lemma wr_eq_blit: "wr xs i v = blit xs i [v]"
  by (auto simp: wr_def blit_def upd_conv_take_nth_drop)

lemma blit_Cons:
  "i < length xs \<Longrightarrow> blit (xs[i := v]) (Suc i) ys = blit xs i (v # ys)"
  by (auto simp: blit_def take_Suc_snoc)

section \<open>Generic list and option lemmas\<close>

lemma bind_Some_iff: "Option.bind m f = Some y \<longleftrightarrow> (\<exists>x. m = Some x \<and> f x = Some y)"
  by (cases m) auto

lemma takeWhile_until:
  assumes "\<And>x. x \<in> set xs \<Longrightarrow> P x" and "\<not> P y"
  shows "takeWhile P (xs @ y # zs) = xs"
  using assms by (simp add: takeWhile_tail)

section \<open>Words\<close>

lemma unat_ucast_up:
  fixes x :: "'a::len word"
  assumes "LENGTH('a) \<le> LENGTH('b::len)"
  shows "unat (ucast x :: 'b word) = unat x"
proof -
  have "unat x < 2 ^ LENGTH('b)"
    using assms by (meson less_le_trans one_le_numeral power_increasing unsigned_less)
  then show ?thesis
    by (simp add: unsigned_ucast_eq take_bit_nat_eq_self)
qed

lemma unat_and_mask: "unat (x AND mask n :: 'a::len word) = unat x mod 2 ^ n"
  by (simp flip: take_bit_eq_mask take_bit_eq_mod add: unsigned_take_bit_eq)

lemma unat_drop_bit: "unat (drop_bit n x :: 'a::len word) = unat x div 2 ^ n"
  by (simp add: unsigned_drop_bit_eq take_bit_nat_eq_self flip: drop_bit_eq_div)

lemma uint_and_mask: "uint (x AND mask n :: 'a::len word) = uint x mod 2 ^ n"
  by (simp flip: take_bit_eq_mask take_bit_eq_mod add: unsigned_take_bit_eq)

lemma uint_drop_bit: "uint (drop_bit n x :: 'a::len word) = uint x div 2 ^ n"
  by (simp add: unsigned_drop_bit_eq take_bit_int_eq_self flip: drop_bit_eq_div)

lemma uint_of_int_small: "0 \<le> n \<Longrightarrow> n < 2 ^ LENGTH('a) \<Longrightarrow> uint (word_of_int n :: 'a::len word) = n"
  by (simp add: uint_word_of_int)

lemma or_nat_disjoint:
  assumes "a < 2 ^ k" and "2 ^ k dvd b"
  shows "a OR b = a + (b :: nat)"
proof -
  have a: "take_bit k a = a" using assms(1) by (simp add: take_bit_nat_eq_self)
  obtain m where b: "b = push_bit k m"
    using assms(2) by (auto simp: push_bit_eq_mult dvd_def mult.commute)
  have "take_bit k a AND push_bit k m = 0"
    by (rule bit_eqI) (auto simp: bit_simps)
  then show ?thesis
    using a b by (simp add: disjunctive_add_eq_or)
qed

lemma unat_or_disjoint:
  fixes x h :: "'a::len word"
  assumes "unat x < 2 ^ k" and "2 ^ k dvd unat h"
  shows "unat (x OR h) = unat x + unat h"
  by (simp add: unsigned_or_eq or_nat_disjoint [OF assms])

lemma unat_and_mask_numeral:
  "unat (x AND 0x3f :: u32) = unat x mod 64" "unat (x AND 0x1f :: u32) = unat x mod 32"
  "unat (x AND 0xf :: u32) = unat x mod 16" "unat (x AND 7 :: u32) = unat x mod 8"
  "unat (x AND 3 :: u32) = unat x mod 4" "unat (x AND 1 :: u32) = unat x mod 2"
  using unat_and_mask [of x 6] unat_and_mask [of x 5] unat_and_mask [of x 4]
    unat_and_mask [of x 3] unat_and_mask [of x 2] unat_and_mask [of x 1]
  by (simp_all add: mask_eq_decr_exp)

lemma word_less_unat: "x < y \<longleftrightarrow> unat x < unat (y :: 'a::len word)"
  by (rule word_less_nat_alt)

lemma word_le_unat: "x \<le> y \<longleftrightarrow> unat x \<le> unat (y :: 'a::len word)"
  by (rule word_le_nat_alt)

lemma unat_ucast_small: "unat x < 2 ^ LENGTH('b) \<Longrightarrow> unat (ucast (x :: 'a::len word) :: 'b::len word) = unat x"
  by (simp add: unsigned_ucast_eq take_bit_nat_eq_self)

lemma unat_push_bit:
  "unat c * 2 ^ k < 2 ^ LENGTH('a) \<Longrightarrow> unat (push_bit k c :: 'a::len word) = unat c * 2 ^ k"
  unfolding unsigned_push_bit_eq by (simp add: push_bit_eq_mult take_bit_nat_eq_self)

lemma unat_eq_iff: "unat x = unat y \<longleftrightarrow> x = (y :: 'a::len word)"
  by (metis unsigned_word_eqI)

lemma map_unat_eq_iff: "map unat xs = map unat ys \<longleftrightarrow> xs = (ys :: 'a::len word list)"
  by (simp add: inj_map_eq_map inj_unsigned)

end
