(* ===== verification/Cutils.thy ===== *)
theory Cutils
  imports Prelude
begin

text \<open>
  \<^verbatim>\<open>cutils.h\<close> and the string helpers of \<^verbatim>\<open>cutils.c\<close>: integer minimum and maximum, bit scanning,
  unaligned little-endian loads and stores (\<open>WORDS_BIGENDIAN\<close> is undefined), byte swapping, hexadecimal
  digits, and the bounded C string operations. A C string is a block of bytes that holds a zero
  byte; reading past the end of a block is \<open>None\<close>.
\<close>

section \<open>Minimum and maximum\<close>

definition max_int :: "int \<Rightarrow> int \<Rightarrow> int" where
  "max_int a b = (if a > b then a else b)"

definition min_int :: "int \<Rightarrow> int \<Rightarrow> int" where
  "min_int a b = (if a < b then a else b)"

definition max_uint32 :: "u32 \<Rightarrow> u32 \<Rightarrow> u32" where
  "max_uint32 a b = (if a > b then a else b)"

definition min_uint32 :: "u32 \<Rightarrow> u32 \<Rightarrow> u32" where
  "min_uint32 a b = (if a < b then a else b)"

definition max_int64 :: "int \<Rightarrow> int \<Rightarrow> int" where
  "max_int64 a b = (if a > b then a else b)"

definition min_int64 :: "int \<Rightarrow> int \<Rightarrow> int" where
  "min_int64 a b = (if a < b then a else b)"

section \<open>Bit scanning\<close>

text \<open>
  \<open>builtin_clz\<close> and \<open>builtin_ctz\<close> are the compiler intrinsics; the MSVC branch of the code uses
  \<open>_BitScanReverse\<close> and \<open>_BitScanForward\<close>, which give the index of the highest and of the lowest set bit.
\<close>

definition builtin_clz :: "'a::len word \<Rightarrow> nat" where
  "builtin_clz a = length (takeWhile (\<lambda>i. \<not> bit a i) (rev [0..<LENGTH('a)]))"

definition builtin_ctz :: "'a::len word \<Rightarrow> nat" where
  "builtin_ctz a = length (takeWhile (\<lambda>i. \<not> bit a i) [0..<LENGTH('a)])"

definition clz32 :: "u32 \<Rightarrow> nat" where
  "clz32 a = builtin_clz a"

definition clz64 :: "u64 \<Rightarrow> nat" where
  "clz64 a = builtin_clz a"

definition ctz32 :: "u32 \<Rightarrow> nat" where
  "ctz32 a = builtin_ctz a"

definition ctz64 :: "u64 \<Rightarrow> nat" where
  "ctz64 a = builtin_ctz a"

definition ctz32_msvc :: "u32 \<Rightarrow> nat" where
  "ctz32_msvc a = (let idx = builtin_ctz a in unat (31 XOR word_of_nat idx :: u32))"

definition clz32_msvc :: "u32 \<Rightarrow> nat" where
  "clz32_msvc a = (let idx = 31 - builtin_clz a in unat (31 XOR word_of_nat idx :: u32))"

section \<open>Unaligned loads and stores\<close>

definition u16_bytes :: "u16 \<Rightarrow> u8 list" where
  "u16_bytes v = [ucast v, ucast (drop_bit 8 v)]"

definition u32_bytes :: "u32 \<Rightarrow> u8 list" where
  "u32_bytes v = [ucast v, ucast (drop_bit 8 v), ucast (drop_bit 16 v), ucast (drop_bit 24 v)]"

definition u64_bytes :: "u64 \<Rightarrow> u8 list" where
  "u64_bytes v = [ucast v, ucast (drop_bit 8 v), ucast (drop_bit 16 v), ucast (drop_bit 24 v),
     ucast (drop_bit 32 v), ucast (drop_bit 40 v), ucast (drop_bit 48 v), ucast (drop_bit 56 v)]"

fun le_word :: "u8 list \<Rightarrow> 'a::len word" where
  "le_word [] = 0"
| "le_word (b # bs) = ucast b OR push_bit 8 (le_word bs)"

definition get_u8 :: "u8 list \<Rightarrow> nat \<Rightarrow> u32 option" where
  "get_u8 tab i = do { b \<leftarrow> rd tab i; Some (ucast b) }"

definition get_i8 :: "u8 list \<Rightarrow> nat \<Rightarrow> int option" where
  "get_i8 tab i = do { b \<leftarrow> rd tab i; Some (sint b) }"

definition put_u8 :: "u8 list \<Rightarrow> nat \<Rightarrow> u8 \<Rightarrow> u8 list option" where
  "put_u8 tab i v = wr tab i v"

definition get_u16 :: "u8 list \<Rightarrow> nat \<Rightarrow> u32 option" where
  "get_u16 tab i = do { bs \<leftarrow> slice tab i 2; Some (ucast (le_word bs :: u16)) }"

definition get_i16 :: "u8 list \<Rightarrow> nat \<Rightarrow> int option" where
  "get_i16 tab i = do { bs \<leftarrow> slice tab i 2; Some (sint (le_word bs :: u16)) }"

definition put_u16 :: "u8 list \<Rightarrow> nat \<Rightarrow> u16 \<Rightarrow> u8 list option" where
  "put_u16 tab i v = blit tab i (u16_bytes v)"

definition get_u32 :: "u8 list \<Rightarrow> nat \<Rightarrow> u32 option" where
  "get_u32 tab i = do { bs \<leftarrow> slice tab i 4; Some (le_word bs) }"

definition get_i32 :: "u8 list \<Rightarrow> nat \<Rightarrow> int option" where
  "get_i32 tab i = do { bs \<leftarrow> slice tab i 4; Some (sint (le_word bs :: u32)) }"

definition put_u32 :: "u8 list \<Rightarrow> nat \<Rightarrow> u32 \<Rightarrow> u8 list option" where
  "put_u32 tab i v = blit tab i (u32_bytes v)"

definition get_u64 :: "u8 list \<Rightarrow> nat \<Rightarrow> u64 option" where
  "get_u64 tab i = do { bs \<leftarrow> slice tab i 8; Some (le_word bs) }"

definition get_i64 :: "u8 list \<Rightarrow> nat \<Rightarrow> int option" where
  "get_i64 tab i = do { bs \<leftarrow> slice tab i 8; Some (sint (le_word bs :: u64)) }"

definition put_u64 :: "u8 list \<Rightarrow> nat \<Rightarrow> u64 \<Rightarrow> u8 list option" where
  "put_u64 tab i v = blit tab i (u64_bytes v)"

section \<open>Byte swapping and hexadecimal digits\<close>

definition bswap16 :: "u16 \<Rightarrow> u16" where
  "bswap16 x = drop_bit 8 x OR push_bit 8 x"

definition bswap32 :: "u32 \<Rightarrow> u32" where
  "bswap32 v =
     drop_bit 24 (v AND 0xff000000) OR drop_bit 8 (v AND 0x00ff0000) OR
     push_bit 8 (v AND 0x0000ff00) OR push_bit 24 (v AND 0x000000ff)"

definition bswap64 :: "u64 \<Rightarrow> u64" where
  "bswap64 v =
     drop_bit (7 * 8) (v AND push_bit (7 * 8) 0xff) OR
     drop_bit (5 * 8) (v AND push_bit (6 * 8) 0xff) OR
     drop_bit (3 * 8) (v AND push_bit (5 * 8) 0xff) OR
     drop_bit (1 * 8) (v AND push_bit (4 * 8) 0xff) OR
     push_bit (1 * 8) (v AND push_bit (3 * 8) 0xff) OR
     push_bit (3 * 8) (v AND push_bit (2 * 8) 0xff) OR
     push_bit (5 * 8) (v AND push_bit (1 * 8) 0xff) OR
     push_bit (7 * 8) (v AND push_bit (0 * 8) 0xff)"

definition from_hex :: "int \<Rightarrow> int" where
  "from_hex c =
     (if c \<ge> 48 \<and> c \<le> 57 then c - 48
      else if c \<ge> 65 \<and> c \<le> 70 then c - 65 + 10
      else if c \<ge> 97 \<and> c \<le> 102 then c - 97 + 10
      else - 1)"

section \<open>C strings\<close>

text \<open>The string that starts at index \<open>i\<close> of a block, up to its zero byte.\<close>

definition cstr_at :: "u8 list \<Rightarrow> nat \<Rightarrow> u8 list" where
  "cstr_at b i = takeWhile (\<lambda>c. c \<noteq> 0) (drop i b)"

fun strlen :: "u8 list \<Rightarrow> nat option" where
  "strlen [] = None"
| "strlen (c # cs) = (if c = 0 then Some 0 else map_option Suc (strlen cs))"

fun pstrcpy_loop :: "u8 list \<Rightarrow> nat \<Rightarrow> nat \<Rightarrow> u8 list \<Rightarrow> u8 list option" where
  "pstrcpy_loop buf lim q [] = None"
| "pstrcpy_loop buf lim q (c # str) =
     (if c = 0 \<or> q \<ge> lim then wr buf q 0
      else do { buf' \<leftarrow> wr buf q c; pstrcpy_loop buf' lim (q + 1) str })"

text \<open>\<open>buf\<close> is the block that holds the destination, which starts at index \<open>off\<close>.\<close>

definition pstrcpy :: "u8 list \<Rightarrow> nat \<Rightarrow> int \<Rightarrow> u8 list \<Rightarrow> u8 list option" where
  "pstrcpy buf off buf_size str =
     (if buf_size \<le> 0 then Some buf
      else pstrcpy_loop buf (nat (int off + buf_size - 1)) off str)"

definition pstrcat :: "u8 list \<Rightarrow> nat \<Rightarrow> int \<Rightarrow> u8 list \<Rightarrow> u8 list option" where
  "pstrcat buf off buf_size s =
     do { len \<leftarrow> strlen (drop off buf);
          if int len < buf_size then pstrcpy buf (off + len) (buf_size - int len) s else Some buf }"

text \<open>\<open>Some None\<close> is the result 0, \<open>Some (Some p)\<close> the result 1 with \<open>*ptr = str + p\<close>.\<close>

fun strstart_loop :: "u8 list \<Rightarrow> u8 list \<Rightarrow> nat \<Rightarrow> nat option option" where
  "strstart_loop str [] p = None"
| "strstart_loop str (q # val) p =
     (if q = 0 then Some (Some p)
      else do { c \<leftarrow> rd str p; if c \<noteq> q then Some None else strstart_loop str val (p + 1) })"

definition strstart :: "u8 list \<Rightarrow> u8 list \<Rightarrow> nat option option" where
  "strstart str val = strstart_loop str val 0"

definition has_suffix :: "u8 list \<Rightarrow> u8 list \<Rightarrow> bool option" where
  "has_suffix str suffix =
     do { len \<leftarrow> strlen str; slen \<leftarrow> strlen suffix;
          Some (len \<ge> slen \<and> take slen (drop (len - slen) str) = take slen suffix) }"

section \<open>Loads after stores\<close>

text \<open>Little-endian bytes of a word of any width, and their bits.\<close>

definition le_bytes :: "nat \<Rightarrow> 'a::len word \<Rightarrow> u8 list" where
  "le_bytes n v = map (\<lambda>k. ucast (drop_bit (8 * k) v)) [0..<n]"

lemma length_le_bytes [simp]: "length (le_bytes n v) = n"
  by (simp add: le_bytes_def)

lemma bit_le_word:
  "bit (le_word bs :: 'a::len word) n \<longleftrightarrow>
     n < LENGTH('a) \<and> n div 8 < length bs \<and> bit (bs ! (n div 8)) (n mod 8)"
proof (induction bs arbitrary: n)
  case Nil
  then show ?case by simp
next
  case (Cons b bs)
  show ?case
  proof (cases "n < 8")
    case True
    then show ?thesis by (auto simp: bit_simps dest: bit_imp_le_length)
  next
    case False
    then have *: "n div 8 = Suc ((n - 8) div 8)" "n mod 8 = (n - 8) mod 8"
      by (simp_all add: le_div_geq le_mod_geq)
    from False have "\<not> bit b n" by (auto dest: bit_imp_le_length)
    with False show ?thesis
      by (auto simp: bit_simps Cons.IH *)
  qed
qed

lemma le_word_le_bytes: "LENGTH('a) = 8 * n \<Longrightarrow> le_word (le_bytes n v) = (v :: 'a::len word)"
  by (rule bit_word_eqI) (auto simp: bit_le_word le_bytes_def bit_simps)

lemma le_bytes_le_word:
  "length bs = n \<Longrightarrow> LENGTH('a) = 8 * n \<Longrightarrow> le_bytes n (le_word bs :: 'a::len word) = bs"
  by (rule nth_equalityI)
    (auto simp: le_bytes_def bit_le_word bit_simps intro!: bit_word_eqI)

lemma u16_bytes_le: "u16_bytes v = le_bytes 2 v"
  by (simp add: u16_bytes_def le_bytes_def upt_rec)

lemma u32_bytes_le: "u32_bytes v = le_bytes 4 v"
  by (simp add: u32_bytes_def le_bytes_def upt_rec)

lemma u64_bytes_le: "u64_bytes v = le_bytes 8 v"
  by (simp add: u64_bytes_def le_bytes_def upt_rec)

lemmas bytes_le = u16_bytes_le u32_bytes_le u64_bytes_le

lemma length_u_bytes [simp]:
  "length (u16_bytes v) = 2" "length (u32_bytes w) = 4" "length (u64_bytes x) = 8"
  by (simp_all add: bytes_le)

lemma le_word_u_bytes [simp]:
  "le_word (u16_bytes v) = v" "le_word (u32_bytes w) = w" "le_word (u64_bytes x) = x"
  by (simp_all add: bytes_le le_word_le_bytes)

lemma u32_bytes_le_word: "length bs = 4 \<Longrightarrow> u32_bytes (le_word bs) = bs"
  by (simp add: u32_bytes_le le_bytes_le_word)

lemma u16_bytes_le_word: "length bs = 2 \<Longrightarrow> u16_bytes (le_word bs) = bs"
  by (simp add: u16_bytes_le le_bytes_le_word)

lemma get_put_u16: "put_u16 tab i v = Some tab' \<Longrightarrow> get_u16 tab' i = Some (ucast v)"
  using slice_blit [of tab i "u16_bytes v" tab'] by (simp add: put_u16_def get_u16_def)

lemma get_put_u32: "put_u32 tab i v = Some tab' \<Longrightarrow> get_u32 tab' i = Some v"
  using slice_blit [of tab i "u32_bytes v" tab'] by (simp add: put_u32_def get_u32_def)

lemma get_put_u64: "put_u64 tab i v = Some tab' \<Longrightarrow> get_u64 tab' i = Some v"
  using slice_blit [of tab i "u64_bytes v" tab'] by (simp add: put_u64_def get_u64_def)

lemma bswap32_bytes: "u32_bytes (bswap32 v) = rev (u32_bytes v)"
proof -
  have m: "(0xff000000 :: u32) = push_bit 24 (mask 8)" "(0x00ff0000 :: u32) = push_bit 16 (mask 8)"
    "(0x0000ff00 :: u32) = push_bit 8 (mask 8)" "(0x000000ff :: u32) = mask 8"
    by (simp_all add: mask_eq_decr_exp)
  show ?thesis
    unfolding bswap32_def m u32_bytes_def
    by (auto simp: bit_simps intro!: bit_word_eqI)
qed

section \<open>Bounded string operations\<close>

lemma strlen_eq: "0 \<notin> set s \<Longrightarrow> strlen (s @ 0 # r) = Some (length s)"
  by (induction s) auto

lemma pstrcpy_loop_eq:
  assumes "0 \<notin> set s" and "q \<le> lim" and "lim < length buf"
  shows "pstrcpy_loop buf lim q (s @ 0 # r) = blit buf q (take (lim - q) s @ [0])"
  using assms
proof (induction s arbitrary: buf q)
  case Nil
  then show ?case by (simp add: wr_eq_blit)
next
  case (Cons c s)
  show ?case
  proof (cases "q = lim")
    case True
    then show ?thesis by (simp add: wr_eq_blit)
  next
    case False
    with Cons.prems have q: "q < lim" "q < length buf" by auto
    then have "pstrcpy_loop buf lim q ((c # s) @ 0 # r) = pstrcpy_loop (buf[q := c]) lim (Suc q) (s @ 0 # r)"
      using Cons.prems by (simp add: wr_def)
    also have "\<dots> = blit (buf[q := c]) (Suc q) (take (lim - Suc q) s @ [0])"
      using Cons.prems q by (intro Cons.IH) auto
    also have "\<dots> = blit buf q (c # take (lim - Suc q) s @ [0])"
      using q by (simp add: blit_Cons)
    also have "c # take (lim - Suc q) s @ [0] = take (lim - q) (c # s) @ [0]"
      using q by (simp add: Suc_diff_Suc flip: take_Suc_Cons)
    finally show ?thesis .
  qed
qed

lemma pstrcpy_eq:
  assumes "0 \<notin> set s" and "0 < buf_size" and "off + nat buf_size \<le> length buf"
  shows "pstrcpy buf off buf_size (s @ 0 # r) = blit buf off (take (nat buf_size - 1) s @ [0])"
proof -
  have lim: "nat (int off + buf_size - 1) = off + (nat buf_size - 1)"
    using assms(2) by linarith
  have "pstrcpy buf off buf_size (s @ 0 # r) = pstrcpy_loop buf (off + (nat buf_size - 1)) off (s @ 0 # r)"
    unfolding pstrcpy_def lim using assms(2) by simp
  also have "\<dots> = blit buf off (take (nat buf_size - 1) s @ [0])"
    using assms by (subst pstrcpy_loop_eq) auto
  finally show ?thesis .
qed

end
