(* ===== verification/Utf8.thy ===== *)
theory Utf8
  imports Cutils
begin

text \<open>
  The UTF-8 codec of \<^verbatim>\<open>cutils.c\<close>: \<open>unicode_to_utf8\<close> gives the bytes it writes (its C result is their
  number, 0 when nothing is encoded), \<open>unicode_from_utf8\<close> reads a block from index \<open>p\<close>:
  \<open>None\<close> is a read outside the block, \<open>Some None\<close> the result -1, \<open>Some (Some (c, p'))\<close> the code
  point with \<open>*pp = p'\<close>. Both directions of the round trip are proved through the arithmetic
  reading \<open>utf8_nat\<close> of the encoding.
\<close>

section \<open>The codec\<close>

definition UTF8_CHAR_LEN_MAX :: nat where
  "UTF8_CHAR_LEN_MAX = 6"

definition utf8_cont :: "u32 \<Rightarrow> nat \<Rightarrow> u8" where
  "utf8_cont c n = ucast ((drop_bit n c AND 0x3f) OR 0x80)"

definition unicode_to_utf8 :: "u32 \<Rightarrow> u8 list" where
  "unicode_to_utf8 c =
     (if c < 0x80 then [ucast c]
      else if c < 0x800 then [ucast (drop_bit 6 c OR 0xc0), utf8_cont c 0]
      else if c < 0x10000 then [ucast (drop_bit 12 c OR 0xe0), utf8_cont c 6, utf8_cont c 0]
      else if c < 0x00200000 then
        [ucast (drop_bit 18 c OR 0xf0), utf8_cont c 12, utf8_cont c 6, utf8_cont c 0]
      else if c < 0x04000000 then
        [ucast (drop_bit 24 c OR 0xf8), utf8_cont c 18, utf8_cont c 12, utf8_cont c 6, utf8_cont c 0]
      else if c < 0x80000000 then
        [ucast (drop_bit 30 c OR 0xfc), utf8_cont c 24, utf8_cont c 18, utf8_cont c 12, utf8_cont c 6,
         utf8_cont c 0]
      else [])"

definition utf8_min_code :: "u32 list" where
  "utf8_min_code = [0x80, 0x800, 0x10000, 0x00200000, 0x04000000]"

definition utf8_first_code_mask :: "u32 list" where
  "utf8_first_code_mask = [0x1f, 0xf, 0x7, 0x3, 0x1]"

fun from_utf8_loop :: "u8 list \<Rightarrow> nat \<Rightarrow> nat \<Rightarrow> u32 \<Rightarrow> (u32 \<times> nat) option option" where
  "from_utf8_loop b p 0 c = Some (Some (c, p))"
| "from_utf8_loop b p (Suc l) c =
     do { x \<leftarrow> rd b p;
          if x < 0x80 \<or> x \<ge> 0xc0 then Some None
          else from_utf8_loop b (p + 1) l (push_bit 6 c OR (ucast x AND 0x3f)) }"

text \<open>The \<open>switch\<close> on the first byte: the number of continuation bytes.\<close>

definition utf8_extra_len :: "u8 \<Rightarrow> nat option" where
  "utf8_extra_len c =
     (if c \<ge> 0xc0 \<and> c \<le> 0xdf then Some 1
      else if c \<ge> 0xe0 \<and> c \<le> 0xef then Some 2
      else if c \<ge> 0xf0 \<and> c \<le> 0xf7 then Some 3
      else if c \<ge> 0xf8 \<and> c \<le> 0xfb then Some 4
      else if c \<ge> 0xfc \<and> c \<le> 0xfd then Some 5
      else None)"

definition unicode_from_utf8 :: "u8 list \<Rightarrow> nat \<Rightarrow> int \<Rightarrow> (u32 \<times> nat) option option" where
  "unicode_from_utf8 b p max_len =
     do { c \<leftarrow> rd b p;
          if c < 0x80 then Some (Some (ucast c, p + 1))
          else case utf8_extra_len c of
            None \<Rightarrow> Some None
          | Some l \<Rightarrow>
              if int l > max_len - 1 then Some None
              else do {
                r \<leftarrow> from_utf8_loop b (p + 1) l (ucast c AND utf8_first_code_mask ! (l - 1));
                case r of
                  None \<Rightarrow> Some None
                | Some (v, p') \<Rightarrow> if v < utf8_min_code ! (l - 1) then Some None else Some (Some (v, p')) } }"

section \<open>Arithmetic reading\<close>

definition utf8_nat :: "nat \<Rightarrow> nat list" where
  "utf8_nat c =
     (if c < 0x80 then [c]
      else if c < 0x800 then [0xc0 + c div 64, 0x80 + c mod 64]
      else if c < 0x10000 then [0xe0 + c div 64 ^ 2, 0x80 + c div 64 mod 64, 0x80 + c mod 64]
      else if c < 0x200000 then
        [0xf0 + c div 64 ^ 3, 0x80 + c div 64 ^ 2 mod 64, 0x80 + c div 64 mod 64, 0x80 + c mod 64]
      else if c < 0x4000000 then
        [0xf8 + c div 64 ^ 4, 0x80 + c div 64 ^ 3 mod 64, 0x80 + c div 64 ^ 2 mod 64,
         0x80 + c div 64 mod 64, 0x80 + c mod 64]
      else if c < 0x80000000 then
        [0xfc + c div 64 ^ 5, 0x80 + c div 64 ^ 4 mod 64, 0x80 + c div 64 ^ 3 mod 64,
         0x80 + c div 64 ^ 2 mod 64, 0x80 + c div 64 mod 64, 0x80 + c mod 64]
      else [])"

lemma unat_utf8_cont: "unat (utf8_cont c n) = 0x80 + unat c div 2 ^ n mod 64"
proof -
  have "unat ((drop_bit n c AND 0x3f) OR 0x80) = unat (drop_bit n c AND 0x3f) + unat (0x80 :: u32)"
    by (rule unat_or_disjoint [where k = 6]) (auto simp: unat_and_mask_numeral)
  then show ?thesis
    by (simp add: utf8_cont_def unat_and_mask_numeral unat_drop_bit unsigned_ucast_eq take_bit_nat_eq_self)
qed

lemma unat_utf8_first:
  assumes "unat c div 2 ^ n < 2 ^ k" and "2 ^ k dvd unat h" and "2 ^ k + unat h \<le> 256"
  shows "unat (ucast (drop_bit n c OR h :: u32) :: u8) = unat h + unat c div 2 ^ n"
proof -
  have "unat (drop_bit n c OR h) = unat (drop_bit n c) + unat h"
    using assms(1,2) by (intro unat_or_disjoint [where k = k]) (auto simp: unat_drop_bit)
  then show ?thesis
    using assms by (simp add: unat_drop_bit unsigned_ucast_eq take_bit_nat_eq_self)
qed

lemma unicode_to_utf8_nat: "map unat (unicode_to_utf8 c) = utf8_nat (unat c)"
  by (auto simp: unicode_to_utf8_def utf8_nat_def word_less_unat unat_utf8_cont
      unat_utf8_first [where k = 5] unat_utf8_first [where k = 4] unat_utf8_first [where k = 3]
      unat_utf8_first [where k = 2] unat_utf8_first [where k = 1]
      unat_ucast_small div_less_iff_less_mult)

section \<open>Decoding\<close>

text \<open>The value of a run of continuation bytes, most significant first.\<close>

definition cont_val :: "nat \<Rightarrow> u8 list \<Rightarrow> nat" where
  "cont_val c xs = foldl (\<lambda>a x. a * 64 + unat x mod 64) c xs"

definition is_cont :: "u8 \<Rightarrow> bool" where
  "is_cont x \<longleftrightarrow> 0x80 \<le> unat x \<and> unat x < 0xc0"

lemma cont_val_less: "c < m \<Longrightarrow> cont_val c xs < m * 64 ^ length xs"
proof (induction xs arbitrary: c m)
  case Nil
  then show ?case by (simp add: cont_val_def)
next
  case (Cons x xs)
  have "c * 64 + unat x mod 64 < m * 64"
    using Cons.prems mod_less_divisor [of 64 "unat x"] by linarith
  from Cons.IH [OF this] show ?case
    by (simp add: cont_val_def mult.assoc)
qed

lemma shift_in_unat:
  assumes "unat c < 2 ^ 26"
  shows "unat (push_bit 6 c OR (ucast (x :: u8) AND 0x3f) :: u32) = unat c * 64 + unat x mod 64"
proof -
  have p: "unat (push_bit 6 c) = unat c * 64"
    using assms by (simp add: unat_push_bit)
  have "unat ((ucast x AND 0x3f) OR push_bit 6 c :: u32) = unat (ucast x AND 0x3f :: u32) + unat (push_bit 6 c)"
    by (rule unat_or_disjoint [where k = 6]) (auto simp: unat_and_mask_numeral p)
  then show ?thesis
    by (simp add: p unat_and_mask_numeral unat_ucast_up or.commute)
qed

lemma from_utf8_loop_iff:
  assumes "(unat c + 1) * 64 ^ l \<le> 2 ^ 32" and "p \<le> length b"
  shows "from_utf8_loop b p l c = Some (Some (v, p')) \<longleftrightarrow>
    p + l \<le> length b \<and> p' = p + l \<and> list_all is_cont (take l (drop p b)) \<and>
    unat v = cont_val (unat c) (take l (drop p b))"
  using assms
proof (induction l arbitrary: p c)
  case 0
  then show ?case by (auto simp: cont_val_def unat_eq_iff)
next
  case (Suc l)
  show ?case
  proof (cases "p < length b")
    case False
    then show ?thesis by (simp add: rd_def)
  next
    case True
    let ?x = "b ! p"
    let ?c = "push_bit 6 c OR (ucast ?x AND 0x3f) :: u32"
    have dr: "take (Suc l) (drop p b) = ?x # take l (drop (Suc p) b)"
      using True by (simp add: Cons_nth_drop_Suc [symmetric])
    have "(unat c + 1) * 64 \<le> (unat c + 1) * 64 ^ Suc l" by (rule mult_le_mono2) simp
    with Suc.prems(1) have "unat c < 2 ^ 26" by simp
    then have c: "unat ?c = unat c * 64 + unat ?x mod 64" by (rule shift_in_unat)
    have "(unat ?c + 1) \<le> (unat c + 1) * 64"
      unfolding c by (simp add: Suc_le_eq)
    then have "(unat ?c + 1) * 64 ^ l \<le> (unat c + 1) * 64 ^ Suc l"
      by (metis mult.assoc mult_le_mono1 power_Suc)
    with Suc.prems(1) have IH: "from_utf8_loop b (Suc p) l ?c = Some (Some (v, p')) \<longleftrightarrow>
        Suc p + l \<le> length b \<and> p' = Suc p + l \<and> list_all is_cont (take l (drop (Suc p) b)) \<and>
        unat v = cont_val (unat ?c) (take l (drop (Suc p) b))"
      using True by (intro Suc.IH) simp_all
    show ?thesis
      using True IH by (auto simp: dr cont_val_def c is_cont_def [of ?x] word_less_unat word_le_unat)
  qed
qed

lemma utf8_extra_len_cases:
  "utf8_extra_len x = Some l \<longleftrightarrow>
     l = 1 \<and> 0xc0 \<le> unat x \<and> unat x \<le> 0xdf \<or> l = 2 \<and> 0xe0 \<le> unat x \<and> unat x \<le> 0xef \<or>
     l = 3 \<and> 0xf0 \<le> unat x \<and> unat x \<le> 0xf7 \<or> l = 4 \<and> 0xf8 \<le> unat x \<and> unat x \<le> 0xfb \<or>
     l = 5 \<and> 0xfc \<le> unat x \<and> unat x \<le> 0xfd"
  by (auto simp: utf8_extra_len_def word_le_unat)

text \<open>The data part of the first byte, for each number of continuation bytes.\<close>

definition lead_bits :: "nat \<Rightarrow> nat" where
  "lead_bits l = [32, 16, 8, 4, 2] ! (l - 1)"

definition lead_base :: "nat \<Rightarrow> nat" where
  "lead_base l = [0xc0, 0xe0, 0xf0, 0xf8, 0xfc] ! (l - 1)"

lemma first_code_mask:
  assumes "1 \<le> l" and "l \<le> 5"
  shows "unat (ucast (x :: u8) AND utf8_first_code_mask ! (l - 1)) = unat x mod lead_bits l"
proof -
  have "l \<in> {1, 2, 3, 4, 5}" using assms by auto
  then show ?thesis
    by (auto simp: utf8_first_code_mask_def lead_bits_def unat_and_mask_numeral unat_ucast_up)
qed

lemma lead_room: "1 \<le> l \<Longrightarrow> l \<le> 5 \<Longrightarrow> lead_bits l * 64 ^ l \<le> 2 ^ 31"
proof -
  assume "1 \<le> l" and "l \<le> 5"
  then have "l \<in> {1, 2, 3, 4, 5}" by auto
  then show ?thesis by (auto simp: lead_bits_def)
qed

text \<open>Number of continuation bytes of a code point, and the bytes themselves.\<close>

definition utf8_class :: "nat \<Rightarrow> nat" where
  "utf8_class v = (if v < 0x800 then 1 else if v < 0x10000 then 2 else if v < 0x200000 then 3
     else if v < 0x4000000 then 4 else 5)"

fun conts :: "nat \<Rightarrow> nat \<Rightarrow> nat list" where
  "conts 0 v = []"
| "conts (Suc l) v = conts l (v div 64) @ [0x80 + v mod 64]"

lemma length_conts [simp]: "length (conts l v) = l"
  by (induction l arbitrary: v) auto

lemma conts_range: "n \<in> set (conts l v) \<Longrightarrow> 0x80 \<le> n \<and> n < 0xc0"
  by (induction l arbitrary: v) auto

lemma cont_val_snoc: "cont_val c (xs @ [x]) = cont_val c xs * 64 + unat x mod 64"
  by (simp add: cont_val_def)

lemma mod_shift_128: "(0x80 + v mod 64) mod 64 = v mod (64 :: nat)"
  by (metis add.commute mod_add_left_eq mod_mult_self1 mult_2 numeral_Bit0)

lemma cont_byte: "0x80 \<le> n \<Longrightarrow> n < 0xc0 \<Longrightarrow> 0x80 + n mod 64 = (n :: nat)"
  by (simp add: le_mod_geq)

lemma cont_val_conts:
  "map unat xs = conts l v \<Longrightarrow> cont_val c xs = c * 64 ^ l + v mod 64 ^ l"
proof (induction l arbitrary: v xs)
  case 0
  then show ?case by (simp add: cont_val_def)
next
  case (Suc l)
  then obtain ys y where xs: "xs = ys @ [y]" and ys: "map unat ys = conts l (v div 64)"
    and y: "unat y = 0x80 + v mod 64"
    by (auto simp: map_eq_append_conv)
  have "v mod 64 ^ Suc l = 64 * (v div 64 mod 64 ^ l) + v mod 64"
    by (simp add: mod_mult2_eq)
  moreover have "unat y mod 64 = v mod 64"
    unfolding y by (rule mod_shift_128)
  ultimately show ?case
    using Suc.IH [OF ys] by (simp add: xs cont_val_snoc algebra_simps)
qed

lemma conts_cont_val:
  "list_all is_cont xs \<Longrightarrow>
     conts (length xs) (cont_val c xs) = map unat xs \<and> cont_val c xs div 64 ^ length xs = c"
proof (induction xs rule: rev_induct)
  case Nil
  then show ?case by (simp add: cont_val_def)
next
  case (snoc x xs)
  then have x: "is_cont x" and IH: "conts (length xs) (cont_val c xs) = map unat xs"
    "cont_val c xs div 64 ^ length xs = c"
    by auto
  let ?w = "cont_val c xs * 64 + unat x mod 64"
  have w: "?w div 64 = cont_val c xs" "?w mod 64 = unat x mod 64" by simp_all
  have "?w div 64 ^ Suc (length xs) = ?w div 64 div 64 ^ length xs"
    by (simp add: div_mult2_eq)
  also have "\<dots> = c" unfolding w by (rule IH(2))
  finally have "?w div 64 ^ Suc (length xs) = c" .
  moreover from x have "0x80 + unat x mod 64 = unat x"
    unfolding is_cont_def by (intro cont_byte) auto
  ultimately show ?case
    using IH(1) by (simp only: cont_val_snoc length_append_singleton conts.simps w map_append list.map)
qed

lemma conts_unfold:
  "conts 1 v = [0x80 + v mod 64]"
  "conts 2 v = [0x80 + v div 64 mod 64, 0x80 + v mod 64]"
  "conts 3 v = [0x80 + v div 64 ^ 2 mod 64, 0x80 + v div 64 mod 64, 0x80 + v mod 64]"
  "conts 4 v = [0x80 + v div 64 ^ 3 mod 64, 0x80 + v div 64 ^ 2 mod 64, 0x80 + v div 64 mod 64,
     0x80 + v mod 64]"
  "conts 5 v = [0x80 + v div 64 ^ 4 mod 64, 0x80 + v div 64 ^ 3 mod 64, 0x80 + v div 64 ^ 2 mod 64,
     0x80 + v div 64 mod 64, 0x80 + v mod 64]"
proof -
  have n: "(1::nat) = Suc 0" "(2::nat) = Suc (Suc 0)" "(3::nat) = Suc (Suc (Suc 0))"
    "(4::nat) = Suc (Suc (Suc (Suc 0)))" "(5::nat) = Suc (Suc (Suc (Suc (Suc 0))))"
    by simp_all
  show "conts 1 v = [0x80 + v mod 64]" by (subst n) simp
  show "conts 2 v = [0x80 + v div 64 mod 64, 0x80 + v mod 64]" by (subst n(2)) simp
  show "conts 3 v = [0x80 + v div 64 ^ 2 mod 64, 0x80 + v div 64 mod 64, 0x80 + v mod 64]"
    by (subst n(3)) (simp flip: div_mult2_eq)
  show "conts 4 v = [0x80 + v div 64 ^ 3 mod 64, 0x80 + v div 64 ^ 2 mod 64, 0x80 + v div 64 mod 64,
     0x80 + v mod 64]"
    by (subst n(4)) (simp flip: div_mult2_eq)
  show "conts 5 v = [0x80 + v div 64 ^ 4 mod 64, 0x80 + v div 64 ^ 3 mod 64,
     0x80 + v div 64 ^ 2 mod 64, 0x80 + v div 64 mod 64, 0x80 + v mod 64]"
    by (subst n(5)) (simp flip: div_mult2_eq)
qed

lemma utf8_nat_class:
  assumes "0x80 \<le> v" and "v < 2 ^ 31"
  shows "utf8_nat v = (lead_base (utf8_class v) + v div 64 ^ utf8_class v) # conts (utf8_class v) v"
  using assms
  by (simp add: utf8_nat_def utf8_class_def lead_base_def conts_unfold)

lemma class_range:
  assumes "0x80 \<le> v" and "v < 2 ^ 31"
  shows "v div 64 ^ utf8_class v < lead_bits (utf8_class v)" "1 \<le> utf8_class v" "utf8_class v \<le> 5"
    "unat (utf8_min_code ! (utf8_class v - 1)) \<le> v"
  using assms by (auto simp: utf8_class_def lead_bits_def utf8_min_code_def div_less_iff_less_mult)

lemma class_unique:
  assumes "1 \<le> l" and "l \<le> 5" and "unat (utf8_min_code ! (l - 1)) \<le> v" and "v < lead_bits l * 64 ^ l"
  shows "utf8_class v = l"
proof -
  have "l \<in> {1, 2, 3, 4, 5}" using assms(1,2) by auto
  then show ?thesis
    using assms(3,4) by (auto simp: utf8_class_def lead_bits_def utf8_min_code_def)
qed

lemma min_code_ge: "1 \<le> l \<Longrightarrow> l \<le> 5 \<Longrightarrow> 0x80 \<le> unat (utf8_min_code ! (l - 1))"
proof -
  assume "1 \<le> l" and "l \<le> 5"
  then have "l \<in> {1, 2, 3, 4, 5}" by auto
  then show ?thesis by (elim insertE emptyE) (simp_all add: utf8_min_code_def)
qed

lemma lead_byte:
  assumes "utf8_extra_len x = Some l"
  shows "1 \<le> l" "l \<le> 5" "unat x = lead_base l + unat x mod lead_bits l"
  using assms by (auto simp: utf8_extra_len_cases lead_base_def lead_bits_def le_mod_geq)

lemma lead_byte_of:
  assumes "1 \<le> l" and "l \<le> 5" and "unat x = lead_base l + a" and "a < lead_bits l"
  shows "utf8_extra_len x = Some l" "unat x mod lead_bits l = a"
proof -
  have "l \<in> {1, 2, 3, 4, 5}" using assms(1,2) by auto
  then have "lead_base l mod lead_bits l = 0"
    and r: "lead_base l + lead_bits l = [0xe0, 0xf0, 0xf8, 0xfc, 0xfe] ! (l - 1)"
    by (auto simp: lead_base_def lead_bits_def)
  then show "unat x mod lead_bits l = a"
    using assms(3,4) by (simp add: mod_add_left_eq [of "lead_base l", symmetric])
  have "unat x < [0xe0, 0xf0, 0xf8, 0xfc, 0xfe] ! (l - 1)" "lead_base l \<le> unat x"
    using assms(3,4) r by simp_all
  with \<open>l \<in> {1, 2, 3, 4, 5}\<close> show "utf8_extra_len x = Some l"
    unfolding utf8_extra_len_cases by (elim insertE emptyE) (simp_all add: lead_base_def)
qed

lemma unicode_to_utf8_class:
  assumes "0x80 \<le> unat v" and "unat v < 2 ^ 31"
  shows "unicode_to_utf8 v = xs \<longleftrightarrow>
    map unat xs = (lead_base (utf8_class (unat v)) + unat v div 64 ^ utf8_class (unat v)) #
      conts (utf8_class (unat v)) (unat v)"
  by (metis map_unat_eq_iff unicode_to_utf8_nat utf8_nat_class [OF assms])

lemma decode_long:
  assumes l: "utf8_extra_len (b ! p) = Some l" and p: "p < length b" and m: "int l \<le> max_len - 1"
  shows "unicode_from_utf8 b p max_len = Some (Some (v, p')) \<longleftrightarrow>
    p' = p + 1 + l \<and> p' \<le> length b \<and> list_all is_cont (take l (drop (p + 1) b)) \<and>
    unat v = cont_val (unat (b ! p) mod lead_bits l) (take l (drop (p + 1) b)) \<and>
    unat (utf8_min_code ! (l - 1)) \<le> unat v"
proof -
  note lb = lead_byte [OF l]
  let ?c = "ucast (b ! p) AND utf8_first_code_mask ! (l - 1) :: u32"
  have c: "unat ?c = unat (b ! p) mod lead_bits l"
    by (rule first_code_mask [OF lb(1,2)])
  have nb: "\<not> b ! p < 0x80"
    using l by (auto simp: utf8_extra_len_cases word_less_unat)
  have "0 < lead_bits l" using lb(1,2) by (auto simp: lead_bits_def nth_Cons split: nat.splits)
  then have "unat ?c + 1 \<le> lead_bits l" unfolding c by (simp add: Suc_le_eq)
  then have "(unat ?c + 1) * 64 ^ l \<le> lead_bits l * 64 ^ l" by (rule mult_le_mono1)
  then have "(unat ?c + 1) * 64 ^ l \<le> 2 ^ 32" using lead_room [OF lb(1,2)] by simp
  from from_utf8_loop_iff [OF this, of "p + 1" b]
  have loop: "from_utf8_loop b (p + 1) l ?c = Some (Some (v, p')) \<longleftrightarrow>
      p + 1 + l \<le> length b \<and> p' = p + 1 + l \<and> list_all is_cont (take l (drop (p + 1) b)) \<and>
      unat v = cont_val (unat ?c) (take l (drop (p + 1) b))" for v p'
    using p by simp
  have "unicode_from_utf8 b p max_len = Some (Some (v, p')) \<longleftrightarrow>
      from_utf8_loop b (p + 1) l ?c = Some (Some (v, p')) \<and> \<not> v < utf8_min_code ! (l - 1)"
    using p nb m l by (auto simp: unicode_from_utf8_def bind_Some_iff split: option.splits if_splits)
  then show ?thesis
    unfolding loop c by (auto simp: word_less_unat)
qed

lemma decode_ascii:
  assumes "p < length b" and "b ! p < 0x80"
  shows "unicode_from_utf8 b p max_len = Some (Some (ucast (b ! p), p + 1))"
  using assms by (simp add: unicode_from_utf8_def)

lemma ucast_byte: "ucast (ucast (x :: u8) :: u32) = x"
  by (rule bit_word_eqI) (simp add: bit_simps)

lemma encode_ascii: "unat v < 0x80 \<Longrightarrow> unicode_to_utf8 v = [ucast v]"
  by (simp add: unicode_to_utf8_def word_less_unat)

text \<open>A successful decoding consumes an encoding of its result.\<close>

lemma decode_sound:
  assumes "unicode_from_utf8 b p max_len = Some (Some (v, p'))"
  shows "unicode_to_utf8 v \<noteq> [] \<and> p' = p + length (unicode_to_utf8 v) \<and>
    slice b p (length (unicode_to_utf8 v)) = Some (unicode_to_utf8 v) \<and>
    (length (unicode_to_utf8 v) = 1 \<or> int (length (unicode_to_utf8 v)) \<le> max_len)"
proof -
  from assms have p: "p < length b"
    by (auto simp: unicode_from_utf8_def rd_def split: if_splits)
  show ?thesis
  proof (cases "b ! p < 0x80")
    case True
    then have "v = ucast (b ! p)" "p' = p + 1" using assms decode_ascii [OF p] by auto
    moreover have "unat (ucast (b ! p) :: u32) = unat (b ! p)" by (simp add: unat_ucast_up)
    ultimately have "unicode_to_utf8 v = [b ! p]"
      using True by (simp add: encode_ascii word_less_unat ucast_byte)
    then show ?thesis
      using p \<open>p' = p + 1\<close> by (simp add: slice_def take_Suc hd_drop_conv_nth)
  next
    case False
    then obtain l where l: "utf8_extra_len (b ! p) = Some l" and m: "int l \<le> max_len - 1"
      using assms p by (auto simp: unicode_from_utf8_def split: option.splits if_splits)
    note lb = lead_byte [OF l]
    let ?a = "unat (b ! p) mod lead_bits l" and ?xs = "take l (drop (p + 1) b)"
    from assms decode_long [OF l p m] have d: "p' = p + 1 + l" "p' \<le> length b"
      "list_all is_cont ?xs" "unat v = cont_val ?a ?xs" "unat (utf8_min_code ! (l - 1)) \<le> unat v"
      by auto
    have len: "length ?xs = l" using d(1,2) by simp
    have a: "?a < lead_bits l"
      using lb(1,2) by (intro mod_less_divisor) (auto simp: lead_bits_def nth_Cons split: nat.splits)
    have vlt: "unat v < lead_bits l * 64 ^ l"
      using cont_val_less [OF a, of ?xs] d(4) len by simp
    have cls: "utf8_class (unat v) = l" by (rule class_unique [OF lb(1,2) d(5) vlt])
    have min: "0x80 \<le> unat v"
      using d(5) min_code_ge [OF lb(1,2)] by linarith
    have "unicode_to_utf8 v = b ! p # ?xs"
      unfolding unicode_to_utf8_class [OF min order.strict_trans2 [OF vlt lead_room [OF lb(1,2)]]] cls
      using conts_cont_val [OF d(3), of ?a] len d(4) lb(3) by simp
    moreover have "take (Suc l) (drop p b) = b ! p # ?xs"
      using p by (simp add: Cons_nth_drop_Suc [symmetric])
    ultimately show ?thesis
      using d(1,2) len m by (simp add: slice_def)
  qed
qed

text \<open>Every encoding is decoded, wherever it stands in the block.\<close>

lemma decode_complete:
  assumes ne: "unicode_to_utf8 v \<noteq> []"
    and sl: "slice b p (length (unicode_to_utf8 v)) = Some (unicode_to_utf8 v)"
    and ml: "length (unicode_to_utf8 v) = 1 \<or> int (length (unicode_to_utf8 v)) \<le> max_len"
  shows "unicode_from_utf8 b p max_len = Some (Some (v, p + length (unicode_to_utf8 v)))"
proof (cases "unat v < 0x80")
  case True
  with sl have p: "p < length b" "b ! p = ucast v"
    by (auto simp: encode_ascii slice_Some_iff take_Suc hd_drop_conv_nth)
  have "unat (ucast v :: u8) = unat v" using True by (simp add: unat_ucast_small)
  then have "b ! p < 0x80" "ucast (b ! p) = v"
    using True p(2) by (simp_all add: word_less_unat flip: unat_eq_iff) (simp add: unat_ucast_up)
  then show ?thesis using p True by (simp add: decode_ascii encode_ascii)
next
  case False
  have "unat v < 2 ^ 31"
    using ne by (auto simp: unicode_to_utf8_def word_less_unat split: if_splits)
  note r = False [unfolded not_less] this
  let ?l = "utf8_class (unat v)"
  obtain x xs where enc: "unicode_to_utf8 v = x # xs" and x: "unat x = lead_base ?l + unat v div 64 ^ ?l"
    and xs: "map unat xs = conts ?l (unat v)"
    using unicode_to_utf8_class [OF r, of "unicode_to_utf8 v"] by auto
  have len: "length xs = ?l" using arg_cong [OF xs, of length] by simp
  note cl = class_range [OF r]
  note lead = lead_byte_of [OF cl(2,3) x cl(1)]
  from sl have sl': "p + Suc ?l \<le> length b" "take (Suc ?l) (drop p b) = x # xs"
    by (auto simp: slice_Some_iff enc len)
  then have p: "p < length b" by simp
  have bx: "b ! p = x" "take ?l (drop (p + 1) b) = xs"
    using sl'(2) p by (auto simp: Cons_nth_drop_Suc [symmetric])
  have cont: "list_all is_cont xs"
    unfolding list_all_iff is_cont_def
  proof
    fix y assume "y \<in> set xs"
    then have "unat y \<in> set (conts ?l (unat v))" by (simp flip: xs)
    then show "0x80 \<le> unat y \<and> unat y < 0xc0" by (rule conts_range)
  qed
  have val: "cont_val (unat v div 64 ^ ?l) xs = unat v"
    by (simp only: cont_val_conts [OF xs] div_mult_mod_eq)
  have ml': "int ?l \<le> max_len - 1" using ml cl(2) by (simp add: enc len)
  show ?thesis
    using decode_long [of b p ?l max_len v "p + 1 + ?l"] lead p ml' sl'(1) bx cont val cl(4)
    by (simp add: enc len)
qed

text \<open>
  C18. The UTF-8 decoder accepts exactly the encodings the encoder produces: decoding at index p
  returns code point v and stops at p' if and only if the bytes from p to p' are the (non-empty) encoding
  of v and they fit in max_len (a single byte is not checked against max_len). Both round trips,
  the rejection of overlong forms and the absence of any other result follow.
\<close>

theorem utf8_codec:
  "unicode_from_utf8 b p max_len = Some (Some (v, p')) \<longleftrightarrow>
     unicode_to_utf8 v \<noteq> [] \<and> p' = p + length (unicode_to_utf8 v) \<and>
     slice b p (length (unicode_to_utf8 v)) = Some (unicode_to_utf8 v) \<and>
     (length (unicode_to_utf8 v) = 1 \<or> int (length (unicode_to_utf8 v)) \<le> max_len)"
  using decode_sound decode_complete by metis

end
