(* ===== verification/CaseConv.thy ===== *)
theory CaseConv
  imports UnicodeTables
begin

text \<open>
  Case conversion of \<^verbatim>\<open>libunicode.c\<close>. The runs of \<open>case_conv_table1\<close> are found by a binary search, which the source repeats
  in \<open>lre_case_conv\<close>, \<open>lre_is_cased\<close> and \<open>unicode_decomp_char\<close>: it is \<open>run_search\<close> here, with the width of
  the code field as an argument. The locale \<open>run_table\<close> states what the search relies on (runs in ascending order
  that do not overlap) and proves it correct; it is interpreted on the table itself, checked entry by entry.
\<close>

section \<open>Runs\<close>

definition run_code :: "nat \<Rightarrow> u32 \<Rightarrow> u32" where
  "run_code k v = drop_bit (32 - k) v"

definition run_len :: "nat \<Rightarrow> u32 \<Rightarrow> u32" where
  "run_len k v = drop_bit (32 - k - 7) v AND 0x7f"

function run_search :: "nat \<Rightarrow> u32 list \<Rightarrow> u32 \<Rightarrow> int \<Rightarrow> int \<Rightarrow> nat option option" where
  "run_search k tab c idx_min idx_max =
     (if idx_min \<le> idx_max then
        let idx = (idx_max + idx_min) div 2 in
        if idx < 0 then None
        else case rd tab (nat idx) of
          None \<Rightarrow> None
        | Some v \<Rightarrow>
            if c < run_code k v then run_search k tab c idx_min (idx - 1)
            else if c \<ge> run_code k v + run_len k v then run_search k tab c (idx + 1) idx_max
            else Some (Some (nat idx))
      else Some None)"
  by pat_completeness auto
termination by (relation "measure (\<lambda>(k, tab, c, lo, hi). nat (hi - lo + 1))") auto

declare run_search.simps [simp del]

section \<open>Conversion\<close>

abbreviation (input) "RUN_TYPE_U \<equiv> 0 :: u32"
abbreviation (input) "RUN_TYPE_L \<equiv> 1 :: u32"
abbreviation (input) "RUN_TYPE_UF \<equiv> 2 :: u32"
abbreviation (input) "RUN_TYPE_LF \<equiv> 3 :: u32"
abbreviation (input) "RUN_TYPE_UL \<equiv> 4 :: u32"
abbreviation (input) "RUN_TYPE_LSU \<equiv> 5 :: u32"
abbreviation (input) "RUN_TYPE_U2L_399_EXT2 \<equiv> 6 :: u32"
abbreviation (input) "RUN_TYPE_UF_D20 \<equiv> 7 :: u32"
abbreviation (input) "RUN_TYPE_UF_D1_EXT \<equiv> 8 :: u32"
abbreviation (input) "RUN_TYPE_U_EXT \<equiv> 9 :: u32"
abbreviation (input) "RUN_TYPE_LF_EXT \<equiv> 10 :: u32"
abbreviation (input) "RUN_TYPE_U_EXT2 \<equiv> 11 :: u32"
abbreviation (input) "RUN_TYPE_L_EXT2 \<equiv> 12 :: u32"
abbreviation (input) "RUN_TYPE_U_EXT3 \<equiv> 13 :: u32"

definition case_conv_type :: "u32 \<Rightarrow> u32" where
  "case_conv_type v = drop_bit (32 - 17 - 7 - 4) v AND 0xf"

definition run_data :: "u32 \<Rightarrow> u8 \<Rightarrow> u32" where
  "run_data v t2 = push_bit 8 (v AND 0xf) OR ucast t2"

definition case_ext :: "u32 \<Rightarrow> u32 option" where
  "case_ext i = map_option ucast (rd case_conv_ext (unat i))"

definition truth :: "bool \<Rightarrow> u32" where
  "truth b = (if b then 1 else 0)"

text \<open>
  The \<open>switch\<close> on the type of the run: the characters written to \<open>res\<close>, whose number is the result. \<open>conv_type\<close> is
  compared with unsigned numbers only and is one here.
\<close>

definition case_conv_run :: "u32 \<Rightarrow> u32 \<Rightarrow> nat \<Rightarrow> u32 \<Rightarrow> u32 list option" where
  "case_conv_run c conv_type idx v = do {
     t2 \<leftarrow> rd case_conv_table2 idx;
     let is_lower = truth (conv_type \<noteq> 0);
     let code = run_code 17 v;
     let type = case_conv_type v;
     let data = run_data v t2;
     if type = RUN_TYPE_U \<or> type = RUN_TYPE_L \<or> type = RUN_TYPE_UF \<or> type = RUN_TYPE_LF then
       if conv_type = type AND 1 \<or> (type \<ge> RUN_TYPE_UF \<and> conv_type = 2) then do {
         w \<leftarrow> rd case_conv_table1 (unat data);
         Some [c - code + run_code 17 w] }
       else Some [c]
     else if type = RUN_TYPE_UL then
       let a = c - code in
       if a AND 1 \<noteq> 1 - is_lower then Some [c] else Some [(a XOR 1) + code]
     else if type = RUN_TYPE_LSU then
       let a = c - code in
       if a = 1 then Some [c + (2 * is_lower - 1)]
       else if a = (1 - is_lower) * 2 then Some [c + (2 * is_lower - 1) * 2]
       else Some [c]
     else if type = RUN_TYPE_U2L_399_EXT2 then
       if is_lower = 0 then do { e \<leftarrow> case_ext (drop_bit 6 data); Some [c - code + e, 0x399] }
       else do { e \<leftarrow> case_ext (data AND 0x3f); Some [c - code + e] }
     else if type = RUN_TYPE_UF_D20 then
       if conv_type = 1 then Some [c] else Some [data + truth (conv_type = 2) * 0x20]
     else if type = RUN_TYPE_UF_D1_EXT then
       if conv_type = 1 then Some [c]
       else do { e \<leftarrow> case_ext data; Some [e + truth (conv_type = 2)] }
     else if type = RUN_TYPE_U_EXT \<or> type = RUN_TYPE_LF_EXT then
       if is_lower \<noteq> type - RUN_TYPE_U_EXT then Some [c] else do { e \<leftarrow> case_ext data; Some [e] }
     else if type = RUN_TYPE_U_EXT2 \<or> type = RUN_TYPE_L_EXT2 then
       if conv_type \<noteq> type - RUN_TYPE_U_EXT2 then Some [c]
       else do {
         e \<leftarrow> case_ext (drop_bit 6 data); f \<leftarrow> case_ext (data AND 0x3f); Some [c - code + e, f] }
     else
       if conv_type \<noteq> 0 then Some [c]
       else do {
         e \<leftarrow> case_ext (drop_bit 8 data); f \<leftarrow> case_ext (drop_bit 4 data AND 0xf); g \<leftarrow> case_ext (data AND 0xf);
         Some [e, f, g] } }"

definition lre_case_conv :: "u32 \<Rightarrow> u32 \<Rightarrow> u32 list option" where
  "lre_case_conv c conv_type =
     (if c < 128 then
        if conv_type \<noteq> 0 then
          if c \<ge> 0x41 \<and> c \<le> 0x5A then Some [c - 0x41 + 0x61] else Some [c]
        else
          if c \<ge> 0x61 \<and> c \<le> 0x7A then Some [c - 0x61 + 0x41] else Some [c]
      else do {
        hit \<leftarrow> run_search 17 case_conv_table1 c 0 (int (length case_conv_table1) - 1);
        case hit of
          None \<Rightarrow> Some [c]
        | Some idx \<Rightarrow> do { v \<leftarrow> rd case_conv_table1 idx; case_conv_run c conv_type idx v } })"

section \<open>The search\<close>

definition run_end :: "nat \<Rightarrow> u32 \<Rightarrow> u32" where
  "run_end k v = run_code k v + run_len k v"

definition in_run :: "nat \<Rightarrow> u32 \<Rightarrow> u32 \<Rightarrow> bool" where
  "in_run k c v \<longleftrightarrow> run_code k v \<le> c \<and> c < run_end k v"

locale run_table =
  fixes k :: nat and tab :: "u32 list"
  assumes runs_ascending:
    "i < j \<Longrightarrow> j < length tab \<Longrightarrow> run_end k (tab ! i) \<le> run_code k (tab ! j)"
  and run_no_wrap: "i < length tab \<Longrightarrow> run_code k (tab ! i) \<le> run_end k (tab ! i)"
begin

lemma below_run:
  assumes "c < run_code k (tab ! i)" and "i \<le> j" and "j < length tab"
  shows "\<not> in_run k c (tab ! j)"
proof (cases "i = j")
  case False
  then have "run_end k (tab ! i) \<le> run_code k (tab ! j)"
    using assms runs_ascending by simp
  moreover have "run_code k (tab ! i) \<le> run_end k (tab ! i)"
    using assms run_no_wrap by simp
  ultimately show ?thesis
    using assms(1) unfolding in_run_def by (meson leD le_less_trans order.trans)
qed (use assms in \<open>auto simp: in_run_def\<close>)

lemma above_run:
  assumes "run_end k (tab ! i) \<le> c" and "j \<le> i" and "i < length tab"
  shows "\<not> in_run k c (tab ! j)"
proof (cases "i = j")
  case False
  then have "run_end k (tab ! j) \<le> run_code k (tab ! i)"
    using assms runs_ascending by simp
  moreover have "run_code k (tab ! i) \<le> run_end k (tab ! i)"
    using assms run_no_wrap by simp
  ultimately show ?thesis
    using assms(1) unfolding in_run_def by (meson leD le_less_trans order.trans)
qed (use assms in \<open>simp add: in_run_def not_less\<close>)

lemma search_between:
  assumes "0 \<le> lo" and "hi < int (length tab)"
    and "\<And>j. j < length tab \<Longrightarrow> in_run k c (tab ! j) \<Longrightarrow> lo \<le> int j \<and> int j \<le> hi"
  shows "(\<exists>i < length tab. in_run k c (tab ! i) \<and> run_search k tab c lo hi = Some (Some i)) \<or>
         (\<forall>v \<in> set tab. \<not> in_run k c v) \<and> run_search k tab c lo hi = Some None"
  using assms
proof (induction "nat (hi - lo + 1)" arbitrary: lo hi rule: less_induct)
  case less
  show ?case
  proof (cases "lo \<le> hi")
    case False
    then have "\<not> in_run k c v" if "v \<in> set tab" for v
      using that less.prems(3) by (force simp: in_set_conv_nth)
    with False show ?thesis by (simp add: run_search.simps [of k tab c lo hi])
  next
    case True
    define m where "m = nat ((hi + lo) div 2)"
    have m: "int m = (hi + lo) div 2" "lo \<le> int m" "int m \<le> hi" "m < length tab"
      using True less.prems by (auto simp: m_def)
    have step: "run_search k tab c lo hi =
      (if c < run_code k (tab ! m) then run_search k tab c lo (int m - 1)
       else if c \<ge> run_end k (tab ! m) then run_search k tab c (int m + 1) hi
       else Some (Some m))"
      using True m less.prems(1) by (simp add: run_search.simps [of k tab c lo hi] Let_def run_end_def
          flip: m(1))
    consider "c < run_code k (tab ! m)" | "\<not> c < run_code k (tab ! m)" "run_end k (tab ! m) \<le> c"
      | "in_run k c (tab ! m)" unfolding in_run_def by (meson not_le)
    then show ?thesis
    proof cases
      case 1
      have "int j \<le> int m - 1" if "j < length tab" "in_run k c (tab ! j)" for j
        using below_run [OF 1, of j] that by fastforce
      then show ?thesis
        using less.hyps [of "int m - 1" lo] less.prems m 1 unfolding step by auto
    next
      case 2
      have "int m + 1 \<le> int j" if "j < length tab" "in_run k c (tab ! j)" for j
        using above_run [OF 2(2), of j] that m by fastforce
      then show ?thesis
        using less.hyps [of hi "int m + 1"] less.prems m 2 unfolding step by auto
    next
      case 3
      then show ?thesis using m unfolding step by (auto simp: in_run_def)
    qed
  qed
qed

lemma search_correct:
  "(\<exists>i < length tab. in_run k c (tab ! i) \<and> run_search k tab c 0 (int (length tab) - 1) = Some (Some i)) \<or>
   (\<forall>v \<in> set tab. \<not> in_run k c v) \<and> run_search k tab c 0 (int (length tab) - 1) = Some None"
  by (rule search_between) auto

lemma run_unique:
  assumes "in_run k c (tab ! i)" "in_run k c (tab ! j)" "i < length tab" "j < length tab"
  shows "i = j"
proof (rule ccontr)
  assume "i \<noteq> j"
  then consider "i < j" | "j < i" by linarith
  then show False
    using assms below_run [of c j] above_run [of i c j] above_run [of j c i]
      runs_ascending [of i j] runs_ascending [of j i]
    unfolding in_run_def by cases (meson leD le_less_trans order.trans)+
qed

end

text \<open>
  The laws are computed on the integer literals of a table: \<open>cdiv\<close> and \<open>ldiv\<close> are the powers of two
  that bring the code and the length of a run to bit 0.
\<close>

definition runs_ok :: "int \<Rightarrow> int \<Rightarrow> int list \<Rightarrow> bool" where
  "runs_ok cdiv ldiv ns \<longleftrightarrow>
     list_all (\<lambda>n. 0 \<le> n \<and> n < 0x100000000) ns \<and>
     successively (\<lambda>v w. v div cdiv + v div ldiv mod 128 \<le> w div cdiv) ns"

lemma uint_drop_of_int:
  assumes "0 \<le> n" and "n < 2 ^ LENGTH('a)"
  shows "uint (drop_bit j (word_of_int n :: 'a::len word)) = n div 2 ^ j"
  using assms by (simp add: uint_drop_bit uint_of_int_small)

lemma uint_run_code:
  assumes "0 \<le> n" and "n < 0x100000000" and "k \<le> 25"
  shows "uint (run_code k (word_of_int n)) = n div 2 ^ (32 - k)"
  using assms uint_drop_of_int [of n "32 - k", where 'a = 32] by (simp add: run_code_def)

lemma uint_run_len:
  assumes "0 \<le> n" and "n < 0x100000000" and "k \<le> 25"
  shows "uint (run_len k (word_of_int n)) = n div 2 ^ (25 - k) mod 128"
proof -
  have "uint (x AND 0x7f :: u32) = uint x mod 128" for x
    using uint_and_mask [of x 7] by (simp add: mask_eq_decr_exp)
  then show ?thesis
    using assms uint_drop_of_int [of n "25 - k", where 'a = 32] by (simp add: run_len_def)
qed

lemma uint_run_end:
  assumes "0 \<le> n" and "n < 0x100000000" and "k \<le> 25"
  shows "uint (run_end k (word_of_int n)) = n div 2 ^ (32 - k) + n div 2 ^ (25 - k) mod 128"
proof -
  have "n div 2 ^ (32 - k) \<le> n div 2 ^ 7"
    using assms power_increasing [of 7 "32 - k" "2 :: int"] by (intro zdiv_mono2) auto
  then have "n div 2 ^ (32 - k) + n div 2 ^ (25 - k) mod 128 < 2 ^ 32"
    using assms by (auto intro: order.strict_trans1 [where b = "0x100000000 div 2 ^ 7 + 127"])
  then show ?thesis
    using assms by (simp add: run_end_def uint_word_ariths uint_run_code uint_run_len
        mod_pos_pos_trivial pos_imp_zdiv_nonneg_iff)
qed

lemma run_table_check:
  assumes "runs_ok (2 ^ (32 - k)) (2 ^ (25 - k)) ns" and "k \<le> 25"
  shows "run_table k (map word_of_int ns)"
proof
  let ?P = "\<lambda>v w :: int. v div 2 ^ (32 - k) + v div 2 ^ (25 - k) mod 128 \<le> w div 2 ^ (32 - k)"
  have range: "0 \<le> ns ! i" "ns ! i < 0x100000000" if "i < length ns" for i
    using assms(1) that by (auto simp: runs_ok_def list_all_length)
  have "0 \<le> v div 2 ^ (25 - k) mod 128" for v :: int by simp
  then have "transp ?P" by (intro transpI) (smt (verit))
  then have sorted: "sorted_wrt ?P ns"
    using assms(1) by (simp add: runs_ok_def successively_conv_sorted_wrt)
  show "run_end k (map word_of_int ns ! i) \<le> run_code k (map word_of_int ns ! j)"
    if "i < j" "j < length (map word_of_int ns :: u32 list)" for i j
    using that sorted_wrt_nth_less [OF sorted that(1)] range assms(2)
    by (simp add: word_le_def uint_run_end uint_run_code)
  show "run_code k (map word_of_int ns ! i) \<le> run_end k (map word_of_int ns ! i)"
    if "i < length (map word_of_int ns :: u32 list)" for i
    using that range assms(2) by (simp add: word_le_def uint_run_end uint_run_code)
qed

interpretation case_runs: run_table 17 case_conv_table1
  unfolding case_conv_table1_def by (rule run_table_check) code_simp+

section \<open>The conversion never leaves the tables\<close>

lemma unat_run_data: "unat (run_data v t2) = unat v mod 16 * 256 + unat t2"
proof -
  have v: "unat (v AND 0xf) = unat v mod 16" by (rule unat_and_mask_numeral)
  have h: "unat (push_bit 8 (v AND 0xf)) = unat v mod 16 * 256"
    by (subst unat_push_bit) (auto simp: v intro: order.strict_trans1 [where b = "15 * 256"])
  have t: "unat (ucast t2 :: u32) = unat t2" by (simp add: unat_ucast_up)
  have "unat (ucast t2 OR push_bit 8 (v AND 0xf)) = unat t2 + unat v mod 16 * 256"
    using unat_or_disjoint [of "ucast t2" 8 "push_bit 8 (v AND 0xf)"] unsigned_less [of t2, where 'a = nat]
    unfolding h t by simp
  then show ?thesis by (simp add: run_data_def or.commute)
qed

definition entry_ok :: "int \<Rightarrow> int \<Rightarrow> bool" where
  "entry_ok n m \<longleftrightarrow>
     (let type = n div 16 mod 16; data = n mod 16 * 256 + m in
      0 \<le> n \<and> n < 0x100000000 \<and> 0 \<le> m \<and> m < 256 \<and>
      (type < 4 \<longrightarrow> data < 361) \<and>
      (type = 6 \<or> type = 11 \<or> type = 12 \<longrightarrow> data div 64 < 58 \<and> data mod 64 < 58) \<and>
      (type = 8 \<or> type = 9 \<or> type = 10 \<longrightarrow> data < 58))"

lemma case_conv_lengths [simp]:
  "length case_conv_table1 = 361" "length case_conv_table2 = 361" "length case_conv_ext = 58"
  by (simp_all add: case_conv_table1_def case_conv_table2_def case_conv_ext_def)

lemma case_ext_defined: "unat i < 58 \<Longrightarrow> \<exists>e. case_ext i = Some e"
  by (simp add: case_ext_def)

lemma unat_case_conv_type: "unat (case_conv_type v) = unat v div 16 mod 16"
  using unat_drop_bit [of 4 v] by (simp add: case_conv_type_def unat_and_mask_numeral)

lemma case_conv_data_ok:
  "\<exists>ns ms. case_conv_table1 = map word_of_int ns \<and> case_conv_table2 = map word_of_int ms \<and> list_all2 entry_ok ns ms"
  unfolding case_conv_table1_def case_conv_table2_def
  by (rule exI, rule exI, rule conjI [OF refl conjI [OF refl]]) code_simp

lemma case_conv_data:
  assumes "i < 361"
  defines "v \<equiv> case_conv_table1 ! i" and "t2 \<equiv> case_conv_table2 ! i"
  shows "(unat (case_conv_type v) < 4 \<longrightarrow> unat (run_data v t2) < 361) \<and>
      (unat (case_conv_type v) \<in> {6, 11, 12} \<longrightarrow>
         unat (run_data v t2) div 64 < 58 \<and> unat (run_data v t2) mod 64 < 58) \<and>
      (unat (case_conv_type v) \<in> {8, 9, 10} \<longrightarrow> unat (run_data v t2) < 58)"
proof -
  obtain ns ms where tabs: "case_conv_table1 = map word_of_int ns" "case_conv_table2 = map word_of_int ms"
    and ok: "list_all2 entry_ok ns ms"
    using case_conv_data_ok by blast
  have len: "i < length ns" "i < length ms"
    using assms(1) case_conv_lengths unfolding tabs by simp_all
  note nth = list_all2_nthD [OF ok len(1), unfolded entry_ok_def Let_def]
  have n: "ns ! i = int (unat v)" and m: "ms ! i = int (unat t2)"
    using nth len by (simp_all add: v_def t2_def tabs uint_of_int_small flip: uint_nat)
  define t d where "t = unat v div 16 mod 16" and "d = unat v mod 16 * 256 + unat t2"
  have conv: "int (unat v) div 16 mod 16 = int t" "int (unat v) mod 16 * 256 + int (unat t2) = int d"
    "int d div 64 = int (d div 64)" "int d mod 64 = int (d mod 64)"
    by (simp_all add: zdiv_int zmod_int t_def d_def)
  show ?thesis
    using nth unfolding n m conv unat_case_conv_type unat_run_data t_def [symmetric] d_def [symmetric]
    by auto
qed

definition conv_ok :: "u32 list option \<Rightarrow> bool" where
  "conv_ok r \<longleftrightarrow> (\<exists>res. r = Some res \<and> length res \<in> {1, 2, 3})"

lemma conv_ok_simps [simp]:
  "conv_ok (Some [x])" "conv_ok (Some [x, y])" "conv_ok (Some [x, y, z])"
  "conv_ok (if b then p else q) \<longleftrightarrow> (if b then conv_ok p else conv_ok q)"
  by (auto simp: conv_ok_def)

lemma case_conv_run_defined:
  assumes "i < 361"
  shows "conv_ok (case_conv_run c conv_type i (case_conv_table1 ! i))"
proof -
  define v where "v = case_conv_table1 ! i"
  define t2 where "t2 = case_conv_table2 ! i"
  define type where "type = case_conv_type v"
  define data where "data = run_data v t2"
  have t2: "rd case_conv_table2 i = Some t2" using assms by (simp add: t2_def)
  note bounds = case_conv_data [OF assms, folded v_def t2_def, folded type_def data_def]
  have "unat data < 4096"
    using unsigned_less [of t2, where 'a = nat] unfolding data_def unat_run_data by simp
  then have small: "unat (drop_bit 8 data) < 58" "unat (drop_bit 4 data AND 0xf) < 58"
    "unat (data AND 0xf) < 58"
    by (simp_all add: unat_drop_bit unat_and_mask_numeral less_imp_le)
  have pair: "unat (drop_bit 6 data) < 58" "unat (data AND 0x3f) < 58" if "type \<in> {6, 11, 12}"
    using bounds that by (auto simp: unat_drop_bit unat_and_mask_numeral)
  have one: "unat data < 58" if "type \<in> {8, 9, 10}" using bounds that by auto
  have tab: "unat data < 361" if "type \<in> {0, 1, 2, 3}" using bounds that by auto
  note unf = case_conv_run_def Let_def t2 type_def data_def
  consider "type \<in> {0, 1, 2, 3}" | "type \<in> {4, 5, 7}" | "type \<in> {6, 11, 12}" | "type \<in> {8, 9, 10}"
    | "type \<notin> {0, 1, 2, 3, 4, 5, 6, 7, 8, 9, 10, 11, 12}" by auto
  then have "conv_ok (case_conv_run c conv_type i v)"
  proof cases
    case 1
    with tab have hit: "rd case_conv_table1 (unat data) = Some (case_conv_table1 ! unat data)" by simp
    from 1 consider "type = 0" | "type = 1" | "type = 2" | "type = 3" by auto
    then show ?thesis using hit by cases (simp_all add: unf)
  next
    case 2
    then consider "type = 4" | "type = 5" | "type = 7" by auto
    then show ?thesis by cases (simp_all add: unf)
  next
    case 3
    obtain e f where hit: "case_ext (drop_bit 6 data) = Some e" "case_ext (data AND 0x3f) = Some f"
      using pair [OF 3, THEN case_ext_defined] by blast
    from 3 consider "type = 6" | "type = 11" | "type = 12" by auto
    then show ?thesis using hit by cases (simp_all add: unf)
  next
    case 4
    obtain e where hit: "case_ext data = Some e" using one [OF 4, THEN case_ext_defined] by blast
    from 4 consider "type = 8" | "type = 9" | "type = 10" by auto
    then show ?thesis using hit by cases (simp_all add: unf)
  next
    case 5
    obtain e f g where "case_ext (drop_bit 8 data) = Some e"
      "case_ext (drop_bit 4 data AND 0xf) = Some f" "case_ext (data AND 0xf) = Some g"
      using small [THEN case_ext_defined] by blast
    with 5 show ?thesis by (simp add: unf)
  qed
  then show ?thesis by (simp add: v_def)
qed

definition ascii_conv :: "u32 \<Rightarrow> u32 \<Rightarrow> u32" where
  "ascii_conv c conv_type =
     (if conv_type \<noteq> 0 then if 0x41 \<le> c \<and> c \<le> 0x5A then c + 0x20 else c
      else if 0x61 \<le> c \<and> c \<le> 0x7A then c - 0x20 else c)"

text \<open>The same conversion with the run found by going through the whole table.\<close>

definition case_conv_spec :: "u32 \<Rightarrow> u32 \<Rightarrow> u32 list option" where
  "case_conv_spec c conv_type =
     (if c < 128 then Some [ascii_conv c conv_type]
      else case filter (\<lambda>i. in_run 17 c (case_conv_table1 ! i)) [0..<361] of
        [] \<Rightarrow> Some [c]
      | i # _ \<Rightarrow> case_conv_run c conv_type i (case_conv_table1 ! i))"

lemma filter_single:
  assumes "i < n" and "P i" and "\<And>j. j < n \<Longrightarrow> P j \<Longrightarrow> j = i"
  shows "filter P [0..<n] = [i]"
proof -
  have "filter P [0..<n] = filter (\<lambda>j. j = i) [0..<n]"
    by (intro filter_cong refl) (metis assms(2,3) atLeastLessThan_iff set_upt)
  also have "\<dots> = [i]"
    using assms(1) by (induction n) (auto simp: less_Suc_eq filter_empty_conv)
  finally show ?thesis .
qed

lemma case_conv_search:
  assumes "\<not> c < 128"
  shows "lre_case_conv c conv_type = case_conv_spec c conv_type \<and> conv_ok (lre_case_conv c conv_type)"
proof -
  have len: "int (length case_conv_table1) - 1 = 360" by simp
  from case_runs.search_correct [of c, unfolded len] consider
    i where "i < 361" "in_run 17 c (case_conv_table1 ! i)" "run_search 17 case_conv_table1 c 0 360 = Some (Some i)"
    | "\<forall>v \<in> set case_conv_table1. \<not> in_run 17 c v" "run_search 17 case_conv_table1 c 0 360 = Some None"
    by auto
  then show ?thesis
  proof cases
    case 1
    have "filter (\<lambda>i. in_run 17 c (case_conv_table1 ! i)) [0..<361] = [i]"
      by (rule filter_single) (use 1 case_runs.run_unique in \<open>auto simp del: upt_rec_numeral\<close>)
    then show ?thesis
      using assms 1 case_conv_run_defined [of i c conv_type]
      by (simp add: lre_case_conv_def case_conv_spec_def del: upt_rec_numeral)
  next
    case 2
    have "filter (\<lambda>i. in_run 17 c (case_conv_table1 ! i)) [0..<361] = []"
      using 2(1) by (auto simp: filter_empty_conv all_set_conv_all_nth simp del: upt_rec_numeral)
    then show ?thesis
      using assms 2 by (simp add: lre_case_conv_def case_conv_spec_def del: upt_rec_numeral)
  qed
qed

text \<open>
  C27. Case conversion is defined for every code point and every conversion: the search never leaves
  \<open>case_conv_table1\<close>, the data of the run found never leaves the other tables, and one to three
  characters are written (\<open>LRE_CC_RES_LEN_MAX\<close>). The result is the one of the reference definition, which goes through the
  runs one by one, and the ASCII shortcut is the ASCII conversion.
\<close>

theorem lre_case_conv_correct:
  "lre_case_conv c conv_type = case_conv_spec c conv_type \<and>
   (\<exists>res. lre_case_conv c conv_type = Some res \<and> length res \<in> {1, 2, 3})"
proof (cases "c < 128")
  case True
  then show ?thesis
    by (simp add: lre_case_conv_def case_conv_spec_def ascii_conv_def)
next
  case False
  then show ?thesis using case_conv_search [OF False, of conv_type] unfolding conv_ok_def by blast
qed

end
