(* ===== verification/DynBuf.thy ===== *)
theory DynBuf
  imports Cutils
begin

text \<open>
  The dynamic buffer of \<^verbatim>\<open>cutils.c\<close> and \<^verbatim>\<open>cutils.h\<close>. The block \<open>db_buf\<close> holds all the allocated bytes, so
  its length is \<open>db_allocated_size\<close> whenever the invariant \<open>dbuf_ok\<close> holds; \<open>size_t\<close> arithmetic is written
  out modulo \<open>2 ^ 64\<close>. The allocator is the function the code is given: it sees its own state
  (\<open>db_opaque\<close>, here the number of calls made through this buffer), the old block and the
  requested size, and gives the new block or fails. What the code relies on is the contract of
  \<open>realloc\<close>, the locale \<open>realloc_contract\<close>.

  The result of an operation is \<open>None\<close> on an access outside the block, else the C result (0 or
  -1) with the new buffer. The second half proves the behaviour of every operation, and, in the
  locale \<open>error_buffer\<close>, the protocol the callers use: ignore the results and test the sticky error flag at the end.
\<close>

section \<open>State\<close>

type_synonym 'a realloc_fun = "nat \<Rightarrow> 'a list \<Rightarrow> nat \<Rightarrow> 'a list option"

record DynBuf =
  db_buf :: "u8 list"
  db_size :: nat
  db_allocated_size :: nat
  db_error :: bool
  db_realloc_func :: "u8 realloc_fun"
  db_opaque :: nat

definition size_t :: "nat \<Rightarrow> nat" where
  "size_t n = n mod 2 ^ 64"

lemma size_t_code [code]: "size_t n = nat (int n mod 18446744073709551616)"
  by (simp add: size_t_def nat_mod_distrib)

section \<open>Operations\<close>

text \<open>
  The default allocator is \<open>realloc\<close> of the C library, which fails for every request above \<open>PTRDIFF_MAX\<close> bytes (that it may fail for smaller ones
  is covered by the theorems, which hold for every allocator with the contract below); a fresh tail is unspecified in C, and zero here.
\<close>

definition PTRDIFF_MAX :: int where
  "PTRDIFF_MAX = 0x7fffffffffffffff"

definition dbuf_default_realloc :: "u8 realloc_fun" where
  "dbuf_default_realloc opq ptr sz =
     (if int sz \<le> PTRDIFF_MAX then Some (take sz ptr @ replicate (sz - length ptr) 0) else None)"

definition dbuf_init2 :: "nat \<Rightarrow> u8 realloc_fun option \<Rightarrow> DynBuf" where
  "dbuf_init2 opq realloc_func =
     \<lparr>db_buf = [], db_size = 0, db_allocated_size = 0, db_error = False,
      db_realloc_func = (case realloc_func of None \<Rightarrow> dbuf_default_realloc | Some f \<Rightarrow> f),
      db_opaque = opq\<rparr>"

definition dbuf_init :: DynBuf where
  "dbuf_init = dbuf_init2 0 None"

definition dbuf_realloc :: "DynBuf \<Rightarrow> nat \<Rightarrow> int \<times> DynBuf" where
  "dbuf_realloc s new_size =
     (if new_size > db_allocated_size s then
        if db_error s then (- 1, s)
        else
          let sz = size_t (db_allocated_size s * 3) div 2;
              new_size = (if sz > new_size then sz else new_size)
          in case db_realloc_func s (db_opaque s) (db_buf s) new_size of
               None \<Rightarrow> (- 1, s\<lparr>db_error := True, db_opaque := Suc (db_opaque s)\<rparr>)
             | Some new_buf \<Rightarrow>
                 (0, s\<lparr>db_buf := new_buf, db_allocated_size := new_size,
                       db_opaque := Suc (db_opaque s)\<rparr>)
      else (0, s))"

definition dbuf_write :: "DynBuf \<Rightarrow> nat \<Rightarrow> u8 list \<Rightarrow> (int \<times> DynBuf) option" where
  "dbuf_write s offset data =
     (let endp = size_t (offset + length data); (r, s) = dbuf_realloc s endp in
      if r \<noteq> 0 then Some (- 1, s)
      else do {
        b \<leftarrow> blit (db_buf s) offset data;
        Some (0, s\<lparr>db_buf := b, db_size := (if endp > db_size s then endp else db_size s)\<rparr>) })"

definition dbuf_put :: "DynBuf \<Rightarrow> u8 list \<Rightarrow> (int \<times> DynBuf) option" where
  "dbuf_put s data =
     (let need = size_t (db_size s + length data);
          (r, s) = (if need > db_allocated_size s then dbuf_realloc s need else (0, s)) in
      if r \<noteq> 0 then Some (- 1, s)
      else do {
        b \<leftarrow> blit (db_buf s) (db_size s) data;
        Some (0, s\<lparr>db_buf := b, db_size := size_t (db_size s + length data)\<rparr>) })"

text \<open>\<open>memcpy\<close> wants disjoint blocks: copying from beyond the written bytes is not defined.\<close>

definition dbuf_put_self :: "DynBuf \<Rightarrow> nat \<Rightarrow> nat \<Rightarrow> (int \<times> DynBuf) option" where
  "dbuf_put_self s offset len =
     (let need = size_t (db_size s + len);
          (r, s) = (if need > db_allocated_size s then dbuf_realloc s need else (0, s)) in
      if r \<noteq> 0 then Some (- 1, s)
      else if offset + len > db_size s then None
      else do {
        data \<leftarrow> slice (db_buf s) offset len;
        b \<leftarrow> blit (db_buf s) (db_size s) data;
        Some (0, s\<lparr>db_buf := b, db_size := size_t (db_size s + len)\<rparr>) })"

definition dbuf_putc :: "DynBuf \<Rightarrow> u8 \<Rightarrow> (int \<times> DynBuf) option" where
  "dbuf_putc s c = dbuf_put s [c]"

definition dbuf_putstr :: "DynBuf \<Rightarrow> u8 list \<Rightarrow> (int \<times> DynBuf) option" where
  "dbuf_putstr s str = do { len \<leftarrow> strlen str; dbuf_put s (take len str) }"

definition dbuf_put_u16 :: "DynBuf \<Rightarrow> u16 \<Rightarrow> (int \<times> DynBuf) option" where
  "dbuf_put_u16 s val = dbuf_put s (u16_bytes val)"

definition dbuf_put_u32 :: "DynBuf \<Rightarrow> u32 \<Rightarrow> (int \<times> DynBuf) option" where
  "dbuf_put_u32 s val = dbuf_put s (u32_bytes val)"

definition dbuf_put_u64 :: "DynBuf \<Rightarrow> u64 \<Rightarrow> (int \<times> DynBuf) option" where
  "dbuf_put_u64 s val = dbuf_put s (u64_bytes val)"

text \<open>
  \<open>out\<close> is the text \<open>vsnprintf\<close> formats; it writes at most the given size, the last byte being a
  zero, and returns the length of the whole text.
\<close>

definition vsnprintf_bytes :: "u8 list \<Rightarrow> nat \<Rightarrow> u8 list" where
  "vsnprintf_bytes out n = (if n = 0 then [] else take (n - 1) out @ [0])"

definition dbuf_printf :: "DynBuf \<Rightarrow> u8 list \<Rightarrow> (int \<times> DynBuf) option" where
  "dbuf_printf s out =
     (let len = length out in
      if len < 128 then dbuf_put s (take len (vsnprintf_bytes out 128))
      else
        let (r, s) = dbuf_realloc s (size_t (db_size s + len + 1)) in
        if r \<noteq> 0 then Some (- 1, s)
        else do {
          b \<leftarrow> blit (db_buf s) (db_size s) (vsnprintf_bytes out (db_allocated_size s - db_size s));
          Some (0, s\<lparr>db_buf := b, db_size := size_t (db_size s + len)\<rparr>) })"

definition dbuf_free :: "DynBuf \<Rightarrow> DynBuf" where
  "dbuf_free s =
     \<lparr>db_buf = [], db_size = 0, db_allocated_size = 0, db_error = False,
      db_realloc_func = (\<lambda>_ _ _. None), db_opaque = 0\<rparr>"

definition dbuf_error :: "DynBuf \<Rightarrow> bool" where
  "dbuf_error s = db_error s"

definition dbuf_set_error :: "DynBuf \<Rightarrow> DynBuf" where
  "dbuf_set_error s = s\<lparr>db_error := True\<rparr>"

text \<open>\<open>dbuf_insert\<close> of \<^verbatim>\<open>libregexp.c\<close>: open a gap of \<open>len\<close> bytes at \<open>pos\<close>, whose contents are what was there before.\<close>

definition dbuf_insert :: "DynBuf \<Rightarrow> nat \<Rightarrow> nat \<Rightarrow> (int \<times> DynBuf) option" where
  "dbuf_insert s pos len =
     (let (r, s) = dbuf_realloc s (size_t (db_size s + len)) in
      if r \<noteq> 0 then Some (- 1, s)
      else if pos > db_size s then None
      else do {
        tail \<leftarrow> slice (db_buf s) pos (db_size s - pos);
        b \<leftarrow> blit (db_buf s) (pos + len) tail;
        Some (0, s\<lparr>db_buf := b, db_size := size_t (db_size s + len)\<rparr>) })"

section \<open>Contract of the allocator, invariant, contents\<close>

text \<open>
  Blocks are counted in elements (bytes for a dynamic buffer, points for a character range).
\<close>

locale realloc_contract =
  fixes realloc :: "'a realloc_fun"
  assumes realloc_length: "realloc opq b n = Some b' \<Longrightarrow> length b' = n"
    and realloc_keeps: "realloc opq b n = Some b' \<Longrightarrow> k \<le> length b \<Longrightarrow> k \<le> n \<Longrightarrow> take k b' = take k b"

interpretation default_realloc: realloc_contract dbuf_default_realloc
  by unfold_locales (auto simp: dbuf_default_realloc_def split: if_splits)

definition dbuf_ok :: "DynBuf \<Rightarrow> bool" where
  "dbuf_ok s \<longleftrightarrow>
     length (db_buf s) = db_allocated_size s \<and> db_size s \<le> db_allocated_size s \<and>
     db_allocated_size s < 2 ^ 64 \<and> realloc_contract (db_realloc_func s)"

definition dbuf_bytes :: "DynBuf \<Rightarrow> u8 list" where
  "dbuf_bytes s = take (db_size s) (db_buf s)"

section \<open>Behaviour of the operations\<close>

lemma size_t_id [simp]: "n < 2 ^ 64 \<Longrightarrow> size_t n = n"
  by (simp add: size_t_def)

lemma dbuf_ok_take_blit:
  assumes "dbuf_ok s" and "blit (db_buf s) i data = Some b" and "n \<le> db_allocated_size s"
  shows "dbuf_ok (s\<lparr>db_buf := b, db_size := n\<rparr>)"
  using assms by (auto simp: dbuf_ok_def dest: length_blit)

lemma dbuf_init2_ok: "realloc_contract f \<Longrightarrow> dbuf_ok (dbuf_init2 opq (Some f))"
  by (simp add: dbuf_ok_def dbuf_init2_def)

lemma dbuf_init_ok: "dbuf_ok dbuf_init"
  by (simp add: dbuf_ok_def dbuf_init_def dbuf_init2_def default_realloc.realloc_contract_axioms)

lemma dbuf_realloc_cases:
  assumes ok: "dbuf_ok s" and n: "n < 2 ^ 64" and r: "dbuf_realloc s n = (r, s')"
  shows "dbuf_ok s'" "dbuf_bytes s' = dbuf_bytes s" "db_size s' = db_size s"
    "r = 0 \<and> n \<le> db_allocated_size s' \<and> db_error s' = db_error s \<or> r = - 1 \<and> db_error s'"
    "db_allocated_size s \<le> db_allocated_size s'"
    "take (db_allocated_size s) (db_buf s') = db_buf s"
proof -
  define m where "m = (if size_t (db_allocated_size s * 3) div 2 > n
    then size_t (db_allocated_size s * 3) div 2 else n)"
  have "size_t (db_allocated_size s * 3) < 2 ^ 64" by (simp add: size_t_def)
  then have m: "n \<le> m" "m < 2 ^ 64" using n by (auto simp: m_def)
  have *: "dbuf_ok s' \<and> dbuf_bytes s' = dbuf_bytes s \<and> db_size s' = db_size s \<and>
    (r = 0 \<and> n \<le> db_allocated_size s' \<and> db_error s' = db_error s \<or> r = - 1 \<and> db_error s') \<and>
    db_allocated_size s \<le> db_allocated_size s' \<and> take (db_allocated_size s) (db_buf s') = db_buf s"
  proof (cases "db_allocated_size s < n \<and> \<not> db_error s")
    case False
    then show ?thesis using r ok by (auto simp: dbuf_realloc_def dbuf_ok_def split: if_splits)
  next
    case True
    show ?thesis
    proof (cases "db_realloc_func s (db_opaque s) (db_buf s) m")
      case None
      with True r have "r = - 1" "s' = s\<lparr>db_error := True, db_opaque := Suc (db_opaque s)\<rparr>"
        by (auto simp: dbuf_realloc_def Let_def m_def)
      then show ?thesis using ok by (auto simp: dbuf_ok_def dbuf_bytes_def)
    next
      case (Some b)
      with True r have s': "r = 0"
        "s' = s\<lparr>db_buf := b, db_allocated_size := m, db_opaque := Suc (db_opaque s)\<rparr>"
        by (auto simp: dbuf_realloc_def Let_def m_def)
      from ok have c: "realloc_contract (db_realloc_func s)" by (simp add: dbuf_ok_def)
      have len: "length b = m" by (rule realloc_contract.realloc_length [OF c Some])
      have "take k b = take k (db_buf s)" if "k \<le> db_allocated_size s" for k
        using realloc_contract.realloc_keeps [OF c Some, of k] that ok True m by (auto simp: dbuf_ok_def)
      from this [of "db_size s"] this [of "db_allocated_size s"] show ?thesis
        using s' len ok m True by (auto simp: dbuf_ok_def dbuf_bytes_def)
    qed
  qed
  then show "dbuf_ok s'" "dbuf_bytes s' = dbuf_bytes s" "db_size s' = db_size s"
    "r = 0 \<and> n \<le> db_allocated_size s' \<and> db_error s' = db_error s \<or> r = - 1 \<and> db_error s'"
    "db_allocated_size s \<le> db_allocated_size s'"
    "take (db_allocated_size s) (db_buf s') = db_buf s"
    by blast+
qed

text \<open>Room for \<open>len\<close> more bytes, as every appending operation makes it.\<close>

lemma grow_cases:
  assumes ok: "dbuf_ok s" and n: "db_size s + len < 2 ^ 64"
    and r: "(if size_t (db_size s + len) > db_allocated_size s
      then dbuf_realloc s (size_t (db_size s + len)) else (0, s)) = (r, s')"
  shows "dbuf_ok s'" "dbuf_bytes s' = dbuf_bytes s" "db_size s' = db_size s"
    "r = 0 \<and> db_size s + len \<le> db_allocated_size s' \<and> db_error s' = db_error s \<or> r = - 1 \<and> db_error s'"
    "db_allocated_size s \<le> db_allocated_size s'"
    "take (db_allocated_size s) (db_buf s') = db_buf s"
proof -
  have *: "size_t (db_size s + len) = db_size s + len" using n by (rule size_t_id)
  have "dbuf_ok s' \<and> dbuf_bytes s' = dbuf_bytes s \<and> db_size s' = db_size s \<and>
    (r = 0 \<and> db_size s + len \<le> db_allocated_size s' \<and> db_error s' = db_error s \<or>
     r = - 1 \<and> db_error s') \<and>
    db_allocated_size s \<le> db_allocated_size s' \<and> take (db_allocated_size s) (db_buf s') = db_buf s"
  proof (cases "db_size s + len > db_allocated_size s")
    case True
    with r * have "dbuf_realloc s (db_size s + len) = (r, s')" by simp
    from dbuf_realloc_cases [OF ok n this] show ?thesis by blast
  next
    case False
    with r * have "r = 0" "s' = s" by simp_all
    with False ok show ?thesis by (simp add: dbuf_ok_def)
  qed
  then show "dbuf_ok s'" "dbuf_bytes s' = dbuf_bytes s" "db_size s' = db_size s"
    "r = 0 \<and> db_size s + len \<le> db_allocated_size s' \<and> db_error s' = db_error s \<or> r = - 1 \<and> db_error s'"
    "db_allocated_size s \<le> db_allocated_size s'"
    "take (db_allocated_size s) (db_buf s') = db_buf s"
    by blast+
qed

lemma dbuf_bytes_length: "dbuf_ok s \<Longrightarrow> length (dbuf_bytes s) = db_size s"
  by (auto simp: dbuf_ok_def dbuf_bytes_def)

lemma dbuf_put_cases:
  assumes ok: "dbuf_ok s" and n: "db_size s + length data < 2 ^ 64"
  obtains r s' where "dbuf_put s data = Some (r, s')" "dbuf_ok s'"
    "r = 0 \<and> dbuf_bytes s' = dbuf_bytes s @ data \<and> db_error s' = db_error s \<or>
     r = - 1 \<and> dbuf_bytes s' = dbuf_bytes s \<and> db_error s'"
proof -
  obtain r s1 where r: "(if size_t (db_size s + length data) > db_allocated_size s
      then dbuf_realloc s (size_t (db_size s + length data)) else (0, s)) = (r, s1)"
    by (metis surj_pair)
  note g = grow_cases [OF ok n r]
  show thesis
  proof (cases "r = 0")
    case False
    then have "dbuf_put s data = Some (- 1, s1)"
      unfolding dbuf_put_def r Let_def by simp
    then show thesis using that [of "- 1" s1] g False by auto
  next
    case True
    with g have room: "db_size s1 + length data \<le> length (db_buf s1)" by (auto simp: dbuf_ok_def)
    then obtain b where b: "blit (db_buf s1) (db_size s1) data = Some b" by (simp add: blit_def)
    let ?s = "s1\<lparr>db_buf := b, db_size := db_size s1 + length data\<rparr>"
    have "dbuf_put s data = Some (0, ?s)"
      unfolding dbuf_put_def r Let_def using True b n g(3) by simp
    moreover have "dbuf_ok ?s"
      using g True by (intro dbuf_ok_take_blit [OF g(1) b]) auto
    moreover have "dbuf_bytes ?s = dbuf_bytes s1 @ data"
      using take_blit_end [OF b] by (simp add: dbuf_bytes_def)
    ultimately show thesis using that [of 0 ?s] g True by auto
  qed
qed

lemma dbuf_put_self_cases:
  assumes ok: "dbuf_ok s" and n: "db_size s + len < 2 ^ 64" and src: "offset + len \<le> db_size s"
  obtains r s' where "dbuf_put_self s offset len = Some (r, s')" "dbuf_ok s'"
    "r = 0 \<and> dbuf_bytes s' = dbuf_bytes s @ take len (drop offset (dbuf_bytes s)) \<and>
       db_error s' = db_error s \<or>
     r = - 1 \<and> dbuf_bytes s' = dbuf_bytes s \<and> db_error s'"
proof -
  obtain r s1 where r: "(if size_t (db_size s + len) > db_allocated_size s
      then dbuf_realloc s (size_t (db_size s + len)) else (0, s)) = (r, s1)"
    by (metis surj_pair)
  note g = grow_cases [OF ok n r]
  show thesis
  proof (cases "r = 0")
    case False
    then have "dbuf_put_self s offset len = Some (- 1, s1)"
      unfolding dbuf_put_self_def r Let_def by simp
    then show thesis using that [of "- 1" s1] g False by auto
  next
    case True
    with g have room: "db_size s1 + len \<le> length (db_buf s1)" by (auto simp: dbuf_ok_def)
    let ?d = "take len (drop offset (db_buf s1))"
    have d: "length ?d = len" "?d = take len (drop offset (dbuf_bytes s1))"
      using room src g(3) by (auto simp: dbuf_bytes_def take_drop min_def)
    with room obtain b where b: "blit (db_buf s1) (db_size s1) ?d = Some b" by (auto simp: blit_def)
    let ?s = "s1\<lparr>db_buf := b, db_size := db_size s1 + len\<rparr>"
    have "dbuf_put_self s offset len = Some (0, ?s)"
      unfolding dbuf_put_self_def r Let_def using True b n g(3) src room by (simp add: slice_def)
    moreover have "dbuf_ok ?s"
      using g True by (intro dbuf_ok_take_blit [OF g(1) b]) auto
    moreover have "dbuf_bytes ?s = dbuf_bytes s1 @ ?d"
      using take_blit_end [OF b] d(1) by (simp add: dbuf_bytes_def)
    ultimately show thesis using that [of 0 ?s] g True d(2) by auto
  qed
qed

lemma dbuf_insert_cases:
  assumes ok: "dbuf_ok s" and n: "db_size s + len < 2 ^ 64" and pos: "pos \<le> db_size s"
  obtains r s' gap where "dbuf_insert s pos len = Some (r, s')" "dbuf_ok s'"
    "r = 0 \<and> length gap = len \<and> db_error s' = db_error s \<and>
       dbuf_bytes s' = take pos (dbuf_bytes s) @ gap @ drop pos (dbuf_bytes s) \<or>
     r = - 1 \<and> dbuf_bytes s' = dbuf_bytes s \<and> db_error s'"
proof -
  obtain r s1 where r: "dbuf_realloc s (db_size s + len) = (r, s1)"
    by (metis surj_pair)
  have sz: "size_t (db_size s + len) = db_size s + len" using n by (rule size_t_id)
  note g = dbuf_realloc_cases [OF ok n r]
  show thesis
  proof (cases "r = 0")
    case False
    then have "dbuf_insert s pos len = Some (- 1, s1)"
      unfolding dbuf_insert_def sz r Let_def by simp
    then show thesis using that [of "- 1" s1] g False by auto
  next
    case True
    let ?t = "take (db_size s - pos) (drop pos (db_buf s1))"
    have room: "db_size s + len \<le> length (db_buf s1)" "db_size s = db_size s1"
      using g True by (auto simp: dbuf_ok_def)
    have t: "length ?t = db_size s - pos" "?t = drop pos (dbuf_bytes s1)"
      using room pos by (auto simp: dbuf_bytes_def drop_take)
    have "pos + len + length ?t \<le> length (db_buf s1)" using t(1) room pos by simp
    then obtain b where b: "blit (db_buf s1) (pos + len) ?t = Some b" by (auto simp: blit_def)
    let ?s = "s1\<lparr>db_buf := b, db_size := db_size s1 + len\<rparr>"
    have "slice (db_buf s1) pos (db_size s - pos) = Some ?t"
      using room pos by (simp add: slice_def)
    then have eq: "dbuf_insert s pos len = Some (0, ?s)"
      unfolding dbuf_insert_def sz r Let_def using True b n room pos by simp
    have ok': "dbuf_ok ?s" using g True by (intro dbuf_ok_take_blit [OF g(1) b]) auto
    let ?gap = "take len (drop pos (db_buf s1))"
    have "dbuf_bytes ?s = take (pos + len) (db_buf s1) @ ?t"
      using take_blit_end [OF b] t(1) room pos by (simp add: dbuf_bytes_def add.commute)
    also have "\<dots> = take pos (dbuf_bytes s1) @ ?gap @ drop pos (dbuf_bytes s1)"
      unfolding t(2) using room pos by (simp add: dbuf_bytes_def take_add min_def)
    finally have "dbuf_bytes ?s = take pos (dbuf_bytes s) @ ?gap @ drop pos (dbuf_bytes s)"
      by (simp add: g(2))
    moreover have "length ?gap = len" using room pos by simp
    ultimately show thesis using that [of 0 ?s ?gap] eq ok' g(4) True by auto
  qed
qed

lemma dbuf_write_cases:
  assumes ok: "dbuf_ok s" and n: "offset + length data < 2 ^ 64" and off: "offset \<le> db_size s"
  obtains r s' where "dbuf_write s offset data = Some (r, s')" "dbuf_ok s'"
    "r = 0 \<and> dbuf_bytes s' = take offset (dbuf_bytes s) @ data @ drop (offset + length data) (dbuf_bytes s) \<and>
       db_error s' = db_error s \<or>
     r = - 1 \<and> dbuf_bytes s' = dbuf_bytes s \<and> db_error s'"
proof -
  obtain r s1 where r: "dbuf_realloc s (offset + length data) = (r, s1)"
    by (metis surj_pair)
  have sz: "size_t (offset + length data) = offset + length data" using n by (rule size_t_id)
  note g = dbuf_realloc_cases [OF ok n r]
  show thesis
  proof (cases "r = 0")
    case False
    then have "dbuf_write s offset data = Some (- 1, s1)"
      unfolding dbuf_write_def sz r Let_def by simp
    then show thesis using that [of "- 1" s1] g False by auto
  next
    case True
    have room: "offset + length data \<le> length (db_buf s1)" "db_size s = db_size s1"
      "db_size s1 \<le> length (db_buf s1)" and alloc: "db_allocated_size s1 = length (db_buf s1)"
      using g True by (simp_all add: dbuf_ok_def)
    then obtain b where b: "blit (db_buf s1) offset data = Some b" by (auto simp: blit_def)
    let ?n = "if offset + length data > db_size s1 then offset + length data else db_size s1"
    let ?s = "s1\<lparr>db_buf := b, db_size := ?n\<rparr>"
    have eq: "dbuf_write s offset data = Some (0, ?s)"
      unfolding dbuf_write_def sz r Let_def using True b by simp
    have ok': "dbuf_ok ?s" using room alloc by (intro dbuf_ok_take_blit [OF g(1) b]) simp
    have "dbuf_bytes ?s = take offset (dbuf_bytes s1) @ data @ drop (offset + length data) (dbuf_bytes s1)"
    proof (cases "offset + length data > db_size s1")
      case True
      then show ?thesis
        using take_blit_end [OF b] room(2) off by (simp add: dbuf_bytes_def min_def)
    next
      case False
      then obtain k where k: "db_size s1 = offset + length data + k"
        by (metis le_Suc_ex not_less)
      have "take (db_size s1) b = take offset (db_buf s1) @ data @
          take (db_size s1 - (offset + length data)) (drop (offset + length data) (db_buf s1))"
        unfolding k using b room(1) by (simp add: blit_Some_iff min_def)
      with False show ?thesis
        using room off by (simp add: dbuf_bytes_def drop_take min_def)
    qed
    then show thesis using that [of 0 ?s] eq ok' g True by auto
  qed
qed

section \<open>The sticky error protocol\<close>

text \<open>
  Callers issue appending operations, ignore their results and test the error flag once. The
  interface: an operation on a buffer with an encoding of its argument, that appends the encoding or
  sets the flag.
\<close>

fun run_ops :: "('s \<Rightarrow> 'c \<Rightarrow> (int \<times> 's) option) \<Rightarrow> 's \<Rightarrow> 'c list \<Rightarrow> 's option" where
  "run_ops put s [] = Some s"
| "run_ops put s (c # cs) = do { (r, s') \<leftarrow> put s c; run_ops put s' cs }"

locale error_buffer =
  fixes put :: "'s \<Rightarrow> 'c \<Rightarrow> (int \<times> 's) option"
    and ok :: "'s \<Rightarrow> bool"
    and bytes :: "'s \<Rightarrow> u8 list"
    and failed :: "'s \<Rightarrow> bool"
    and enc :: "'c \<Rightarrow> u8 list"
  assumes put_step: "ok s \<Longrightarrow> length (bytes s) + length (enc c) < 2 ^ 64 \<Longrightarrow>
    \<exists>r s'. put s c = Some (r, s') \<and> ok s' \<and>
      (r = 0 \<and> bytes s' = bytes s @ enc c \<and> failed s' = failed s \<or>
       r = - 1 \<and> bytes s' = bytes s \<and> failed s')"
begin

lemma run_ops_spec:
  assumes "ok s" and "length (bytes s) + length (concat (map enc cs)) < 2 ^ 64"
  shows "\<exists>s'. run_ops put s cs = Some s' \<and> ok s' \<and> (failed s \<longrightarrow> failed s') \<and>
    (\<not> failed s' \<longrightarrow> bytes s' = bytes s @ concat (map enc cs))"
  using assms
proof (induction cs arbitrary: s)
  case Nil
  then show ?case by simp
next
  case (Cons c cs)
  then have "length (bytes s) + length (enc c) < 2 ^ 64" by simp
  with Cons.prems(1) obtain r s1 where put: "put s c = Some (r, s1)" and ok: "ok s1"
    and s1: "r = 0 \<and> bytes s1 = bytes s @ enc c \<and> failed s1 = failed s \<or>
      r = - 1 \<and> bytes s1 = bytes s \<and> failed s1"
    using put_step [of s c] by blast
  have "length (bytes s1) + length (concat (map enc cs)) < 2 ^ 64"
    using s1 Cons.prems(2) by auto
  from Cons.IH [OF ok this] obtain s2 where "run_ops put s1 cs = Some s2" "ok s2"
    "failed s1 \<longrightarrow> failed s2" "\<not> failed s2 \<longrightarrow> bytes s2 = bytes s1 @ concat (map enc cs)"
    by blast
  then show ?case using put s1 by auto
qed

end

interpretation dbuf_chunks: error_buffer dbuf_put dbuf_ok dbuf_bytes dbuf_error "\<lambda>data. data"
  by unfold_locales (metis dbuf_put_cases dbuf_bytes_length dbuf_error_def)

interpretation dbuf_words: error_buffer dbuf_put_u32 dbuf_ok dbuf_bytes dbuf_error u32_bytes
  unfolding dbuf_put_u32_def by unfold_locales (rule dbuf_chunks.put_step)

interpretation dbuf_chars: error_buffer dbuf_putc dbuf_ok dbuf_bytes dbuf_error "\<lambda>c. [c]"
  unfolding dbuf_putc_def by unfold_locales (rule dbuf_chunks.put_step)

end
