(* ===== verification/CharRange.thy ===== *)
theory CharRange
  imports DynBuf
begin

text \<open>
  Character ranges of \<^verbatim>\<open>libunicode.c\<close> and \<^verbatim>\<open>libunicode.h\<close>: a sorted list of points, read pairwise as half-open
  intervals. The operations work on the allocated block \<open>cr_points\<close>, of which the first \<open>cr_len\<close> points are
  used; \<open>cr_compress\<close> works in place. An operation is \<open>None\<close> on an access outside a block, else
  its C result (0, or -1 when the allocator fails) with the new range.

  The set a list of points stands for is \<open>in_points\<close>: a code point is inside when an odd number of
  points is not above it. The lemmas show that the in-place compression computes the normal form, and
  that union, intersection, symmetric difference and complement are those of sets.
\<close>

section \<open>State and operations\<close>

record CharRange =
  cr_len :: nat
  cr_size :: nat
  cr_points :: "u32 list"
  cr_mem_opaque :: nat
  cr_realloc_func :: "u32 realloc_fun"

datatype CharRangeOpEnum = CR_OP_UNION | CR_OP_INTER | CR_OP_XOR

definition UINT32_MAX :: u32 where
  "UINT32_MAX = - 1"

definition cr_default_realloc :: "u32 realloc_fun" where
  "cr_default_realloc opq ptr sz =
     (if int sz * 4 \<le> PTRDIFF_MAX then Some (take sz ptr @ replicate (sz - length ptr) 0) else None)"

definition cr_init :: "nat \<Rightarrow> u32 realloc_fun option \<Rightarrow> CharRange" where
  "cr_init mem_opaque realloc_func =
     \<lparr>cr_len = 0, cr_size = 0, cr_points = [], cr_mem_opaque = mem_opaque,
      cr_realloc_func = (case realloc_func of None \<Rightarrow> cr_default_realloc | Some f \<Rightarrow> f)\<rparr>"

definition cr_realloc :: "CharRange \<Rightarrow> nat \<Rightarrow> int \<times> CharRange" where
  "cr_realloc cr sz =
     (if sz > cr_size cr then
        let new_size = nat (max_int (int sz) (int (cr_size cr * 3 div 2)))
        in case cr_realloc_func cr (cr_mem_opaque cr) (cr_points cr) new_size of
             None \<Rightarrow> (- 1, cr\<lparr>cr_mem_opaque := Suc (cr_mem_opaque cr)\<rparr>)
           | Some new_buf \<Rightarrow>
               (0, cr\<lparr>cr_points := new_buf, cr_size := new_size, cr_mem_opaque := Suc (cr_mem_opaque cr)\<rparr>)
      else (0, cr))"

definition cr_copy :: "CharRange \<Rightarrow> CharRange \<Rightarrow> (int \<times> CharRange) option" where
  "cr_copy cr cr1 =
     (let (r, cr) = cr_realloc cr (cr_len cr1) in
      if r \<noteq> 0 then Some (- 1, cr)
      else do {
        src \<leftarrow> slice (cr_points cr1) 0 (cr_len cr1);
        b \<leftarrow> blit (cr_points cr) 0 src;
        Some (0, cr\<lparr>cr_points := b, cr_len := cr_len cr1\<rparr>) })"

definition cr_add_point :: "CharRange \<Rightarrow> u32 \<Rightarrow> (int \<times> CharRange) option" where
  "cr_add_point cr v =
     (let (r, cr) = (if cr_len cr \<ge> cr_size cr then cr_realloc cr (cr_len cr + 1) else (0, cr)) in
      if r \<noteq> 0 then Some (- 1, cr)
      else do {
        b \<leftarrow> wr (cr_points cr) (cr_len cr) v;
        Some (0, cr\<lparr>cr_points := b, cr_len := cr_len cr + 1\<rparr>) })"

definition cr_add_interval :: "CharRange \<Rightarrow> u32 \<Rightarrow> u32 \<Rightarrow> (int \<times> CharRange) option" where
  "cr_add_interval cr c1 c2 =
     (let (r, cr) = (if cr_len cr + 2 > cr_size cr then cr_realloc cr (cr_len cr + 2) else (0, cr)) in
      if r \<noteq> 0 then Some (- 1, cr)
      else do {
        b \<leftarrow> wr (cr_points cr) (cr_len cr) c1;
        b \<leftarrow> wr b (cr_len cr + 1) c2;
        Some (0, cr\<lparr>cr_points := b, cr_len := cr_len cr + 2\<rparr>) })"

text \<open>The inner loop of \<open>cr_compress\<close>: how far the intervals that follow are adjacent.\<close>

function compress_scan :: "u32 list \<Rightarrow> nat \<Rightarrow> nat \<Rightarrow> nat option" where
  "compress_scan pt len j =
     (if j + 3 < len then
        do { x \<leftarrow> rd pt (j + 1); y \<leftarrow> rd pt (j + 2);
             if x = y then compress_scan pt len (j + 2) else Some j }
      else Some j)"
  by pat_completeness auto
termination
  by (relation "measure (\<lambda>(pt, len, j). len - j)") auto

declare compress_scan.simps [simp del]

lemma compress_scan_ge: "compress_scan pt len j = Some j' \<Longrightarrow> j \<le> j'"
proof (induction pt len j rule: compress_scan.induct)
  case (1 pt len j)
  then show ?case
    by (subst (asm) (2) compress_scan.simps) (force simp: bind_Some_iff split: if_splits)
qed

function compress_loop :: "u32 list \<Rightarrow> nat \<Rightarrow> nat \<Rightarrow> nat \<Rightarrow> (u32 list \<times> nat) option" where
  "compress_loop pt len i k =
     (if i + 1 < len then
        do { x \<leftarrow> rd pt i; y \<leftarrow> rd pt (i + 1);
             if x = y then compress_loop pt len (i + 2) k
             else do {
               j \<leftarrow> compress_scan pt len i;
               pt \<leftarrow> wr pt k x;
               e \<leftarrow> rd pt (j + 1);
               pt \<leftarrow> wr pt (k + 1) e;
               compress_loop pt len (j + 2) (k + 2) } }
      else Some (pt, k))"
  by pat_completeness auto
termination
  by (relation "measure (\<lambda>(pt, len, i, k). len - i)") (auto dest!: compress_scan_ge)

declare compress_loop.simps [simp del]

definition cr_compress :: "CharRange \<Rightarrow> CharRange option" where
  "cr_compress cr =
     do { (pt, k) \<leftarrow> compress_loop (cr_points cr) (cr_len cr) 0 0;
          Some (cr\<lparr>cr_points := pt, cr_len := k\<rparr>) }"

text \<open>The next point of \<open>a\<close> or \<open>b\<close> in increasing order; \<open>Some None\<close> when both are exhausted.\<close>

definition cr_next_point ::
  "u32 list \<Rightarrow> nat \<Rightarrow> u32 list \<Rightarrow> nat \<Rightarrow> nat \<Rightarrow> nat \<Rightarrow> (u32 \<times> nat \<times> nat) option option" where
  "cr_next_point a_pt a_len b_pt b_len a_idx b_idx =
     (if a_idx < a_len \<and> b_idx < b_len then
        do { a \<leftarrow> rd a_pt a_idx; b \<leftarrow> rd b_pt b_idx;
             if a < b then Some (Some (a, a_idx + 1, b_idx))
             else if a = b then Some (Some (a, a_idx + 1, b_idx + 1))
             else Some (Some (b, a_idx, b_idx + 1)) }
      else if a_idx < a_len then do { a \<leftarrow> rd a_pt a_idx; Some (Some (a, a_idx + 1, b_idx)) }
      else if b_idx < b_len then do { b \<leftarrow> rd b_pt b_idx; Some (Some (b, a_idx, b_idx + 1)) }
      else Some None)"

fun cr_op_is_in :: "CharRangeOpEnum \<Rightarrow> nat \<Rightarrow> nat \<Rightarrow> nat" where
  "cr_op_is_in CR_OP_UNION a_idx b_idx = (a_idx AND 1) OR (b_idx AND 1)"
| "cr_op_is_in CR_OP_INTER a_idx b_idx = (a_idx AND 1) AND (b_idx AND 1)"
| "cr_op_is_in CR_OP_XOR a_idx b_idx = (a_idx AND 1) XOR (b_idx AND 1)"

lemma cr_next_point_decreases:
  "cr_next_point a_pt a_len b_pt b_len a_idx b_idx = Some (Some (v, a', b')) \<Longrightarrow>
     (a_len - a') + (b_len - b') < (a_len - a_idx) + (b_len - b_idx)"
  by (auto simp: cr_next_point_def bind_Some_iff split: if_splits)

function cr_op_loop ::
  "CharRange \<Rightarrow> u32 list \<Rightarrow> nat \<Rightarrow> u32 list \<Rightarrow> nat \<Rightarrow> CharRangeOpEnum \<Rightarrow> nat \<Rightarrow> nat \<Rightarrow> (int \<times> CharRange) option"
where
  "cr_op_loop cr a_pt a_len b_pt b_len opr a_idx b_idx =
     (case cr_next_point a_pt a_len b_pt b_len a_idx b_idx of
        None \<Rightarrow> None
      | Some None \<Rightarrow> Some (0, cr)
      | Some (Some (v, a_idx', b_idx')) \<Rightarrow>
          if cr_op_is_in opr a_idx' b_idx' \<noteq> (cr_len cr AND 1) then
            do { (r, cr') \<leftarrow> cr_add_point cr v;
                 if r \<noteq> 0 then Some (- 1, cr')
                 else cr_op_loop cr' a_pt a_len b_pt b_len opr a_idx' b_idx' }
          else cr_op_loop cr a_pt a_len b_pt b_len opr a_idx' b_idx')"
  by pat_completeness auto
termination
  by (relation "measure (\<lambda>(cr, a_pt, a_len, b_pt, b_len, opr, a_idx, b_idx). (a_len - a_idx) + (b_len - b_idx))")
    (auto dest: cr_next_point_decreases)

declare cr_op_loop.simps [simp del]

definition cr_op ::
  "CharRange \<Rightarrow> u32 list \<Rightarrow> nat \<Rightarrow> u32 list \<Rightarrow> nat \<Rightarrow> CharRangeOpEnum \<Rightarrow> (int \<times> CharRange) option" where
  "cr_op cr a_pt a_len b_pt b_len opr =
     do { (r, cr) \<leftarrow> cr_op_loop cr a_pt a_len b_pt b_len opr 0 0;
          if r \<noteq> 0 then Some (- 1, cr)
          else do { cr \<leftarrow> cr_compress cr; Some (0, cr) } }"

definition cr_union1 :: "CharRange \<Rightarrow> u32 list \<Rightarrow> nat \<Rightarrow> (int \<times> CharRange) option" where
  "cr_union1 cr b_pt b_len =
     cr_op (cr\<lparr>cr_len := 0, cr_size := 0, cr_points := []\<rparr>) (cr_points cr) (cr_len cr) b_pt b_len CR_OP_UNION"

definition cr_union_interval :: "CharRange \<Rightarrow> u32 \<Rightarrow> u32 \<Rightarrow> (int \<times> CharRange) option" where
  "cr_union_interval cr c1 c2 = cr_union1 cr [c1, c2 + 1] 2"

definition cr_invert :: "CharRange \<Rightarrow> (int \<times> CharRange) option" where
  "cr_invert cr =
     (let len = cr_len cr; (r, cr) = cr_realloc cr (len + 2) in
      if r \<noteq> 0 then Some (- 1, cr)
      else do {
        old \<leftarrow> slice (cr_points cr) 0 len;
        b \<leftarrow> blit (cr_points cr) 1 old;
        b \<leftarrow> wr b 0 0;
        b \<leftarrow> wr b (len + 1) UINT32_MAX;
        cr \<leftarrow> cr_compress (cr\<lparr>cr_points := b, cr_len := len + 2\<rparr>);
        Some (0, cr) })"

section \<open>Invariant and allocation\<close>

definition cr_ok :: "CharRange \<Rightarrow> bool" where
  "cr_ok cr \<longleftrightarrow> length (cr_points cr) = cr_size cr \<and> cr_len cr \<le> cr_size cr \<and>
     realloc_contract (cr_realloc_func cr)"

definition cr_pts :: "CharRange \<Rightarrow> u32 list" where
  "cr_pts cr = take (cr_len cr) (cr_points cr)"

text \<open>An allocator that never fails; the results -1 below are possible only when the allocator of the range is not of this kind.\<close>

definition total_realloc :: "'a realloc_fun \<Rightarrow> bool" where
  "total_realloc f \<longleftrightarrow> (\<forall>opq b n. f opq b n \<noteq> None)"

interpretation cr_default: realloc_contract cr_default_realloc
  by unfold_locales (auto simp: cr_default_realloc_def split: if_splits)

text \<open>An instance for the examples.\<close>

definition ample_realloc :: "u32 realloc_fun" where
  "ample_realloc opq ptr sz = Some (take sz ptr @ replicate (sz - length ptr) 0)"

lemma ample_realloc: "realloc_contract ample_realloc" "total_realloc ample_realloc"
  by (unfold_locales, auto simp: ample_realloc_def total_realloc_def)

lemma cr_init_ok: "realloc_contract f \<Longrightarrow> cr_ok (cr_init m (Some f))"
  by (simp add: cr_ok_def cr_init_def)

lemma cr_init_default_ok: "cr_ok (cr_init m None)"
  by (simp add: cr_ok_def cr_init_def cr_default.realloc_contract_axioms)

lemma cr_init_pts [simp]: "cr_pts (cr_init m f) = []"
  by (simp add: cr_pts_def cr_init_def)

lemma cr_init_fields [simp]:
  "cr_len (cr_init m f) = 0" "cr_realloc_func (cr_init m None) = cr_default_realloc"
  "cr_realloc_func (cr_init m (Some g)) = g"
  by (simp_all add: cr_init_def)

lemma length_cr_pts: "cr_ok cr \<Longrightarrow> length (cr_pts cr) = cr_len cr"
  by (auto simp: cr_ok_def cr_pts_def)

lemma cr_realloc_cases:
  assumes ok: "cr_ok cr" and r: "cr_realloc cr n = (r, cr')"
  shows "cr_ok cr' \<and> cr_pts cr' = cr_pts cr \<and> cr_len cr' = cr_len cr \<and>
    cr_realloc_func cr' = cr_realloc_func cr \<and>
    (r = 0 \<and> n \<le> cr_size cr' \<or> r = - 1 \<and> \<not> total_realloc (cr_realloc_func cr))"
proof (cases "n > cr_size cr")
  case False
  with r ok show ?thesis by (simp add: cr_realloc_def)
next
  case True
  define m where "m = nat (max_int (int n) (int (cr_size cr * 3 div 2)))"
  have m: "n \<le> m" by (simp add: m_def max_int_def)
  show ?thesis
  proof (cases "cr_realloc_func cr (cr_mem_opaque cr) (cr_points cr) m")
    case None
    with True r have "r = - 1" "cr' = cr\<lparr>cr_mem_opaque := Suc (cr_mem_opaque cr)\<rparr>"
      by (auto simp: cr_realloc_def m_def Let_def)
    with None ok show ?thesis by (auto simp: cr_ok_def cr_pts_def total_realloc_def)
  next
    case (Some b)
    with True r have cr': "r = 0"
      "cr' = cr\<lparr>cr_points := b, cr_size := m, cr_mem_opaque := Suc (cr_mem_opaque cr)\<rparr>"
      by (auto simp: cr_realloc_def m_def Let_def)
    have c: "realloc_contract (cr_realloc_func cr)" using ok by (simp add: cr_ok_def)
    have "length b = m" "take (cr_len cr) b = take (cr_len cr) (cr_points cr)"
      using realloc_contract.realloc_length [OF c Some]
        realloc_contract.realloc_keeps [OF c Some, of "cr_len cr"] ok True m
      by (auto simp: cr_ok_def)
    then show ?thesis using cr' ok m True by (auto simp: cr_ok_def cr_pts_def)
  qed
qed

lemma cr_add_point_cases:
  assumes ok: "cr_ok cr"
  obtains r cr' where "cr_add_point cr v = Some (r, cr')" "cr_ok cr'"
    "cr_realloc_func cr' = cr_realloc_func cr"
    "r = 0 \<and> cr_pts cr' = cr_pts cr @ [v] \<and> cr_len cr' = Suc (cr_len cr) \<or>
     r = - 1 \<and> cr_pts cr' = cr_pts cr \<and> \<not> total_realloc (cr_realloc_func cr)"
proof -
  obtain r cr1 where r: "(if cr_len cr \<ge> cr_size cr then cr_realloc cr (cr_len cr + 1) else (0, cr)) = (r, cr1)"
    by (metis surj_pair)
  have g: "cr_ok cr1 \<and> cr_pts cr1 = cr_pts cr \<and> cr_len cr1 = cr_len cr \<and>
    cr_realloc_func cr1 = cr_realloc_func cr \<and>
    (r = 0 \<and> cr_len cr < cr_size cr1 \<or> r = - 1 \<and> \<not> total_realloc (cr_realloc_func cr))"
    using r ok cr_realloc_cases [OF ok, of "cr_len cr + 1" r cr1] by (auto split: if_splits)
  show thesis
  proof (cases "r = 0")
    case False
    then have "cr_add_point cr v = Some (- 1, cr1)"
      unfolding cr_add_point_def r Let_def by simp
    then show thesis using that g False by auto
  next
    case True
    let ?c = "cr1\<lparr>cr_points := (cr_points cr1)[cr_len cr1 := v], cr_len := cr_len cr1 + 1\<rparr>"
    have "cr_len cr1 < length (cr_points cr1)" using g True by (auto simp: cr_ok_def)
    then have "cr_add_point cr v = Some (0, ?c)" "cr_pts ?c = cr_pts cr1 @ [v]"
      unfolding cr_add_point_def r Let_def using True by (simp_all add: wr_def cr_pts_def take_Suc_snoc)
    moreover have "cr_ok ?c" using g True by (auto simp: cr_ok_def)
    ultimately show thesis using that [of 0 ?c] g True by auto
  qed
qed

section \<open>Compression\<close>

text \<open>The functional reading of the in-place loops.\<close>

fun absorb :: "u32 \<Rightarrow> u32 list \<Rightarrow> u32 \<times> u32 list" where
  "absorb e (x # y # r) = (if e = x then absorb y r else (e, x # y # r))"
| "absorb e r = (e, r)"

lemma absorb_length: "length (snd (absorb e r)) \<le> length r"
  by (induction e r rule: absorb.induct) auto

function compress_pts :: "u32 list \<Rightarrow> u32 list" where
  "compress_pts [] = []"
| "compress_pts [x] = []"
| "compress_pts (a # b # r) =
     (if a = b then compress_pts r else a # fst (absorb b r) # compress_pts (snd (absorb b r)))"
  by pat_completeness auto
termination
  by (relation "measure length") (auto simp: less_Suc_eq_le le_SucI absorb_length)

lemma drop_take_pair:
  "i + 1 < len \<Longrightarrow> len \<le> length pt \<Longrightarrow>
     drop i (take len pt) = pt ! i # pt ! (i + 1) # drop (i + 2) (take len pt)"
  by (simp add: Cons_nth_drop_Suc [symmetric])

lemma compress_scan_absorb:
  assumes "j + 1 < len" and "len \<le> length pt"
  shows "\<exists>j'. compress_scan pt len j = Some j' \<and> j' + 1 < len \<and>
    absorb (pt ! (j + 1)) (drop (j + 2) (take len pt)) = (pt ! (j' + 1), drop (j' + 2) (take len pt))"
  using assms
proof (induction pt len j rule: compress_scan.induct)
  case (1 pt len j)
  show ?case
  proof (cases "j + 3 < len")
    case False
    then have "drop (j + 2) (take len pt) = [] \<or> (\<exists>x. drop (j + 2) (take len pt) = [x])"
      using "1.prems" by (cases "drop (j + 2) (take len pt)"; cases "tl (drop (j + 2) (take len pt))")
        (auto dest!: arg_cong [of _ _ length])
    then show ?thesis using False "1.prems" by (auto simp: compress_scan.simps [of pt len j])
  next
    case True
    have d: "drop (j + 2) (take len pt) = pt ! (j + 2) # pt ! (j + 3) # drop (j + 4) (take len pt)"
      using drop_take_pair [of "j + 2" len pt] True "1.prems" by (simp add: numeral_eq_Suc)
    show ?thesis
    proof (cases "pt ! (j + 1) = pt ! (j + 2)")
      case False
      then show ?thesis
        using True "1.prems" by (auto simp: compress_scan.simps [of pt len j] d [simplified])
    next
      case eq: True
      have "\<exists>j'. compress_scan pt len (j + 2) = Some j' \<and> j' + 1 < len \<and>
        absorb (pt ! (j + 2 + 1)) (drop (j + 2 + 2) (take len pt)) = (pt ! (j' + 1), drop (j' + 2) (take len pt))"
        using True eq "1.prems" by (intro "1.IH") auto
      then show ?thesis
        unfolding d using True eq "1.prems" by (auto simp: compress_scan.simps [of pt len j] add.commute numeral_eq_Suc)
    qed
  qed
qed

lemma compress_loop_refines:
  assumes "k \<le> i" and "len \<le> length pt"
  shows "\<exists>pt' k'. compress_loop pt len i k = Some (pt', k') \<and> length pt' = length pt \<and> k' \<le> k + (len - i) \<and>
    take k' pt' = take k pt @ compress_pts (drop i (take len pt))"
  using assms
proof (induction pt len i k rule: compress_loop.induct)
  case (1 pt len i k)
  show ?case
  proof (cases "i + 1 < len")
    case False
    then have "drop i (take len pt) = [] \<or> (\<exists>x. drop i (take len pt) = [x])"
      using "1.prems" by (cases "drop i (take len pt)"; cases "tl (drop i (take len pt))")
        (auto dest!: arg_cong [of _ _ length])
    then show ?thesis
      using False "1.prems" by (auto simp: compress_loop.simps [of pt len i k])
  next
    case True
    note d = drop_take_pair [OF True "1.prems"(2)]
    show ?thesis
    proof (cases "pt ! i = pt ! (i + 1)")
      case eq: True
      from "1.IH"(1) [of "pt ! i" "pt ! (i + 1)"] True eq "1.prems"
      obtain pt' k' where "compress_loop pt len (i + 2) k = Some (pt', k')" "length pt' = length pt"
        "k' \<le> k + (len - (i + 2))" "take k' pt' = take k pt @ compress_pts (drop (i + 2) (take len pt))"
        by auto
      then show ?thesis
        using True eq "1.prems" unfolding d by (auto simp: compress_loop.simps [of pt len i k])
    next
      case neq: False
      obtain j where j: "compress_scan pt len i = Some j" "j + 1 < len"
        "absorb (pt ! (i + 1)) (drop (i + 2) (take len pt)) = (pt ! (j + 1), drop (j + 2) (take len pt))"
        using compress_scan_absorb [OF True "1.prems"(2)] by auto
      have ij: "i \<le> j" by (rule compress_scan_ge [OF j(1)])
      let ?p = "pt[k := pt ! i]" and ?q = "pt[k := pt ! i, k + 1 := pt ! (j + 1)]"
      have rdj: "?p ! (j + 1) = pt ! (j + 1)" using ij "1.prems" by simp
      have len: "k + 1 < length pt" "j + 1 < length pt" using True j(2) "1.prems" by auto
      have "\<exists>pt' k'. compress_loop ?q len (j + 2) (k + 2) = Some (pt', k') \<and> length pt' = length ?q \<and>
          k' \<le> (k + 2) + (len - (j + 2)) \<and>
          take k' pt' = take (k + 2) ?q @ compress_pts (drop (j + 2) (take len ?q))"
        using True neq j(1) len rdj "1.prems" ij
        by (intro "1.IH"(2) [of "pt ! i" "pt ! (i + 1)" j ?p "pt ! (j + 1)" ?q]) (auto simp: wr_def)
      moreover have "drop (j + 2) (take len ?q) = drop (j + 2) (take len pt)"
        using ij "1.prems" by (simp add: take_update_swap)
      moreover have "take (k + 2) ?q = take k pt @ [pt ! i, pt ! (j + 1)]"
        using len by (simp add: take_Suc_snoc)
      moreover have "compress_loop pt len i k = compress_loop ?q len (j + 2) (k + 2)"
        using True neq j(1) len rdj "1.prems" by (simp add: compress_loop.simps [of pt len i k] wr_def)
      ultimately show ?thesis
        using neq j(2,3) ij unfolding d by auto
    qed
  qed
qed

lemma cr_compress_refines:
  assumes "cr_ok cr"
  obtains cr' where "cr_compress cr = Some cr'" "cr_ok cr'" "cr_pts cr' = compress_pts (cr_pts cr)"
    "cr_realloc_func cr' = cr_realloc_func cr"
proof -
  have "cr_len cr \<le> length (cr_points cr)" using assms by (simp add: cr_ok_def)
  from compress_loop_refines [OF le0 this, of 0] obtain pt k where
    l: "compress_loop (cr_points cr) (cr_len cr) 0 0 = Some (pt, k)" "length pt = length (cr_points cr)"
       "k \<le> cr_len cr" "take k pt = compress_pts (take (cr_len cr) (cr_points cr))"
    by auto
  show thesis
    by (rule that [of "cr\<lparr>cr_points := pt, cr_len := k\<rparr>"])
      (use l assms in \<open>auto simp: cr_compress_def cr_ok_def cr_pts_def\<close>)
qed

section \<open>Ranges as sets\<close>

definition in_points :: "u32 list \<Rightarrow> u32 \<Rightarrow> bool" where
  "in_points pts c \<longleftrightarrow> odd (length (filter (\<lambda>p. p \<le> c) pts))"

text \<open>Normal form: an even number of strictly increasing points.\<close>

definition cr_normal :: "u32 list \<Rightarrow> bool" where
  "cr_normal pts \<longleftrightarrow> even (length pts) \<and> sorted_wrt (<) pts"

lemma in_points_Nil [simp]: "\<not> in_points [] c"
  by (simp add: in_points_def)

lemma in_points_Cons [simp]: "in_points (a # r) c \<longleftrightarrow> (a \<le> c) \<noteq> in_points r c"
  by (auto simp: in_points_def)

lemma in_points_append: "in_points (xs @ ys) c \<longleftrightarrow> in_points xs c \<noteq> in_points ys c"
  by (auto simp: in_points_def)

lemma in_points_below: "\<forall>p \<in> set xs. c < p \<Longrightarrow> \<not> in_points xs c"
  by (induction xs) auto

lemma in_points_above: "\<forall>p \<in> set xs. p \<le> c \<Longrightarrow> in_points xs c \<longleftrightarrow> odd (length xs)"
  by (simp add: in_points_def filter_id_conv)

lemma cr_normal_sorted: "cr_normal pts \<Longrightarrow> sorted pts"
  by (auto simp: cr_normal_def intro: strict_sorted_imp_sorted)

text \<open>A normal form is what the name says: the interval ends, in pairs.\<close>

lemma ex_nat_split: "(\<exists>i::nat. P i) \<longleftrightarrow> P 0 \<or> (\<exists>i. P (Suc i))"
  by (metis not0_implies_Suc)

lemma in_points_pairs:
  "cr_normal pts \<Longrightarrow> in_points pts c \<longleftrightarrow> (\<exists>i. 2 * i + 1 < length pts \<and> pts ! (2 * i) \<le> c \<and> c < pts ! (2 * i + 1))"
proof (induction pts rule: induct_list012)
  case (3 a b r)
  have n: "cr_normal r" and ab: "a < b" and above: "\<forall>p \<in> set r. b < p"
    using "3.prems" by (auto simp: cr_normal_def)
  have "in_points (a # b # r) c \<longleftrightarrow> a \<le> c \<and> c < b \<or> in_points r c"
  proof (cases "c < b")
    case True
    then have "\<not> in_points r c" using above by (intro in_points_below) auto
    with True show ?thesis by auto
  next
    case False
    with ab show ?thesis by auto
  qed
  also have "\<dots> \<longleftrightarrow> (\<exists>i. 2 * i + 1 < length (a # b # r) \<and> (a # b # r) ! (2 * i) \<le> c \<and> c < (a # b # r) ! (2 * i + 1))"
    unfolding "3.IH"(1) [OF n] by (subst (2) ex_nat_split) simp
  finally show ?case .
qed (auto simp: cr_normal_def)

lemma absorb_spec:
  assumes "sorted (e # r)" and "even (length r)" and "absorb e r = (e', r')"
  shows "sorted (e' # r') \<and> e \<le> e' \<and> even (length r') \<and> (\<forall>p \<in> set r'. e' < p) \<and>
    (in_points (e # r) c \<longleftrightarrow> in_points (e' # r') c) \<and> insert e' (set r') \<subseteq> insert e (set r)"
  using assms
proof (induction e r rule: absorb.induct)
  case (1 e x y r)
  show ?case
  proof (cases "e = x")
    case True
    with "1.IH" "1.prems" have "sorted (e' # r') \<and> y \<le> e' \<and> even (length r') \<and> (\<forall>p \<in> set r'. e' < p) \<and>
      (in_points (y # r) c \<longleftrightarrow> in_points (e' # r') c) \<and> insert e' (set r') \<subseteq> insert y (set r)"
      by auto
    with True "1.prems" show ?thesis by auto
  next
    case False
    with "1.prems" show ?thesis by fastforce
  qed
qed auto

lemma compress_pts_spec:
  "sorted pts \<Longrightarrow> even (length pts) \<Longrightarrow>
     cr_normal (compress_pts pts) \<and> set (compress_pts pts) \<subseteq> set pts \<and>
     (in_points (compress_pts pts) c \<longleftrightarrow> in_points pts c)"
proof (induction pts rule: compress_pts.induct)
  case (3 a b r)
  show ?case
  proof (cases "a = b")
    case True
    with 3 show ?thesis by auto
  next
    case False
    obtain e r' where e: "absorb b r = (e, r')" by (metis surj_pair)
    from "3.prems" have "sorted (b # r)" "even (length r)" by auto
    note ab = absorb_spec [OF this e, of c]
    have IH: "cr_normal (compress_pts r') \<and> set (compress_pts r') \<subseteq> set r' \<and>
      (in_points (compress_pts r') c \<longleftrightarrow> in_points r' c)"
      using "3.IH"(2) False ab by (simp add: e)
    have "a < e" using ab "3.prems" False by auto
    moreover have "\<forall>p \<in> set (compress_pts r'). e < p" using ab IH by auto
    ultimately show ?thesis
      using IH ab False by (auto simp: e cr_normal_def)
  qed
qed (auto simp: cr_normal_def)

section \<open>Union, intersection, symmetric difference\<close>

fun op_bool :: "CharRangeOpEnum \<Rightarrow> bool \<Rightarrow> bool \<Rightarrow> bool" where
  "op_bool CR_OP_UNION p q = (p \<or> q)"
| "op_bool CR_OP_INTER p q = (p \<and> q)"
| "op_bool CR_OP_XOR p q = (p \<noteq> q)"

lemma op_bool_False [simp]: "\<not> op_bool opr False False"
  by (cases opr) auto

lemma cr_op_is_in_parity: "cr_op_is_in opr a b = of_bool (op_bool opr (odd a) (odd b))"
  by (cases opr; cases "odd a"; cases "odd b") (auto simp: and_one_eq odd_iff_mod_2_eq_one)

text \<open>
  What the merging loop has established when it has read \<open>i\<close> points of \<open>a\<close> and \<open>j\<close> points of \<open>b\<close>:
  the emitted points represent the combination of the two prefixes, and everything still to be read is
  not below anything read.
\<close>

definition op_inv :: "CharRangeOpEnum \<Rightarrow> u32 list \<Rightarrow> u32 list \<Rightarrow> nat \<Rightarrow> nat \<Rightarrow> u32 list \<Rightarrow> bool" where
  "op_inv opr a b i j out \<longleftrightarrow>
     i \<le> length a \<and> j \<le> length b \<and> sorted out \<and>
     (odd (length out) \<longleftrightarrow> op_bool opr (odd i) (odd j)) \<and>
     (\<forall>c. in_points out c \<longleftrightarrow> op_bool opr (in_points (take i a) c) (in_points (take j b) c)) \<and>
     (\<forall>p \<in> set out \<union> set (take i a) \<union> set (take j b). \<forall>q \<in> set (drop i a) \<union> set (drop j b). p \<le> q)"

lemma cr_next_point_cases:
  assumes "i \<le> length a" and "j \<le> length b" and "sorted a" and "sorted b"
  shows "cr_next_point a (length a) b (length b) i j = Some None \<and> i = length a \<and> j = length b \<or>
    (\<exists>v i' j'. cr_next_point a (length a) b (length b) i j = Some (Some (v, i', j')) \<and>
      i \<le> i' \<and> j \<le> j' \<and> i' \<le> length a \<and> j' \<le> length b \<and>
      v \<in> set (drop i a) \<union> set (drop j b) \<and>
      (\<forall>q \<in> set (drop i a) \<union> set (drop j b). v \<le> q) \<and>
      set (take i' a) \<subseteq> insert v (set (take i a)) \<and> set (take j' b) \<subseteq> insert v (set (take j b)) \<and>
      set (drop i' a) \<subseteq> set (drop i a) \<and> set (drop j' b) \<subseteq> set (drop j b))"
proof -
  have least: "\<And>xs k q. sorted xs \<Longrightarrow> k < length xs \<Longrightarrow> q \<in> set (drop k xs) \<Longrightarrow> xs ! k \<le> (q :: u32)"
    by (auto simp: in_set_conv_nth sorted_nth_mono)
  have mem: "\<And>xs k. k < length xs \<Longrightarrow> xs ! k \<in> set (drop k xs)" for xs :: "u32 list"
    by (metis Cons_nth_drop_Suc list.set_intros(1))
  have tk: "\<And>xs k. k < length xs \<Longrightarrow> set (take (Suc k) xs) \<subseteq> insert (xs ! k) (set (take k xs))"
    for xs :: "u32 list"
    by (simp add: take_Suc_snoc)
  have dr: "\<And>xs k. set (drop (Suc k) xs) \<subseteq> set (drop k xs)" for xs :: "u32 list"
    by (rule set_drop_subset_set_drop) simp
  consider "i < length a" "j < length b" | "i < length a" "j = length b" | "i = length a" "j < length b"
    | "i = length a" "j = length b"
    using assms(1,2) by linarith
  then show ?thesis
  proof cases
    case 1
    note la = least [OF assms(3) 1(1)] and lb = least [OF assms(4) 1(2)]
    show ?thesis
    proof (cases "a ! i" "b ! j" rule: linorder_cases)
      case less
      with 1 have "cr_next_point a (length a) b (length b) i j = Some (Some (a ! i, Suc i, j))"
        by (simp add: cr_next_point_def)
      moreover have "\<forall>q \<in> set (drop i a) \<union> set (drop j b). a ! i \<le> q"
        using la lb less by (auto intro: order.trans less_imp_le)
      ultimately show ?thesis using 1 mem [of i a] tk [of i a] dr [of i a] by auto
    next
      case equal
      with 1 have "cr_next_point a (length a) b (length b) i j = Some (Some (a ! i, Suc i, Suc j))"
        by (simp add: cr_next_point_def)
      moreover have "\<forall>q \<in> set (drop i a) \<union> set (drop j b). a ! i \<le> q"
        using la lb equal by auto
      ultimately show ?thesis
        using 1 equal mem [of i a] tk [of i a] dr [of i a] tk [of j b] dr [of j b] by auto
    next
      case greater
      then have "a ! i \<noteq> b ! j" "\<not> a ! i < b ! j" by (metis order.irrefl, metis order.asym)
      with 1 have "cr_next_point a (length a) b (length b) i j = Some (Some (b ! j, i, Suc j))"
        by (simp add: cr_next_point_def)
      moreover have "\<forall>q \<in> set (drop i a) \<union> set (drop j b). b ! j \<le> q"
        using la lb greater by (auto intro: order.trans less_imp_le)
      ultimately show ?thesis using 1 mem [of j b] tk [of j b] dr [of j b] by auto
    qed
  next
    case 2
    then show ?thesis
      using least [OF assms(3), of i] mem [of i a] tk [of i a] dr [of i a]
      by (auto simp: cr_next_point_def)
  next
    case 3
    then show ?thesis
      using least [OF assms(4), of j] mem [of j b] tk [of j b] dr [of j b]
      by (auto simp: cr_next_point_def)
  next
    case 4
    then show ?thesis by (simp add: cr_next_point_def)
  qed
qed

lemma op_inv_step:
  assumes inv: "op_inv opr a b i j out" and ge: "i \<le> i'" "j \<le> j'" and le: "i' \<le> length a" "j' \<le> length b"
    and v: "v \<in> set (drop i a) \<union> set (drop j b)" "\<forall>q \<in> set (drop i a) \<union> set (drop j b). v \<le> q"
    and tk: "set (take i' a) \<subseteq> insert v (set (take i a))" "set (take j' b) \<subseteq> insert v (set (take j b))"
    and dr: "set (drop i' a) \<subseteq> set (drop i a)" "set (drop j' b) \<subseteq> set (drop j b)"
    and out': "out' = (if op_bool opr (odd i') (odd j') \<noteq> odd (length out) then out @ [v] else out)"
  shows "op_inv opr a b i' j' out'"
proof -
  have below: "\<forall>p \<in> set out \<union> set (take i a) \<union> set (take j b). p \<le> v"
    using inv v(1) unfolding op_inv_def by blast
  then have below': "\<forall>p \<in> set out' \<union> set (take i' a) \<union> set (take j' b). p \<le> v"
    using tk out' by auto
  have par: "odd (length out') \<longleftrightarrow> op_bool opr (odd i') (odd j')" using out' by auto
  have "in_points out' c \<longleftrightarrow> op_bool opr (in_points (take i' a) c) (in_points (take j' b) c)" for c
  proof (cases "v \<le> c")
    case True
    have "\<forall>p \<in> set out'. p \<le> c" "\<forall>p \<in> set (take i' a). p \<le> c" "\<forall>p \<in> set (take j' b). p \<le> c"
      using below' True by (meson UnI1 UnI2 order.trans)+
    then show ?thesis using par le by (simp add: in_points_above)
  next
    case False
    have cl: "c < p" if "p \<in> set (drop i a) \<union> set (drop j b)" for p
      using v(2) False that by (meson less_le_trans not_le)
    have new: "\<not> in_points (drop i (take i' a)) c" "\<not> in_points (drop j (take j' b)) c"
      by (auto intro!: in_points_below cl dest!: in_set_takeD simp: drop_take)
    have "take i' a = take i a @ drop i (take i' a)" "take j' b = take j b @ drop j (take j' b)"
      using ge by (metis append_take_drop_id min.absorb1 take_take)+
    then have "in_points (take i' a) c = in_points (take i a) c" "in_points (take j' b) c = in_points (take j b) c"
      using new by (metis in_points_append)+
    moreover have "in_points out' c = in_points out c"
      using out' False by (simp add: in_points_append)
    ultimately show ?thesis using inv by (simp add: op_inv_def)
  qed
  moreover have "sorted out'"
    using inv below out' by (auto simp: op_inv_def sorted_append)
  moreover have "\<forall>p \<in> set out' \<union> set (take i' a) \<union> set (take j' b). \<forall>q \<in> set (drop i' a) \<union> set (drop j' b). p \<le> q"
    using below' v(2) dr by (meson UnE UnI1 UnI2 order.trans subsetD)
  ultimately show ?thesis using par le by (simp add: op_inv_def)
qed

lemma cr_op_loop_spec:
  assumes "cr_ok cr" and "sorted a" and "sorted b" and "op_inv opr a b i j (cr_pts cr)"
  shows "\<exists>r cr'. cr_op_loop cr a (length a) b (length b) opr i j = Some (r, cr') \<and> cr_ok cr' \<and>
    cr_realloc_func cr' = cr_realloc_func cr \<and>
    (r = 0 \<and> op_inv opr a b (length a) (length b) (cr_pts cr') \<or>
     r = - 1 \<and> \<not> total_realloc (cr_realloc_func cr))"
  using assms
proof (induction "(length a - i) + (length b - j)" arbitrary: cr i j rule: less_induct)
  case less
  let ?loop = "\<lambda>cr. cr_op_loop cr a (length a) b (length b) opr"
  from less.prems(4) have ij: "i \<le> length a" "j \<le> length b" by (auto simp: op_inv_def)
  from cr_next_point_cases [OF ij less.prems(2,3)] show ?case
  proof (elim disjE exE conjE)
    assume "cr_next_point a (length a) b (length b) i j = Some None" "i = length a" "j = length b"
    then show ?thesis using less.prems by (simp add: cr_op_loop.simps)
  next
    fix v i' j'
    assume np: "cr_next_point a (length a) b (length b) i j = Some (Some (v, i', j'))"
      and st: "i \<le> i'" "j \<le> j'" "i' \<le> length a" "j' \<le> length b"
        "v \<in> set (drop i a) \<union> set (drop j b)" "\<forall>q \<in> set (drop i a) \<union> set (drop j b). v \<le> q"
        "set (take i' a) \<subseteq> insert v (set (take i a))" "set (take j' b) \<subseteq> insert v (set (take j b))"
        "set (drop i' a) \<subseteq> set (drop i a)" "set (drop j' b) \<subseteq> set (drop j b)"
    note smaller = cr_next_point_decreases [OF np]
    have len: "length (cr_pts cr) = cr_len cr" using less.prems(1) by (rule length_cr_pts)
    have isin: "cr_op_is_in opr i' j' \<noteq> (cr_len cr AND 1) \<longleftrightarrow> op_bool opr (odd i') (odd j') \<noteq> odd (length (cr_pts cr))"
      by (auto simp: cr_op_is_in_parity len and_one_eq odd_iff_mod_2_eq_one)
    show ?thesis
    proof (cases "op_bool opr (odd i') (odd j') \<noteq> odd (length (cr_pts cr))")
      case False
      have "op_inv opr a b i' j' (cr_pts cr)"
        by (rule op_inv_step [OF less.prems(4) st]) (use False in simp)
      from less.hyps [OF smaller less.prems(1,2,3) this] show ?thesis
        using False isin by (simp add: cr_op_loop.simps [of cr _ _ _ _ _ i j] np)
    next
      case True
      obtain r cr1 where add: "cr_add_point cr v = Some (r, cr1)" and ok1: "cr_ok cr1"
        and rf: "cr_realloc_func cr1 = cr_realloc_func cr"
        and rc: "r = 0 \<and> cr_pts cr1 = cr_pts cr @ [v] \<and> cr_len cr1 = Suc (cr_len cr) \<or>
          r = - 1 \<and> cr_pts cr1 = cr_pts cr \<and> \<not> total_realloc (cr_realloc_func cr)"
        using cr_add_point_cases [OF less.prems(1)] by metis
      show ?thesis
      proof (cases "r = 0")
        case False
        then show ?thesis
          using True isin add ok1 rf rc by (simp add: cr_op_loop.simps [of cr _ _ _ _ _ i j] np)
      next
        case r0: True
        have "op_inv opr a b i' j' (cr_pts cr1)"
          by (rule op_inv_step [OF less.prems(4) st]) (use True r0 rc in simp)
        from less.hyps [OF smaller ok1 less.prems(2,3) this] show ?thesis
          using True isin add r0 rf by (simp add: cr_op_loop.simps [of cr _ _ _ _ _ i j] np)
      qed
    qed
  qed
qed

lemma cr_op_spec:
  assumes ok: "cr_ok cr" and emp: "cr_len cr = 0" and srt: "sorted a" "sorted b"
    and ev: "even (length a)" "even (length b)"
  shows "\<exists>r cr'. cr_op cr a (length a) b (length b) opr = Some (r, cr') \<and> cr_ok cr' \<and>
    cr_realloc_func cr' = cr_realloc_func cr \<and>
    (r = 0 \<and> cr_normal (cr_pts cr') \<and>
       (\<forall>c. in_points (cr_pts cr') c \<longleftrightarrow> op_bool opr (in_points a c) (in_points b c)) \<or>
     r = - 1 \<and> \<not> total_realloc (cr_realloc_func cr))"
proof -
  have "cr_pts cr = []" using emp by (simp add: cr_pts_def)
  then have "op_inv opr a b 0 0 (cr_pts cr)" by (simp add: op_inv_def)
  from cr_op_loop_spec [OF ok srt this] obtain r cr1 where
    loop: "cr_op_loop cr a (length a) b (length b) opr 0 0 = Some (r, cr1)" and ok1: "cr_ok cr1"
    and rf: "cr_realloc_func cr1 = cr_realloc_func cr"
    and rc: "r = 0 \<and> op_inv opr a b (length a) (length b) (cr_pts cr1) \<or>
      r = - 1 \<and> \<not> total_realloc (cr_realloc_func cr)"
    by blast
  show ?thesis
  proof (cases "r = 0")
    case False
    then show ?thesis using loop ok1 rf rc by (simp add: cr_op_def)
  next
    case True
    with rc have inv: "op_inv opr a b (length a) (length b) (cr_pts cr1)" by simp
    then have "sorted (cr_pts cr1)" "even (length (cr_pts cr1))"
      and mem: "\<forall>c. in_points (cr_pts cr1) c \<longleftrightarrow> op_bool opr (in_points a c) (in_points b c)"
      using ev by (auto simp: op_inv_def)
    note comp = compress_pts_spec [OF this(1,2)]
    obtain cr2 where "cr_compress cr1 = Some cr2" "cr_ok cr2" "cr_pts cr2 = compress_pts (cr_pts cr1)"
      "cr_realloc_func cr2 = cr_realloc_func cr1"
      by (rule cr_compress_refines [OF ok1])
    then show ?thesis using loop True comp mem rf by (simp add: cr_op_def)
  qed
qed

lemma cr_op_block:
  "cr_next_point a_pt a_len b_pt b_len i j = cr_next_point (take a_len a_pt) a_len (take b_len b_pt) b_len i j"
  if "a_len \<le> length a_pt" "b_len \<le> length b_pt"
  using that by (auto simp: cr_next_point_def rd_def)

text \<open>Only the first \<open>a_len\<close> and \<open>b_len\<close> points of the operands are read.\<close>

lemma cr_op_loop_block:
  assumes "a_len \<le> length a_pt" "b_len \<le> length b_pt"
  shows "cr_op_loop cr a_pt a_len b_pt b_len opr i j =
    cr_op_loop cr (take a_len a_pt) a_len (take b_len b_pt) b_len opr i j"
  using assms
proof (induction cr a_pt a_len b_pt b_len opr i j rule: cr_op_loop.induct)
  case (1 cr a_pt a_len b_pt b_len opr i j)
  note np = cr_op_block [OF "1.prems", of i j]
  show ?case
    unfolding cr_op_loop.simps [of cr a_pt a_len b_pt b_len opr i j]
      cr_op_loop.simps [of cr "take a_len a_pt" a_len "take b_len b_pt" b_len opr i j] np [symmetric]
    using "1.IH" "1.prems"
    by (auto split: option.splits prod.splits intro!: Option.bind_cong)
qed

lemma cr_union1_spec:
  assumes ok: "cr_ok cr" and n: "sorted (cr_pts cr)" "even (cr_len cr)" and b: "sorted b" "even (length b)"
  shows "\<exists>r cr'. cr_union1 cr b (length b) = Some (r, cr') \<and> cr_ok cr' \<and>
    cr_realloc_func cr' = cr_realloc_func cr \<and>
    (r = 0 \<and> cr_normal (cr_pts cr') \<and> (\<forall>c. in_points (cr_pts cr') c \<longleftrightarrow> in_points (cr_pts cr) c \<or> in_points b c) \<or>
     r = - 1 \<and> \<not> total_realloc (cr_realloc_func cr))"
proof -
  let ?e = "cr\<lparr>cr_len := 0, cr_size := 0, cr_points := []\<rparr>"
  have e: "cr_ok ?e" "cr_len ?e = 0" using ok by (simp_all add: cr_ok_def)
  have len: "length (cr_pts cr) = cr_len cr" "cr_len cr \<le> length (cr_points cr)"
    using ok by (auto simp: length_cr_pts cr_ok_def)
  have "cr_union1 cr b (length b) = cr_op ?e (cr_pts cr) (length (cr_pts cr)) b (length b) CR_OP_UNION"
    unfolding cr_union1_def cr_op_def
    using cr_op_loop_block [OF len(2) order_refl, of ?e b CR_OP_UNION 0 0] len(1)
    by (simp add: cr_pts_def)
  with cr_op_spec [OF e n(1) b(1) _ b(2), of CR_OP_UNION] n(2) len show ?thesis by simp
qed

section \<open>Complement\<close>

lemma UINT32_MAX_greatest [simp]: "c \<le> UINT32_MAX"
  by (simp add: UINT32_MAX_def)

lemma UINT32_MAX_le: "UINT32_MAX \<le> c \<longleftrightarrow> c = UINT32_MAX"
  by (metis UINT32_MAX_greatest order.antisym order_refl)

lemma cr_invert_spec:
  assumes ok: "cr_ok cr" and n: "sorted (cr_pts cr)" "even (cr_len cr)"
  shows "\<exists>r cr'. cr_invert cr = Some (r, cr') \<and> cr_ok cr' \<and> cr_realloc_func cr' = cr_realloc_func cr \<and>
    (r = 0 \<and> cr_normal (cr_pts cr') \<and>
       (\<forall>c. in_points (cr_pts cr') c \<longleftrightarrow> c \<noteq> UINT32_MAX \<and> \<not> in_points (cr_pts cr) c) \<or>
     r = - 1 \<and> \<not> total_realloc (cr_realloc_func cr))"
proof -
  obtain r cr1 where r: "cr_realloc cr (cr_len cr + 2) = (r, cr1)" by (metis surj_pair)
  note g = cr_realloc_cases [OF ok r]
  show ?thesis
  proof (cases "r = 0")
    case False
    then have "cr_invert cr = Some (- 1, cr1)" unfolding cr_invert_def Let_def r by simp
    then show ?thesis using g False by auto
  next
    case True
    have room: "cr_len cr + 2 \<le> length (cr_points cr1)" "cr_len cr1 = cr_len cr"
      and pts: "take (cr_len cr) (cr_points cr1) = cr_pts cr" and len: "length (cr_pts cr) = cr_len cr"
      using g True ok by (auto simp: cr_ok_def cr_pts_def)
    obtain b where b: "blit (cr_points cr1) 1 (cr_pts cr) = Some b"
      using room len by (auto simp: blit_def)
    let ?b = "b[0 := 0, cr_len cr + 1 := UINT32_MAX]"
    let ?c = "cr1\<lparr>cr_points := ?b, cr_len := cr_len cr + 2\<rparr>"
    have lb: "length b = length (cr_points cr1)" by (rule length_blit [OF b])
    have okc: "cr_ok ?c" using g True room lb by (auto simp: cr_ok_def)
    have "take (Suc (cr_len cr + 1)) ?b = take (cr_len cr + 1) ?b @ [?b ! (cr_len cr + 1)]"
      using room lb by (intro take_Suc_snoc) simp
    then have "take (cr_len cr + 2) ?b = (take (cr_len cr + 1) b)[0 := 0] @ [UINT32_MAX]"
      using room lb by (simp add: take_update_swap list_update_beyond)
    also have "take (cr_len cr + 1) b = take 1 (cr_points cr1) @ cr_pts cr"
      using take_blit_end [OF b] len by simp
    also have "(take 1 (cr_points cr1) @ cr_pts cr)[0 := 0] = 0 # cr_pts cr"
      using room by (cases "cr_points cr1") auto
    finally have pc: "cr_pts ?c = 0 # cr_pts cr @ [UINT32_MAX]" by (simp add: cr_pts_def)
    have "sorted (cr_pts ?c)" "even (length (cr_pts ?c))"
      unfolding pc using n len by (auto simp: sorted_append)
    note comp = compress_pts_spec [OF this]
    obtain cr2 where cr2: "cr_compress ?c = Some cr2" "cr_ok cr2" "cr_pts cr2 = compress_pts (cr_pts ?c)"
      "cr_realloc_func cr2 = cr_realloc_func ?c"
      by (rule cr_compress_refines [OF okc])
    have "cr_invert cr = Some (0, cr2)"
      unfolding cr_invert_def Let_def r using True room pts lb b cr2(1)
      by (cases b) (simp_all add: slice_def wr_def)
    moreover have "in_points (cr_pts ?c) c \<longleftrightarrow> c \<noteq> UINT32_MAX \<and> \<not> in_points (cr_pts cr) c" for c
      unfolding pc using n(2) len by (auto simp: in_points_append UINT32_MAX_le in_points_above)
    ultimately show ?thesis using cr2 comp g by auto
  qed
qed

lemma cr_union_interval_spec:
  assumes ok: "cr_ok cr" and n: "sorted (cr_pts cr)" "even (cr_len cr)"
    and c: "c1 \<le> c2" "c2 \<noteq> UINT32_MAX"
  shows "\<exists>r cr'. cr_union_interval cr c1 c2 = Some (r, cr') \<and> cr_ok cr' \<and>
    cr_realloc_func cr' = cr_realloc_func cr \<and>
    (r = 0 \<and> cr_normal (cr_pts cr') \<and>
       (\<forall>c. in_points (cr_pts cr') c \<longleftrightarrow> in_points (cr_pts cr) c \<or> c1 \<le> c \<and> c \<le> c2) \<or>
     r = - 1 \<and> \<not> total_realloc (cr_realloc_func cr))"
proof -
  have c2: "c \<le> c2 \<longleftrightarrow> \<not> c2 + 1 \<le> c" for c
  proof -
    have "1 + c2 \<noteq> 0" using c(2) by (auto simp: UINT32_MAX_def add_eq_0_iff)
    then have "unat (c2 + 1) = Suc (unat c2)" using unatSuc [of c2] by (simp add: add.commute)
    then show ?thesis by (auto simp: word_le_unat)
  qed
  have le: "c1 \<le> c2 + 1" using c(1) c2 by (meson linear order.trans)
  then have "sorted [c1, c2 + 1]" by simp
  moreover have "in_points [c1, c2 + 1] c \<longleftrightarrow> c1 \<le> c \<and> c \<le> c2" for c
    using le c2 [of c] by (auto dest: order.trans)
  ultimately show ?thesis
    using cr_union1_spec [OF ok n, of "[c1, c2 + 1]"]
    by (simp add: cr_union_interval_def numeral_2_eq_2)
qed

section \<open>Building a class from intervals\<close>

text \<open>
  The parser of character classes starts from an empty range and adds one interval after the other,
  stopping at the first failure. The interface it relies on: adding an interval gives the union.
\<close>

fun union_all :: "('r \<Rightarrow> u32 \<Rightarrow> u32 \<Rightarrow> (int \<times> 'r) option) \<Rightarrow> 'r \<Rightarrow> (u32 \<times> u32) list \<Rightarrow> (int \<times> 'r) option" where
  "union_all add r [] = Some (0, r)"
| "union_all add r ((c1, c2) # ivs) =
     do { (e, r') \<leftarrow> add r c1 c2; if e \<noteq> 0 then Some (e, r') else union_all add r' ivs }"

locale interval_union =
  fixes add :: "'r \<Rightarrow> u32 \<Rightarrow> u32 \<Rightarrow> (int \<times> 'r) option"
    and ok :: "'r \<Rightarrow> bool"
    and mem :: "'r \<Rightarrow> u32 \<Rightarrow> bool"
    and may_fail :: "'r \<Rightarrow> bool"
  assumes add_interval: "ok r \<Longrightarrow> c1 \<le> c2 \<Longrightarrow> c2 \<noteq> UINT32_MAX \<Longrightarrow>
    \<exists>e r'. add r c1 c2 = Some (e, r') \<and> may_fail r' = may_fail r \<and>
      (e = 0 \<and> ok r' \<and> (\<forall>c. mem r' c \<longleftrightarrow> mem r c \<or> c1 \<le> c \<and> c \<le> c2) \<or> e = - 1 \<and> may_fail r)"
begin

lemma union_all_spec:
  assumes "ok r" and "\<forall>(c1, c2) \<in> set ivs. c1 \<le> c2 \<and> c2 \<noteq> UINT32_MAX"
  shows "\<exists>e r'. union_all add r ivs = Some (e, r') \<and>
    (e = 0 \<and> ok r' \<and> (\<forall>c. mem r' c \<longleftrightarrow> mem r c \<or> (\<exists>(c1, c2) \<in> set ivs. c1 \<le> c \<and> c \<le> c2)) \<or>
     e = - 1 \<and> may_fail r)"
  using assms
proof (induction ivs arbitrary: r)
  case Nil
  then show ?case by auto
next
  case (Cons iv ivs)
  obtain c1 c2 where iv: "iv = (c1, c2)" by (cases iv)
  from Cons.prems have "c1 \<le> c2" "c2 \<noteq> UINT32_MAX" by (auto simp: iv)
  with Cons.prems(1) obtain e r1 where add: "add r c1 c2 = Some (e, r1)" "may_fail r1 = may_fail r"
    "e = 0 \<and> ok r1 \<and> (\<forall>c. mem r1 c \<longleftrightarrow> mem r c \<or> c1 \<le> c \<and> c \<le> c2) \<or> e = - 1 \<and> may_fail r"
    using add_interval by blast
  show ?case
  proof (cases "e = 0")
    case False
    with add show ?thesis by (auto simp: iv)
  next
    case True
    with add Cons.IH [of r1] Cons.prems obtain e' r2 where
      "union_all add r1 ivs = Some (e', r2)"
      "e' = 0 \<and> ok r2 \<and> (\<forall>c. mem r2 c \<longleftrightarrow> mem r1 c \<or> (\<exists>(c1, c2) \<in> set ivs. c1 \<le> c \<and> c \<le> c2)) \<or>
       e' = - 1 \<and> may_fail r1"
      by auto
    with add True show ?thesis by (auto simp: iv)
  qed
qed

end

definition cr_wf :: "CharRange \<Rightarrow> bool" where
  "cr_wf cr \<longleftrightarrow> cr_ok cr \<and> cr_normal (cr_pts cr)"

lemma cr_wf_D: "cr_wf cr \<Longrightarrow> cr_ok cr \<and> sorted (cr_pts cr) \<and> even (cr_len cr)"
  by (metis cr_normal_def cr_normal_sorted cr_wf_def length_cr_pts)

interpretation cr_class: interval_union cr_union_interval cr_wf "\<lambda>cr. in_points (cr_pts cr)"
  "\<lambda>cr. \<not> total_realloc (cr_realloc_func cr)"
proof unfold_locales
  fix r c1 c2
  assume r: "cr_wf r" and c: "c1 \<le> c2" "c2 \<noteq> UINT32_MAX"
  from cr_union_interval_spec [of r c1 c2] cr_wf_D [OF r] c obtain e r' where
    "cr_union_interval r c1 c2 = Some (e, r')" "cr_ok r'" "cr_realloc_func r' = cr_realloc_func r"
    "e = 0 \<and> cr_normal (cr_pts r') \<and> (\<forall>c. in_points (cr_pts r') c \<longleftrightarrow> in_points (cr_pts r) c \<or> c1 \<le> c \<and> c \<le> c2) \<or>
     e = - 1 \<and> \<not> total_realloc (cr_realloc_func r)"
    by blast
  then show "\<exists>e r'. cr_union_interval r c1 c2 = Some (e, r') \<and>
      (\<not> total_realloc (cr_realloc_func r')) = (\<not> total_realloc (cr_realloc_func r)) \<and>
      (e = 0 \<and> cr_wf r' \<and> (\<forall>c. in_points (cr_pts r') c \<longleftrightarrow> in_points (cr_pts r) c \<or> c1 \<le> c \<and> c \<le> c2) \<or>
       e = - 1 \<and> \<not> total_realloc (cr_realloc_func r))"
    by (auto simp: cr_wf_def)
qed

section \<open>Properties\<close>

text \<open>
  C21. Union, intersection and symmetric difference of sorted ranges: \<open>cr_op\<close> into an empty range never
  leaves a block, keeps the invariant, and either returns 0 with the strictly increasing, even-length list of points of the combined set,
  or returns -1, which needs a failing allocator.
\<close>

theorem cr_op_correct:
  assumes "cr_ok cr" and "cr_len cr = 0" and "sorted a" and "sorted b"
    and "even (length a)" and "even (length b)"
  shows "\<exists>r cr'. cr_op cr a (length a) b (length b) opr = Some (r, cr') \<and> cr_ok cr' \<and>
    (r = 0 \<and> cr_normal (cr_pts cr') \<and>
       (\<forall>c. in_points (cr_pts cr') c \<longleftrightarrow> op_bool opr (in_points a c) (in_points b c)) \<or>
     r = - 1 \<and> \<not> total_realloc (cr_realloc_func cr))"
  using cr_op_spec [OF assms, of opr] by blast

theorem cr_op_correct_witness:
  "\<exists>r cr'. cr_op (cr_init 0 (Some ample_realloc)) [1, 5] (length [1, 5 :: u32]) [3, 9] (length [3, 9 :: u32]) CR_OP_INTER =
     Some (r, cr') \<and> cr_ok cr' \<and>
    r = 0 \<and> cr_normal (cr_pts cr') \<and> (\<forall>c. in_points (cr_pts cr') c \<longleftrightarrow> in_points [1, 5] c \<and> in_points [3, 9] c)"
  using cr_op_correct [OF cr_init_ok [OF ample_realloc(1), of 0], of "[1, 5]" "[3, 9]" CR_OP_INTER] ample_realloc(2)
  by simp



text \<open>
  C23. Building a class from intervals: adding any list of valid intervals one by one with \<open>cr_union_interval\<close> to a well-formed range
  gives a well-formed range that holds exactly the old code points and those of the intervals, unless an allocation fails.
\<close>

theorem class_union_correct:
  assumes "cr_wf cr" and "\<forall>(c1, c2) \<in> set ivs. c1 \<le> c2 \<and> c2 \<noteq> UINT32_MAX"
  shows "\<exists>e cr'. union_all cr_union_interval cr ivs = Some (e, cr') \<and>
    (e = 0 \<and> cr_wf cr' \<and>
       (\<forall>c. in_points (cr_pts cr') c \<longleftrightarrow>
          in_points (cr_pts cr) c \<or> (\<exists>(c1, c2) \<in> set ivs. c1 \<le> c \<and> c \<le> c2)) \<or>
     e = - 1 \<and> \<not> total_realloc (cr_realloc_func cr))"
  by (rule cr_class.union_all_spec [OF assms])

theorem class_union_correct_witness:
  "\<exists>cr'. union_all cr_union_interval (cr_init 0 (Some ample_realloc)) [(48, 57), (97, 102)] = Some (0, cr') \<and> cr_wf cr' \<and>
    (\<forall>c. in_points (cr_pts cr') c \<longleftrightarrow> 48 \<le> c \<and> c \<le> 57 \<or> 97 \<le> c \<and> c \<le> 102)"
proof -
  have w: "cr_wf (cr_init 0 (Some ample_realloc))" by (simp add: cr_wf_def cr_init_ok ample_realloc(1) cr_normal_def)
  have "\<forall>(c1, c2) \<in> set [(48, 57), (97, 102)]. c1 \<le> c2 \<and> c2 \<noteq> UINT32_MAX"
    by (simp add: UINT32_MAX_def)
  from class_union_correct [OF w this] ample_realloc(2) show ?thesis
    by simp
qed

end
