(* ===== verification/PropTable.thy ===== *)
theory PropTable
  imports CaseConv CharRange
begin

text \<open>
  The tables of character properties of \<^verbatim>\<open>libunicode.c\<close>: a table is a sequence of run lengths, the characters of every second run
  having the property, and an index gives the position in the table and the code point for every block of
  32 bytes. \<open>lre_is_in_table\<close> starts at the indexed position, \<open>unicode_prop1\<close> decodes the whole table into a character range.

  The locale \<open>index_table\<close> holds what the binary search of \<open>get_index_pos\<close> relies on, and \<open>prop_table\<close> what the pair of a
  table and its index promises. The laws are computed on the integer literals of each table.
\<close>

section \<open>Lookup\<close>

definition get_le24 :: "u8 list \<Rightarrow> nat \<Rightarrow> u32 option" where
  "get_le24 tab i = do {
     a \<leftarrow> rd tab i; b \<leftarrow> rd tab (i + 1); c \<leftarrow> rd tab (i + 2);
     Some (ucast a OR push_bit 8 (ucast b) OR push_bit 16 (ucast c)) }"

definition UNICODE_INDEX_BLOCK_LEN :: nat where
  "UNICODE_INDEX_BLOCK_LEN = 32"

function index_search :: "u32 \<Rightarrow> u8 list \<Rightarrow> nat \<Rightarrow> nat \<Rightarrow> nat option" where
  "index_search c index_table idx_min idx_max =
     (if idx_max - idx_min > 1 then
        let idx = (idx_max + idx_min) div 2 in
        case get_le24 index_table (idx * 3) of
          None \<Rightarrow> None
        | Some v \<Rightarrow>
            if c < v AND (push_bit 21 1 - 1) then index_search c index_table idx_min idx
            else index_search c index_table idx idx_max
      else Some idx_min)"
  by pat_completeness auto
termination by (relation "measure (\<lambda>(c, tab, lo, hi). hi - lo)") auto

declare index_search.simps [simp del]

text \<open>The result -1 of the code is \<open>Some None\<close>; otherwise the position and the code written to \<open>*pcode\<close>.\<close>

definition get_index_pos :: "u32 \<Rightarrow> u8 list \<Rightarrow> nat \<Rightarrow> (nat \<times> u32) option option" where
  "get_index_pos c index_table index_table_len = do {
     v \<leftarrow> get_le24 index_table 0;
     if c < v AND (push_bit 21 1 - 1) then Some (Some (0, 0))
     else if index_table_len = 0 then None
     else do {
       let idx_max = index_table_len - 1;
       code \<leftarrow> get_le24 index_table (idx_max * 3);
       if c \<ge> code then Some None
       else do {
         idx_min \<leftarrow> index_search c index_table 0 idx_max;
         v \<leftarrow> get_le24 index_table (idx_min * 3);
         Some (Some ((idx_min + 1) * UNICODE_INDEX_BLOCK_LEN + unat (drop_bit 21 v),
                     v AND (push_bit 21 1 - 1))) } } }"

text \<open>The length and the number of bytes of the run whose first byte \<open>b\<close> (at least 64) is at \<open>p\<close>.\<close>

definition long_run :: "u8 list \<Rightarrow> nat \<Rightarrow> u32 \<Rightarrow> (u32 \<times> nat) option" where
  "long_run table p b =
     (if b \<ge> 0x80 then Some (b - 0x80 + 1, 1)
      else if b < 0x60 then do {
        p0 \<leftarrow> rd table (p + 1);
        Some ((push_bit 8 (b - 0x40) OR ucast p0) + 1, 2) }
      else do {
        p0 \<leftarrow> rd table (p + 1); p1 \<leftarrow> rd table (p + 2);
        Some ((push_bit 16 (b - 0x60) OR push_bit 8 (ucast p0) OR ucast p1) + 1, 3) })"

lemma long_run_bytes: "long_run table p b = Some (len, n) \<Longrightarrow> 0 < n"
  by (auto simp: long_run_def bind_Some_iff split: if_splits)

function in_table_loop :: "u8 list \<Rightarrow> u32 \<Rightarrow> nat \<Rightarrow> u32 \<Rightarrow> bool \<Rightarrow> bool option" where
  "in_table_loop table c p code bt =
     (case rd table p of
        None \<Rightarrow> None
      | Some b8 \<Rightarrow>
          let b = ucast b8 in
          if b < 64 then
            let code = code + (drop_bit 3 b + 1) in
            if c < code then Some bt
            else
              let code = code + ((b AND 7) + 1) in
              if c < code then Some (\<not> bt) else in_table_loop table c (p + 1) code bt
          else
            case long_run table p b of
              None \<Rightarrow> None
            | Some (len, n) \<Rightarrow>
                let code = code + len in
                if c < code then Some bt else in_table_loop table c (p + n) code (\<not> bt))"
  by pat_completeness auto
termination
  by (relation "measure (\<lambda>(table, c, p, code, bt). length table - p)")
    (auto simp: rd_Some_iff dest: long_run_bytes)

declare in_table_loop.simps [simp del]

definition lre_is_in_table :: "u32 \<Rightarrow> u8 list \<Rightarrow> u8 list \<Rightarrow> nat \<Rightarrow> bool option" where
  "lre_is_in_table c table index_table index_table_len = do {
     pos \<leftarrow> get_index_pos c index_table index_table_len;
     case pos of None \<Rightarrow> Some False | Some (pos, code) \<Rightarrow> in_table_loop table c pos code False }"

definition lre_is_cased :: "u32 \<Rightarrow> bool option" where
  "lre_is_cased c = do {
     hit \<leftarrow> run_search 17 case_conv_table1 c 0 (int (length case_conv_table1) - 1);
     case hit of
       Some _ \<Rightarrow> Some True
     | None \<Rightarrow> lre_is_in_table c unicode_prop_Cased1_table unicode_prop_Cased1_index
                (length unicode_prop_Cased1_index div 3) }"

definition lre_is_case_ignorable :: "u32 \<Rightarrow> bool option" where
  "lre_is_case_ignorable c =
     lre_is_in_table c unicode_prop_Case_Ignorable_table unicode_prop_Case_Ignorable_index
       (length unicode_prop_Case_Ignorable_index div 3)"

definition lre_is_id_start :: "u32 \<Rightarrow> bool option" where
  "lre_is_id_start c =
     lre_is_in_table c unicode_prop_ID_Start_table unicode_prop_ID_Start_index
       (length unicode_prop_ID_Start_index div 3)"

definition lre_is_id_continue :: "u32 \<Rightarrow> bool option" where
  "lre_is_id_continue c = do {
     start \<leftarrow> lre_is_id_start c;
     if start then Some True
     else lre_is_in_table c unicode_prop_ID_Continue1_table unicode_prop_ID_Continue1_index
            (length unicode_prop_ID_Continue1_index div 3) }"

section \<open>What a table says\<close>

fun prop_runs :: "int list \<Rightarrow> int list option" where
  "prop_runs [] = Some []"
| "prop_runs (b # r) =
     (if b < 64 then map_option (\<lambda>ns. (b div 8 + 1) # (b mod 8 + 1) # ns) (prop_runs r)
      else if b \<ge> 128 then map_option (\<lambda>ns. (b - 127) # ns) (prop_runs r)
      else if b < 96 then
        case r of
          [] \<Rightarrow> None
        | d # r \<Rightarrow> map_option (\<lambda>ns. ((b - 64) * 256 + d + 1) # ns) (prop_runs r)
      else
        case r of
          d # e # r \<Rightarrow> map_option (\<lambda>ns. ((b - 96) * 65536 + d * 256 + e + 1) # ns) (prop_runs r)
        | _ \<Rightarrow> None)"

fun ends :: "int \<Rightarrow> int list \<Rightarrow> int list" where
  "ends a [] = []"
| "ends a (n # ns) = (a + n) # ends (a + n) ns"

definition odd_ends :: "int \<Rightarrow> int list \<Rightarrow> int \<Rightarrow> bool" where
  "odd_ends a ns c \<longleftrightarrow> odd (length (filter (\<lambda>e. e \<le> c) (ends a ns)))"

lemma odd_ends_simps [simp]:
  "odd_ends a [] c = False"
  "odd_ends a (n # ns) c = ((a + n \<le> c) \<noteq> odd_ends (a + n) ns c)"
  by (auto simp: odd_ends_def)

lemma odd_ends_append:
  "odd_ends a (ns @ ms) c = (odd_ends a ns c \<noteq> odd_ends (a + sum_list ns) ms c)"
  by (induction ns arbitrary: a) (auto simp: algebra_simps)

lemma prop_runs_ConsE:
  assumes "prop_runs (b # r) = Some ns"
  obtains (short) ms where "b < 64" "prop_runs r = Some ms" "ns = (b div 8 + 1) # (b mod 8 + 1) # ms"
  | (one) ms where "128 \<le> b" "prop_runs r = Some ms" "ns = (b - 127) # ms"
  | (two) d r' ms where "64 \<le> b" "b < 96" "r = d # r'" "prop_runs r' = Some ms"
      "ns = ((b - 64) * 256 + d + 1) # ms"
  | (three) d e r' ms where "96 \<le> b" "b < 128" "r = d # e # r'" "prop_runs r' = Some ms"
      "ns = ((b - 96) * 65536 + d * 256 + e + 1) # ms"
proof -
  consider "b < 64" | "128 \<le> b" | "64 \<le> b" "b < 96" | "96 \<le> b" "b < 128" by linarith
  then show thesis
  proof cases
    case 1
    with assms show thesis by (auto intro: short)
  next
    case 2
    with assms show thesis by (auto intro: one)
  next
    case 3
    with assms show thesis by (auto split: list.splits intro: two)
  next
    case 4
    with assms show thesis by (auto split: list.splits intro: three)
  qed
qed

lemma prop_runs_induct [consumes 1, case_names Nil short one two three]:
  assumes "prop_runs bs = Some ns" and "P [] []"
    and "\<And>b r ms. b < 64 \<Longrightarrow> prop_runs r = Some ms \<Longrightarrow> P r ms \<Longrightarrow>
           P (b # r) ((b div 8 + 1) # (b mod 8 + 1) # ms)"
    and "\<And>b r ms. 128 \<le> b \<Longrightarrow> prop_runs r = Some ms \<Longrightarrow> P r ms \<Longrightarrow> P (b # r) ((b - 127) # ms)"
    and "\<And>b d r ms. 64 \<le> b \<Longrightarrow> b < 96 \<Longrightarrow> prop_runs r = Some ms \<Longrightarrow> P r ms \<Longrightarrow>
           P (b # d # r) (((b - 64) * 256 + d + 1) # ms)"
    and "\<And>b d e r ms. 96 \<le> b \<Longrightarrow> b < 128 \<Longrightarrow> prop_runs r = Some ms \<Longrightarrow> P r ms \<Longrightarrow>
           P (b # d # e # r) (((b - 96) * 65536 + d * 256 + e + 1) # ms)"
  shows "P bs ns"
  using assms(1)
proof (induction "length bs" arbitrary: bs ns rule: less_induct)
  case less
  show ?case
  proof (cases bs)
    case Nil
    with less.prems assms(2) show ?thesis by simp
  next
    case (Cons b r)
    from less.prems [unfolded Cons] show ?thesis
      by (cases rule: prop_runs_ConsE) (use less.hyps Cons assms(3-6) in auto)
  qed
qed

lemma prop_runs_pos:
  "prop_runs bs = Some ns \<Longrightarrow> \<forall>b \<in> set bs. 0 \<le> b \<Longrightarrow> \<forall>n \<in> set ns. 0 < n"
  by (induction rule: prop_runs_induct) (auto simp: pos_imp_zdiv_nonneg_iff add_nonneg_pos)

lemma prop_runs_append:
  "prop_runs bs = Some ns \<Longrightarrow> prop_runs (bs @ cs) = map_option (\<lambda>ms. ns @ ms) (prop_runs cs)"
  by (induction rule: prop_runs_induct; cases "prop_runs cs") auto

lemma sum_runs_nonneg: "\<forall>n \<in> set ns. 0 < n \<Longrightarrow> 0 \<le> sum_list (ns :: int list)"
  by (simp add: sum_list_nonneg less_imp_le)

lemma odd_ends_all:
  "\<forall>n \<in> set ns. 0 < n \<Longrightarrow> a + sum_list ns \<le> c \<Longrightarrow> odd_ends a ns c = odd (length ns)"
proof (induction ns arbitrary: a)
  case (Cons n ns)
  then have "a + n \<le> c" using sum_runs_nonneg [of ns] by simp
  with Cons show ?case by (simp add: algebra_simps)
qed simp

lemma odd_ends_none: "\<forall>n \<in> set ns. 0 < n \<Longrightarrow> c < a \<Longrightarrow> odd_ends a ns c = False"
  by (induction ns arbitrary: a) auto

section \<open>The scan decodes the runs\<close>

lemma uint_add_small:
  fixes a b :: u32
  shows "uint a + uint b < 0x100000000 \<Longrightarrow> uint (a + b) = uint a + uint b"
  by (simp add: uint_word_ariths mod_pos_pos_trivial)

lemma byte_fields:
  fixes b :: u8
  shows "uint (ucast b :: u32) = uint b"
    "uint (drop_bit 3 (ucast b) + 1 :: u32) = uint b div 8 + 1"
    "uint ((ucast b AND 7) + 1 :: u32) = uint b mod 8 + 1"
proof -
  have le: "uint b < 256" using unsigned_less [of b, where 'a = int] by simp
  have "unat (ucast b :: u32) = unat b" by (simp add: unat_ucast_up)
  then show u: "uint (ucast b :: u32) = uint b" by (simp only: uint_nat)
  have "uint (drop_bit 3 (ucast b) :: u32) = uint b div 8" by (simp add: uint_drop_bit u)
  then show "uint (drop_bit 3 (ucast b) + 1 :: u32) = uint b div 8 + 1"
    using le by (subst uint_add_small) auto
  have "uint (ucast b AND 7 :: u32) = uint b mod 8"
    using uint_and_mask [of "ucast b :: u32" 3] by (simp add: mask_eq_decr_exp u)
  moreover have "uint b mod 8 < 8" by simp
  ultimately show "uint ((ucast b AND 7) + 1 :: u32) = uint b mod 8 + 1"
    by (subst uint_add_small) auto
qed

lemma uint_join8:
  fixes h :: u32 and d :: u8
  assumes "uint h < 0x1000000"
  shows "uint (push_bit 8 h OR ucast d) = uint h * 256 + uint d"
proof -
  have "unat h < 0x1000000" using assms unfolding uint_nat by linarith
  then have h: "unat (push_bit 8 h) = unat h * 256" by (subst unat_push_bit) auto
  have d: "unat (ucast d :: u32) = unat d" by (simp add: unat_ucast_up)
  have "unat (ucast d OR push_bit 8 h) = unat d + unat h * 256"
    using unat_or_disjoint [of "ucast d" 8 "push_bit 8 h"] unsigned_less [of d, where 'a = nat]
    unfolding h d by simp
  then show ?thesis by (simp only: uint_nat or.commute)
qed

lemma uint_join16:
  fixes h :: u32 and d e :: u8
  assumes "uint h < 0x10000"
  shows "uint (push_bit 16 h OR push_bit 8 (ucast d) OR ucast e) = (uint h * 256 + uint d) * 256 + uint e"
proof -
  have eq: "push_bit 16 h OR push_bit 8 (ucast d) OR ucast e = push_bit 8 (push_bit 8 h OR ucast d) OR (ucast e :: u32)"
    by (simp add: push_bit_or or.assoc)
  have hd: "uint (push_bit 8 h OR ucast d) = uint h * 256 + uint d"
    using assms by (subst uint_join8) auto
  then have "uint (push_bit 8 h OR ucast d) < 0x1000000"
    using assms unsigned_less [of d, where 'a = int] by simp
  then show ?thesis unfolding eq by (subst uint_join8) (simp_all only: hd)
qed

lemma drop_uint_Cons:
  assumes "map uint (drop p table) = b # r"
  shows "p < length table \<and> uint (table ! p) = b \<and> map uint (drop (Suc p) table) = r"
  using assms by (cases "p < length table") (auto simp flip: Cons_nth_drop_Suc)

lemma long_run_value:
  fixes table :: "u8 list"
  defines "at \<equiv> \<lambda>p. uint (table ! p)"
  shows "p < length table \<Longrightarrow> 128 \<le> at p \<Longrightarrow>
      \<exists>len. long_run table p (ucast (table ! p)) = Some (len, 1) \<and> uint len = at p - 127"
    and "p + 1 < length table \<Longrightarrow> 64 \<le> at p \<Longrightarrow> at p < 96 \<Longrightarrow>
      \<exists>len. long_run table p (ucast (table ! p)) = Some (len, 2) \<and>
        uint len = (at p - 64) * 256 + at (p + 1) + 1"
    and "p + 2 < length table \<Longrightarrow> 96 \<le> at p \<Longrightarrow> at p < 128 \<Longrightarrow>
      \<exists>len. long_run table p (ucast (table ! p)) = Some (len, 3) \<and>
        uint len = (at p - 96) * 65536 + at (p + 1) * 256 + at (p + 2) + 1"
proof -
  define b where "b = (ucast (table ! p) :: u32)"
  have b: "uint b = at p" by (simp add: b_def at_def byte_fields)
  have lt: "at q < 256" "0 \<le> at q" for q
    using unsigned_less [of "table ! q", where 'a = int] by (simp_all add: at_def)
  have sub: "uint (b - k) = at p - uint k" if "uint k \<le> at p" for k
    using that b by (simp add: uint_sub_lem [THEN iffD1])
  show "\<exists>len. long_run table p (ucast (table ! p)) = Some (len, 1) \<and> uint len = at p - 127"
    if "p < length table" "128 \<le> at p"
    using that sub [of "0x7f"] lt [of p] b
    by (auto simp: long_run_def word_le_def uint_add_small simp flip: b_def)
  show "\<exists>len. long_run table p (ucast (table ! p)) = Some (len, 2) \<and>
        uint len = (at p - 64) * 256 + at (p + 1) + 1"
    if *: "p + 1 < length table" "64 \<le> at p" "at p < 96"
  proof -
    have "uint (push_bit 8 (b - 0x40) OR ucast (table ! (p + 1))) = (at p - 64) * 256 + at (p + 1)"
      using * sub [of "0x40"] lt [of p] by (subst uint_join8) (auto simp: at_def)
    with * lt [of "p + 1"] b show ?thesis
      by (auto simp: long_run_def word_le_def word_less_def uint_add_small simp flip: b_def)
  qed
  show "\<exists>len. long_run table p (ucast (table ! p)) = Some (len, 3) \<and>
        uint len = (at p - 96) * 65536 + at (p + 1) * 256 + at (p + 2) + 1"
    if *: "p + 2 < length table" "96 \<le> at p" "at p < 128"
  proof -
    have "uint (push_bit 16 (b - 0x60) OR push_bit 8 (ucast (table ! (p + 1))) OR
        ucast (table ! (p + 2))) = ((at p - 96) * 256 + at (p + 1)) * 256 + at (p + 2)"
      using * sub [of "0x60"] lt [of p] by (subst uint_join16) (auto simp: at_def)
    with * lt [of "p + 1"] lt [of "p + 2"] b show ?thesis
      by (auto simp: long_run_def word_le_def word_less_def uint_add_small simp flip: b_def)
  qed
qed

lemma in_table_loop_long:
  assumes p: "p < length table" "64 \<le> uint (table ! p)"
    and run: "long_run table p (ucast (table ! p)) = Some (len, n)" "uint len = m"
    and ms: "\<forall>k \<in> set ms. 0 < k"
    and bound: "uint code + (m + sum_list ms) < 0x100000000" "uint c < uint code + (m + sum_list ms)"
    and IH: "uint (code + len) \<le> uint c \<Longrightarrow> in_table_loop table c (p + n) (code + len) (\<not> bt) =
       Some ((\<not> bt) \<noteq> odd_ends (uint (code + len)) ms (uint c))"
  shows "in_table_loop table c p code bt = Some (bt \<noteq> odd_ends (uint code) (m # ms) (uint c))"
proof -
  have x: "\<not> (ucast (table ! p) :: u32) < 64"
    using p by (simp add: word_less_def byte_fields)
  have code: "uint (code + len) = uint code + m"
    using run bound sum_runs_nonneg [OF ms] by (subst uint_add_small) auto
  have "in_table_loop table c p code bt =
      (if c < code + len then Some bt else in_table_loop table c (p + n) (code + len) (\<not> bt))"
    using p x run by (simp add: in_table_loop.simps [of table c p code bt])
  also have "\<dots> = Some (bt \<noteq> odd_ends (uint code) (m # ms) (uint c))"
    using odd_ends_none [OF ms, of "uint c" "uint code + m"] IH by (auto simp: word_less_def code)
  finally show ?thesis .
qed

lemma in_table_loop_short:
  assumes p: "p < length table" "uint (table ! p) = b" "b < 64"
    and ms: "\<forall>k \<in> set ms. 0 < k"
    and bound: "uint code + (b div 8 + 1 + (b mod 8 + 1) + sum_list ms) < 0x100000000"
    and IH: "\<And>code'. uint code' = uint code + (b div 8 + 1) + (b mod 8 + 1) \<Longrightarrow> uint code' \<le> uint c \<Longrightarrow>
       in_table_loop table c (Suc p) code' bt = Some (bt \<noteq> odd_ends (uint code') ms (uint c))"
  shows "in_table_loop table c p code bt =
     Some (bt \<noteq> odd_ends (uint code) ((b div 8 + 1) # (b mod 8 + 1) # ms) (uint c))"
proof -
  define x :: u32 where "x = ucast (table ! p)"
  have x: "uint x = b" "uint (drop_bit 3 x + 1) = b div 8 + 1" "uint ((x AND 7) + 1) = b mod 8 + 1"
    using p by (simp_all add: x_def byte_fields)
  have b: "0 \<le> b div 8" "0 \<le> b mod 8" using p(2) by (auto simp: pos_imp_zdiv_nonneg_iff)
  have c1: "uint (code + (drop_bit 3 x + 1)) = uint code + (b div 8 + 1)"
    using bound b x sum_runs_nonneg [OF ms] by (subst uint_add_small) auto
  then have c2: "uint (code + (drop_bit 3 x + 1) + ((x AND 7) + 1)) = uint code + (b div 8 + 1) + (b mod 8 + 1)"
    using bound b x sum_runs_nonneg [OF ms] by (subst uint_add_small) auto
  have "x < 64" using x p by (simp add: word_less_def)
  then have "in_table_loop table c p code bt =
      (if c < code + (drop_bit 3 x + 1) then Some bt
       else if c < code + (drop_bit 3 x + 1) + ((x AND 7) + 1) then Some (\<not> bt)
       else in_table_loop table c (Suc p) (code + (drop_bit 3 x + 1) + ((x AND 7) + 1)) bt)"
    using p(1) by (simp add: in_table_loop.simps [of table c p code bt] Let_def flip: x_def)
  also have "\<dots> = Some (bt \<noteq> odd_ends (uint code) ((b div 8 + 1) # (b mod 8 + 1) # ms) (uint c))"
    using odd_ends_none [OF ms] IH [OF c2] b unfolding word_less_def c1 c2 odd_ends_simps by auto
  finally show ?thesis .
qed

lemma in_table_loop_runs:
  assumes "prop_runs bs = Some ns" and "\<forall>b \<in> set bs. 0 \<le> b"
    and "map uint (drop p table) = bs" and "uint code + sum_list ns < 0x100000000"
    and "uint code \<le> uint c" and "uint c < uint code + sum_list ns"
  shows "in_table_loop table c p code bt = Some (bt \<noteq> odd_ends (uint code) ns (uint c))"
  using assms
proof (induction arbitrary: p code bt rule: prop_runs_induct)
  case (short b r ms)
  then show ?case
    using drop_uint_Cons [OF short.prems(2)] prop_runs_pos [OF short.hyps(2)]
    by (intro in_table_loop_short) auto
next
  case (one b r ms)
  note at = drop_uint_Cons [OF one.prems(2)]
  obtain len where "long_run table p (ucast (table ! p)) = Some (len, 1)" "uint len = b - 127"
    using long_run_value(1) [of p table] at one.hyps by auto
  moreover have "0 \<le> sum_list ms"
    using prop_runs_pos [OF one.hyps(2)] one.prems(1) sum_runs_nonneg by simp
  ultimately show ?case
    using one at prop_runs_pos [OF one.hyps(2)] 
    by (intro in_table_loop_long) (auto simp: uint_add_small)
next
  case (two b d r ms)
  note at = drop_uint_Cons [OF two.prems(2)]
  note at1 = drop_uint_Cons [OF at [THEN conjunct2, THEN conjunct2]]
  obtain len where "long_run table p (ucast (table ! p)) = Some (len, 2)"
    "uint len = (b - 64) * 256 + d + 1"
    using long_run_value(2) [of p table] at at1 two.hyps by auto
  moreover have "0 \<le> sum_list ms"
    using prop_runs_pos [OF two.hyps(3)] two.prems(1) sum_runs_nonneg by simp
  ultimately show ?case
    using two at at1 prop_runs_pos [OF two.hyps(3)]
    by (intro in_table_loop_long) (auto simp: uint_add_small)
next
  case (three b d e r ms)
  note at = drop_uint_Cons [OF three.prems(2)]
  note at1 = drop_uint_Cons [OF at [THEN conjunct2, THEN conjunct2]]
  note at2 = drop_uint_Cons [OF at1 [THEN conjunct2, THEN conjunct2]]
  obtain len where "long_run table p (ucast (table ! p)) = Some (len, 3)"
    "uint len = (b - 96) * 65536 + d * 256 + e + 1"
    using long_run_value(3) [of p table] at at1 at2 three.hyps by auto
  moreover have "0 \<le> sum_list ms"
    using prop_runs_pos [OF three.hyps(3)] three.prems(1) sum_runs_nonneg by simp
  ultimately show ?case
    using three at at1 at2 prop_runs_pos [OF three.hyps(3)]
    by (intro in_table_loop_long) (auto simp: uint_add_small numeral_3_eq_3)
qed simp

section \<open>The index\<close>

definition le24 :: "u8 list \<Rightarrow> nat \<Rightarrow> u32" where
  "le24 tab i = ucast (tab ! i) OR push_bit 8 (ucast (tab ! (i + 1))) OR push_bit 16 (ucast (tab ! (i + 2)))"

definition icode :: "u8 list \<Rightarrow> nat \<Rightarrow> u32" where
  "icode tab i = le24 tab (i * 3) AND (push_bit 21 1 - 1)"

definition ipos :: "u8 list \<Rightarrow> nat \<Rightarrow> nat" where
  "ipos tab i = (i + 1) * 32 + unat (drop_bit 21 (le24 tab (i * 3)))"

lemma get_le24_in_range: "i + 2 < length tab \<Longrightarrow> get_le24 tab i = Some (le24 tab i)"
  by (simp add: get_le24_def le24_def)

locale index_table =
  fixes itab :: "u8 list" and n :: nat
  assumes itab_size: "n * 3 \<le> length itab" and itab_nonempty: "0 < n"
    and icode_ascending: "i < j \<Longrightarrow> j < n \<Longrightarrow> icode itab i < icode itab j"
    and icode_last: "le24 itab ((n - 1) * 3) = icode itab (n - 1)"
begin

lemma read_entry: "i < n \<Longrightarrow> get_le24 itab (i * 3) = Some (le24 itab (i * 3))"
  using itab_size by (intro get_le24_in_range) simp

lemma index_search_correct:
  assumes "lo < hi" and "hi < n" and "icode itab lo \<le> c" and "c < icode itab hi"
  shows "\<exists>i. index_search c itab lo hi = Some i \<and> lo \<le> i \<and> i < hi \<and>
    icode itab i \<le> c \<and> c < icode itab (Suc i)"
  using assms
proof (induction "hi - lo" arbitrary: lo hi rule: less_induct)
  case less
  show ?case
  proof (cases "hi - lo > 1")
    case False
    with less.prems have "hi = Suc lo" by simp
    with less.prems show ?thesis by (auto simp: index_search.simps [of c itab lo])
  next
    case True
    define m where "m = (hi + lo) div 2"
    have m: "lo < m" "m < hi" using True by (auto simp: m_def)
    have step: "index_search c itab lo hi =
        (if c < icode itab m then index_search c itab lo m else index_search c itab m hi)"
      using True m less.prems read_entry [of m]
      by (simp add: index_search.simps [of c itab lo hi] icode_def m_def [symmetric] Let_def)
    show ?thesis
    proof (cases "c < icode itab m")
      case True
      with less.hyps [of m lo] less.prems m step show ?thesis by fastforce
    next
      case False
      with less.hyps [of hi m] less.prems m step show ?thesis by fastforce
    qed
  qed
qed

lemma get_index_pos_correct:
  obtains (before) "c < icode itab 0" "get_index_pos c itab n = Some (Some (0, 0))"
  | (after) "icode itab (n - 1) \<le> c" "get_index_pos c itab n = Some None"
  | (block) i where "Suc i < n" "icode itab i \<le> c" "c < icode itab (Suc i)" "c < icode itab (n - 1)"
      "get_index_pos c itab n = Some (Some (ipos itab i, icode itab i))"
proof -
  note def = get_index_pos_def read_entry [of 0, simplified] itab_nonempty
  consider "c < icode itab 0" | "\<not> c < icode itab 0" "icode itab (n - 1) \<le> c"
    | "\<not> c < icode itab 0" "c < icode itab (n - 1)" by fastforce
  then show thesis
  proof cases
    case 1
    then show thesis using before by (simp add: def icode_def)
  next
    case 2
    have "get_index_pos c itab n = Some None"
      using 2 read_entry [of "n - 1"] itab_nonempty icode_last by (simp add: def icode_def)
    then show thesis using after 2 by blast
  next
    case 3
    then have "0 < n - 1" by (metis gr0I)
    with 3 obtain i where i: "index_search c itab 0 (n - 1) = Some i" "i < n - 1"
      "icode itab i \<le> c" "c < icode itab (Suc i)"
      using index_search_correct [of 0 "n - 1" c] by (auto simp: not_less)
    have "get_index_pos c itab n = Some (Some (ipos itab i, icode itab i))"
      using 3 i read_entry [of "n - 1"] read_entry [of i] itab_nonempty icode_last
      by (simp add: def icode_def ipos_def UNICODE_INDEX_BLOCK_LEN_def Let_def)
    then show thesis using block [of i] i 3 by simp
  qed
qed

end

locale prop_table = index_table itab n for itab :: "u8 list" and n :: nat +
  fixes tab :: "u8 list" and ns :: "int list"
  assumes runs: "prop_runs (map uint tab) = Some ns"
    and total: "sum_list ns = uint (icode itab (n - 1))"
    and blocks: "Suc i < n \<Longrightarrow> \<exists>ms. ipos itab i \<le> length tab \<and>
      prop_runs (map uint (take (ipos itab i) tab)) = Some ms \<and>
      sum_list ms = uint (icode itab i) \<and> even (length ms)"
begin

lemma ns_pos: "\<forall>k \<in> set ns. 0 < k"
  using prop_runs_pos [OF runs] by simp

lemma total_bound: "sum_list ns < 0x100000000"
  unfolding total using unsigned_less [of "icode itab (n - 1)", where 'a = int] by simp

lemma scan_from_start:
  "uint c < sum_list ns \<Longrightarrow> in_table_loop tab c 0 0 False = Some (odd_ends 0 ns (uint c))"
  using in_table_loop_runs [OF runs, of 0 tab 0 c False] total_bound by simp

lemma scan_from_block:
  assumes "Suc i < n" and "icode itab i \<le> c" and "uint c < sum_list ns"
  shows "in_table_loop tab c (ipos itab i) (icode itab i) False = Some (odd_ends 0 ns (uint c))"
proof -
  let ?q = "ipos itab i"
  obtain ms where ms: "?q \<le> length tab" "prop_runs (map uint (take ?q tab)) = Some ms"
    "sum_list ms = uint (icode itab i)" "even (length ms)"
    using blocks [OF assms(1)] by blast
  obtain ks where ks: "prop_runs (map uint (drop ?q tab)) = Some ks" "ns = ms @ ks"
    using prop_runs_append [OF ms(2), of "map uint (drop ?q tab)"] runs
    by (cases "prop_runs (map uint (drop ?q tab))") (auto simp flip: map_append)
  have le: "uint (icode itab i) \<le> uint c" using assms(2) by (simp add: word_le_def)
  then have "odd_ends 0 ms (uint c) = odd (length ms)"
    using prop_runs_pos [OF ms(2)] ms(3) by (intro odd_ends_all) auto
  then have "odd_ends 0 ns (uint c) = odd_ends (uint (icode itab i)) ks (uint c)"
    using ms ks by (simp add: odd_ends_append)
  then show ?thesis
    using in_table_loop_runs [OF ks(1), of ?q tab "icode itab i" c False] le assms(3) total_bound ms ks
    by simp
qed

lemma is_in_table_correct:
  "lre_is_in_table c tab itab n = Some (uint c < sum_list ns \<and> odd_ends 0 ns (uint c))"
proof (cases rule: get_index_pos_correct [of c])
  case before
  have "uint (icode itab 0) \<le> sum_list ns"
    using icode_ascending [of 0 "n - 1"] itab_nonempty unfolding total
    by (cases "n = 1") (auto simp: word_less_def)
  with before(1) have "uint c < sum_list ns" by (simp add: word_less_def)
  with before scan_from_start show ?thesis by (simp add: lre_is_in_table_def)
next
  case after
  then show ?thesis by (simp add: lre_is_in_table_def total word_le_def)
next
  case (block i)
  then have "uint c < sum_list ns" by (simp add: total word_less_def)
  with block scan_from_block show ?thesis by (simp add: lre_is_in_table_def)
qed

end

section \<open>Checking the tables\<close>

fun index_vals :: "int list \<Rightarrow> int list" where
  "index_vals (a # b # c # r) = (a + 256 * b + 65536 * c) # index_vals r"
| "index_vals _ = []"

text \<open>
  One pass over a table: \<open>p\<close>, \<open>code\<close> and \<open>bt\<close> are the position, the code point and the value at a boundary of the
  encoding, \<open>idx\<close> the index entries still to be met and \<open>last_code\<close> the code point where the table must end.
\<close>

definition meet :: "int \<Rightarrow> int \<Rightarrow> bool \<Rightarrow> (int \<times> int) list \<Rightarrow> (int \<times> int) list option" where
  "meet p code bt idx =
     (case idx of
        [] \<Rightarrow> Some []
      | (q, k) # rest \<Rightarrow>
          if q = p then if k = code \<and> \<not> bt then Some rest else None else Some idx)"

function prop_walk :: "int list \<Rightarrow> int \<Rightarrow> int \<Rightarrow> bool \<Rightarrow> (int \<times> int) list \<Rightarrow> int \<Rightarrow> bool" where
  "prop_walk xs p code bt idx last_code =
     (case meet p code bt idx of
        None \<Rightarrow> False
      | Some idx \<Rightarrow>
          (case xs of
             [] \<Rightarrow> idx = [] \<and> code = last_code
           | b # r \<Rightarrow>
               if b < 64 then prop_walk r (p + 1) (code + (b div 8 + 1) + (b mod 8 + 1)) bt idx last_code
               else if b \<ge> 128 then prop_walk r (p + 1) (code + (b - 127)) (\<not> bt) idx last_code
               else if b < 96 then
                 case r of
                   [] \<Rightarrow> False
                 | d # r \<Rightarrow> prop_walk r (p + 2) (code + ((b - 64) * 256 + d + 1)) (\<not> bt) idx last_code
               else
                 case r of
                   d # e # r \<Rightarrow>
                     prop_walk r (p + 3) (code + ((b - 96) * 65536 + d * 256 + e + 1)) (\<not> bt) idx last_code
                 | _ \<Rightarrow> False))"
  by pat_completeness auto
termination by (relation "measure (\<lambda>(xs, p, code, bt, idx, e). length xs)") auto

declare prop_walk.simps [simp del]

fun index_entries :: "int \<Rightarrow> int list \<Rightarrow> (int \<times> int) list" where
  "index_entries q (v # w # vs) = (q + v div 2097152, v mod 2097152) # index_entries (q + 32) (w # vs)"
| "index_entries q _ = []"

definition prop_table_ok :: "int list \<Rightarrow> int list \<Rightarrow> bool" where
  "prop_table_ok xs is \<longleftrightarrow>
     list_all (\<lambda>b. 0 \<le> b \<and> b < 256) xs \<and> list_all (\<lambda>b. 0 \<le> b \<and> b < 256) is \<and>
     length is = length (index_vals is) * 3 \<and> is \<noteq> [] \<and>
     successively (\<lambda>v w. v mod 2097152 < w mod 2097152) (index_vals is) \<and>
     last (index_vals is) < 2097152 \<and>
     prop_walk xs 0 0 False (index_entries 32 (index_vals is)) (last (index_vals is))"

text \<open>What the walk establishes for an index entry \<open>(q, k)\<close>.\<close>

definition met :: "int list \<Rightarrow> int \<Rightarrow> int \<Rightarrow> bool \<Rightarrow> int \<times> int \<Rightarrow> bool" where
  "met xs p code bt qk \<longleftrightarrow>
     (\<exists>ms. p \<le> fst qk \<and> fst qk \<le> p + int (length xs) \<and> prop_runs (take (nat (fst qk - p)) xs) = Some ms \<and>
       code + sum_list ms = snd qk \<and> bt = odd (length ms))"

lemma met_now: "met xs p code False (p, code)"
  by (simp add: met_def)

lemma met_later:
  assumes "met r (p + int (length h)) (code + sum_list ks) bt' qk" and "prop_runs h = Some ks"
    and "bt' = (bt \<noteq> odd (length ks))"
  shows "met (h @ r) p code bt qk"
proof -
  obtain ms where ms: "p + int (length h) \<le> fst qk" "fst qk \<le> p + int (length h) + int (length r)"
    "prop_runs (take (nat (fst qk - (p + int (length h)))) r) = Some ms"
    "code + sum_list ks + sum_list ms = snd qk" "bt' = odd (length ms)"
    using assms(1) by (auto simp: met_def)
  have "take (nat (fst qk - p)) (h @ r) = h @ take (nat (fst qk - (p + int (length h)))) r"
    using ms(1) by (simp, intro arg_cong [where f = "\<lambda>k. take k r"]) linarith
  then have "prop_runs (take (nat (fst qk - p)) (h @ r)) = Some (ks @ ms)"
    using prop_runs_append [OF assms(2)] ms(3) by simp
  then show ?thesis
    using ms assms(3) by (auto simp: met_def)
qed

lemma prop_walk_step:
  assumes "prop_walk xs p code bt idx e"
  obtains idx' where "meet p code bt idx = Some idx'"
    "xs = [] \<Longrightarrow> idx' = [] \<and> code = e"
    "xs \<noteq> [] \<Longrightarrow> \<exists>h ks r. xs = h @ r \<and> h \<noteq> [] \<and> prop_runs h = Some ks \<and>
       prop_walk r (p + int (length h)) (code + sum_list ks) (bt \<noteq> odd (length ks)) idx' e"
proof (cases "meet p code bt idx")
  case None
  then show ?thesis using assms by (simp add: prop_walk.simps [of xs])
next
  case (Some idx')
  have "\<exists>h ks r. xs = h @ r \<and> h \<noteq> [] \<and> prop_runs h = Some ks \<and>
       prop_walk r (p + int (length h)) (code + sum_list ks) (bt \<noteq> odd (length ks)) idx' e"
    if xs: "xs = b # t" for b t
  proof -
    note w = assms [unfolded xs prop_walk.simps [of "b # t"] Some option.case list.case]
    consider "b < 64" | "128 \<le> b" | "64 \<le> b" "b < 96" | "96 \<le> b" "b < 128" by linarith
    then show ?thesis
    proof cases
      case 1
      with w have "xs = [b] @ t \<and> prop_runs [b] = Some [b div 8 + 1, b mod 8 + 1] \<and>
        prop_walk t (p + 1) (code + (b div 8 + 1) + (b mod 8 + 1)) bt idx' e" using xs by simp
      then show ?thesis by (intro exI [of _ "[b]"] exI [of _ "[b div 8 + 1, b mod 8 + 1]"] exI [of _ t])
          (simp add: algebra_simps)
    next
      case 2
      with w xs show ?thesis
        by (intro exI [of _ "[b]"] exI [of _ "[b - 127]"] exI [of _ t]) simp
    next
      case 3
      with w obtain d r where t: "t = d # r"
        "prop_walk r (p + 2) (code + ((b - 64) * 256 + d + 1)) (\<not> bt) idx' e"
        by (cases t) auto
      with 3 xs show ?thesis
        by (intro exI [of _ "[b, d]"] exI [of _ "[(b - 64) * 256 + d + 1]"] exI [of _ r]) simp
    next
      case 4
      with w obtain d e' r where t: "t = d # e' # r"
        "prop_walk r (p + 3) (code + ((b - 96) * 65536 + d * 256 + e' + 1)) (\<not> bt) idx' e"
        by (cases t rule: index_vals.cases) auto
      with 4 xs show ?thesis
        by (intro exI [of _ "[b, d, e']"] exI [of _ "[(b - 96) * 65536 + d * 256 + e' + 1]"] exI [of _ r]) simp
    qed
  qed
  moreover have "idx' = [] \<and> code = e" if "xs = []"
    using assms that Some by (simp add: prop_walk.simps [of "[]"])
  ultimately show ?thesis
    using Some that [of idx'] by (metis list.exhaust)
qed

lemma prop_walk_sound:
  "prop_walk xs p code bt idx e \<Longrightarrow>
     (\<exists>ns. prop_runs xs = Some ns \<and> code + sum_list ns = e) \<and> (\<forall>qk \<in> set idx. met xs p code bt qk)"
proof (induction "length xs" arbitrary: xs p code bt idx rule: less_induct)
  case less
  obtain idx' where meet: "meet p code bt idx = Some idx'"
    and emp: "xs = [] \<Longrightarrow> idx' = [] \<and> code = e"
    and step: "xs \<noteq> [] \<Longrightarrow> \<exists>h ks r. xs = h @ r \<and> h \<noteq> [] \<and> prop_runs h = Some ks \<and>
       prop_walk r (p + int (length h)) (code + sum_list ks) (bt \<noteq> odd (length ks)) idx' e"
    using prop_walk_step [OF less.prems] by blast
  have idx: "met xs p code bt qk \<or> qk \<in> set idx'" if "qk \<in> set idx" for qk
    using meet that met_now by (auto simp: meet_def split: list.splits if_splits)
  show ?case
  proof (cases "xs = []")
    case True
    with emp idx show ?thesis by auto
  next
    case False
    then obtain h ks r where xs: "xs = h @ r" "h \<noteq> []" and h: "prop_runs h = Some ks"
      and w: "prop_walk r (p + int (length h)) (code + sum_list ks) (bt \<noteq> odd (length ks)) idx' e"
      using step by blast
    from less.hyps [OF _ w] xs obtain ns where ns: "prop_runs r = Some ns" "code + sum_list ks + sum_list ns = e"
      and m: "\<forall>qk \<in> set idx'. met r (p + int (length h)) (code + sum_list ks) (bt \<noteq> odd (length ks)) qk"
      by auto
    have "prop_runs xs = Some (ks @ ns)" using prop_runs_append [OF h] ns xs by simp
    moreover have "met xs p code bt qk" if "qk \<in> set idx" for qk
      using idx [OF that] met_later [OF _ h refl, of r p code bt qk] m xs by auto
    ultimately show ?thesis using ns by auto
  qed
qed

lemma uint_le24:
  "uint (le24 tab i) = uint (tab ! i) + 256 * uint (tab ! (i + 1)) + 65536 * uint (tab ! (i + 2))"
proof -
  have eq: "le24 tab i = push_bit 16 (ucast (tab ! (i + 2))) OR push_bit 8 (ucast (tab ! (i + 1))) OR ucast (tab ! i)"
    by (simp add: le24_def or.commute or.left_commute or.assoc)
  have "uint (ucast (tab ! (i + 2)) :: u32) < 0x10000"
    using unsigned_less [of "tab ! (i + 2)", where 'a = int] by (simp add: byte_fields)
  then show ?thesis unfolding eq by (subst uint_join16) (simp_all add: byte_fields)
qed

lemma nth_index_vals:
  "length is = length (index_vals is) * 3 \<Longrightarrow> i < length (index_vals is) \<Longrightarrow>
     index_vals is ! i = is ! (i * 3) + 256 * is ! (i * 3 + 1) + 65536 * is ! (i * 3 + 2)"
proof (induction "is" arbitrary: i rule: index_vals.induct)
  case (1 a b c r)
  then show ?case by (cases i) auto
qed auto

lemma index_entries_nth:
  "Suc i < length vs \<Longrightarrow> (q + 32 * int i + vs ! i div 2097152, vs ! i mod 2097152) \<in> set (index_entries q vs)"
proof (induction q vs arbitrary: i rule: index_entries.induct)
  case (1 q v w vs)
  then show ?case by (cases i) (auto simp: algebra_simps)
qed auto

lemma map_uint_of_int:
  "list_all (\<lambda>b. 0 \<le> b \<and> b < 256) xs \<Longrightarrow> map uint (map word_of_int xs :: u8 list) = xs"
  by (induction xs) (auto simp: uint_of_int_small)

lemma prop_table_check:
  assumes ok: "prop_table_ok xs is"
    and tab: "tab = map word_of_int xs" and itab: "itab = map word_of_int is"
  shows "prop_table itab (length itab div 3) tab (the (prop_runs (map uint tab)))"
proof -
  define vs where "vs = index_vals is"
  have xs: "map uint tab = xs" and "is": "map uint itab = is"
    using ok map_uint_of_int by (auto simp: prop_table_ok_def tab itab)
  have len: "length is = length vs * 3" "0 < length vs" "length itab = length vs * 3"
    using ok by (auto simp: prop_table_ok_def vs_def itab)
  have val: "uint (le24 itab (i * 3)) = vs ! i" if "i < length vs" for i
  proof -
    have "uint (itab ! j) = is ! j" if "j < length is" for j using that "is" by (metis length_map nth_map)
    then show ?thesis
      using that len nth_index_vals [of "is" i] by (simp add: uint_le24 vs_def)
  qed
  have code: "uint (icode itab i) = vs ! i mod 2097152" if "i < length vs" for i
    using uint_and_mask [of "le24 itab (i * 3)" 21] val [OF that] by (simp add: icode_def mask_eq_decr_exp)
  have pos: "int (ipos itab i) = 32 + 32 * int i + vs ! i div 2097152" if "i < length vs" for i
    using val [OF that] unat_drop_bit [of 21 "le24 itab (i * 3)"]
    by (simp add: ipos_def zdiv_int flip: uint_nat)
  have asc: "sorted_wrt (\<lambda>v w. v mod 2097152 < w mod 2097152) vs"
    using ok by (simp add: prop_table_ok_def vs_def successively_conv_sorted_wrt transp_def)
  have vlast: "vs ! (length vs - 1) < 2097152"
    using ok len by (auto simp: prop_table_ok_def vs_def last_conv_nth)
  have vpos: "0 \<le> vs ! (length vs - 1)"
    using val [of "length vs - 1"] len(2) uint_ge_0 [of "le24 itab ((length vs - 1) * 3)"] by simp
  have walk: "prop_walk xs 0 0 False (index_entries 32 vs) (vs ! (length vs - 1))"
    using ok len by (auto simp: prop_table_ok_def vs_def last_conv_nth)
  note sound = prop_walk_sound [OF walk]
  then obtain ns where ns: "prop_runs xs = Some ns" "sum_list ns = vs ! (length vs - 1)" by auto
  have div3: "length itab div 3 = length vs" using len by simp
  show ?thesis unfolding div3
  proof
    show "length vs * 3 \<le> length itab" "0 < length vs" using len by auto
    show "icode itab i < icode itab j" if "i < j" "j < length vs" for i j
      using sorted_wrt_nth_less [OF asc that] that by (simp add: word_less_def code)
    show "le24 itab ((length vs - 1) * 3) = icode itab (length vs - 1)"
      using vlast vpos len unfolding word_uint_eq_iff by (simp add: code val)
    show "prop_runs (map uint tab) = Some (the (prop_runs (map uint tab)))" using xs ns by simp
    show "sum_list (the (prop_runs (map uint tab))) = uint (icode itab (length vs - 1))"
      using xs ns vlast vpos len by (simp add: code)
    show "\<exists>ms. ipos itab i \<le> length tab \<and> prop_runs (map uint (take (ipos itab i) tab)) = Some ms \<and>
      sum_list ms = uint (icode itab i) \<and> even (length ms)" if "Suc i < length vs" for i
    proof -
      have "met xs 0 0 False (int (ipos itab i), uint (icode itab i))"
        using sound index_entries_nth [OF that, of 32] that by (auto simp: pos code)
      then show ?thesis
        using xs by (auto simp: met_def simp flip: take_map)
    qed
  qed
qed


lemma Cased1_ok:
  "\<exists>xs is. unicode_prop_Cased1_table = map word_of_int xs \<and> unicode_prop_Cased1_index = map word_of_int is \<and>
     prop_table_ok xs is"
  unfolding unicode_prop_Cased1_table_def unicode_prop_Cased1_index_def
  by (rule exI, rule exI, rule conjI [OF refl conjI [OF refl]]) code_simp

lemma Case_Ignorable_ok:
  "\<exists>xs is. unicode_prop_Case_Ignorable_table = map word_of_int xs \<and>
     unicode_prop_Case_Ignorable_index = map word_of_int is \<and> prop_table_ok xs is"
  unfolding unicode_prop_Case_Ignorable_table_def unicode_prop_Case_Ignorable_index_def
  by (rule exI, rule exI, rule conjI [OF refl conjI [OF refl]]) code_simp

lemma ID_Start_ok:
  "\<exists>xs is. unicode_prop_ID_Start_table = map word_of_int xs \<and>
     unicode_prop_ID_Start_index = map word_of_int is \<and> prop_table_ok xs is"
  unfolding unicode_prop_ID_Start_table_def unicode_prop_ID_Start_index_def
  by (rule exI, rule exI, rule conjI [OF refl conjI [OF refl]]) code_simp

lemma ID_Continue1_ok:
  "\<exists>xs is. unicode_prop_ID_Continue1_table = map word_of_int xs \<and>
     unicode_prop_ID_Continue1_index = map word_of_int is \<and> prop_table_ok xs is"
  unfolding unicode_prop_ID_Continue1_table_def unicode_prop_ID_Continue1_index_def
  by (rule exI, rule exI, rule conjI [OF refl conjI [OF refl]]) code_simp

definition table_runs :: "u8 list \<Rightarrow> int list" where
  "table_runs tab = the (prop_runs (map uint tab))"

interpretation cased1: prop_table unicode_prop_Cased1_index "length unicode_prop_Cased1_index div 3"
    unicode_prop_Cased1_table "table_runs unicode_prop_Cased1_table"
  unfolding table_runs_def using Cased1_ok prop_table_check by blast

interpretation case_ignorable: prop_table unicode_prop_Case_Ignorable_index
    "length unicode_prop_Case_Ignorable_index div 3"
    unicode_prop_Case_Ignorable_table "table_runs unicode_prop_Case_Ignorable_table"
  unfolding table_runs_def using Case_Ignorable_ok prop_table_check by blast

interpretation id_start: prop_table unicode_prop_ID_Start_index "length unicode_prop_ID_Start_index div 3"
    unicode_prop_ID_Start_table "table_runs unicode_prop_ID_Start_table"
  unfolding table_runs_def using ID_Start_ok prop_table_check by blast

interpretation id_continue1: prop_table unicode_prop_ID_Continue1_index
    "length unicode_prop_ID_Continue1_index div 3"
    unicode_prop_ID_Continue1_table "table_runs unicode_prop_ID_Continue1_table"
  unfolding table_runs_def using ID_Continue1_ok prop_table_check by blast

end
