(* ===== verification/UnicodeProps.thy ===== *)
theory UnicodeProps
  imports PropTable
begin

text \<open>
  Character ranges of Unicode properties (\<^verbatim>\<open>libunicode.c\<close>, from \<open>unicode_find_name\<close> on): the decoders of the property, general category,
  case and script tables, the stack machine \<open>unicode_prop_ops\<close> that combines them, and the lookup by name.
  A result is \<open>None\<close> when the code has no defined result: an access outside a block, a failed assertion, or a loop
  that never ends. The constant \<open>added\<close> is the contract all the decoders share: a list of intervals is appended, or an allocation
  failed.
\<close>

section \<open>Sequencing\<close>

text \<open>\<open>if (f(cr)) return -1;\<close>\<close>

definition try_ok :: "(int \<times> 's) option \<Rightarrow> ('s \<Rightarrow> (int \<times> 's) option) \<Rightarrow> (int \<times> 's) option" where
  "try_ok m f = (case m of None \<Rightarrow> None | Some (r, s) \<Rightarrow> if r \<noteq> 0 then Some (- 1, s) else f s)"

definition add_if :: "bool \<Rightarrow> CharRange \<Rightarrow> u32 \<Rightarrow> u32 \<Rightarrow> (int \<times> CharRange) option" where
  "add_if b cr c0 c = (if b then cr_add_interval cr c0 c else Some (0, cr))"

text \<open>\<open>for(; c0 < c; c0 += 2)\<close> adding the interval \<open>c0\<close>, \<open>c0 + 1\<close>; were the counter to wrap, it would never end.\<close>

function add_every_second :: "CharRange \<Rightarrow> u32 \<Rightarrow> u32 \<Rightarrow> (int \<times> CharRange) option" where
  "add_every_second cr c0 c =
     (if c0 < c then
        try_ok (cr_add_interval cr c0 (c0 + 1))
          (\<lambda>cr. if c0 + 2 \<le> c0 then None else add_every_second cr (c0 + 2) c)
      else Some (0, cr))"
  by pat_completeness auto
termination
proof (relation "measure (\<lambda>(cr, c0, c). unat c - unat c0)", goal_cases)
  case (2 cr c0 c cr')
  then show ?case by (simp add: word_less_unat not_le diff_less_mono2)
qed simp

declare add_every_second.simps [simp del]

section \<open>Names\<close>

text \<open>
  The length of the alternative at \<open>p\<close>, which ends at a comma or at the terminating zero, and whether a comma was found.
\<close>

definition alternative_len :: "u8 list \<Rightarrow> nat \<Rightarrow> (nat \<times> bool) option" where
  "alternative_len tab p = do {
     len \<leftarrow> strlen (drop p tab);
     let str = take len (drop p tab);
     let r = length (takeWhile (\<lambda>ch. ch \<noteq> 0x2C) str);
     Some (if r < len then (r, True) else (len, False)) }"

lemma alternative_len_bound: "alternative_len tab p = Some x \<Longrightarrow> p < length tab"
  by (cases "p < length tab") (auto simp: alternative_len_def)

text \<open>\<open>inner\<close> tells the inner \<open>for(;;)\<close> from the outer \<open>while (*p)\<close>.\<close>

function find_name_loop :: "u8 list \<Rightarrow> u8 list \<Rightarrow> nat \<Rightarrow> bool \<Rightarrow> nat \<Rightarrow> nat \<Rightarrow> int option" where
  "find_name_loop tab name name_len inner p pos =
     (if inner then
        case alternative_len tab p of
          None \<Rightarrow> None
        | Some (len, comma) \<Rightarrow>
            if len = name_len \<and> slice tab p name_len = slice name 0 name_len then Some (int pos)
            else if comma then find_name_loop tab name name_len True (p + len + 1) pos
            else find_name_loop tab name name_len False (p + len + 1) (pos + 1)
      else
        case rd tab p of
          None \<Rightarrow> None
        | Some ch \<Rightarrow> if ch = 0 then Some (- 1) else find_name_loop tab name name_len True p pos)"
  by pat_completeness auto
termination
  by (relation "measure (\<lambda>(tab, name, len, inner, p, pos). 2 * (length tab - p) + (if inner then 0 else 1))")
    (auto dest: alternative_len_bound)

declare find_name_loop.simps [simp del]

definition unicode_find_name :: "u8 list \<Rightarrow> u8 list \<Rightarrow> int option" where
  "unicode_find_name name_table name = do {
     name_len \<leftarrow> strlen name;
     find_name_loop name_table name name_len False 0 0 }"

section \<open>Decoders\<close>

text \<open>The run lengths of \<open>unicode_script_table\<close>: the value and the position after it.\<close>

definition script_run :: "u8 list \<Rightarrow> nat \<Rightarrow> u32 \<Rightarrow> (u32 \<times> nat) option" where
  "script_run tab p n =
     (if n < 96 then Some (n, p)
      else if n < 112 then do {
        b1 \<leftarrow> rd tab p;
        Some ((push_bit 8 (n - 96) OR ucast b1) + 96, p + 1) }
      else do {
        b1 \<leftarrow> rd tab p; b2 \<leftarrow> rd tab (p + 1);
        Some ((push_bit 16 (n - 112) OR push_bit 8 (ucast b1) OR ucast b2) + 96 + push_bit 12 1, p + 2) })"

lemma script_run_pos: "script_run tab p n = Some (m, q) \<Longrightarrow> p \<le> q"
  by (auto simp: script_run_def bind_Some_iff split: if_splits)

definition script_item :: "u8 list \<Rightarrow> nat \<Rightarrow> (u32 \<times> u32 \<times> nat) option" where
  "script_item tab p = do {
     b8 \<leftarrow> rd tab p;
     let b = (ucast b8 :: u32);
     (n, p) \<leftarrow> script_run tab (p + 1) (b AND 0x7f);
     if drop_bit 7 b = 0 then Some (n, 0, p)
     else do { v \<leftarrow> rd tab p; Some (n, ucast v, p + 1) } }"

lemma script_item_pos: "script_item tab p = Some (n, v, q) \<Longrightarrow> p < q"
  by (auto simp: script_item_def bind_Some_iff Let_def dest!: script_run_pos split: if_splits)

function script_loop :: "u8 list \<Rightarrow> u32 \<Rightarrow> nat \<Rightarrow> u32 \<Rightarrow> CharRange \<Rightarrow> (int \<times> CharRange) option" where
  "script_loop tab script_idx p c cr1 =
     (if p < length tab then
        case script_item tab p of
          None \<Rightarrow> None
        | Some (n, v, p') \<Rightarrow>
            let c1 = c + n + 1 in
            try_ok (add_if (v = script_idx) cr1 c c1) (\<lambda>cr1. script_loop tab script_idx p' c1 cr1)
      else Some (0, cr1))"
  by pat_completeness auto
termination
  by (relation "measure (\<lambda>(tab, si, p, c, cr). length tab - p)") (auto dest: script_item_pos)

declare script_loop.simps [simp del]

definition script_ext_run :: "u8 list \<Rightarrow> nat \<Rightarrow> u32 \<Rightarrow> (u32 \<times> nat) option" where
  "script_ext_run tab p b =
     (if b < 128 then Some (b, p)
      else if b < 128 + 64 then do {
        b1 \<leftarrow> rd tab p;
        Some ((push_bit 8 (b - 128) OR ucast b1) + 128, p + 1) }
      else do {
        b1 \<leftarrow> rd tab p; b2 \<leftarrow> rd tab (p + 1);
        Some ((push_bit 16 (b - 128 - 64) OR push_bit 8 (ucast b1) OR ucast b2) + 128 + push_bit 14 1, p + 2) })"

lemma script_ext_run_pos: "script_ext_run tab p n = Some (m, q) \<Longrightarrow> p \<le> q"
  by (auto simp: script_ext_run_def bind_Some_iff split: if_splits)

text \<open>The search of \<open>script_idx\<close> stops at the first hit, so later bytes are read only by the next item.\<close>

fun ext_has_script :: "u8 list \<Rightarrow> nat \<Rightarrow> nat \<Rightarrow> u32 \<Rightarrow> bool option" where
  "ext_has_script tab p 0 script_idx = Some False"
| "ext_has_script tab p (Suc k) script_idx = do {
     v \<leftarrow> rd tab p;
     if ucast v = script_idx then Some True else ext_has_script tab (p + 1) k script_idx }"

definition script_ext_item :: "u8 list \<Rightarrow> bool \<Rightarrow> u32 \<Rightarrow> nat \<Rightarrow> (u32 \<times> bool \<times> nat) option" where
  "script_ext_item tab is_common script_idx p = do {
     b8 \<leftarrow> rd tab p;
     (n, p) \<leftarrow> script_ext_run tab (p + 1) (ucast b8);
     v_len \<leftarrow> rd tab p;
     hit \<leftarrow> (if is_common then Some (v_len \<noteq> 0) else ext_has_script tab (p + 1) (unat v_len) script_idx);
     Some (n, hit, p + 1 + unat v_len) }"

lemma script_ext_item_pos: "script_ext_item tab ic si p = Some (n, hit, q) \<Longrightarrow> p < q"
  by (auto simp: script_ext_item_def bind_Some_iff dest!: script_ext_run_pos split: if_splits)

function script_ext_loop ::
  "u8 list \<Rightarrow> bool \<Rightarrow> u32 \<Rightarrow> nat \<Rightarrow> u32 \<Rightarrow> CharRange \<Rightarrow> (int \<times> CharRange) option" where
  "script_ext_loop tab is_common script_idx p c cr2 =
     (if p < length tab then
        case script_ext_item tab is_common script_idx p of
          None \<Rightarrow> None
        | Some (n, hit, p') \<Rightarrow>
            let c1 = c + n + 1 in
            try_ok (add_if hit cr2 c c1) (\<lambda>cr2. script_ext_loop tab is_common script_idx p' c1 cr2)
      else Some (0, cr2))"
  by pat_completeness auto
termination
  by (relation "measure (\<lambda>(tab, ic, si, p, c, cr). length tab - p)") (auto dest: script_ext_item_pos)

declare script_ext_loop.simps [simp del]

text \<open>
  The label \<open>fail\<close> of \<open>unicode_script\<close> ends in \<open>goto fail\<close>, so that no result is returned once an
  allocation failed (and the ranges are freed again and again).
\<close>

definition script_fail :: "(int \<times> 's) option \<Rightarrow> ('s \<Rightarrow> (int \<times> CharRange) option) \<Rightarrow> (int \<times> CharRange) option" where
  "script_fail m f = (case m of None \<Rightarrow> None | Some (r, s) \<Rightarrow> if r \<noteq> 0 then None else f s)"

definition unicode_script :: "CharRange \<Rightarrow> u8 list \<Rightarrow> bool \<Rightarrow> (int \<times> CharRange) option" where
  "unicode_script cr script_name is_ext = do {
     idx \<leftarrow> unicode_find_name unicode_script_name_table script_name;
     if idx < 0 then Some (- 2, cr)
     else
       let idx = nat idx + UNICODE_SCRIPT ''Unknown'' + 1; script_idx = of_nat idx;
           is_common = (idx = UNICODE_SCRIPT ''Common'' \<or> idx = UNICODE_SCRIPT ''Inherited'') in
       if is_ext then
         script_fail (script_loop unicode_script_table script_idx 0 0
              (cr_init (cr_mem_opaque cr) (Some (cr_realloc_func cr)))) (\<lambda>cr1.
         script_fail (script_ext_loop unicode_script_ext_table is_common script_idx 0 0
              (cr_init (cr_mem_opaque cr) (Some (cr_realloc_func cr)))) (\<lambda>cr2.
         if is_common then
           script_fail (cr_invert cr2) (\<lambda>cr2.
           script_fail (cr_op cr (cr_points cr1) (cr_len cr1) (cr_points cr2) (cr_len cr2) CR_OP_INTER) (\<lambda>cr.
           Some (0, cr)))
         else
           script_fail (cr_op cr (cr_points cr1) (cr_len cr1) (cr_points cr2) (cr_len cr2) CR_OP_UNION) (\<lambda>cr.
           Some (0, cr))))
       else
         script_fail (script_loop unicode_script_table script_idx 0 0 cr) (\<lambda>cr. Some (0, cr)) }"

definition gc_M :: "string list \<Rightarrow> u32" where
  "gc_M ids = fold (\<lambda>i m. m OR push_bit (UNICODE_GC i) 1) ids 0"

definition gc_run :: "u8 list \<Rightarrow> nat \<Rightarrow> u32 \<Rightarrow> (u32 \<times> nat) option" where
  "gc_run tab p n =
     (if n = 7 then do {
        b \<leftarrow> rd tab p;
        let n = (ucast b :: u32);
        if n < 128 then Some (n + 7, p + 1)
        else if n < 128 + 64 then do {
          b1 \<leftarrow> rd tab (p + 1);
          Some ((push_bit 8 (n - 128) OR ucast b1) + 7 + 128, p + 2) }
        else do {
          b1 \<leftarrow> rd tab (p + 1); b2 \<leftarrow> rd tab (p + 2);
          Some ((push_bit 16 (n - 128 - 64) OR push_bit 8 (ucast b1) OR ucast b2) + 7 + 128 + push_bit 14 1,
                p + 3) } }
      else Some (n, p))"

lemma gc_run_pos: "gc_run tab p n = Some (m, q) \<Longrightarrow> p \<le> q"
  by (auto simp: gc_run_def bind_Some_iff Let_def split: if_splits)

definition gc_add :: "CharRange \<Rightarrow> u32 \<Rightarrow> u32 \<Rightarrow> u32 \<Rightarrow> u32 \<Rightarrow> (int \<times> CharRange) option" where
  "gc_add cr gc_mask v c0 c =
     (if v = 31 then
        let b = gc_mask AND gc_M [''Lu'', ''Ll''] in
        if b = 0 then Some (0, cr)
        else if b = gc_M [''Lu'', ''Ll''] then cr_add_interval cr c0 c
        else add_every_second cr (c0 + truth (gc_mask AND gc_M [''Ll''] \<noteq> 0)) c
      else add_if (drop_bit (unat v) gc_mask AND 1 \<noteq> 0) cr c0 c)"

function gc_loop :: "u8 list \<Rightarrow> u32 \<Rightarrow> nat \<Rightarrow> u32 \<Rightarrow> CharRange \<Rightarrow> (int \<times> CharRange) option" where
  "gc_loop tab gc_mask p c cr =
     (if p < length tab then
        case rd tab p of
          None \<Rightarrow> None
        | Some b8 \<Rightarrow>
            let b = ucast b8 in
            case gc_run tab (p + 1) (drop_bit 5 b) of
              None \<Rightarrow> None
            | Some (n, p') \<Rightarrow>
                let c0 = c; c = c + (n + 1) in
                try_ok (gc_add cr gc_mask (b AND 0x1f) c0 c) (\<lambda>cr. gc_loop tab gc_mask p' c cr)
      else Some (0, cr))"
  by pat_completeness auto
termination
  by (relation "measure (\<lambda>(tab, m, p, c, cr). length tab - p)") (auto dest: gc_run_pos)

declare gc_loop.simps [simp del]

definition unicode_general_category1 :: "CharRange \<Rightarrow> u32 \<Rightarrow> (int \<times> CharRange) option" where
  "unicode_general_category1 cr gc_mask = gc_loop unicode_gc_table gc_mask 0 0 cr"

function prop1_loop :: "u8 list \<Rightarrow> nat \<Rightarrow> nat \<Rightarrow> u32 \<Rightarrow> bool \<Rightarrow> CharRange \<Rightarrow> (int \<times> CharRange) option" where
  "prop1_loop tab p_end p c bt cr =
     (if p < p_end then
        case rd tab p of
          None \<Rightarrow> None
        | Some b8 \<Rightarrow>
            let b = ucast b8 in
            if b < 64 then
              let c1 = c + (drop_bit 3 b + 1); c2 = c1 + ((b AND 7) + 1) in
              try_ok (add_if bt cr c c1) (\<lambda>cr.
              try_ok (add_if (\<not> bt) cr c1 c2) (\<lambda>cr.
              prop1_loop tab p_end (p + 1) c2 bt cr))
            else
              case long_run tab p b of
                None \<Rightarrow> None
              | Some (len, n) \<Rightarrow>
                  let c1 = c + len in
                  try_ok (add_if bt cr c c1) (\<lambda>cr. prop1_loop tab p_end (p + n) c1 (\<not> bt) cr)
      else Some (0, cr))"
  by pat_completeness auto
termination
  by (relation "measure (\<lambda>(tab, e, p, c, bt, cr). e - p)") (auto dest: long_run_bytes)

declare prop1_loop.simps [simp del]

definition unicode_prop1 :: "CharRange \<Rightarrow> nat \<Rightarrow> (int \<times> CharRange) option" where
  "unicode_prop1 cr prop_idx = do {
     p \<leftarrow> rd unicode_prop_table prop_idx;
     len \<leftarrow> rd unicode_prop_len_table prop_idx;
     prop1_loop p len 0 0 False cr }"

definition CASE_U :: u32 where "CASE_U = 1"
definition CASE_L :: u32 where "CASE_L = 2"
definition CASE_F :: u32 where "CASE_F = 4"

definition run_types :: "u32 list \<Rightarrow> u32" where
  "run_types ts = fold (\<lambda>t m. m OR push_bit (unat t) 1) ts 0"

definition tab_run_mask :: "u32 list" where
  "tab_run_mask =
     [run_types [RUN_TYPE_U, RUN_TYPE_UF, RUN_TYPE_UL, RUN_TYPE_LSU, RUN_TYPE_U2L_399_EXT2, RUN_TYPE_UF_D20,
        RUN_TYPE_UF_D1_EXT, RUN_TYPE_U_EXT, RUN_TYPE_U_EXT2, RUN_TYPE_U_EXT3],
      run_types [RUN_TYPE_L, RUN_TYPE_LF, RUN_TYPE_UL, RUN_TYPE_LSU, RUN_TYPE_U2L_399_EXT2, RUN_TYPE_LF_EXT,
        RUN_TYPE_L_EXT2],
      run_types [RUN_TYPE_UF, RUN_TYPE_LF, RUN_TYPE_UL, RUN_TYPE_LSU, RUN_TYPE_U2L_399_EXT2, RUN_TYPE_LF_EXT,
        RUN_TYPE_UF_D20, RUN_TYPE_UF_D1_EXT, RUN_TYPE_LF_EXT]]"

definition case_run_mask :: "u32 \<Rightarrow> u32" where
  "case_run_mask case_mask =
     fold (\<lambda>i m. if drop_bit i case_mask AND 1 \<noteq> 0 then m OR tab_run_mask ! i else m) [0..<3] 0"

definition case1_entry :: "u32 \<Rightarrow> u32 \<Rightarrow> u32 \<Rightarrow> CharRange \<Rightarrow> (int \<times> CharRange) option" where
  "case1_entry case_mask rmask v cr =
     (let type = case_conv_type v; code = run_code 17 v; len = run_len 17 v;
          upper = (case_mask AND CASE_U \<noteq> 0); both = (upper \<and> case_mask AND (CASE_L OR CASE_F) \<noteq> 0) in
      if drop_bit (unat type) rmask AND 1 = 0 then Some (0, cr)
      else if type = RUN_TYPE_UL \<and> \<not> both then
        let code = code + truth upper in add_every_second cr code (code + len)
      else if type = RUN_TYPE_LSU \<and> \<not> both then
        try_ok (add_if (\<not> upper) cr code (code + 1)) (\<lambda>cr.
        try_ok (cr_add_interval cr (code + 1) (code + 2)) (\<lambda>cr.
        add_if upper cr (code + 2) (code + 3)))
      else cr_add_interval cr code (code + len))"

fun case1_loop :: "u32 \<Rightarrow> u32 \<Rightarrow> u32 list \<Rightarrow> CharRange \<Rightarrow> (int \<times> CharRange) option" where
  "case1_loop case_mask rmask [] cr = Some (0, cr)"
| "case1_loop case_mask rmask (v # vs) cr =
     try_ok (case1_entry case_mask rmask v cr) (\<lambda>cr. case1_loop case_mask rmask vs cr)"

definition unicode_case1 :: "CharRange \<Rightarrow> u32 \<Rightarrow> (int \<times> CharRange) option" where
  "unicode_case1 cr case_mask =
     (if case_mask = 0 then Some (0, cr)
      else case1_loop case_mask (case_run_mask case_mask) case_conv_table1 cr)"

section \<open>The stack machine\<close>

datatype PropOP = POP_GC u32 | POP_PROP nat | POP_CASE u32 | POP_UNION | POP_INTER | POP_XOR | POP_INVERT

definition POP_STACK_LEN_MAX :: nat where
  "POP_STACK_LEN_MAX = 4"

fun pop_cr_op :: "PropOP \<Rightarrow> CharRangeOpEnum option" where
  "pop_cr_op POP_UNION = Some CR_OP_UNION"
| "pop_cr_op POP_INTER = Some CR_OP_INTER"
| "pop_cr_op POP_XOR = Some CR_OP_XOR"
| "pop_cr_op _ = None"

text \<open>The decoder an operation runs on a fresh range that it pushes.\<close>

fun pop_leaf :: "PropOP \<Rightarrow> (CharRange \<Rightarrow> (int \<times> CharRange) option) option" where
  "pop_leaf (POP_GC a) = Some (\<lambda>cr. unicode_general_category1 cr a)"
| "pop_leaf (POP_PROP a) = Some (\<lambda>cr. unicode_prop1 cr a)"
| "pop_leaf (POP_CASE a) = Some (\<lambda>cr. unicode_case1 cr a)"
| "pop_leaf _ = None"

text \<open>
  One operation on the stack, whose top is the last element of the array and the head of the list here. An assertion
  that fails is \<open>None\<close>.
\<close>

definition prop_op_step :: "CharRange \<Rightarrow> PropOP \<Rightarrow> CharRange list \<Rightarrow> (int \<times> CharRange list) option" where
  "prop_op_step cr opr stack =
     (let new = cr_init (cr_mem_opaque cr) (Some (cr_realloc_func cr)) in
      case pop_leaf opr of
        Some leaf \<Rightarrow>
          if length stack < POP_STACK_LEN_MAX then
            case leaf new of None \<Rightarrow> None | Some (r, cr1) \<Rightarrow> Some (r, cr1 # stack)
          else None
      | None \<Rightarrow>
          (case pop_cr_op opr of
             Some op \<Rightarrow>
               (case stack of
                  cr2 # cr1 # rest \<Rightarrow>
                    if length stack < POP_STACK_LEN_MAX then
                      case cr_op new (cr_points cr1) (cr_len cr1) (cr_points cr2) (cr_len cr2) op of
                        None \<Rightarrow> None
                      | Some (r, cr3) \<Rightarrow> if r \<noteq> 0 then Some (r, stack) else Some (0, cr3 # rest)
                    else None
                | _ \<Rightarrow> None)
           | None \<Rightarrow>
               (case stack of
                  tp # rest \<Rightarrow>
                    (case cr_invert tp of None \<Rightarrow> None | Some (r, tp) \<Rightarrow> Some (r, tp # rest))
                | [] \<Rightarrow> None)))"

fun prop_ops_loop :: "CharRange \<Rightarrow> PropOP list \<Rightarrow> CharRange list \<Rightarrow> (int \<times> CharRange list) option" where
  "prop_ops_loop cr [] stack = Some (0, stack)"
| "prop_ops_loop cr (opr # oprs) stack =
     try_ok (prop_op_step cr opr stack) (\<lambda>stack. prop_ops_loop cr oprs stack)"

definition unicode_prop_ops :: "CharRange \<Rightarrow> PropOP list \<Rightarrow> (int \<times> CharRange) option" where
  "unicode_prop_ops cr oprs =
     (case prop_ops_loop cr oprs [] of
        None \<Rightarrow> None
      | Some (r, stack) \<Rightarrow>
          if r \<noteq> 0 then Some (- 1, cr)
          else case stack of [tp] \<Rightarrow> cr_copy cr tp | _ \<Rightarrow> None)"

section \<open>Lookup by name\<close>

definition unicode_gc_mask_table :: "u32 list" where
  "unicode_gc_mask_table = map gc_M [
     [''Lu'', ''Ll'', ''Lt''],
     [''Lu'', ''Ll'', ''Lt'', ''Lm'', ''Lo''],
     [''Mn'', ''Mc'', ''Me''],
     [''Nd'', ''Nl'', ''No''],
     [''Sm'', ''Sc'', ''Sk'', ''So''],
     [''Pc'', ''Pd'', ''Ps'', ''Pe'', ''Pi'', ''Pf'', ''Po''],
     [''Zs'', ''Zl'', ''Zp''],
     [''Cc'', ''Cf'', ''Cs'', ''Co'', ''Cn'']]"

definition unicode_general_category :: "CharRange \<Rightarrow> u8 list \<Rightarrow> (int \<times> CharRange) option" where
  "unicode_general_category cr gc_name = do {
     gc_idx \<leftarrow> unicode_find_name unicode_gc_name_table gc_name;
     if gc_idx < 0 then Some (- 2, cr)
     else do {
       gc_mask \<leftarrow> (if nat gc_idx \<le> UNICODE_GC ''Co'' then Some (ucast (push_bit (nat gc_idx) 1 :: u64))
                  else rd unicode_gc_mask_table (nat gc_idx - UNICODE_GC ''LC''));
       unicode_general_category1 cr gc_mask } }"

text \<open>
  The operations \<open>unicode_prop\<close> passes to \<open>unicode_prop_ops\<close> for a derived property; the properties computed in another way and the ones that
  have a table of their own are not listed.
\<close>

definition prop_exprs :: "(string \<times> PropOP list) list" where
  "prop_exprs = [
     (''Assigned'', [POP_GC (gc_M [''Cn'']), POP_INVERT]),
     (''Math'', [POP_GC (gc_M [''Sm'']), POP_PROP (UNICODE_PROP ''Other_Math''), POP_UNION]),
     (''Lowercase'', [POP_GC (gc_M [''Ll'']), POP_PROP (UNICODE_PROP ''Other_Lowercase''), POP_UNION]),
     (''Uppercase'', [POP_GC (gc_M [''Lu'']), POP_PROP (UNICODE_PROP ''Other_Uppercase''), POP_UNION]),
     (''Cased'', [POP_GC (gc_M [''Lu'', ''Ll'', ''Lt'']), POP_PROP (UNICODE_PROP ''Other_Uppercase''), POP_UNION,
        POP_PROP (UNICODE_PROP ''Other_Lowercase''), POP_UNION]),
     (''Alphabetic'', [POP_GC (gc_M [''Lu'', ''Ll'', ''Lt'', ''Lm'', ''Lo'', ''Nl'']),
        POP_PROP (UNICODE_PROP ''Other_Uppercase''), POP_UNION, POP_PROP (UNICODE_PROP ''Other_Lowercase''),
        POP_UNION, POP_PROP (UNICODE_PROP ''Other_Alphabetic''), POP_UNION]),
     (''Grapheme_Base'', [POP_GC (gc_M [''Cc'', ''Cf'', ''Cs'', ''Co'', ''Cn'', ''Zl'', ''Zp'', ''Me'', ''Mn'']),
        POP_PROP (UNICODE_PROP ''Other_Grapheme_Extend''), POP_UNION, POP_INVERT]),
     (''Grapheme_Extend'', [POP_GC (gc_M [''Me'', ''Mn'']), POP_PROP (UNICODE_PROP ''Other_Grapheme_Extend''),
        POP_UNION]),
     (''XID_Start'', [POP_GC (gc_M [''Lu'', ''Ll'', ''Lt'', ''Lm'', ''Lo'', ''Nl'']),
        POP_PROP (UNICODE_PROP ''Other_ID_Start''), POP_UNION, POP_PROP (UNICODE_PROP ''Pattern_Syntax''),
        POP_PROP (UNICODE_PROP ''Pattern_White_Space''), POP_UNION, POP_PROP (UNICODE_PROP ''XID_Start1''),
        POP_UNION, POP_INVERT, POP_INTER]),
     (''XID_Continue'', [POP_GC (gc_M [''Lu'', ''Ll'', ''Lt'', ''Lm'', ''Lo'', ''Nl'', ''Mn'', ''Mc'', ''Nd'', ''Pc'']),
        POP_PROP (UNICODE_PROP ''Other_ID_Start''), POP_UNION, POP_PROP (UNICODE_PROP ''Other_ID_Continue''),
        POP_UNION, POP_PROP (UNICODE_PROP ''Pattern_Syntax''), POP_PROP (UNICODE_PROP ''Pattern_White_Space''),
        POP_UNION, POP_PROP (UNICODE_PROP ''XID_Continue1''), POP_UNION, POP_INVERT, POP_INTER]),
     (''Changes_When_Titlecased'', [POP_CASE CASE_U, POP_PROP (UNICODE_PROP ''Changes_When_Titlecased1''), POP_XOR]),
     (''Changes_When_Casefolded'', [POP_CASE CASE_F, POP_PROP (UNICODE_PROP ''Changes_When_Casefolded1''), POP_XOR]),
     (''Changes_When_NFKC_Casefolded'',
        [POP_CASE CASE_F, POP_PROP (UNICODE_PROP ''Changes_When_NFKC_Casefolded1''), POP_XOR]),
     (''ID_Continue'', [POP_PROP (UNICODE_PROP ''ID_Start''), POP_PROP (UNICODE_PROP ''ID_Continue1''), POP_XOR])]"

definition prop_expr :: "nat \<Rightarrow> PropOP list option" where
  "prop_expr prop_idx = map_of (map (\<lambda>(n, e). (UNICODE_PROP n, e)) prop_exprs) prop_idx"

definition unicode_prop :: "CharRange \<Rightarrow> u8 list \<Rightarrow> (int \<times> CharRange) option" where
  "unicode_prop cr prop_name = do {
     idx \<leftarrow> unicode_find_name unicode_prop_name_table prop_name;
     if idx < 0 then Some (- 2, cr)
     else
       let prop_idx = nat idx + UNICODE_PROP ''ASCII_Hex_Digit'' in
       if prop_idx = UNICODE_PROP ''ASCII'' then cr_add_interval cr 0x00 (0x7f + 1)
       else if prop_idx = UNICODE_PROP ''Any'' then cr_add_interval cr 0x00000 (0x10ffff + 1)
       else if prop_idx = UNICODE_PROP ''Changes_When_Uppercased'' then unicode_case1 cr CASE_U
       else if prop_idx = UNICODE_PROP ''Changes_When_Lowercased'' then unicode_case1 cr CASE_L
       else if prop_idx = UNICODE_PROP ''Changes_When_Casemapped'' then
         unicode_case1 cr (CASE_U OR CASE_L OR CASE_F)
       else case prop_expr prop_idx of
         Some oprs \<Rightarrow> unicode_prop_ops cr oprs
       | None \<Rightarrow>
           if prop_idx \<ge> length unicode_prop_table then Some (- 2, cr) else unicode_prop1 cr prop_idx }"

section \<open>Appending intervals\<close>

definition flat :: "(u32 \<times> u32) list \<Rightarrow> u32 list" where
  "flat ps = concat (map (\<lambda>(a, b). [a, b]) ps)"

lemma flat_simps [simp]:
  "flat [] = []" "flat ((a, b) # ps) = a # b # flat ps" "flat (ps @ qs) = flat ps @ flat qs"
  by (simp_all add: flat_def)

lemma even_length_flat [simp]: "even (length (flat ps))"
  by (induction ps) auto

definition added :: "CharRange \<Rightarrow> (int \<times> CharRange) option \<Rightarrow> (u32 \<times> u32) list \<Rightarrow> bool" where
  "added cr m ps \<longleftrightarrow> (\<exists>r cr'. m = Some (r, cr') \<and> cr_ok cr' \<and> cr_realloc_func cr' = cr_realloc_func cr \<and>
     (r = 0 \<and> cr_pts cr' = cr_pts cr @ flat ps \<or> r = - 1 \<and> \<not> total_realloc (cr_realloc_func cr)))"

lemma added_nothing: "cr_ok cr \<Longrightarrow> added cr (Some (0, cr)) []"
  by (simp add: added_def)

lemma added_interval:
  assumes ok: "cr_ok cr"
  shows "added cr (cr_add_interval cr a b) [(a, b)]"
proof -
  obtain r cr1 where r: "(if cr_len cr + 2 > cr_size cr then cr_realloc cr (cr_len cr + 2) else (0, cr)) = (r, cr1)"
    by (metis surj_pair)
  have g: "cr_ok cr1 \<and> cr_pts cr1 = cr_pts cr \<and> cr_len cr1 = cr_len cr \<and>
    cr_realloc_func cr1 = cr_realloc_func cr \<and>
    (r = 0 \<and> cr_len cr + 2 \<le> cr_size cr1 \<or> r = - 1 \<and> \<not> total_realloc (cr_realloc_func cr))"
    using r ok cr_realloc_cases [OF ok, of "cr_len cr + 2" r cr1] by (auto split: if_splits)
  show ?thesis
  proof (cases "r = 0")
    case False
    with r g show ?thesis unfolding cr_add_interval_def added_def r by auto
  next
    case True
    let ?b = "(cr_points cr1)[cr_len cr1 := a, cr_len cr1 + 1 := b]"
    have len: "cr_len cr1 + 1 < length (cr_points cr1)" using g True by (auto simp: cr_ok_def)
    then have "take (cr_len cr1 + 2) ?b = take (cr_len cr1) (cr_points cr1) @ [a, b]"
      by (simp add: take_Suc_snoc)
    moreover have "cr_add_interval cr a b = Some (0, cr1\<lparr>cr_points := ?b, cr_len := cr_len cr1 + 2\<rparr>)"
      using len True unfolding cr_add_interval_def r by (simp add: wr_def)
    ultimately show ?thesis
      using g len unfolding added_def by (auto simp: cr_pts_def cr_ok_def)
  qed
qed

lemma added_add_if: "cr_ok cr \<Longrightarrow> added cr (add_if b cr c0 c) (if b then [(c0, c)] else [])"
  by (simp add: add_if_def added_interval added_nothing)

lemma added_try:
  assumes "added cr m ps"
    and "\<And>cr'. cr_ok cr' \<Longrightarrow> added cr' (f cr') qs"
  shows "added cr (try_ok m f) (ps @ qs)"
proof -
  obtain r cr' where m: "m = Some (r, cr')" "cr_ok cr'" "cr_realloc_func cr' = cr_realloc_func cr"
    "r = 0 \<and> cr_pts cr' = cr_pts cr @ flat ps \<or> r = - 1 \<and> \<not> total_realloc (cr_realloc_func cr)"
    using assms(1) by (auto simp: added_def)
  show ?thesis
  proof (cases "r = 0")
    case True
    with m assms(2) [OF m(2)] show ?thesis by (auto simp: try_ok_def added_def)
  next
    case False
    with m show ?thesis by (auto simp: try_ok_def added_def)
  qed
qed

section \<open>Property tables\<close>

text \<open>The intervals of the runs that have the property, from code point \<open>c\<close> on.\<close>

fun run_pairs :: "bool \<Rightarrow> int \<Rightarrow> int list \<Rightarrow> (u32 \<times> u32) list" where
  "run_pairs bt c [] = []"
| "run_pairs bt c (n # ns) =
     (if bt then [(word_of_int c, word_of_int (c + n))] else []) @ run_pairs (\<not> bt) (c + n) ns"

lemma word_of_int_step: "uint b = k \<Longrightarrow> word_of_int (c + k) = word_of_int c + (b :: u32)"
  by (metis wi_hom_add word_of_int_uint)

lemma prop1_loop_long:
  assumes p: "p < length tab" "p < p_end" "64 \<le> uint (tab ! p)" and ok: "cr_ok cr"
    and run: "long_run tab p (ucast (tab ! p)) = Some (len, n)" "uint len = m"
    and IH: "\<And>cr. cr_ok cr \<Longrightarrow> added cr (prop1_loop tab p_end (p + n) (word_of_int (c + m)) (\<not> bt) cr) qs"
  shows "added cr (prop1_loop tab p_end p (word_of_int c) bt cr)
     ((if bt then [(word_of_int c, word_of_int (c + m))] else []) @ qs)"
proof -
  have x: "\<not> (ucast (tab ! p) :: u32) < 64"
    using p by (simp add: word_less_def byte_fields)
  have step: "prop1_loop tab p_end p (word_of_int c) bt cr =
      try_ok (add_if bt cr (word_of_int c) (word_of_int (c + m)))
        (\<lambda>cr. prop1_loop tab p_end (p + n) (word_of_int (c + m)) (\<not> bt) cr)"
    unfolding word_of_int_step [OF run(2)]
    using p x run(1) by (simp add: prop1_loop.simps [of tab p_end p] Let_def)
  show ?thesis unfolding step by (intro added_try added_add_if ok IH)
qed

lemma prop1_loop_added:
  assumes "prop_runs bs = Some ns" and "map uint (drop p tab) = bs" and "p_end = length tab" and "cr_ok cr"
  shows "added cr (prop1_loop tab p_end p (word_of_int c) bt cr) (run_pairs bt c ns)"
  using assms
proof (induction arbitrary: p c bt cr rule: prop_runs_induct)
  case Nil
  then show ?case by (simp add: prop1_loop.simps [of tab] added_nothing)
next
  case (short b r ms)
  note at = drop_uint_Cons [OF short.prems(1)]
  define x :: u32 where "x = ucast (tab ! p)"
  define s1 s2 where "s1 = drop_bit 3 x + 1" and "s2 = (x AND 7) + 1"
  have x: "uint x = b" "uint s1 = b div 8 + 1" "uint s2 = b mod 8 + 1"
    using at by (simp_all add: x_def byte_fields s1_def s2_def)
  have p: "p < p_end" "p < length tab" "x < 64" using at short x by (simp_all add: word_less_def)
  have step: "prop1_loop tab p_end p (word_of_int c) bt cr =
      try_ok (add_if bt cr (word_of_int c) (word_of_int (c + (b div 8 + 1)))) (\<lambda>cr.
      try_ok (add_if (\<not> bt) cr (word_of_int (c + (b div 8 + 1))) (word_of_int (c + (b div 8 + 1) + (b mod 8 + 1)))) (\<lambda>cr.
      prop1_loop tab p_end (p + 1) (word_of_int (c + (b div 8 + 1) + (b mod 8 + 1))) bt cr))"
    unfolding word_of_int_step [OF x(2)] word_of_int_step [OF x(3)]
    using p by (simp add: prop1_loop.simps [of tab p_end p] Let_def flip: x_def s1_def s2_def)
  have "added cr (prop1_loop tab p_end p (word_of_int c) bt cr)
     ((if bt then [(word_of_int c, word_of_int (c + (b div 8 + 1)))] else []) @
      (if \<not> bt then [(word_of_int (c + (b div 8 + 1)), word_of_int (c + (b div 8 + 1) + (b mod 8 + 1)))] else []) @
      run_pairs bt (c + (b div 8 + 1) + (b mod 8 + 1)) ms)"
    unfolding step by (intro added_try added_add_if short.IH) (use at short.prems in simp_all)
  then show ?case by simp
next
  case (one b r ms)
  note at = drop_uint_Cons [OF one.prems(1)]
  obtain len where run: "long_run tab p (ucast (tab ! p)) = Some (len, 1)" "uint len = b - 127"
    using long_run_value(1) [of p tab] at one.hyps by auto
  show ?case unfolding run_pairs.simps
    by (intro prop1_loop_long [OF _ _ _ _ run] one.IH) (use one.hyps one.prems at in \<open>simp_all add: numeral_3_eq_3\<close>)
next
  case (two b d r ms)
  note at = drop_uint_Cons [OF two.prems(1)]
  note at1 = drop_uint_Cons [OF at [THEN conjunct2, THEN conjunct2]]
  obtain len where run: "long_run tab p (ucast (tab ! p)) = Some (len, 2)"
    "uint len = (b - 64) * 256 + d + 1"
    using long_run_value(2) [of p tab] at at1 two.hyps by auto
  show ?case unfolding run_pairs.simps
    by (intro prop1_loop_long [OF _ _ _ _ run] two.IH) (use two.hyps two.prems at at1 in \<open>simp_all add: numeral_3_eq_3\<close>)
next
  case (three b d e r ms)
  note at = drop_uint_Cons [OF three.prems(1)]
  note at1 = drop_uint_Cons [OF at [THEN conjunct2, THEN conjunct2]]
  note at2 = drop_uint_Cons [OF at1 [THEN conjunct2, THEN conjunct2]]
  obtain len where run: "long_run tab p (ucast (tab ! p)) = Some (len, 3)"
    "uint len = (b - 96) * 65536 + d * 256 + e + 1"
    using long_run_value(3) [of p tab] at at1 at2 three.hyps by auto
  show ?case unfolding run_pairs.simps
    by (intro prop1_loop_long [OF _ _ _ _ run] three.IH) (use three.hyps three.prems at at1 at2 in \<open>simp_all add: numeral_3_eq_3\<close>)
qed


lemma uint_of_int_u32: "0 \<le> n \<Longrightarrow> n < 0x100000000 \<Longrightarrow> uint (word_of_int n :: u32) = n"
  by (simp add: uint_of_int_small)

lemma in_run_pairs:
  assumes "\<forall>n \<in> set ns. 0 < n" and "0 \<le> a" and "a + sum_list ns < 0x100000000"
  shows "in_points (flat (run_pairs bt a ns)) c \<longleftrightarrow>
    a \<le> uint c \<and> uint c < a + sum_list ns \<and> (bt \<noteq> odd_ends a ns (uint c))"
  using assms
proof (induction ns arbitrary: a bt)
  case (Cons n ns)
  have n: "0 < n" "0 \<le> sum_list ns" using Cons.prems sum_runs_nonneg by auto
  have "uint (word_of_int a :: u32) = a" "uint (word_of_int (a + n) :: u32) = a + n"
    using Cons.prems n by (intro uint_of_int_u32; simp)+
  then have le: "word_of_int a \<le> c \<longleftrightarrow> a \<le> uint c" "word_of_int (a + n) \<le> c \<longleftrightarrow> a + n \<le> uint c"
    by (simp_all only: word_le_def)
  have IH: "in_points (flat (run_pairs (\<not> bt) (a + n) ns)) c \<longleftrightarrow>
      a + n \<le> uint c \<and> uint c < a + n + sum_list ns \<and> ((\<not> bt) \<noteq> odd_ends (a + n) ns (uint c))"
    using Cons.prems n by (intro Cons.IH) auto
  have none: "\<not> a + n \<le> uint c \<Longrightarrow> \<not> odd_ends (a + n) ns (uint c)"
    using Cons.prems odd_ends_none [of ns "uint c" "a + n"] by auto
  show ?case
    using none n IH unfolding run_pairs.simps flat_simps odd_ends_simps
    by (cases bt) (auto simp: in_points_append le simp del: wi_hom_add of_int_add)
qed simp

lemma run_pairs_ascending:
  assumes "\<forall>n \<in> set ns. 0 < n" and "0 \<le> a" and "a + sum_list ns < 0x100000000"
  shows "sorted_wrt (<) (flat (run_pairs bt a ns)) \<and> (\<forall>e \<in> set (flat (run_pairs bt a ns)). a < uint e \<or> bt \<and> a = uint e)"
  using assms
proof (induction ns arbitrary: a bt)
  case (Cons n ns)
  have n: "0 < n" "0 \<le> sum_list ns" using Cons.prems sum_runs_nonneg by auto
  have u: "uint (word_of_int a :: u32) = a" "uint (word_of_int (a + n) :: u32) = a + n"
    using Cons.prems n by (intro uint_of_int_u32; simp)+
  have "sorted_wrt (<) (flat (run_pairs (\<not> bt) (a + n) ns)) \<and>
      (\<forall>e \<in> set (flat (run_pairs (\<not> bt) (a + n) ns)). a + n < uint e \<or> \<not> bt \<and> a + n = uint e)"
    using Cons.prems n by (intro Cons.IH) auto
  then show ?case
    using u n by (cases bt) (auto intro!: word_less_def [THEN iffD2] simp del: wi_hom_add of_int_add)
qed simp


text \<open>
  Every table of \<open>unicode_prop_table\<close> decodes into runs that end within the code points; the tables with an index
  were checked with it.
\<close>

definition runs_within :: "int list \<Rightarrow> bool" where
  "runs_within xs \<longleftrightarrow>
     list_all (\<lambda>b. 0 \<le> b \<and> b < 256) xs \<and>
     (case prop_runs xs of None \<Rightarrow> False | Some ns \<Rightarrow> sum_list ns \<le> 0x110000)"

definition table_ok :: "u8 list \<Rightarrow> bool" where
  "table_ok tab \<longleftrightarrow> (\<exists>ns. prop_runs (map uint tab) = Some ns \<and> sum_list ns < 0x100000000)"

lemma table_okI: "tab = map word_of_int xs \<Longrightarrow> runs_within xs \<Longrightarrow> table_ok tab"
  using map_uint_of_int [of xs] by (auto simp: table_ok_def runs_within_def split: option.splits)

lemmas plain_table_defs =
  unicode_prop_Hyphen_table_def unicode_prop_Other_Math_table_def
  unicode_prop_Other_Alphabetic_table_def unicode_prop_Other_Lowercase_table_def
  unicode_prop_Other_Uppercase_table_def unicode_prop_Other_Grapheme_Extend_table_def
  unicode_prop_Other_Default_Ignorable_Code_Point_table_def unicode_prop_Other_ID_Start_table_def
  unicode_prop_Other_ID_Continue_table_def unicode_prop_Prepended_Concatenation_Mark_table_def
  unicode_prop_XID_Start1_table_def unicode_prop_XID_Continue1_table_def
  unicode_prop_Changes_When_Titlecased1_table_def unicode_prop_Changes_When_Casefolded1_table_def
  unicode_prop_Changes_When_NFKC_Casefolded1_table_def unicode_prop_ASCII_Hex_Digit_table_def
  unicode_prop_Bidi_Control_table_def unicode_prop_Dash_table_def unicode_prop_Deprecated_table_def
  unicode_prop_Diacritic_table_def unicode_prop_Extender_table_def unicode_prop_Hex_Digit_table_def
  unicode_prop_IDS_Binary_Operator_table_def unicode_prop_IDS_Trinary_Operator_table_def
  unicode_prop_Ideographic_table_def unicode_prop_Join_Control_table_def
  unicode_prop_Logical_Order_Exception_table_def unicode_prop_Noncharacter_Code_Point_table_def
  unicode_prop_Pattern_Syntax_table_def unicode_prop_Pattern_White_Space_table_def
  unicode_prop_Quotation_Mark_table_def unicode_prop_Radical_table_def
  unicode_prop_Regional_Indicator_table_def unicode_prop_Sentence_Terminal_table_def
  unicode_prop_Soft_Dotted_table_def unicode_prop_Terminal_Punctuation_table_def
  unicode_prop_Unified_Ideograph_table_def unicode_prop_Variation_Selector_table_def
  unicode_prop_White_Space_table_def unicode_prop_Bidi_Mirrored_table_def
  unicode_prop_Emoji_table_def unicode_prop_Emoji_Component_table_def
  unicode_prop_Emoji_Modifier_table_def unicode_prop_Emoji_Modifier_Base_table_def
  unicode_prop_Emoji_Presentation_table_def unicode_prop_Extended_Pictographic_table_def
  unicode_prop_Default_Ignorable_Code_Point_table_def

lemma plain_tables_ok:
  "table_ok unicode_prop_Hyphen_table"
  "table_ok unicode_prop_Other_Math_table"
  "table_ok unicode_prop_Other_Alphabetic_table"
  "table_ok unicode_prop_Other_Lowercase_table"
  "table_ok unicode_prop_Other_Uppercase_table"
  "table_ok unicode_prop_Other_Grapheme_Extend_table"
  "table_ok unicode_prop_Other_Default_Ignorable_Code_Point_table"
  "table_ok unicode_prop_Other_ID_Start_table"
  "table_ok unicode_prop_Other_ID_Continue_table"
  "table_ok unicode_prop_Prepended_Concatenation_Mark_table"
  "table_ok unicode_prop_XID_Start1_table"
  "table_ok unicode_prop_XID_Continue1_table"
  "table_ok unicode_prop_Changes_When_Titlecased1_table"
  "table_ok unicode_prop_Changes_When_Casefolded1_table"
  "table_ok unicode_prop_Changes_When_NFKC_Casefolded1_table"
  "table_ok unicode_prop_ASCII_Hex_Digit_table"
  "table_ok unicode_prop_Bidi_Control_table"
  "table_ok unicode_prop_Dash_table"
  "table_ok unicode_prop_Deprecated_table"
  "table_ok unicode_prop_Diacritic_table"
  "table_ok unicode_prop_Extender_table"
  "table_ok unicode_prop_Hex_Digit_table"
  "table_ok unicode_prop_IDS_Binary_Operator_table"
  "table_ok unicode_prop_IDS_Trinary_Operator_table"
  "table_ok unicode_prop_Ideographic_table"
  "table_ok unicode_prop_Join_Control_table"
  "table_ok unicode_prop_Logical_Order_Exception_table"
  "table_ok unicode_prop_Noncharacter_Code_Point_table"
  "table_ok unicode_prop_Pattern_Syntax_table"
  "table_ok unicode_prop_Pattern_White_Space_table"
  "table_ok unicode_prop_Quotation_Mark_table"
  "table_ok unicode_prop_Radical_table"
  "table_ok unicode_prop_Regional_Indicator_table"
  "table_ok unicode_prop_Sentence_Terminal_table"
  "table_ok unicode_prop_Soft_Dotted_table"
  "table_ok unicode_prop_Terminal_Punctuation_table"
  "table_ok unicode_prop_Unified_Ideograph_table"
  "table_ok unicode_prop_Variation_Selector_table"
  "table_ok unicode_prop_White_Space_table"
  "table_ok unicode_prop_Bidi_Mirrored_table"
  "table_ok unicode_prop_Emoji_table"
  "table_ok unicode_prop_Emoji_Component_table"
  "table_ok unicode_prop_Emoji_Modifier_table"
  "table_ok unicode_prop_Emoji_Modifier_Base_table"
  "table_ok unicode_prop_Emoji_Presentation_table"
  "table_ok unicode_prop_Extended_Pictographic_table"
  "table_ok unicode_prop_Default_Ignorable_Code_Point_table"
  by (rule table_okI, rule plain_table_defs, code_simp)+

lemma indexed_tables_ok:
  "table_ok unicode_prop_ID_Start_table" "table_ok unicode_prop_Case_Ignorable_table"
  "table_ok unicode_prop_ID_Continue1_table"
  using id_start.runs id_start.total_bound case_ignorable.runs case_ignorable.total_bound
    id_continue1.runs id_continue1.total_bound by (auto simp: table_ok_def)

lemma prop_tables_ok: "list_all table_ok unicode_prop_table"
  by (simp add: unicode_prop_table_def plain_tables_ok indexed_tables_ok)


lemma unicode_prop1_pts:
  assumes "prop_idx < length unicode_prop_table" and "cr_ok cr"
  shows "added cr (unicode_prop1 cr prop_idx) (run_pairs False 0 (table_runs (unicode_prop_table ! prop_idx)))"
proof -
  let ?tab = "unicode_prop_table ! prop_idx"
  obtain ns where ns: "prop_runs (map uint ?tab) = Some ns"
    using prop_tables_ok assms(1) by (auto simp: list_all_length table_ok_def)
  have len: "unicode_prop_len_table = map length unicode_prop_table"
    by (simp add: unicode_prop_len_table_def unicode_prop_table_def)
  have "unicode_prop1 cr prop_idx = prop1_loop ?tab (length ?tab) 0 (word_of_int 0) False cr"
    using assms(1) by (simp add: unicode_prop1_def len)
  with prop1_loop_added [OF ns, of 0 ?tab "length ?tab" cr 0 False] assms(2) ns
  show ?thesis by (simp add: table_runs_def)
qed

definition table_has :: "u8 list \<Rightarrow> u32 \<Rightarrow> bool" where
  "table_has tab c \<longleftrightarrow> uint c < sum_list (table_runs tab) \<and> odd_ends 0 (table_runs tab) (uint c)"

lemma table_pts:
  assumes "table_ok tab"
  shows "cr_normal (flat (run_pairs False 0 (table_runs tab)))"
    "in_points (flat (run_pairs False 0 (table_runs tab))) c \<longleftrightarrow> table_has tab c"
proof -
  have runs: "\<forall>n \<in> set (table_runs tab). 0 < n" "sum_list (table_runs tab) < 0x100000000"
    using assms prop_runs_pos by (fastforce simp: table_ok_def table_runs_def)+
  then show "cr_normal (flat (run_pairs False 0 (table_runs tab)))"
    using run_pairs_ascending [of "table_runs tab" 0 False] by (simp add: cr_normal_def)
  show "in_points (flat (run_pairs False 0 (table_runs tab))) c \<longleftrightarrow> table_has tab c"
    using in_run_pairs [OF runs(1), of 0 False c] runs(2) by (simp add: table_has_def)
qed

lemma prop_ids:
  "UNICODE_PROP ''ID_Start'' = 48" "UNICODE_PROP ''Case_Ignorable'' = 49" "UNICODE_PROP ''ID_Continue1'' = 10"
  by (simp_all add: UNICODE_PROP_def enum_index_def UnicodePropertyEnum_def)

lemma prop_table_entries:
  "unicode_prop_table ! 48 = unicode_prop_ID_Start_table"
  "unicode_prop_table ! 49 = unicode_prop_Case_Ignorable_table"
  "unicode_prop_table ! 10 = unicode_prop_ID_Continue1_table" "length unicode_prop_table = 50"
  by (simp_all add: unicode_prop_table_def)

text \<open>
  C24. The indexed lookups and the decoded range of a property agree: for every code point, \<open>lre_is_id_start\<close>
  (and likewise \<open>lre_is_case_ignorable\<close>, and the second table of \<open>lre_is_id_continue\<close>) never reads outside its tables and says exactly whether the code point is in the range that
  \<open>unicode_prop1\<close> decodes from the whole table. The decoder stays in the table and the range in its blocks whatever the allocator does, and it returns -1 only with a
  failing allocator.
\<close>

theorem lookup_agrees_with_range:
  assumes "cr_ok cr" and "cr_len cr = 0"
    and "(n, lookup) \<in> {(''ID_Start'', lre_is_id_start), (''Case_Ignorable'', lre_is_case_ignorable),
           (''ID_Continue1'', \<lambda>c. lre_is_in_table c unicode_prop_ID_Continue1_table
              unicode_prop_ID_Continue1_index (length unicode_prop_ID_Continue1_index div 3))}"
  shows "(\<forall>c. lookup c \<noteq> None) \<and> (\<exists>r cr'. unicode_prop1 cr (UNICODE_PROP n) = Some (r, cr') \<and> cr_ok cr' \<and>
    (r = 0 \<and> cr_wf cr' \<and> (\<forall>c. lookup c = Some (in_points (cr_pts cr') c)) \<or> r = - 1 \<and> \<not> total_realloc (cr_realloc_func cr)))"
proof -
  have main: "(\<forall>c. Some (table_has tab c) \<noteq> None) \<and> (\<exists>r cr'. unicode_prop1 cr i = Some (r, cr') \<and> cr_ok cr' \<and>
      (r = 0 \<and> cr_wf cr' \<and> (\<forall>c. Some (table_has tab c) = Some (in_points (cr_pts cr') c)) \<or> r = - 1 \<and> \<not> total_realloc (cr_realloc_func cr)))"
    if i: "i < 50" "unicode_prop_table ! i = tab" and ok: "table_ok tab" for i tab
    using unicode_prop1_pts [of i cr] i assms(1,2) table_pts [OF ok] prop_table_entries(4)
    by (auto simp: added_def cr_wf_def cr_pts_def)
  have lookups: "lre_is_id_start c = Some (table_has unicode_prop_ID_Start_table c)"
    "lre_is_case_ignorable c = Some (table_has unicode_prop_Case_Ignorable_table c)"
    "lre_is_in_table c unicode_prop_ID_Continue1_table unicode_prop_ID_Continue1_index
       (length unicode_prop_ID_Continue1_index div 3) = Some (table_has unicode_prop_ID_Continue1_table c)" for c
    unfolding lre_is_id_start_def lre_is_case_ignorable_def table_has_def
    by (rule id_start.is_in_table_correct case_ignorable.is_in_table_correct id_continue1.is_in_table_correct)+
  from assms(3) consider "n = ''ID_Start''" "lookup = lre_is_id_start"
    | "n = ''Case_Ignorable''" "lookup = lre_is_case_ignorable"
    | "n = ''ID_Continue1''" "lookup = (\<lambda>c. lre_is_in_table c unicode_prop_ID_Continue1_table
         unicode_prop_ID_Continue1_index (length unicode_prop_ID_Continue1_index div 3))"
    by blast
  then show ?thesis
  proof cases
    case 1
    show ?thesis unfolding 1 prop_ids lookups
      by (rule main) (simp_all add: prop_table_entries indexed_tables_ok)
  next
    case 2
    show ?thesis unfolding 2 prop_ids lookups
      by (rule main) (simp_all add: prop_table_entries indexed_tables_ok)
  next
    case 3
    show ?thesis unfolding 3 prop_ids lookups
      by (rule main) (simp_all add: prop_table_entries indexed_tables_ok)
  qed
qed

theorem lookup_agrees_with_range_witness:
  "\<exists>cr'. unicode_prop1 (cr_init 0 (Some ample_realloc)) (UNICODE_PROP ''ID_Start'') = Some (0, cr') \<and> cr_wf cr' \<and>
    (\<forall>c. lre_is_id_start c = Some (in_points (cr_pts cr') c))"
  using lookup_agrees_with_range [of "cr_init 0 (Some ample_realloc)" "''ID_Start''" lre_is_id_start] ample_realloc
  by (auto simp: cr_init_ok)

end
