(* ===== verification/UnicodeSets.thy ===== *)
theory UnicodeSets
  imports UnicodeProps
begin

text \<open>
  What the decoders of \<^verbatim>\<open>libunicode.c\<close> compute, as sets of code points: the general categories, and the expressions evaluated by the
  stack machine \<open>unicode_prop_ops\<close>.
\<close>

section \<open>Ascending intervals\<close>

definition wi :: "int \<times> int \<Rightarrow> u32 \<times> u32" where
  "wi ab = (word_of_int (fst ab), word_of_int (snd ab))"

lemma wi_pair [simp]: "wi (a, b) = (word_of_int a, word_of_int b)"
  by (simp add: wi_def)

text \<open>Intervals in ascending order between \<open>lo\<close> and \<open>hi\<close>; neighbours may touch.\<close>

fun asc :: "int \<Rightarrow> int \<Rightarrow> (int \<times> int) list \<Rightarrow> bool" where
  "asc lo hi [] \<longleftrightarrow> lo \<le> hi"
| "asc lo hi ((a, b) # ps) \<longleftrightarrow> lo \<le> a \<and> a \<le> b \<and> asc b hi ps"

definition in_ivs :: "(int \<times> int) list \<Rightarrow> int \<Rightarrow> bool" where
  "in_ivs ps x \<longleftrightarrow> (\<exists>(a, b) \<in> set ps. a \<le> x \<and> x < b)"

lemma in_ivs_simps [simp]:
  "\<not> in_ivs [] x" "in_ivs ((a, b) # ps) x \<longleftrightarrow> a \<le> x \<and> x < b \<or> in_ivs ps x"
  "in_ivs (ps @ qs) x \<longleftrightarrow> in_ivs ps x \<or> in_ivs qs x"
  by (auto simp: in_ivs_def)

lemma asc_le: "asc lo hi ps \<Longrightarrow> lo \<le> hi"
  by (induction ps arbitrary: lo) force+

lemma asc_mono: "lo \<le> m \<Longrightarrow> asc m hi qs \<Longrightarrow> asc lo hi qs"
  by (cases qs) auto

lemma asc_append: "asc lo m ps \<Longrightarrow> asc m hi qs \<Longrightarrow> asc lo hi (ps @ qs)"
  by (induction ps arbitrary: lo) (auto intro: asc_mono)

lemma asc_below: "asc lo hi ps \<Longrightarrow> x < lo \<Longrightarrow> \<not> in_ivs ps x"
proof (induction ps arbitrary: lo)
  case (Cons p ps)
  obtain a b where "p = (a, b)" by (cases p)
  with Cons.prems Cons.IH [of b] show ?case by auto
qed simp

lemma asc_points:
  assumes "asc lo hi ps" and "0 \<le> lo" and "hi < 0x100000000"
  shows "sorted (flat (map wi ps)) \<and> (\<forall>e \<in> set (flat (map wi ps)). lo \<le> uint e) \<and>
    (in_points (flat (map wi ps)) c \<longleftrightarrow> in_ivs ps (uint c))"
  using assms
proof (induction ps arbitrary: lo)
  case (Cons p ps)
  obtain a b where p: "p = (a, b)" by (cases p)
  have ab: "lo \<le> a" "a \<le> b" "asc b hi ps" "b \<le> hi" using Cons.prems p asc_le by auto
  have u: "uint (word_of_int a :: u32) = a" "uint (word_of_int b :: u32) = b"
    using ab Cons.prems by (intro uint_of_int_u32; simp)+
  have IH: "sorted (flat (map wi ps)) \<and> (\<forall>e \<in> set (flat (map wi ps)). b \<le> uint e) \<and>
      (in_points (flat (map wi ps)) c \<longleftrightarrow> in_ivs ps (uint c))"
    using ab Cons.prems by (intro Cons.IH) auto
  have srt: "sorted (word_of_int a # word_of_int b # flat (map wi ps))"
    using IH ab u by (auto intro!: word_le_def [THEN iffD2])
  have le: "word_of_int a \<le> c \<longleftrightarrow> a \<le> uint c" "word_of_int b \<le> c \<longleftrightarrow> b \<le> uint c"
    by (simp_all only: word_le_def u)
  have "b \<le> uint c \<or> \<not> in_ivs ps (uint c)" using asc_below [OF ab(3), of "uint c"] by linarith
  then show ?case
    using srt IH ab u by (auto simp: p le)
qed simp

section \<open>General categories\<close>

fun gc_items :: "int list \<Rightarrow> (int \<times> int) list option" where
  "gc_items [] = Some []"
| "gc_items (b # r) =
     (if b div 32 \<noteq> 7 then map_option ((#) (b div 32 + 1, b mod 32)) (gc_items r)
      else
        case r of
          [] \<Rightarrow> None
        | x # r \<Rightarrow>
            if x < 128 then map_option ((#) (x + 8, b mod 32)) (gc_items r)
            else if x < 192 then
              case r of
                [] \<Rightarrow> None
              | y # r \<Rightarrow> map_option ((#) ((x - 128) * 256 + y + 136, b mod 32)) (gc_items r)
            else
              case r of
                y # z # r \<Rightarrow> map_option ((#) ((x - 192) * 65536 + y * 256 + z + 16520, b mod 32)) (gc_items r)
              | _ \<Rightarrow> None)"

text \<open>
  The run at position \<open>p\<close> of a table: its length, its value and the position after it.
\<close>

definition gc_item :: "u8 list \<Rightarrow> nat \<Rightarrow> (u32 \<times> u32 \<times> nat) option" where
  "gc_item tab p = do {
     b8 \<leftarrow> rd tab p;
     (n, p') \<leftarrow> gc_run tab (p + 1) (drop_bit 5 (ucast b8));
     Some (n + 1, ucast b8 AND 0x1f, p') }"

lemma gc_loop_item:
  assumes "p < length tab" and "gc_item tab p = Some (n, v, p')"
  shows "gc_loop tab gc_mask p c cr =
     try_ok (gc_add cr gc_mask v c (c + n)) (\<lambda>cr. gc_loop tab gc_mask p' (c + n) cr)"
  using assms by (auto simp: gc_loop.simps [of tab gc_mask p c cr] gc_item_def bind_Some_iff Let_def)

lemma gc_items_step:
  assumes "gc_items (map uint (drop p tab)) = Some its" and "p < length tab"
  shows "\<exists>n v p' rest. gc_item tab p = Some (n, v, p') \<and> p < p' \<and> its = (uint n, uint v) # rest \<and>
    gc_items (map uint (drop p' tab)) = Some rest"
proof -
  define at where "at q = uint (tab ! q)" for q
  define b :: u32 where "b = ucast (tab ! p)"
  have lt: "at q < 256" "0 \<le> at q" for q
    using unsigned_less [of "tab ! q", where 'a = int] by (simp_all add: at_def)
  have drp: "map uint (drop q tab) = at q # map uint (drop (Suc q) tab)" if "q < length tab" for q
    using that by (simp add: at_def flip: Cons_nth_drop_Suc)
  have b: "uint b = at p" "uint (drop_bit 5 b) = at p div 32" "uint (b AND 0x1f) = at p mod 32"
    using uint_and_mask [of b 5] by (simp_all add: b_def at_def uint_drop_bit byte_fields mask_eq_decr_exp)
  have item: "gc_item tab p = map_option (\<lambda>(n, p'). (n + 1, b AND 0x1f, p')) (gc_run tab (p + 1) (drop_bit 5 b))"
    using assms(2) by (cases "gc_run tab (p + 1) (drop_bit 5 b)") (auto simp: gc_item_def b_def)
  have seven: "drop_bit 5 b = 7 \<longleftrightarrow> at p div 32 = 7"
    using b(2) unfolding word_uint_eq_iff by simp
  note its = assms(1) [unfolded drp [OF assms(2)] gc_items.simps]
  show ?thesis
  proof (cases "at p div 32 = 7")
    case False
    then have "uint (drop_bit 5 b + 1) = at p div 32 + 1"
      using b(2) lt [of p] by (subst uint_add_small) auto
    with False its b(3) show ?thesis by (auto simp: item gc_run_def seven)
  next
    case True
    have x: "p + 1 < length tab" using its True by (cases "p + 1 < length tab") auto
    define n :: u32 where "n = ucast (tab ! (p + 1))"
    have n: "uint n = at (p + 1)" by (simp add: n_def at_def byte_fields)
    have sub: "uint (n - k) = at (p + 1) - uint k" if "uint k \<le> at (p + 1)" for k
      using that n by (simp add: uint_sub_lem [THEN iffD1])
    have run: "gc_run tab (p + 1) 7 =
      (if n < 128 then Some (n + 7, p + 1 + 1)
       else if n < 192 then do {
         b1 \<leftarrow> rd tab (p + 1 + 1); Some ((push_bit 8 (n - 128) OR ucast b1) + 7 + 128, p + 1 + 2) }
       else do {
         b1 \<leftarrow> rd tab (p + 1 + 1); b2 \<leftarrow> rd tab (p + 1 + 2);
         Some ((push_bit 16 (n - 192) OR push_bit 8 (ucast b1) OR ucast b2) + 7 + 128 + push_bit 14 1, p + 1 + 3) })"
      using x by (simp add: gc_run_def n_def Let_def)
    note its' = its [unfolded drp [OF x, simplified] list.case]
    have item': "gc_item tab p = map_option (\<lambda>(n, p'). (n + 1, b AND 0x1f, p')) (gc_run tab (p + 1) 7)"
      using item seven True by simp
    consider "at (p + 1) < 128" | "128 \<le> at (p + 1)" "at (p + 1) < 192" | "192 \<le> at (p + 1)" by linarith
    then show ?thesis
    proof cases
      case 1
      have i: "gc_item tab p = Some (n + 7 + 1, b AND 0x1f, p + 2)"
        unfolding item' run using 1 n by (simp add: word_less_def)
      have "uint (n + 7 + 1) = at (p + 1) + 8" using n 1 by (simp add: uint_add_small)
      with 1 its' True b(3) i show ?thesis by auto
    next
      case 2
      have y: "p + 2 < length tab" using its' True 2 by (cases "p + 2 < length tab") auto
      have i: "gc_item tab p = Some ((push_bit 8 (n - 128) OR ucast (tab ! (p + 2))) + 7 + 128 + 1, b AND 0x1f, p + 3)"
        unfolding item' run using 2 n y by (simp add: word_less_def)
      have "uint (push_bit 8 (n - 128) OR ucast (tab ! (p + 2))) = (at (p + 1) - 128) * 256 + at (p + 2)"
        using 2 sub [of 128] by (subst uint_join8) (simp_all add: at_def)
      then have "uint ((push_bit 8 (n - 128) OR ucast (tab ! (p + 2))) + 7 + 128 + 1) = (at (p + 1) - 128) * 256 + at (p + 2) + 136"
        using 2 lt [of "p + 2"] by (simp add: uint_add_small)
      with 2 its' [unfolded drp [OF y, simplified]] True b(3) i show ?thesis by (auto simp: numeral_3_eq_3)
    next
      case 3
      have y: "p + 3 < length tab" using its' True 3
        by (cases "p + 3 < length tab"; cases "p + 2 < length tab") (auto simp: drp split: list.splits)
      then have y2: "p + 2 < length tab" by simp
      let ?m = "(push_bit 16 (n - 192) OR push_bit 8 (ucast (tab ! (p + 2))) OR ucast (tab ! (p + 3))) + 7 + 128 + push_bit 14 1 + 1"
      have i: "gc_item tab p = Some (?m, b AND 0x1f, p + 4)"
        unfolding item' run using 3 n y y2 by (simp add: word_less_def numeral_3_eq_3)
      have "uint (push_bit 16 (n - 192) OR push_bit 8 (ucast (tab ! (p + 2))) OR ucast (tab ! (p + 3))) =
          ((at (p + 1) - 192) * 256 + at (p + 2)) * 256 + at (p + 3)"
        using 3 sub [of 192] lt [of "p + 1"] by (subst uint_join16) (simp_all add: at_def)
      then have "uint ?m = (at (p + 1) - 192) * 65536 + at (p + 2) * 256 + at (p + 3) + 16520"
        using 3 lt [of "p + 1"] lt [of "p + 2"] lt [of "p + 3"] by (simp add: uint_add_small)
      moreover have "map uint (drop (Suc (Suc p)) tab) = at (p + 2) # at (p + 3) # map uint (drop (p + 4) tab)"
        using drp [OF y2] drp [OF y] by (simp add: numeral_3_eq_3 eval_nat_numeral)
      ultimately show ?thesis using 3 its' True b(3) i by (auto split: if_splits)
    qed
  qed
qed

text \<open>Every second code point from \<open>a\<close> on.\<close>

function every_second :: "int \<Rightarrow> int \<Rightarrow> (int \<times> int) list" where
  "every_second a e = (if a < e then (a, a + 1) # every_second (a + 2) e else [])"
  by pat_completeness auto
termination by (relation "measure (\<lambda>(a, e). nat (e - a))") auto

declare every_second.simps [simp del]

lemma added_every_second:
  assumes "0 \<le> a" and "0 \<le> e" and "a \<le> e + 2" and "e + 2 < 0x100000000" and "cr_ok cr"
  shows "added cr (add_every_second cr (word_of_int a) (word_of_int e)) (map wi (every_second a e))"
  using assms
proof (induction a e arbitrary: cr rule: every_second.induct)
  case (1 a e)
  show ?case
  proof -
    have u: "uint (word_of_int a :: u32) = a" "uint (word_of_int e :: u32) = e"
      using 1 by (intro uint_of_int_u32; simp)+
    show ?thesis
    proof (cases "a < e")
      case False
      with u have "\<not> word_of_int a < (word_of_int e :: u32)" by (simp add: word_less_def)
      with False 1 show ?thesis
        by (simp add: every_second.simps [of a] add_every_second.simps [of cr] added_nothing)
    next
      case True
      have u2: "uint (word_of_int (a + 2) :: u32) = a + 2" using 1 True by (intro uint_of_int_u32) auto
      have step: "add_every_second cr (word_of_int a) (word_of_int e) =
          try_ok (cr_add_interval cr (word_of_int a) (word_of_int (a + 1)))
            (\<lambda>cr. add_every_second cr (word_of_int (a + 2)) (word_of_int e))"
        using True u u2 by (simp add: add_every_second.simps [of cr] word_less_def word_le_def)
      have "added cr (add_every_second cr (word_of_int a) (word_of_int e)) ([wi (a, a + 1)] @ map wi (every_second (a + 2) e))"
        unfolding step wi_pair by (intro added_try added_interval "1.IH") (use "1.prems" True in auto)
      with True show ?thesis by (simp add: every_second.simps [of a e])
    qed
  qed
qed

lemma in_every_second: "in_ivs (every_second a e) x \<longleftrightarrow> a \<le> x \<and> x < e \<and> even (x - a)"
proof (induction a e rule: every_second.induct)
  case (1 a e)
  show ?case
  proof (cases "a < e")
    case True
    have "in_ivs (every_second a e) x \<longleftrightarrow> x = a \<or> a + 2 \<le> x \<and> x < e \<and> even (x - (a + 2))"
      using 1 True by (auto simp: every_second.simps [of a])
    moreover have "even (x - a) \<Longrightarrow> a \<le> x \<Longrightarrow> x \<noteq> a \<Longrightarrow> a + 2 \<le> x" by presburger
    ultimately show ?thesis using True by auto
  qed (simp add: every_second.simps [of a])
qed

lemma asc_every_second: "lo \<le> a \<Longrightarrow> lo \<le> e \<Longrightarrow> asc lo e (every_second a e)"
proof (induction a e arbitrary: lo rule: every_second.induct)
  case (1 a e)
  then show ?case by (cases "a < e") (auto simp: every_second.simps [of a])
qed

lemma gc_ids: "UNICODE_GC ''Lu'' = 1" "UNICODE_GC ''Ll'' = 2"
  by (simp_all add: UNICODE_GC_def enum_index_def UnicodeGCEnum_def)

lemma gc_masks: "gc_M [''Lu'', ''Ll''] = 6" "gc_M [''Ll''] = 4"
  by (simp_all add: gc_M_def gc_ids)

text \<open>The intervals a run of \<open>n\<close> code points from \<open>c\<close> on adds, and the code points with the property.\<close>

definition gc_run_ivs :: "u32 \<Rightarrow> int \<Rightarrow> int \<Rightarrow> int \<Rightarrow> (int \<times> int) list" where
  "gc_run_ivs m c n v =
     (if v = 31 then
        if bit m 1 \<and> bit m 2 then [(c, c + n)]
        else if bit m 1 then every_second c (c + n)
        else if bit m 2 then every_second (c + 1) (c + n)
        else []
      else if bit m (nat v) then [(c, c + n)] else [])"

definition category_at :: "int \<Rightarrow> int \<Rightarrow> int \<Rightarrow> nat" where
  "category_at c v x = (if v = 31 then if even (x - c) then UNICODE_GC ''Lu'' else UNICODE_GC ''Ll'' else nat v)"

lemma in_gc_run_ivs:
  "0 < n \<Longrightarrow> in_ivs (gc_run_ivs m c n v) x \<longleftrightarrow> c \<le> x \<and> x < c + n \<and> bit m (category_at c v x)"
  by (auto simp: gc_run_ivs_def category_at_def in_every_second gc_ids) presburger+

lemma asc_gc_run_ivs: "0 < n \<Longrightarrow> asc c (c + n) (gc_run_ivs m c n v)"
  by (auto simp: gc_run_ivs_def intro: asc_every_second)

lemma added_gc_add:
  assumes "0 \<le> c" "0 < uint n" "c + uint n + 2 < 0x100000000" "cr_ok cr" "uint v < 32"
  shows "added cr (gc_add cr m v (word_of_int c) (word_of_int c + n)) (map wi (gc_run_ivs m c (uint n) (uint v)))"
proof -
  have e: "word_of_int c + n = word_of_int (c + uint n)" by (simp add: word_of_int_step)
  have six: "bit (6 :: u32) k \<longleftrightarrow> k = 1 \<or> k = 2" and four: "bit (4 :: u32) k \<longleftrightarrow> k = 2" for k
  proof -
    have "bit (push_bit 1 1 OR push_bit 2 1 :: u32) k \<longleftrightarrow> k = 1 \<or> k = 2" "bit (push_bit 2 1 :: u32) k \<longleftrightarrow> k = 2"
      unfolding bit_or_iff bit_push_bit_iff bit_1_iff by auto
    then show "bit (6 :: u32) k \<longleftrightarrow> k = 1 \<or> k = 2" "bit (4 :: u32) k \<longleftrightarrow> k = 2" by simp_all
  qed
  have b: "bit (m AND 6) k \<longleftrightarrow> bit m k \<and> (k = 1 \<or> k = 2)" "bit (m AND 4) k \<longleftrightarrow> bit m k \<and> k = 2" for k
    by (simp_all only: bit_and_iff six four)
  have z: "\<not> bit (0 :: u32) k" for k by simp
  have lu: "m AND 6 = 0 \<longleftrightarrow> \<not> bit m 1 \<and> \<not> bit m 2" "m AND 6 = 6 \<longleftrightarrow> bit m 1 \<and> bit m 2"
    "m AND 4 = 0 \<longleftrightarrow> \<not> bit m 2"
    by (metis b(1) bit_eqI z, metis b(1) bit_eqI six, metis b(2) bit_eqI z)
  have bitv: "drop_bit (unat v) m AND 1 \<noteq> 0 \<longleftrightarrow> bit m (unat v)"
    by (simp add: bit_iff_odd_drop_bit and_one_eq odd_iff_mod_2_eq_one)
  have v31: "v = 31 \<longleftrightarrow> uint v = 31" by (simp add: word_uint_eq_iff)
  show ?thesis
  proof (cases "uint v = 31")
    case False
    then show ?thesis
      using assms bitv unfolding e gc_add_def v31
      by (auto simp: gc_run_ivs_def add_if_def added_interval added_nothing simp flip: unat_eq_nat_uint simp del: wi_hom_add of_int_add)
  next
    case True
    have low: "added cr (add_every_second cr (word_of_int c) (word_of_int (c + uint n))) (map wi (every_second c (c + uint n)))"
      using assms by (intro added_every_second) auto
    have up: "added cr (add_every_second cr (word_of_int (c + 1)) (word_of_int (c + uint n)))
        (map wi (every_second (c + 1) (c + uint n)))"
      using assms by (intro added_every_second) auto
    have c1: "word_of_int c + 1 = (word_of_int (c + 1) :: u32)" by simp
    consider "\<not> bit m 1" "\<not> bit m 2" | "bit m 1" "bit m 2" | "bit m 1" "\<not> bit m 2" | "\<not> bit m 1" "bit m 2" by blast
    then show ?thesis
    proof cases
      case 1
      with True assms(4) show ?thesis by (simp add: gc_add_def v31 gc_masks lu gc_run_ivs_def added_nothing)
    next
      case 2
      with True assms(4) show ?thesis unfolding e
        by (simp add: gc_add_def v31 gc_masks lu gc_run_ivs_def added_interval del: wi_hom_add of_int_add)
    next
      case 3
      with True low show ?thesis unfolding e
        by (simp add: gc_add_def v31 gc_masks lu gc_run_ivs_def truth_def del: wi_hom_add of_int_add)
    next
      case 4
      with True up show ?thesis unfolding e
        by (simp add: gc_add_def v31 gc_masks lu gc_run_ivs_def truth_def c1 del: wi_hom_add of_int_add)
    qed
  qed
qed

fun gc_ivs :: "u32 \<Rightarrow> int \<Rightarrow> (int \<times> int) list \<Rightarrow> (int \<times> int) list" where
  "gc_ivs m c [] = []"
| "gc_ivs m c ((n, v) # its) = gc_run_ivs m c n v @ gc_ivs m (c + n) its"

fun category :: "int \<Rightarrow> (int \<times> int) list \<Rightarrow> int \<Rightarrow> nat option" where
  "category c [] x = None"
| "category c ((n, v) # its) x =
     (if x < c + n then if c \<le> x then Some (category_at c v x) else None else category (c + n) its x)"

definition has_category :: "u32 \<Rightarrow> int \<Rightarrow> (int \<times> int) list \<Rightarrow> int \<Rightarrow> bool" where
  "has_category m c its x \<longleftrightarrow> (case category c its x of None \<Rightarrow> False | Some k \<Rightarrow> bit m k)"

lemma has_category_simps [simp]:
  "has_category m c [] x = False"
  "has_category m c ((n, v) # its) x =
     (if x < c + n then c \<le> x \<and> bit m (category_at c v x) else has_category m (c + n) its x)"
  by (auto simp: has_category_def)

definition items_ok :: "(int \<times> int) list \<Rightarrow> bool" where
  "items_ok its \<longleftrightarrow> list_all (\<lambda>(n, v). 0 < n \<and> 0 \<le> v \<and> v < 32) its"

lemma items_ok_simps [simp]:
  "items_ok []" "items_ok ((n, v) # its) \<longleftrightarrow> 0 < n \<and> 0 \<le> v \<and> v < 32 \<and> items_ok its"
  by (auto simp: items_ok_def)

lemma items_sum_nonneg: "items_ok its \<Longrightarrow> 0 \<le> sum_list (map fst its)"
  by (induction its) auto

lemma asc_gc_ivs: "items_ok its \<Longrightarrow> asc c (c + sum_list (map fst its)) (gc_ivs m c its)"
proof (induction its arbitrary: c)
  case (Cons it its)
  obtain n v where it: "it = (n, v)" by (cases it)
  then have "asc (c + n) (c + n + sum_list (map fst its)) (gc_ivs m (c + n) its)" using Cons by simp
  with asc_append [OF asc_gc_run_ivs this, of m v] Cons.prems it show ?case by (simp add: add.assoc)
qed simp

lemma in_gc_ivs: "items_ok its \<Longrightarrow> in_ivs (gc_ivs m c its) x \<longleftrightarrow> has_category m c its x"
proof (induction its arbitrary: c)
  case (Cons it its)
  obtain n v where it: "it = (n, v)" by (cases it)
  have "\<not> in_ivs (gc_ivs m (c + n) its) x" if "x < c + n"
    using asc_below [OF asc_gc_ivs that] Cons.prems it by simp
  with Cons it show ?case by (auto simp: in_gc_run_ivs)
qed simp

lemma gc_loop_added:
  assumes "gc_items (map uint (drop p tab)) = Some its" and "items_ok its"
    and "0 \<le> c" and "c + sum_list (map fst its) + 2 < 0x100000000" and "cr_ok cr"
  shows "added cr (gc_loop tab m p (word_of_int c) cr) (map wi (gc_ivs m c its))"
  using assms
proof (induction its arbitrary: p c cr)
  case Nil
  then have "\<not> p < length tab" using gc_items_step [of p tab "[]"] by auto
  with Nil show ?case by (simp add: gc_loop.simps [of tab m p] added_nothing)
next
  case (Cons it its)
  have "p < length tab" using Cons.prems(1) by (cases "p < length tab") auto
  from gc_items_step [OF Cons.prems(1) this] obtain n v p' where
    item: "gc_item tab p = Some (n, v, p')" and it: "it = (uint n, uint v)"
    and rest: "gc_items (map uint (drop p' tab)) = Some its" by auto
  note sum = items_sum_nonneg [of its]
  have "added cr (try_ok (gc_add cr m v (word_of_int c) (word_of_int c + n))
      (\<lambda>cr. gc_loop tab m p' (word_of_int c + n) cr))
    (map wi (gc_run_ivs m c (uint n) (uint v)) @ map wi (gc_ivs m (c + uint n) its))"
  proof (rule added_try)
    show "added cr (gc_add cr m v (word_of_int c) (word_of_int c + n)) (map wi (gc_run_ivs m c (uint n) (uint v)))"
      using Cons.prems it sum by (intro added_gc_add) auto
    show "added cr' (gc_loop tab m p' (word_of_int c + n) cr') (map wi (gc_ivs m (c + uint n) its))"
      if "cr_ok cr'" for cr'
      using Cons.IH [OF rest, of "c + uint n" cr'] Cons.prems it that by (simp add: add.assoc)
  qed
  with \<open>p < length tab\<close> show ?case by (simp add: it gc_loop_item [OF _ item])
qed

text \<open>
  The check reads a table byte by byte, so that it runs row by row: the state is the code point reached and the
  bytes of an unfinished item.
\<close>

fun gc_feed :: "int \<times> int list \<Rightarrow> int \<Rightarrow> int \<times> int list" where
  "gc_feed (c, []) b = (if b < 224 then (c + (b div 32 + 1), []) else (c, [b]))"
| "gc_feed (c, [b]) x = (if x < 128 then (c + (x + 8), []) else (c, [b, x]))"
| "gc_feed (c, [b, x]) y = (if x < 192 then (c + ((x - 128) * 256 + y + 136), []) else (c, [b, x, y]))"
| "gc_feed (c, b # x # y # _) z = (c + ((x - 192) * 65536 + y * 256 + z + 16520), [])"

lemma foldl_rows: "foldl f s (concat xss) = foldl (foldl f) s xss"
  by (induction xss arbitrary: s) auto

definition gc_rows_ok :: "int list list \<Rightarrow> bool" where
  "gc_rows_ok rows \<longleftrightarrow> list_all (list_all (\<lambda>b. 0 \<le> b \<and> b < 256)) rows \<and>
     foldl (foldl gc_feed) (0, []) rows = (0x110000, [])"

text \<open>The bytes kept are those of an item that is not complete.\<close>

fun pending :: "int list \<Rightarrow> bool" where
  "pending [] \<longleftrightarrow> True"
| "pending [b] \<longleftrightarrow> b div 32 = 7"
| "pending [b, x] \<longleftrightarrow> b div 32 = 7 \<and> 128 \<le> x"
| "pending [b, x, y] \<longleftrightarrow> b div 32 = 7 \<and> 192 \<le> x"
| "pending _ \<longleftrightarrow> False"

definition one_item :: "int list \<Rightarrow> int \<Rightarrow> bool" where
  "one_item bs n \<longleftrightarrow> (\<exists>v. 0 < n \<and> 0 \<le> v \<and> v < 32 \<and>
     (\<forall>r. gc_items (bs @ r) = map_option ((#) (n, v)) (gc_items r)))"

lemma one_itemI:
  "0 < n \<Longrightarrow> (\<And>r. gc_items (bs @ r) = map_option ((#) (n, b mod 32)) (gc_items r)) \<Longrightarrow> one_item bs n"
  unfolding one_item_def by (rule exI [of _ "b mod 32"]) simp

lemma gc_feed_step:
  assumes "pending pend" and "\<forall>b \<in> set pend. 0 \<le> b" and "0 \<le> x" and "x < 256" and "gc_feed (c, pend) x = (c', pend')"
  shows "pending pend' \<and> set pend' \<subseteq> insert x (set pend) \<and>
    (c' = c \<and> pend' = pend @ [x] \<or>
     pend' = [] \<and> one_item (pend @ [x]) (c' - c))"
proof -
  consider "pend = []" | b where "pend = [b]" | b y where "pend = [b, y]" | b y z where "pend = [b, y, z]"
    using assms(1) by (cases pend rule: pending.cases) auto
  then show ?thesis
  proof cases
    case 1
    show ?thesis
    proof (cases "x < 224")
      case True
      then have "x div 32 < 7" by simp
      moreover have "0 \<le> x div 32" using assms(3) by (simp add: pos_imp_zdiv_nonneg_iff)
      ultimately show ?thesis
        using 1 True assms(5) by (auto intro!: one_itemI [of _ _ x])
    next
      case False
      then have "x div 32 = 7" using assms(4) by presburger
      with 1 False assms(5) show ?thesis by auto
    qed
  next
    case (2 b)
    with assms show ?thesis
      by (cases "x < 128") (auto intro!: one_itemI [of _ _ b])
  next
    case (3 b y)
    with assms show ?thesis
      by (cases "y < 192") (auto intro!: one_itemI [of _ _ b])
  next
    case (4 b y z)
    with assms show ?thesis
      by (auto intro!: one_itemI [of _ _ b])
  qed
qed

lemma gc_feed_sound:
  assumes "pending pend" and "\<forall>b \<in> set pend \<union> set xs. 0 \<le> b \<and> b < 256"
    and "foldl gc_feed (c, pend) xs = (e, [])"
  shows "\<exists>its. gc_items (pend @ xs) = Some its \<and> items_ok its \<and> c + sum_list (map fst its) = e"
  using assms
proof (induction xs arbitrary: c pend)
  case (Cons x xs)
  obtain c' pend' where f: "gc_feed (c, pend) x = (c', pend')" by (cases "gc_feed (c, pend) x")
  have step: "pending pend' \<and> set pend' \<subseteq> insert x (set pend) \<and>
    (c' = c \<and> pend' = pend @ [x] \<or>
     pend' = [] \<and> one_item (pend @ [x]) (c' - c))"
    using Cons.prems by (intro gc_feed_step [OF _ _ _ _ f]) auto
  then obtain its where its: "gc_items (pend' @ xs) = Some its" "items_ok its" "c' + sum_list (map fst its) = e"
    using Cons.IH [of pend' c'] Cons.prems f by auto
  from step show ?case
  proof (elim conjE disjE exE)
    assume "c' = c" "pend' = pend @ [x]"
    with its show ?thesis by simp
  next
    assume *: "pend' = []" "one_item (pend @ [x]) (c' - c)"
    then obtain v where v: "0 < c' - c" "0 \<le> v" "v < 32"
      "gc_items (pend @ [x] @ xs) = map_option ((#) (c' - c, v)) (gc_items xs)"
      by (auto simp: one_item_def)
    with * its show ?thesis by (intro exI [of _ "(c' - c, v) # its"]) auto
  qed
qed auto

definition gc_runs :: "(int \<times> int) list" where
  "gc_runs = the (gc_items (map uint unicode_gc_table))"

lemma gc_runs:
  "gc_items (map uint unicode_gc_table) = Some gc_runs \<and> items_ok gc_runs \<and> sum_list (map fst gc_runs) = 0x110000"
proof -
  obtain rows where rows: "unicode_gc_table = map word_of_int (concat rows)" "gc_rows_ok rows"
  proof -
    have "\<exists>rows. unicode_gc_table = map word_of_int (concat rows) \<and> gc_rows_ok rows"
      unfolding unicode_gc_table_def by (rule exI, rule conjI [OF refl]) code_simp
    then show thesis using that by blast
  qed
  then have bytes: "list_all (\<lambda>b. 0 \<le> b \<and> b < 256) (concat rows)"
    and fed: "foldl gc_feed (0, []) (concat rows) = (0x110000, [])"
    by (auto simp: gc_rows_ok_def foldl_rows list_all_iff)
  obtain its where "gc_items (concat rows) = Some its" "items_ok its" "sum_list (map fst its) = 0x110000"
    using gc_feed_sound [OF _ _ fed] bytes by (auto simp: list_all_iff)
  then show ?thesis
    using map_uint_of_int [OF bytes] by (simp add: gc_runs_def rows(1))
qed

definition gives :: "CharRange \<Rightarrow> (int \<times> CharRange) option \<Rightarrow> (u32 \<Rightarrow> bool) \<Rightarrow> bool" where
  "gives cr m S \<longleftrightarrow> (\<exists>r cr'. m = Some (r, cr') \<and> cr_ok cr' \<and> cr_realloc_func cr' = cr_realloc_func cr \<and>
     (r = 0 \<and> sorted (cr_pts cr') \<and> even (cr_len cr') \<and> (\<forall>c. in_points (cr_pts cr') c \<longleftrightarrow> S c) \<or>
      r = - 1 \<and> \<not> total_realloc (cr_realloc_func cr)))"

lemma gives_added:
  assumes "added cr m ps" and "cr_pts cr = []" and "sorted (flat ps)" and "\<And>c. in_points (flat ps) c \<longleftrightarrow> S c"
  shows "gives cr m S"
proof -
  obtain r cr' where m: "m = Some (r, cr')" "cr_ok cr'" "cr_realloc_func cr' = cr_realloc_func cr"
    "r = 0 \<and> cr_pts cr' = flat ps \<or> r = - 1 \<and> \<not> total_realloc (cr_realloc_func cr)"
    using assms(1,2) by (auto simp: added_def)
  moreover have "even (cr_len cr')" if "cr_pts cr' = flat ps"
    using length_cr_pts [OF m(2)] that even_length_flat [of ps] by simp
  ultimately have "r = 0 \<and> sorted (cr_pts cr') \<and> even (cr_len cr') \<and> (\<forall>c. in_points (cr_pts cr') c \<longleftrightarrow> S c) \<or>
      r = - 1 \<and> \<not> total_realloc (cr_realloc_func cr)"
    using assms(3,4) by metis
  with m show ?thesis unfolding gives_def by blast
qed

lemma gives_asc:
  assumes "added cr m (map wi ivs)" and "cr_pts cr = []" and "asc 0 hi ivs" and "hi < 0x100000000"
  shows "gives cr m (\<lambda>c. in_ivs ivs (uint c))"
  using asc_points [OF assms(3) _ assms(4)] by (intro gives_added [OF assms(1,2)]) auto

definition gc_set :: "u32 \<Rightarrow> u32 \<Rightarrow> bool" where
  "gc_set m c \<longleftrightarrow> has_category m 0 gc_runs (uint c)"

lemma general_category1_gives:
  assumes "cr_ok cr" and "cr_pts cr = []"
  shows "gives cr (unicode_general_category1 cr m) (gc_set m)"
proof -
  have "added cr (unicode_general_category1 cr m) (map wi (gc_ivs m 0 gc_runs))"
    using gc_loop_added [of 0 unicode_gc_table gc_runs 0 cr m] gc_runs assms(1)
    by (simp add: unicode_general_category1_def)
  moreover have "asc 0 0x110000 (gc_ivs m 0 gc_runs)"
    using asc_gc_ivs [of gc_runs 0 m] gc_runs by simp
  ultimately have "gives cr (unicode_general_category1 cr m) (\<lambda>c. in_ivs (gc_ivs m 0 gc_runs) (uint c))"
    using assms(2) by (intro gives_asc) auto
  then show ?thesis using in_gc_ivs [of gc_runs m 0] gc_runs by (simp add: gc_set_def [abs_def])
qed

lemma prop1_gives:
  assumes "cr_ok cr" and "cr_pts cr = []" and "i < length unicode_prop_table"
  shows "gives cr (unicode_prop1 cr i) (table_has (unicode_prop_table ! i))"
proof -
  have ok: "table_ok (unicode_prop_table ! i)" using prop_tables_ok assms(3) by (simp add: list_all_length)
  show ?thesis
    using table_pts [OF ok] cr_normal_sorted
    by (intro gives_added [OF unicode_prop1_pts [OF assms(3,1)] assms(2)]) auto
qed

section \<open>Case sets\<close>

text \<open>
  The intervals of a run for a set of run types; \<open>upper\<close> and \<open>lower\<close> tell which bits the case mask has.
\<close>

definition run_ivs :: "bool \<Rightarrow> bool \<Rightarrow> int list \<Rightarrow> int \<Rightarrow> int \<Rightarrow> int \<Rightarrow> (int \<times> int) list" where
  "run_ivs upper lower types type code len =
     (if type \<notin> set types then []
      else if upper \<and> lower \<or> type \<noteq> 4 \<and> type \<noteq> 5 then [(code, code + len)]
      else if type = 4 then
        if upper then every_second (code + 1) (code + 1 + len) else every_second code (code + len)
      else if upper then [(code + 1, code + 2), (code + 2, code + 3)]
      else [(code, code + 1), (code + 1, code + 2)])"

definition case_entry_ivs :: "bool \<Rightarrow> bool \<Rightarrow> int list \<Rightarrow> int \<Rightarrow> (int \<times> int) list" where
  "case_entry_ivs upper lower types n =
     run_ivs upper lower types (n div 16 mod 16) (n div 32768) (n div 256 mod 128)"

definition case_ivs :: "bool \<Rightarrow> bool \<Rightarrow> int list \<Rightarrow> (int \<times> int) list" where
  "case_ivs upper lower types = concat (map (case_entry_ivs upper lower types) (map uint case_conv_table1))"

definition U_types :: "int list" where "U_types = [0, 2, 4, 5, 6, 7, 8, 9, 11, 13]"
definition L_types :: "int list" where "L_types = [1, 3, 4, 5, 6, 10, 12]"
definition F_types :: "int list" where "F_types = [2, 3, 4, 5, 6, 10, 7, 8]"

fun asc_end :: "int \<Rightarrow> (int \<times> int) list \<Rightarrow> int option" where
  "asc_end lo [] = Some lo"
| "asc_end lo ((a, b) # ps) = (if lo \<le> a \<and> a \<le> b then asc_end b ps else None)"

definition case_feed :: "bool \<Rightarrow> bool \<Rightarrow> int list \<Rightarrow> int option \<Rightarrow> int \<Rightarrow> int option" where
  "case_feed upper lower types acc n =
     (case acc of None \<Rightarrow> None | Some lo \<Rightarrow> asc_end lo (case_entry_ivs upper lower types n))"

definition case_rows_ok :: "bool \<Rightarrow> bool \<Rightarrow> int list \<Rightarrow> int list list \<Rightarrow> bool" where
  "case_rows_ok upper lower types rows \<longleftrightarrow>
     list_all (list_all (\<lambda>n. 0 \<le> n \<and> n < 0x100000000)) rows \<and>
     (case foldl (foldl (case_feed upper lower types)) (Some 0) rows of None \<Rightarrow> False | Some e \<Rightarrow> e \<le> 0x20000)"

lemma asc_case:
  "\<exists>rows. case_conv_table1 = map word_of_int (concat rows) \<and> case_rows_ok True False U_types rows \<and>
     case_rows_ok False True L_types rows \<and> case_rows_ok False True F_types rows \<and>
     case_rows_ok True True (U_types @ L_types @ F_types) rows"
  unfolding case_conv_table1_def by (rule exI, rule conjI [OF refl]) code_simp

lemma asc_end_asc: "asc_end lo ps = Some e \<Longrightarrow> asc lo e ps"
  by (induction lo ps rule: asc_end.induct) (auto split: if_splits)

lemma case_feed_simps [simp]:
  "case_feed upper lower types None n = None"
  "case_feed upper lower types (Some lo) n = asc_end lo (case_entry_ivs upper lower types n)"
  by (simp_all add: case_feed_def)

lemma case_feed_None [simp]: "foldl (case_feed upper lower types) None ns = None"
  by (induction ns) auto

lemma case_feed_asc:
  "foldl (case_feed upper lower types) (Some lo) ns = Some e \<Longrightarrow>
     asc lo e (concat (map (case_entry_ivs upper lower types) ns))"
proof (induction ns arbitrary: lo)
  case (Cons n ns)
  then obtain m where m: "asc_end lo (case_entry_ivs upper lower types n) = Some m"
    "foldl (case_feed upper lower types) (Some m) ns = Some e"
    by (cases "asc_end lo (case_entry_ivs upper lower types n)") auto
  with Cons.IH [of m] asc_end_asc [OF m(1)] show ?case by (simp add: asc_append)
qed simp

lemma map_uint_u32:
  "list_all (\<lambda>n. 0 \<le> n \<and> n < 0x100000000) xs \<Longrightarrow> map uint (map word_of_int xs :: u32 list) = xs"
  by (induction xs) (auto simp: uint_of_int_u32)

lemma case_rows_asc:
  assumes "case_conv_table1 = map word_of_int (concat rows)" and "case_rows_ok upper lower types rows"
  shows "asc 0 0x20000 (case_ivs upper lower types)"
proof -
  have "list_all (\<lambda>n. 0 \<le> n \<and> n < 0x100000000) (concat rows)"
    using assms(2) by (auto simp: case_rows_ok_def list_all_iff)
  then have u: "map uint case_conv_table1 = concat rows" unfolding assms(1) by (rule map_uint_u32)
  obtain e where e: "foldl (case_feed upper lower types) (Some 0) (concat rows) = Some e" "e \<le> 0x20000"
    using assms(2) by (auto simp: case_rows_ok_def foldl_rows split: option.splits)
  have mono: "asc lo e ps \<Longrightarrow> e \<le> e' \<Longrightarrow> asc lo e' ps" for lo e' ps
    by (induction ps arbitrary: lo) auto
  show ?thesis unfolding case_ivs_def u using mono [OF case_feed_asc [OF e(1)] e(2)] .
qed

lemma case_types:
  "t < 16 \<Longrightarrow> bit (case_run_mask CASE_U) t \<longleftrightarrow> int t \<in> set U_types"
  "t < 16 \<Longrightarrow> bit (case_run_mask CASE_L) t \<longleftrightarrow> int t \<in> set L_types"
  "t < 16 \<Longrightarrow> bit (case_run_mask CASE_F) t \<longleftrightarrow> int t \<in> set F_types"
  "t < 16 \<Longrightarrow> bit (case_run_mask (CASE_U OR CASE_L OR CASE_F)) t \<longleftrightarrow> int t \<in> set (U_types @ L_types @ F_types)"
proof -
  have three: "[0..<3] = [0, 1, 2 :: nat]" by (simp add: upt_conv_Cons numeral_3_eq_3)
  have masks: "case_run_mask CASE_U = 0x2BF5" "case_run_mask CASE_L = 0x147A" "case_run_mask CASE_F = 0x5FC"
    "case_run_mask (CASE_U OR CASE_L OR CASE_F) = 0x3FFF"
    by (simp_all add: case_run_mask_def CASE_U_def CASE_L_def CASE_F_def tab_run_mask_def run_types_def three)
  have all: "P t" if "t < 16" "P 0" "P 1" "P 2" "P 3" "P 4" "P 5" "P 6" "P 7" "P 8" "P 9" "P 10" "P 11" "P 12" "P 13"
      "P 14" "P 15" for P :: "nat \<Rightarrow> bool" and t
    using that by (auto simp: less_Suc_eq eval_nat_numeral)
  show "bit (case_run_mask CASE_U) t \<longleftrightarrow> int t \<in> set U_types" if "t < 16"
    using that unfolding masks by (rule all) (simp_all add: U_types_def)
  show "bit (case_run_mask CASE_L) t \<longleftrightarrow> int t \<in> set L_types" if "t < 16"
    using that unfolding masks by (rule all) (simp_all add: L_types_def)
  show "bit (case_run_mask CASE_F) t \<longleftrightarrow> int t \<in> set F_types" if "t < 16"
    using that unfolding masks by (rule all) (simp_all add: F_types_def)
  show "bit (case_run_mask (CASE_U OR CASE_L OR CASE_F)) t \<longleftrightarrow> int t \<in> set (U_types @ L_types @ F_types)" if "t < 16"
    using that unfolding masks by (rule all) (simp_all add: U_types_def L_types_def F_types_def)
qed

lemma run_fields:
  "uint (case_conv_type v) = uint v div 16 mod 16" "uint (run_code 17 v) = uint v div 32768"
  "uint (run_len 17 v) = uint v div 256 mod 128"
proof -
  have v: "uint v < 0x100000000" "v = word_of_int (uint v)" using unsigned_less [of v, where 'a = int] by simp_all
  show "uint (run_code 17 v) = uint v div 32768" "uint (run_len 17 v) = uint v div 256 mod 128"
    using uint_run_code [of "uint v" 17] uint_run_len [of "uint v" 17] v by simp_all
  show "uint (case_conv_type v) = uint v div 16 mod 16"
    using uint_and_mask [of "drop_bit 4 v" 4] by (simp add: case_conv_type_def uint_drop_bit mask_eq_decr_exp)
qed

lemma case1_entry_added:
  assumes types: "\<And>t. t < 16 \<Longrightarrow> bit rm t \<longleftrightarrow> int t \<in> set types"
    and cm: "upper \<longleftrightarrow> cm AND CASE_U \<noteq> 0" "lower \<longleftrightarrow> cm AND (CASE_L OR CASE_F) \<noteq> 0" and ok: "cr_ok cr"
  shows "added cr (case1_entry cm rm v cr) (map wi (case_entry_ivs upper lower types (uint v)))"
proof -
  define type code len where "type = uint (case_conv_type v)" and "code = uint (run_code 17 v)"
    and "len = uint (run_len 17 v)"
  have w: "run_code 17 v = word_of_int code" "run_len 17 v = word_of_int len"
    by (simp_all add: code_def len_def)
  have "uint v < 0x100000000" using unsigned_less [of v, where 'a = int] by simp
  then have bounds: "0 \<le> code" "code < 0x20000" "0 \<le> len" "len < 128" "0 \<le> type" "type < 16"
    unfolding code_def len_def type_def run_fields by (auto simp: pos_imp_zdiv_nonneg_iff)
  have "unat (case_conv_type v) < 16" "int (unat (case_conv_type v)) = type"
    using bounds by (simp_all add: type_def nat_less_iff flip: nat_uint_eq)
  then have hit: "drop_bit (unat (case_conv_type v)) rm AND 1 = 0 \<longleftrightarrow> type \<notin> set types"
    using types [of "unat (case_conv_type v)"]
    by (auto simp: bit_iff_odd_drop_bit and_one_eq simp flip: even_iff_mod_2_eq_zero)
  have ty: "case_conv_type v = 4 \<longleftrightarrow> type = 4" "case_conv_type v = 5 \<longleftrightarrow> type = 5"
    by (simp_all add: type_def word_uint_eq_iff)
  have ivs: "case_entry_ivs upper lower types (uint v) = run_ivs upper lower types type code len"
    by (simp add: case_entry_ivs_def type_def code_def len_def run_fields)
  have k: "word_of_int code + 1 = (word_of_int (code + 1) :: u32)" "word_of_int code + 2 = (word_of_int (code + 2) :: u32)"
    "word_of_int code + 3 = (word_of_int (code + 3) :: u32)"
    "word_of_int code + word_of_int len = (word_of_int (code + len) :: u32)"
    "word_of_int (code + 1) + word_of_int len = (word_of_int (code + 1 + len) :: u32)" by simp_all
  note del = wi_hom_add of_int_add
  consider "type \<notin> set types" | "type \<in> set types" "upper \<and> lower \<or> type \<noteq> 4 \<and> type \<noteq> 5"
    | "type \<in> set types" "\<not> (upper \<and> lower)" "type = 4" | "type \<in> set types" "\<not> (upper \<and> lower)" "type = 5" by blast
  then show ?thesis
  proof cases
    case 1
    then show ?thesis by (simp add: case1_entry_def hit ivs run_ivs_def added_nothing ok)
  next
    case 2
    then have "case1_entry cm rm v cr = cr_add_interval cr (word_of_int code) (word_of_int (code + len))"
      using cm by (auto simp: case1_entry_def hit ty w Let_def k simp del: del)
    then show ?thesis using 2 added_interval [OF ok] by (auto simp: ivs run_ivs_def simp del: del)
  next
    case 3
    then have "case1_entry cm rm v cr = (if upper then add_every_second cr (word_of_int (code + 1)) (word_of_int (code + 1 + len))
        else add_every_second cr (word_of_int code) (word_of_int (code + len)))"
      using cm by (auto simp: case1_entry_def hit ty w Let_def truth_def k simp del: del)
    moreover have "added cr (add_every_second cr (word_of_int (code + 1)) (word_of_int (code + 1 + len)))
        (map wi (every_second (code + 1) (code + 1 + len)))"
      "added cr (add_every_second cr (word_of_int code) (word_of_int (code + len))) (map wi (every_second code (code + len)))"
      using bounds ok by (intro added_every_second; simp)+
    ultimately show ?thesis using 3 by (simp add: ivs run_ivs_def del: del)
  next
    case 4
    then have step: "case1_entry cm rm v cr =
        try_ok (add_if (\<not> upper) cr (word_of_int code) (word_of_int (code + 1))) (\<lambda>cr.
        try_ok (cr_add_interval cr (word_of_int (code + 1)) (word_of_int (code + 2))) (\<lambda>cr.
        add_if upper cr (word_of_int (code + 2)) (word_of_int (code + 3))))"
      using cm by (auto simp: case1_entry_def hit ty w Let_def k simp del: del)
    have "added cr (case1_entry cm rm v cr)
       ((if \<not> upper then [(word_of_int code, word_of_int (code + 1))] else []) @ [(word_of_int (code + 1), word_of_int (code + 2))] @
        (if upper then [(word_of_int (code + 2), word_of_int (code + 3))] else []))"
      unfolding step by (intro added_try added_add_if added_interval ok)
    then show ?thesis unfolding ivs using 4 by (cases upper) (simp_all add: run_ivs_def del: del)
  qed
qed

lemma case1_loop_added:
  assumes "\<And>t. t < 16 \<Longrightarrow> bit rm t \<longleftrightarrow> int t \<in> set types"
    and "upper \<longleftrightarrow> cm AND CASE_U \<noteq> 0" "lower \<longleftrightarrow> cm AND (CASE_L OR CASE_F) \<noteq> 0" and "cr_ok cr"
  shows "added cr (case1_loop cm rm vs cr) (map wi (concat (map (case_entry_ivs upper lower types) (map uint vs))))"
  using assms(4)
proof (induction vs arbitrary: cr)
  case (Cons v vs)
  then show ?case
    using added_try [OF case1_entry_added [OF assms(1-3) Cons.prems, of v] Cons.IH] by simp
qed (simp add: added_nothing)

text \<open>The case masks the code uses, with what they select.\<close>

fun case_kind :: "u32 \<Rightarrow> (bool \<times> bool \<times> int list) option" where
  "case_kind cm =
     (if cm = CASE_U then Some (True, False, U_types)
      else if cm = CASE_L then Some (False, True, L_types)
      else if cm = CASE_F then Some (False, True, F_types)
      else if cm = (CASE_U OR CASE_L OR CASE_F) then Some (True, True, U_types @ L_types @ F_types)
      else None)"

declare case_kind.simps [simp del]

definition case_set :: "u32 \<Rightarrow> u32 \<Rightarrow> bool" where
  "case_set cm c = (case case_kind cm of None \<Rightarrow> False | Some (u, l, ts) \<Rightarrow> in_ivs (case_ivs u l ts) (uint c))"

lemma case_kind_ok:
  assumes "case_kind cm = Some (u, l, ts)"
  shows "t < 16 \<Longrightarrow> bit (case_run_mask cm) t \<longleftrightarrow> int t \<in> set ts" and "u \<longleftrightarrow> cm AND CASE_U \<noteq> 0"
    and "l \<longleftrightarrow> cm AND (CASE_L OR CASE_F) \<noteq> 0" and "asc 0 0x20000 (case_ivs u l ts)" and "cm \<noteq> 0"
proof -
  have asc: "asc 0 0x20000 (case_ivs True False U_types)" "asc 0 0x20000 (case_ivs False True L_types)"
    "asc 0 0x20000 (case_ivs False True F_types)" "asc 0 0x20000 (case_ivs True True (U_types @ L_types @ F_types))"
    using asc_case case_rows_asc by blast+
  have all: "(t < 16 \<longrightarrow> (bit (case_run_mask cm) t \<longleftrightarrow> int t \<in> set ts)) \<and> (u \<longleftrightarrow> cm AND CASE_U \<noteq> 0) \<and>
     (l \<longleftrightarrow> cm AND (CASE_L OR CASE_F) \<noteq> 0) \<and> asc 0 0x20000 (case_ivs u l ts) \<and> cm \<noteq> 0" for t
    using assms asc case_types [of t] unfolding case_kind.simps
    by (auto simp: CASE_U_def CASE_L_def CASE_F_def split: if_splits)
  then show "t < 16 \<Longrightarrow> bit (case_run_mask cm) t \<longleftrightarrow> int t \<in> set ts" "u \<longleftrightarrow> cm AND CASE_U \<noteq> 0"
    "l \<longleftrightarrow> cm AND (CASE_L OR CASE_F) \<noteq> 0" "asc 0 0x20000 (case_ivs u l ts)" "cm \<noteq> 0" by blast+
qed

lemma case1_gives:
  assumes "cr_ok cr" and "cr_pts cr = []" and "case_kind cm \<noteq> None"
  shows "gives cr (unicode_case1 cr cm) (case_set cm)"
proof -
  obtain u l ts where k: "case_kind cm = Some (u, l, ts)" using assms(3) by auto
  note ok = case_kind_ok [OF k]
  have "added cr (unicode_case1 cr cm) (map wi (case_ivs u l ts))"
    using case1_loop_added [OF ok(1-3) assms(1), of case_conv_table1] ok(5)
    by (simp add: unicode_case1_def case_ivs_def)
  then have "gives cr (unicode_case1 cr cm) (\<lambda>c. in_ivs (case_ivs u l ts) (uint c))"
    using assms(2) ok(4) by (intro gives_asc) auto
  then show ?thesis by (simp add: case_set_def [abs_def] k)
qed

section \<open>The stack machine\<close>

fun leaf_set :: "PropOP \<Rightarrow> u32 \<Rightarrow> bool" where
  "leaf_set (POP_GC a) = gc_set a"
| "leaf_set (POP_PROP a) = table_has (unicode_prop_table ! a)"
| "leaf_set (POP_CASE a) = case_set a"
| "leaf_set _ = (\<lambda>c. False)"

fun leaf_fine :: "PropOP \<Rightarrow> bool" where
  "leaf_fine (POP_PROP a) \<longleftrightarrow> a < length unicode_prop_table"
| "leaf_fine (POP_CASE a) \<longleftrightarrow> case_kind a \<noteq> None"
| "leaf_fine _ \<longleftrightarrow> True"

text \<open>The expression a list of operations stands for, evaluated on a stack of sets.\<close>

fun eval_ops :: "PropOP list \<Rightarrow> (u32 \<Rightarrow> bool) list \<Rightarrow> (u32 \<Rightarrow> bool) list" where
  "eval_ops [] st = st"
| "eval_ops (opr # oprs) st = eval_ops oprs
     (case pop_cr_op opr of
        Some b \<Rightarrow> (\<lambda>c. op_bool b ((st ! 1) c) ((st ! 0) c)) # drop 2 st
      | None \<Rightarrow> if opr = POP_INVERT then (\<lambda>c. c \<noteq> UINT32_MAX \<and> \<not> (st ! 0) c) # drop 1 st else leaf_set opr # st)"

text \<open>The depth of the stack, when no assertion fails.\<close>

fun depth_ops :: "PropOP list \<Rightarrow> nat \<Rightarrow> nat option" where
  "depth_ops [] d = Some d"
| "depth_ops (opr # oprs) d =
     (if pop_cr_op opr \<noteq> None then if 2 \<le> d \<and> d < 4 then depth_ops oprs (d - 1) else None
      else if opr = POP_INVERT then if 1 \<le> d then depth_ops oprs d else None
      else if d < 4 \<and> leaf_fine opr then depth_ops oprs (d + 1) else None)"

definition stack_rel :: "CharRange \<Rightarrow> CharRange list \<Rightarrow> (u32 \<Rightarrow> bool) list \<Rightarrow> bool" where
  "stack_rel cr st ss \<longleftrightarrow> list_all2 (\<lambda>x S. cr_ok x \<and> cr_realloc_func x = cr_realloc_func cr \<and> sorted (cr_pts x) \<and>
     even (cr_len x) \<and> (\<forall>c. in_points (cr_pts x) c \<longleftrightarrow> S c)) st ss"

lemma stack_rel_Cons:
  "stack_rel cr (x # st) ss \<longleftrightarrow> (\<exists>S ss'. ss = S # ss' \<and> cr_ok x \<and> cr_realloc_func x = cr_realloc_func cr \<and>
     sorted (cr_pts x) \<and> even (cr_len x) \<and> (\<forall>c. in_points (cr_pts x) c \<longleftrightarrow> S c) \<and> stack_rel cr st ss')"
  by (auto simp: stack_rel_def list_all2_Cons1)

lemma pop_leaf_gives:
  assumes "pop_leaf opr = Some leaf" and "leaf_fine opr" and "cr_ok cr" and "cr_pts cr = []"
  shows "gives cr (leaf cr) (leaf_set opr)"
  using assms by (cases opr) (auto simp: general_category1_gives prop1_gives case1_gives)

lemma cr_op_gives:
  assumes "cr_ok cr" "cr_len cr = 0" "cr_ok x" "cr_ok y" "sorted (cr_pts x)" "sorted (cr_pts y)"
    "even (cr_len x)" "even (cr_len y)"
  shows "gives cr (cr_op cr (cr_points x) (cr_len x) (cr_points y) (cr_len y) opr)
    (\<lambda>c. op_bool opr (in_points (cr_pts x) c) (in_points (cr_pts y) c))"
proof -
  have len: "cr_len x \<le> length (cr_points x)" "cr_len y \<le> length (cr_points y)"
    using assms by (auto simp: cr_ok_def)
  have "cr_op cr (cr_points x) (cr_len x) (cr_points y) (cr_len y) opr =
      cr_op cr (cr_pts x) (length (cr_pts x)) (cr_pts y) (length (cr_pts y)) opr"
    unfolding cr_op_def length_cr_pts [OF assms(3)] length_cr_pts [OF assms(4)]
    using cr_op_loop_block [OF len, of cr opr 0 0] by (simp add: cr_pts_def)
  moreover have "sorted (cr_pts z) \<and> even (cr_len z)" if "cr_ok z" "cr_normal (cr_pts z)" for z
    using that cr_normal_sorted by (auto simp: cr_normal_def length_cr_pts)
  ultimately show ?thesis
    using cr_op_spec [OF assms(1,2,5,6), of opr] assms by (fastforce simp: gives_def length_cr_pts)
qed

text \<open>One operation: the depth fits, and the stack stands for the sets of the expression or an allocation failed.\<close>

lemma prop_op_step_spec:
  assumes rel: "stack_rel cr st ss" and cr: "cr_ok cr" and d: "depth_ops (opr # oprs) (length st) \<noteq> None"
  shows "\<exists>r st'. prop_op_step cr opr st = Some (r, st') \<and>
    (r = 0 \<and> (\<exists>ss'. stack_rel cr st' ss' \<and> eval_ops (opr # oprs) ss = eval_ops oprs ss' \<and>
       depth_ops oprs (length st') = depth_ops (opr # oprs) (length st)) \<or>
     r = - 1 \<and> \<not> total_realloc (cr_realloc_func cr))"
proof -
  define new where "new = cr_init (cr_mem_opaque cr) (Some (cr_realloc_func cr))"
  have new: "cr_ok new" "cr_pts new = []" "cr_len new = 0" "cr_realloc_func new = cr_realloc_func cr"
    using cr by (simp_all add: new_def cr_ok_def cr_init_def cr_pts_def)
  consider leaf where "pop_leaf opr = Some leaf" "pop_cr_op opr = None" "opr \<noteq> POP_INVERT"
    | b where "pop_leaf opr = None" "pop_cr_op opr = Some b"
    | "opr = POP_INVERT" "pop_leaf opr = None" "pop_cr_op opr = None"
    by (cases opr) auto
  then show ?thesis
  proof cases
    case 1
    with d have fine: "leaf_fine opr" "length st < 4" by (auto split: if_splits)
    from pop_leaf_gives [OF 1(1) fine(1) new(1,2)] obtain r x where
      x: "leaf new = Some (r, x)" "cr_ok x" "cr_realloc_func x = cr_realloc_func cr"
      "r = 0 \<and> sorted (cr_pts x) \<and> even (cr_len x) \<and> (\<forall>c. in_points (cr_pts x) c \<longleftrightarrow> leaf_set opr c) \<or>
       r = - 1 \<and> \<not> total_realloc (cr_realloc_func cr)"
      unfolding gives_def new(4) by blast
    have "prop_op_step cr opr st = Some (r, x # st)"
      using 1 fine x by (simp add: prop_op_step_def POP_STACK_LEN_MAX_def flip: new_def)
    then show ?thesis
      using x(2-4) rel 1 fine by (auto simp: stack_rel_Cons)
  next
    case (2 b)
    with d have len: "2 \<le> length st" "length st < 4" by (auto split: if_splits)
    then obtain y x rest where st: "st = y # x # rest" by (metis Suc_le_length_iff numeral_2_eq_2)
    from rel obtain S T us where ss: "ss = T # S # us"
      and y: "cr_ok y" "sorted (cr_pts y)" "even (cr_len y)" "\<forall>c. in_points (cr_pts y) c \<longleftrightarrow> T c"
      and x: "cr_ok x" "sorted (cr_pts x)" "even (cr_len x)" "\<forall>c. in_points (cr_pts x) c \<longleftrightarrow> S c"
      and rest: "stack_rel cr rest us"
      by (auto simp: st stack_rel_Cons)
    from cr_op_gives [OF new(1,3) x(1) y(1) x(2) y(2) x(3) y(3), of b] obtain r z where
      z: "cr_op new (cr_points x) (cr_len x) (cr_points y) (cr_len y) b = Some (r, z)" "cr_ok z"
      "cr_realloc_func z = cr_realloc_func cr"
      "r = 0 \<and> sorted (cr_pts z) \<and> even (cr_len z) \<and> (\<forall>c. in_points (cr_pts z) c \<longleftrightarrow> op_bool b (S c) (T c)) \<or>
       r = - 1 \<and> \<not> total_realloc (cr_realloc_func cr)"
      using x(4) y(4) unfolding gives_def new(4) by auto
    have step: "prop_op_step cr opr st = (if r \<noteq> 0 then Some (r, st) else Some (0, z # rest))"
      using 2 len z(1) by (simp add: prop_op_step_def POP_STACK_LEN_MAX_def st flip: new_def)
    show ?thesis
    proof (cases "r = 0")
      case True
      with z rest have "stack_rel cr (z # rest) ((\<lambda>c. op_bool b (S c) (T c)) # us)" by (auto simp: stack_rel_Cons)
      moreover have "eval_ops (opr # oprs) ss = eval_ops oprs ((\<lambda>c. op_bool b (S c) (T c)) # us)"
        using 2 by (simp add: ss)
      moreover have "depth_ops oprs (length (z # rest)) = depth_ops (opr # oprs) (length st)"
        using 2 len by (simp add: st)
      ultimately show ?thesis using True step by auto
    qed (use z step in auto)
  next
    case 3
    with d obtain y rest where st: "st = y # rest" by (cases st) auto
    from rel obtain T us where ss: "ss = T # us"
      and y: "cr_ok y" "sorted (cr_pts y)" "even (cr_len y)" "\<forall>c. in_points (cr_pts y) c \<longleftrightarrow> T c"
      "cr_realloc_func y = cr_realloc_func cr" and rest: "stack_rel cr rest us"
      by (auto simp: st stack_rel_Cons)
    from cr_invert_spec [OF y(1-3)] obtain r z where z: "cr_invert y = Some (r, z)" "cr_ok z"
      "cr_realloc_func z = cr_realloc_func cr"
      "r = 0 \<and> cr_normal (cr_pts z) \<and> (\<forall>c. in_points (cr_pts z) c \<longleftrightarrow> c \<noteq> UINT32_MAX \<and> \<not> T c) \<or>
       r = - 1 \<and> \<not> total_realloc (cr_realloc_func cr)"
      using y(4,5) by auto
    have step: "prop_op_step cr opr st = Some (r, z # rest)"
      using 3 z(1) by (simp add: prop_op_step_def st)
    show ?thesis
    proof (cases "r = 0")
      case True
      with z rest have "stack_rel cr (z # rest) ((\<lambda>c. c \<noteq> UINT32_MAX \<and> \<not> T c) # us)"
        using cr_normal_sorted by (auto simp: stack_rel_Cons cr_normal_def length_cr_pts)
      moreover have "eval_ops (opr # oprs) ss = eval_ops oprs ((\<lambda>c. c \<noteq> UINT32_MAX \<and> \<not> T c) # us)"
        using 3 by (simp add: ss)
      ultimately show ?thesis using True step 3 by (auto simp: st)
    qed (use z step in auto)
  qed
qed

lemma length_stack_rel: "stack_rel cr st ss \<Longrightarrow> length ss = length st"
  by (auto simp: stack_rel_def dest: list_all2_lengthD)

lemma prop_ops_loop_spec:
  assumes "stack_rel cr st ss" and "cr_ok cr" and "depth_ops oprs (length st) = Some d"
  shows "\<exists>r st'. prop_ops_loop cr oprs st = Some (r, st') \<and>
    (r = 0 \<and> stack_rel cr st' (eval_ops oprs ss) \<and> length st' = d \<or>
     r = - 1 \<and> \<not> total_realloc (cr_realloc_func cr))"
  using assms
proof (induction oprs arbitrary: st ss)
  case (Cons opr oprs)
  from prop_op_step_spec [OF Cons.prems(1,2), of opr oprs] Cons.prems(3) obtain r st' where
    step: "prop_op_step cr opr st = Some (r, st')" and
    r: "r = 0 \<and> (\<exists>ss'. stack_rel cr st' ss' \<and> eval_ops (opr # oprs) ss = eval_ops oprs ss' \<and>
       depth_ops oprs (length st') = depth_ops (opr # oprs) (length st)) \<or>
     r = - 1 \<and> \<not> total_realloc (cr_realloc_func cr)" by auto
  show ?case
  proof (cases "r = 0")
    case True
    with r obtain ss' where ss': "stack_rel cr st' ss'" "eval_ops (opr # oprs) ss = eval_ops oprs ss'"
      "depth_ops oprs (length st') = Some d" using Cons.prems(3) by auto
    with Cons.IH [OF ss'(1) Cons.prems(2) ss'(3)] step True show ?thesis
      by (simp add: try_ok_def del: eval_ops.simps)
  qed (use step r in \<open>auto simp: try_ok_def\<close>)
qed simp

lemma cr_copy_spec:
  assumes ok: "cr_ok cr" "cr_ok x"
  shows "\<exists>r cr'. cr_copy cr x = Some (r, cr') \<and> cr_ok cr' \<and> cr_realloc_func cr' = cr_realloc_func cr \<and>
    (r = 0 \<and> cr_pts cr' = cr_pts x \<or> r = - 1 \<and> \<not> total_realloc (cr_realloc_func cr))"
proof -
  obtain r cr1 where r: "cr_realloc cr (cr_len x) = (r, cr1)" by (metis surj_pair)
  note g = cr_realloc_cases [OF ok(1) r]
  show ?thesis
  proof (cases "r = 0")
    case False
    with r g show ?thesis by (auto simp: cr_copy_def)
  next
    case True
    with g have len: "cr_len x \<le> cr_size cr1" by simp
    have sl: "slice (cr_points x) 0 (cr_len x) = Some (cr_pts x)" "length (cr_pts x) = cr_len x"
      using ok(2) by (auto simp: slice_def cr_pts_def cr_ok_def)
    obtain b where b: "blit (cr_points cr1) 0 (cr_pts x) = Some b"
      using len g sl by (auto simp: blit_def cr_ok_def)
    have "take (cr_len x) b = cr_pts x" "length b = length (cr_points cr1)"
      using take_blit_end [OF b] length_blit [OF b] sl by simp_all
    then show ?thesis
      using r g True sl b len by (auto simp: cr_copy_def cr_ok_def cr_pts_def)
  qed
qed

lemma unicode_prop_ops_gives:
  assumes "cr_ok cr" and "depth_ops oprs 0 = Some 1"
  shows "gives cr (unicode_prop_ops cr oprs) (hd (eval_ops oprs []))"
proof -
  have rel: "stack_rel cr [] []" by (simp add: stack_rel_def)
  from prop_ops_loop_spec [OF rel assms(1), of oprs 1] assms(2) obtain r st where
    loop: "prop_ops_loop cr oprs [] = Some (r, st)"
    and r: "r = 0 \<and> stack_rel cr st (eval_ops oprs []) \<and> length st = 1 \<or>
      r = - 1 \<and> \<not> total_realloc (cr_realloc_func cr)" by auto
  show ?thesis
  proof (cases "r = 0")
    case False
    with loop r assms(1) show ?thesis by (auto simp: unicode_prop_ops_def gives_def)
  next
    case True
    with r obtain x where st: "st = [x]" by (auto simp: length_Suc_conv)
    with r True obtain S where S: "eval_ops oprs [] = [S]" "cr_ok x" "sorted (cr_pts x)" "even (cr_len x)"
      "\<forall>c. in_points (cr_pts x) c \<longleftrightarrow> S c"
      using length_stack_rel [of cr "[x]" "eval_ops oprs []"] by (auto simp: stack_rel_Cons length_Suc_conv)
    obtain e cr' where e: "cr_copy cr x = Some (e, cr')" "cr_ok cr'" "cr_realloc_func cr' = cr_realloc_func cr"
      "e = 0 \<and> cr_pts cr' = cr_pts x \<or> e = - 1 \<and> \<not> total_realloc (cr_realloc_func cr)"
      using cr_copy_spec [OF assms(1) S(2)] by blast
    have "even (cr_len cr')" if "cr_pts cr' = cr_pts x"
      using that S(2,4) e(2) by (metis length_cr_pts)
    then have "e = 0 \<and> sorted (cr_pts cr') \<and> even (cr_len cr') \<and> (\<forall>c. in_points (cr_pts cr') c \<longleftrightarrow> S c) \<or>
        e = - 1 \<and> \<not> total_realloc (cr_realloc_func cr)"
      using e(4) S(3,5) by metis
    moreover have "unicode_prop_ops cr oprs = Some (e, cr')"
      using loop True st e(1) by (simp add: unicode_prop_ops_def)
    ultimately show ?thesis using e(2,3) S(1) unfolding gives_def by simp
  qed
qed

lemma prop_names_fine:
  "list_all (\<lambda>n. UNICODE_PROP n < 50) [''Other_Math'', ''Other_Lowercase'', ''Other_Uppercase'', ''Other_Alphabetic'',
     ''Other_Grapheme_Extend'', ''Other_ID_Start'', ''Other_ID_Continue'', ''Pattern_Syntax'', ''Pattern_White_Space'',
     ''XID_Start1'', ''XID_Continue1'', ''Changes_When_Titlecased1'', ''Changes_When_Casefolded1'',
     ''Changes_When_NFKC_Casefolded1'', ''ID_Start'', ''ID_Continue1'']"
  by code_simp

lemma prop_exprs_depth: "list_all (\<lambda>(n, e). depth_ops e 0 = Some 1) prop_exprs"
  using prop_names_fine
  by (simp add: prop_exprs_def prop_table_entries(4) case_kind.simps CASE_U_def CASE_L_def CASE_F_def)

text \<open>
  C25. Derived properties: for every property that \<open>unicode_prop\<close> computes with the stack machine \<open>unicode_prop_ops\<close>, no assertion of the machine
  fails and no table or block is left, whatever the allocator does. Either the result is 0 and the range is sorted and holds exactly the code points of the Boolean expression
  over general categories, property tables and case sets that the operations stand for, or it is -1, which needs a failing allocator.
\<close>

theorem derived_property_correct:
  assumes "(n, oprs) \<in> set prop_exprs" and "cr_ok cr"
  shows "\<exists>r cr'. unicode_prop_ops cr oprs = Some (r, cr') \<and> cr_ok cr' \<and>
    (r = 0 \<and> sorted (cr_pts cr') \<and> even (cr_len cr') \<and> (\<forall>c. in_points (cr_pts cr') c \<longleftrightarrow> hd (eval_ops oprs []) c) \<or>
     r = - 1 \<and> \<not> total_realloc (cr_realloc_func cr))"
proof -
  have "depth_ops oprs 0 = Some 1" using prop_exprs_depth assms(1) by (auto simp: list_all_iff)
  from unicode_prop_ops_gives [OF assms(2) this] show ?thesis unfolding gives_def by blast
qed

theorem derived_property_correct_witness:
  "\<exists>cr'. unicode_prop_ops (cr_init 0 (Some ample_realloc)) [POP_GC (gc_M [''Cn'']), POP_INVERT] = Some (0, cr') \<and> cr_ok cr' \<and>
    sorted (cr_pts cr') \<and> even (cr_len cr') \<and>
    (\<forall>c. in_points (cr_pts cr') c \<longleftrightarrow> c \<noteq> UINT32_MAX \<and> \<not> gc_set (gc_M [''Cn'']) c)"
proof -
  have "(''Assigned'', [POP_GC (gc_M [''Cn'']), POP_INVERT]) \<in> set prop_exprs" by (simp add: prop_exprs_def)
  from derived_property_correct [OF this cr_init_ok [OF ample_realloc(1), of 0]] ample_realloc(2) show ?thesis by simp
qed

text \<open>
  C26. General categories: \<open>unicode_general_category1\<close> decodes the whole compressed table without leaving it or a block of the range, whatever the allocator does. Either it
  returns 0 with the sorted range of the code points whose category, as the table assigns it, is in the mask, or -1, which needs a failing allocator; every code point up to
  \<open>0x10ffff\<close> has a category.
\<close>

theorem general_category_correct:
  assumes "cr_ok cr" and "cr_len cr = 0"
  shows "(\<exists>r cr'. unicode_general_category1 cr gc_mask = Some (r, cr') \<and> cr_ok cr' \<and>
    (r = 0 \<and> sorted (cr_pts cr') \<and> even (cr_len cr') \<and>
       (\<forall>c. in_points (cr_pts cr') c \<longleftrightarrow> (case category 0 gc_runs (uint c) of None \<Rightarrow> False | Some k \<Rightarrow> bit gc_mask k)) \<or>
     r = - 1 \<and> \<not> total_realloc (cr_realloc_func cr))) \<and>
    (\<forall>x. category 0 gc_runs x \<noteq> None \<longleftrightarrow> 0 \<le> x \<and> x < 0x110000)"
proof -
  have dom: "category a its x \<noteq> None \<longleftrightarrow> a \<le> x \<and> x < a + sum_list (map fst its)" if "items_ok its" for a its x
    using that
  proof (induction its arbitrary: a)
    case (Cons it its)
    with items_sum_nonneg [of its] show ?case by (cases it) (auto simp: add.assoc)
  qed simp
  have "cr_pts cr = []" using assms(2) by (simp add: cr_pts_def)
  from general_category1_gives [OF assms(1) this, of gc_mask] dom [of gc_runs 0] gc_runs
  show ?thesis unfolding gives_def gc_set_def has_category_def by auto
qed

theorem general_category_correct_witness:
  "\<exists>cr'. unicode_general_category1 (cr_init 0 (Some ample_realloc)) 2 = Some (0, cr') \<and> cr_ok cr' \<and> sorted (cr_pts cr') \<and>
    even (cr_len cr') \<and>
    (\<forall>c. in_points (cr_pts cr') c \<longleftrightarrow>
       (case category 0 gc_runs (uint c) of None \<Rightarrow> False | Some k \<Rightarrow> bit (2 :: u32) k))"
  using general_category_correct [of "cr_init 0 (Some ample_realloc)" 2] ample_realloc
  by (auto simp: cr_init_ok)

end
