(* ===== verification/RegexpOps.thy ===== *)
theory RegexpOps
  imports CaseConv PropTable CharRange
begin

text \<open>
  Opcodes, constants and the analyses of \<^verbatim>\<open>libregexp.c\<close>, \<^verbatim>\<open>libregexp.h\<close> and \<^verbatim>\<open>libregexp-opcode.h\<close>: the opcode
  enumeration with the instruction sizes, the canonicalization of characters for case
  insensitive matching, the identifier and white space tests, and the three linear passes the compiler makes over
  emitted code (\<open>re_check_advance\<close>, \<open>re_is_simple_quantifier\<close>, \<open>compute_stack_size\<close>). A read outside a table or a block,
  and a failed assertion, is \<open>None\<close>.
\<close>

section \<open>Opcodes\<close>

datatype REOPCodeEnum =
    REOP_invalid | REOP_char | REOP_char32 | REOP_dot | REOP_any | REOP_line_start | REOP_line_end
  | REOP_goto | REOP_split_goto_first | REOP_split_next_first | REOP_match | REOP_save_start
  | REOP_save_end | REOP_save_reset | REOP_loop | REOP_push_i32 | REOP_drop | REOP_word_boundary
  | REOP_not_word_boundary | REOP_back_reference | REOP_backward_back_reference | REOP_range
  | REOP_range32 | REOP_lookahead | REOP_negative_lookahead | REOP_push_char_pos
  | REOP_bne_char_pos | REOP_prev | REOP_simple_greedy_quant

definition reopcode_info :: "(REOPCodeEnum \<times> nat) list" where
  "reopcode_info =
     [(REOP_invalid, 1), (REOP_char, 3), (REOP_char32, 5), (REOP_dot, 1), (REOP_any, 1),
      (REOP_line_start, 1), (REOP_line_end, 1), (REOP_goto, 5), (REOP_split_goto_first, 5),
      (REOP_split_next_first, 5), (REOP_match, 1), (REOP_save_start, 2), (REOP_save_end, 2),
      (REOP_save_reset, 3), (REOP_loop, 5), (REOP_push_i32, 5), (REOP_drop, 1),
      (REOP_word_boundary, 1), (REOP_not_word_boundary, 1), (REOP_back_reference, 2),
      (REOP_backward_back_reference, 2), (REOP_range, 3), (REOP_range32, 3), (REOP_lookahead, 5),
      (REOP_negative_lookahead, 5), (REOP_push_char_pos, 1), (REOP_bne_char_pos, 5),
      (REOP_prev, 1), (REOP_simple_greedy_quant, 17)]"

definition REOP_COUNT :: nat where
  "REOP_COUNT = 29"

text \<open>The opcode a byte stands for with its size, and the byte of an opcode.\<close>

definition reop :: "u8 \<Rightarrow> (REOPCodeEnum \<times> nat) option" where
  "reop b = rd reopcode_info (unat b)"

fun enum_pos :: "'a \<Rightarrow> ('a \<times> 'b) list \<Rightarrow> nat" where
  "enum_pos x [] = 0"
| "enum_pos x (e # es) = (if fst e = x then 0 else Suc (enum_pos x es))"

definition opc :: "REOPCodeEnum \<Rightarrow> u8" where
  "opc x = of_nat (enum_pos x reopcode_info)"

definition CAPTURE_COUNT_MAX :: nat where
  "CAPTURE_COUNT_MAX = 255"

definition STACK_SIZE_MAX :: nat where
  "STACK_SIZE_MAX = 255"

definition CP_LS :: u32 where
  "CP_LS = 0x2028"

definition CP_PS :: u32 where
  "CP_PS = 0x2029"

definition RE_HEADER_FLAGS :: nat where
  "RE_HEADER_FLAGS = 0"

definition RE_HEADER_CAPTURE_COUNT :: nat where
  "RE_HEADER_CAPTURE_COUNT = 1"

definition RE_HEADER_STACK_SIZE :: nat where
  "RE_HEADER_STACK_SIZE = 2"

definition RE_HEADER_LEN :: nat where
  "RE_HEADER_LEN = 7"

definition LRE_FLAG_GLOBAL :: u8 where
  "LRE_FLAG_GLOBAL = 1"

definition LRE_FLAG_IGNORECASE :: u8 where
  "LRE_FLAG_IGNORECASE = 2"

definition LRE_FLAG_MULTILINE :: u8 where
  "LRE_FLAG_MULTILINE = 4"

definition LRE_FLAG_DOTALL :: u8 where
  "LRE_FLAG_DOTALL = 8"

definition LRE_FLAG_UTF16 :: u8 where
  "LRE_FLAG_UTF16 = 16"

definition LRE_FLAG_STICKY :: u8 where
  "LRE_FLAG_STICKY = 32"

definition LRE_FLAG_NAMED_GROUPS :: u8 where
  "LRE_FLAG_NAMED_GROUPS = 128"

section \<open>Characters\<close>

definition lre_canonicalize :: "u32 \<Rightarrow> bool \<Rightarrow> u32 option" where
  "lre_canonicalize c is_utf16 =
     (if is_utf16 then
        if c < 128 then
          if c \<ge> 0x41 \<and> c \<le> 0x5A then Some (c - 0x41 + 0x61) else Some c
        else do { res \<leftarrow> lre_case_conv c 2; rd res 0 }
      else
        if c < 128 then
          if c \<ge> 0x61 \<and> c \<le> 0x7A then Some (c - 0x61 + 0x41) else Some c
        else do {
          res \<leftarrow> lre_case_conv c 0;
          r0 \<leftarrow> rd res 0;
          if length res = 1 \<and> r0 \<ge> 128 then Some r0 else Some c })"

definition char_range_d :: "u16 list" where
  "char_range_d = [1, 0x0030, 0x0039 + 1]"

definition char_range_s :: "u16 list" where
  "char_range_s =
     [10, 0x0009, 0x000D + 1, 0x0020, 0x0020 + 1, 0x00A0, 0x00A0 + 1, 0x1680, 0x1680 + 1,
      0x2000, 0x200A + 1, 0x2028, 0x2029 + 1, 0x202F, 0x202F + 1, 0x205F, 0x205F + 1,
      0x3000, 0x3000 + 1, 0xFEFF, 0xFEFF + 1]"

definition char_range_w :: "u16 list" where
  "char_range_w =
     [4, 0x0030, 0x0039 + 1, 0x0041, 0x005A + 1, 0x005F, 0x005F + 1, 0x0061, 0x007A + 1]"

text \<open>The loop over the ranges of the white space table, \<open>k\<close> of them left from range \<open>i\<close> on.\<close>

fun is_space_loop :: "int \<Rightarrow> nat \<Rightarrow> nat \<Rightarrow> bool option" where
  "is_space_loop c i 0 = Some False"
| "is_space_loop c i (Suc k) =
     do { low \<leftarrow> rd char_range_s (2 * i + 1);
          if c < uint low then Some False
          else do {
            high \<leftarrow> rd char_range_s (2 * i + 2);
            if c < uint high then Some True else is_space_loop c (i + 1) k } }"

definition lre_is_space :: "int \<Rightarrow> bool option" where
  "lre_is_space c = is_space_loop c 0 ((length char_range_s - 1) div 2)"

definition lre_id_start_table_ascii :: "u32 list" where
  "lre_id_start_table_ascii = [0x00000000, 0x00000010, 0x87FFFFFE, 0x07FFFFFE]"

definition lre_id_continue_table_ascii :: "u32 list" where
  "lre_id_continue_table_ascii = [0x00000000, 0x03FF0010, 0x87FFFFFE, 0x07FFFFFE]"

definition is_digit :: "int \<Rightarrow> bool" where
  "is_digit c \<longleftrightarrow> c \<ge> 0x30 \<and> c \<le> 0x39"

definition is_line_terminator :: "u32 \<Rightarrow> bool" where
  "is_line_terminator c \<longleftrightarrow> c = 0x0A \<or> c = 0x0D \<or> c = CP_LS \<or> c = CP_PS"

definition is_word_char :: "u32 \<Rightarrow> bool" where
  "is_word_char c \<longleftrightarrow>
     (c \<ge> 0x30 \<and> c \<le> 0x39) \<or> (c \<ge> 0x61 \<and> c \<le> 0x7A) \<or> (c \<ge> 0x41 \<and> c \<le> 0x5A) \<or> c = 0x5F"

definition ident_ascii :: "u32 list \<Rightarrow> u32 \<Rightarrow> bool option" where
  "ident_ascii tab c = do {
     w \<leftarrow> rd tab (unat (drop_bit 5 c));
     Some (drop_bit (unat (c AND 31)) w AND 1 \<noteq> 0) }"

definition lre_js_is_ident_first :: "u32 \<Rightarrow> bool option" where
  "lre_js_is_ident_first c =
     (if c < 128 then ident_ascii lre_id_start_table_ascii c else lre_is_id_start c)"

definition lre_js_is_ident_next :: "u32 \<Rightarrow> bool option" where
  "lre_js_is_ident_next c =
     (if c < 128 then ident_ascii lre_id_continue_table_ascii c
      else do { b \<leftarrow> lre_is_id_continue c; Some (b \<or> c = 0x200C \<or> c = 0x200D) })"

section \<open>Passes over the code\<close>

text \<open>
  All three passes step from instruction to instruction: \<open>op_at\<close> is the instruction at \<open>pos\<close> and its whole
  length, which for the two range instructions includes the table that follows.
\<close>

definition op_at :: "u8 list \<Rightarrow> nat \<Rightarrow> (REOPCodeEnum \<times> nat) option" where
  "op_at bc pos = do {
     b \<leftarrow> rd bc pos;
     (opcode, len) \<leftarrow> reop b;
     if opcode = REOP_range then do { val \<leftarrow> get_u16 bc (pos + 1); Some (opcode, len + unat val * 4) }
     else if opcode = REOP_range32 then do { val \<leftarrow> get_u16 bc (pos + 1); Some (opcode, len + unat val * 8) }
     else Some (opcode, len) }"

fun is_simple_char :: "REOPCodeEnum \<Rightarrow> bool" where
  "is_simple_char REOP_range = True"
| "is_simple_char REOP_range32 = True"
| "is_simple_char REOP_char = True"
| "is_simple_char REOP_char32 = True"
| "is_simple_char REOP_dot = True"
| "is_simple_char REOP_any = True"
| "is_simple_char _ = False"

lemma reop_size_pos: "reop b = Some (opcode, len) \<Longrightarrow> 0 < len"
proof -
  assume "reop b = Some (opcode, len)"
  then have "(opcode, len) \<in> set reopcode_info" by (auto simp: reop_def rd_Some_iff in_set_conv_nth)
  then show ?thesis by (auto simp: reopcode_info_def)
qed

lemma op_at_pos: "op_at bc pos = Some (opcode, len) \<Longrightarrow> 0 < len \<and> pos < length bc"
  by (auto simp: op_at_def bind_Some_iff rd_Some_iff split: if_splits dest!: reop_size_pos)

text \<open>\<open>capture_bitmap[val] |= m\<close>.\<close>

definition or_at :: "u8 list \<Rightarrow> nat \<Rightarrow> u8 \<Rightarrow> u8 list option" where
  "or_at bm i m = do { b \<leftarrow> rd bm i; wr bm i (b OR m) }"

fun reset_bitmap :: "u8 list \<Rightarrow> nat \<Rightarrow> nat \<Rightarrow> u8 list option" where
  "reset_bitmap bm val 0 = Some bm"
| "reset_bitmap bm val (Suc n) = do { bm \<leftarrow> or_at bm val 1; reset_bitmap bm (val + 1) n }"

text \<open>One instruction of \<open>re_check_advance\<close>: the new \<open>ret\<close>, \<open>has_back_reference\<close> and bitmap.\<close>

definition check_advance_op ::
  "u8 list \<Rightarrow> nat \<Rightarrow> REOPCodeEnum \<Rightarrow> int \<Rightarrow> bool \<Rightarrow> u8 list \<Rightarrow> (int \<times> bool \<times> u8 list) option" where
  "check_advance_op bc pos opcode ret has_back_reference bm =
     (if is_simple_char opcode then Some (if ret = - 2 then 1 else ret, has_back_reference, bm)
      else if opcode \<in> {REOP_line_start, REOP_line_end, REOP_push_i32, REOP_push_char_pos, REOP_drop,
        REOP_word_boundary, REOP_not_word_boundary, REOP_prev} then Some (ret, has_back_reference, bm)
      else if opcode \<in> {REOP_save_start, REOP_save_end} then do {
        val \<leftarrow> rd bc (pos + 1);
        bm \<leftarrow> or_at bm (unat val) 1;
        Some (ret, has_back_reference, bm) }
      else if opcode = REOP_save_reset then do {
        val \<leftarrow> rd bc (pos + 1);
        last_val \<leftarrow> rd bc (pos + 2);
        bm \<leftarrow> reset_bitmap bm (unat val) (unat last_val - unat val);
        Some (ret, has_back_reference, bm) }
      else if opcode \<in> {REOP_back_reference, REOP_backward_back_reference} then do {
        val \<leftarrow> rd bc (pos + 1);
        bm \<leftarrow> or_at bm (unat val) 2;
        Some (ret, True, bm) }
      else Some (if ret = - 2 then 0 else ret, has_back_reference, bm))"

function check_advance_loop ::
  "u8 list \<Rightarrow> nat \<Rightarrow> nat \<Rightarrow> int \<Rightarrow> bool \<Rightarrow> u8 list \<Rightarrow> (int \<times> bool \<times> u8 list) option" where
  "check_advance_loop bc bc_len pos ret has_back_reference bm =
     (if pos < bc_len then
        case op_at bc pos of
          None \<Rightarrow> None
        | Some (opcode, len) \<Rightarrow>
            case check_advance_op bc pos opcode ret has_back_reference bm of
              None \<Rightarrow> None
            | Some (ret, has_back_reference, bm) \<Rightarrow>
                check_advance_loop bc bc_len (pos + len) ret has_back_reference bm
      else Some (ret, has_back_reference, bm))"
  by pat_completeness auto
termination
  by (relation "measure (\<lambda>(bc, n, pos, r, h, bm). n - pos)") (auto dest!: op_at_pos)

declare check_advance_loop.simps [simp del]

definition re_check_advance :: "u8 list \<Rightarrow> nat \<Rightarrow> int option" where
  "re_check_advance bc bc_len = do {
     (ret, has_back_reference, bm) \<leftarrow>
       check_advance_loop bc bc_len 0 (- 2) False (replicate CAPTURE_COUNT_MAX 0);
     Some (if has_back_reference \<and> 3 \<in> set bm then - 1 else if ret = - 2 then 0 else ret) }"

function simple_quantifier_loop :: "u8 list \<Rightarrow> nat \<Rightarrow> nat \<Rightarrow> int \<Rightarrow> int option" where
  "simple_quantifier_loop bc bc_len pos cnt =
     (if pos < bc_len then
        case op_at bc pos of
          None \<Rightarrow> None
        | Some (opcode, len) \<Rightarrow>
            if is_simple_char opcode then simple_quantifier_loop bc bc_len (pos + len) (cnt + 1)
            else if opcode \<in> {REOP_line_start, REOP_line_end, REOP_word_boundary, REOP_not_word_boundary}
            then simple_quantifier_loop bc bc_len (pos + len) cnt
            else Some (- 1)
      else Some cnt)"
  by pat_completeness auto
termination
  by (relation "measure (\<lambda>(bc, n, pos, c). n - pos)") (auto dest!: op_at_pos)

declare simple_quantifier_loop.simps [simp del]

definition re_is_simple_quantifier :: "u8 list \<Rightarrow> nat \<Rightarrow> int option" where
  "re_is_simple_quantifier bc bc_len = simple_quantifier_loop bc bc_len 0 0"

text \<open>
  \<open>compute_stack_size\<close> walks the code after the header; \<open>Some None\<close> is its result -1. The assertions
  are checked before the length of a range table is added.
\<close>

function stack_size_loop :: "u8 list \<Rightarrow> nat \<Rightarrow> nat \<Rightarrow> nat \<Rightarrow> nat \<Rightarrow> nat option option" where
  "stack_size_loop bc bc_len pos stack_size stack_size_max =
     (if pos < bc_len then
        case op_at bc pos of
          None \<Rightarrow> None
        | Some (opcode, len) \<Rightarrow>
            if pos + snd (reopcode_info ! unat (bc ! pos)) \<le> bc_len then
              if opcode \<in> {REOP_push_i32, REOP_push_char_pos} then
                if stack_size + 1 > stack_size_max then
                  if stack_size + 1 > STACK_SIZE_MAX then Some None
                  else stack_size_loop bc bc_len (pos + len) (stack_size + 1) (stack_size + 1)
                else stack_size_loop bc bc_len (pos + len) (stack_size + 1) stack_size_max
              else if opcode \<in> {REOP_drop, REOP_bne_char_pos} then
                if stack_size > 0 then stack_size_loop bc bc_len (pos + len) (stack_size - 1) stack_size_max
                else None
              else stack_size_loop bc bc_len (pos + len) stack_size stack_size_max
            else None
      else Some (Some stack_size_max))"
  by pat_completeness auto
termination
  by (relation "measure (\<lambda>(bc, n, pos, s, m). n - pos)") (auto dest!: op_at_pos)

declare stack_size_loop.simps [simp del]

definition compute_stack_size :: "u8 list \<Rightarrow> nat \<Rightarrow> nat option option" where
  "compute_stack_size bc bc_len =
     (if RE_HEADER_LEN \<le> bc_len then stack_size_loop (drop RE_HEADER_LEN bc) (bc_len - RE_HEADER_LEN) 0 0 0
      else Some (Some 0))"

end
