(* ===== verification/RegexpEmit.thy ===== *)
theory RegexpEmit
  imports RegexpOps UnicodeProps
begin

text \<open>
  The state of the regular expression compiler of \<^verbatim>\<open>libregexp.c\<close> and the operations that emit code: the emit functions, the
  predefined character classes, case folding of a class and the encoding of a class as a range
  instruction. Pointers into the pattern are offsets into \<open>ps_buf\<close>, the pattern with its terminating zero. The union \<open>u\<close> of
  the error message and the temporary buffer is the block \<open>ps_u\<close>.
\<close>

section \<open>Parser state\<close>

definition TMP_BUF_SIZE :: nat where
  "TMP_BUF_SIZE = 128"

record REParseState =
  ps_byte_code :: DynBuf
  ps_buf :: "u8 list"
  ps_buf_ptr :: nat
  ps_buf_end :: nat
  ps_re_flags :: u32
  ps_is_utf16 :: bool
  ps_ignore_case :: bool
  ps_dotall :: bool
  ps_capture_count :: nat
  ps_total_capture_count :: int
  ps_has_named_captures :: int
  ps_opaque :: nat
  ps_lre_realloc :: "u32 realloc_fun"
  ps_group_names :: DynBuf
  ps_u :: "u8 list"

type_synonym parse_result = "(int \<times> REParseState) option"

text \<open>The characters of a message, and \<open>vsnprintf\<close> into the union.\<close>

definition msg :: "string \<Rightarrow> u8 list" where
  "msg m = map (\<lambda>ch. of_nat (of_char ch)) m"

definition re_parse_error :: "REParseState \<Rightarrow> u8 list \<Rightarrow> int \<times> REParseState" where
  "re_parse_error s text =
     (let b = vsnprintf_bytes text TMP_BUF_SIZE in (- 1, s\<lparr>ps_u := b @ drop (length b) (ps_u s)\<rparr>))"

definition re_parse_out_of_memory :: "REParseState \<Rightarrow> int \<times> REParseState" where
  "re_parse_out_of_memory s = re_parse_error s (msg ''out of memory'')"

section \<open>Emitting code\<close>

definition re_emit_op :: "REParseState \<Rightarrow> REOPCodeEnum \<Rightarrow> REParseState option" where
  "re_emit_op s opcode = do {
     (r, b) \<leftarrow> dbuf_putc (ps_byte_code s) (opc opcode);
     Some (s\<lparr>ps_byte_code := b\<rparr>) }"

definition emit_u32 :: "REParseState \<Rightarrow> u32 \<Rightarrow> REParseState option" where
  "emit_u32 s val = do {
     (r, b) \<leftarrow> dbuf_put_u32 (ps_byte_code s) val;
     Some (s\<lparr>ps_byte_code := b\<rparr>) }"

definition re_emit_op_u32 :: "REParseState \<Rightarrow> REOPCodeEnum \<Rightarrow> u32 \<Rightarrow> (nat \<times> REParseState) option" where
  "re_emit_op_u32 s opcode val = do {
     s \<leftarrow> re_emit_op s opcode;
     let pos = db_size (ps_byte_code s);
     s \<leftarrow> emit_u32 s val;
     Some (pos, s) }"

definition re_emit_goto :: "REParseState \<Rightarrow> REOPCodeEnum \<Rightarrow> u32 \<Rightarrow> (nat \<times> REParseState) option" where
  "re_emit_goto s opcode val = do {
     s \<leftarrow> re_emit_op s opcode;
     let pos = db_size (ps_byte_code s);
     s \<leftarrow> emit_u32 s (val - (of_nat pos + 4));
     Some (pos, s) }"

definition re_emit_op_u8 :: "REParseState \<Rightarrow> REOPCodeEnum \<Rightarrow> u32 \<Rightarrow> REParseState option" where
  "re_emit_op_u8 s opcode val = do {
     s \<leftarrow> re_emit_op s opcode;
     (r, b) \<leftarrow> dbuf_putc (ps_byte_code s) (ucast val);
     Some (s\<lparr>ps_byte_code := b\<rparr>) }"

definition emit_u16 :: "REParseState \<Rightarrow> u32 \<Rightarrow> REParseState option" where
  "emit_u16 s val = do {
     (r, b) \<leftarrow> dbuf_put_u16 (ps_byte_code s) (ucast val);
     Some (s\<lparr>ps_byte_code := b\<rparr>) }"

definition re_emit_op_u16 :: "REParseState \<Rightarrow> REOPCodeEnum \<Rightarrow> u32 \<Rightarrow> REParseState option" where
  "re_emit_op_u16 s opcode val = do { s \<leftarrow> re_emit_op s opcode; emit_u16 s val }"

section \<open>Character classes\<close>

definition CLASS_RANGE_BASE :: int where
  "CLASS_RANGE_BASE = 0x40000000"

datatype CharRangeEnum = CHAR_RANGE_d | CHAR_RANGE_D | CHAR_RANGE_s | CHAR_RANGE_S | CHAR_RANGE_w | CHAR_RANGE_W

text \<open>\<open>char_range_table[c >> 1]\<close> and \<open>c & 1\<close>.\<close>

fun char_range_table :: "CharRangeEnum \<Rightarrow> u16 list \<times> bool" where
  "char_range_table CHAR_RANGE_d = (char_range_d, False)"
| "char_range_table CHAR_RANGE_D = (char_range_d, True)"
| "char_range_table CHAR_RANGE_s = (char_range_s, False)"
| "char_range_table CHAR_RANGE_S = (char_range_s, True)"
| "char_range_table CHAR_RANGE_w = (char_range_w, False)"
| "char_range_table CHAR_RANGE_W = (char_range_w, True)"

fun add_points :: "CharRange \<Rightarrow> u16 list \<Rightarrow> nat \<Rightarrow> nat \<Rightarrow> (int \<times> CharRange) option" where
  "add_points cr tab i 0 = Some (0, cr)"
| "add_points cr tab i (Suc n) = do {
     v \<leftarrow> rd tab i;
     try_ok (cr_add_point cr (ucast v)) (\<lambda>cr. add_points cr tab (i + 1) n) }"

definition cr_init_char_range :: "REParseState \<Rightarrow> CharRangeEnum \<Rightarrow> (int \<times> CharRange) option" where
  "cr_init_char_range s c =
     (let (tab, invert) = char_range_table c in do {
        len \<leftarrow> rd tab 0;
        try_ok (add_points (cr_init (ps_opaque s) (Some (ps_lre_realloc s))) tab 1 (unat len * 2)) (\<lambda>cr.
        if invert then try_ok (cr_invert cr) (\<lambda>cr. Some (0, cr)) else Some (0, cr)) })"

text \<open>The loop that moves the lower case letters of \<open>a\<close> to upper case in place.\<close>

fun shift_points :: "u32 list \<Rightarrow> nat \<Rightarrow> nat \<Rightarrow> u32 list option" where
  "shift_points pt i 0 = Some pt"
| "shift_points pt i (Suc n) = do {
     v \<leftarrow> rd pt i;
     pt \<leftarrow> wr pt i (v + (0x41 - 0x61));
     shift_points pt (i + 1) n }"

definition cr_canonicalize :: "REParseState \<Rightarrow> CharRange \<Rightarrow> (int \<times> CharRange) option" where
  "cr_canonicalize s cr = do {
     (ret, a) \<leftarrow> cr_op (cr_init (cr_mem_opaque cr) (Some (ps_lre_realloc s))) (cr_points cr) (cr_len cr)
       [0x61, 0x7A + 1] 2 CR_OP_INTER;
     if ret \<noteq> 0 then Some (ret, cr)
     else do {
       pt \<leftarrow> shift_points (cr_points a) 0 (cr_len a);
       cr_union1 cr pt (cr_len a) } }"

text \<open>The ranges \<open>k\<close> of them left from point \<open>i\<close> on, with 16-bit and with 32-bit bounds.\<close>

fun emit_ranges16 :: "REParseState \<Rightarrow> u32 list \<Rightarrow> nat \<Rightarrow> nat \<Rightarrow> REParseState option" where
  "emit_ranges16 s pt i 0 = Some s"
| "emit_ranges16 s pt i (Suc k) = do {
     low \<leftarrow> rd pt i;
     s \<leftarrow> emit_u16 s low;
     p \<leftarrow> rd pt (i + 1);
     let high = p - 1;
     s \<leftarrow> emit_u16 s (if high = UINT32_MAX - 1 then 0xffff else high);
     emit_ranges16 s pt (i + 2) k }"

fun emit_ranges32 :: "REParseState \<Rightarrow> u32 list \<Rightarrow> nat \<Rightarrow> nat \<Rightarrow> REParseState option" where
  "emit_ranges32 s pt i 0 = Some s"
| "emit_ranges32 s pt i (Suc k) = do {
     low \<leftarrow> rd pt i;
     s \<leftarrow> emit_u32 s low;
     high \<leftarrow> rd pt (i + 1);
     s \<leftarrow> emit_u32 s (high - 1);
     emit_ranges32 s pt (i + 2) k }"

text \<open>
  A range of which the last point is \<open>UINT32_MAX\<close> has no upper bound. The loops run over \<open>cr->len\<close> points by steps of two: for an
  odd number of points the last step would read one point more.
\<close>

definition re_emit_range :: "REParseState \<Rightarrow> CharRange \<Rightarrow> parse_result" where
  "re_emit_range s cr =
     (let len = cr_len cr div 2 in
      if len \<ge> 65535 then Some (re_parse_error s (msg ''too many ranges''))
      else if len = 0 then do { (pos, s) \<leftarrow> re_emit_op_u32 s REOP_char32 (- 1); Some (0, s) }
      else do {
        top_pt \<leftarrow> rd (cr_points cr) (cr_len cr - 1);
        high \<leftarrow> (if top_pt = UINT32_MAX then rd (cr_points cr) (cr_len cr - 2) else Some top_pt);
        s \<leftarrow> (if high \<le> 0xffff then do {
                s \<leftarrow> re_emit_op_u16 s REOP_range (of_nat len);
                emit_ranges16 s (cr_points cr) 0 ((cr_len cr + 1) div 2) }
              else do {
                s \<leftarrow> re_emit_op_u16 s REOP_range32 (of_nat len);
                emit_ranges32 s (cr_points cr) 0 ((cr_len cr + 1) div 2) });
        Some (0, s) })"

end
