(* ===== verification/RegexpParse.thy ===== *)
theory RegexpParse
  imports RegexpEmit Utf8
begin

text \<open>
  The regular expression compiler of \<^verbatim>\<open>libregexp.c\<close>: a recursive descent parser that emits bytecode as it
  goes. Every function takes and returns the parser state; positions in the pattern are offsets. A result is \<open>None\<close> on
  an access outside a block or a use of uninitialised data, else the C result (negative for an error, whose message
  is in \<open>ps_u\<close>) with the new state.

  The recursion of \<open>re_parse_disjunction\<close> through \<open>re_parse_term\<close> is bounded by the caller's
  \<open>lre_check_stack_overflow\<close>: the number of nested calls it lets through is the first argument. A loop whose next turn would not start
  further on in the pattern would not end and is \<open>None\<close> too.
\<close>

section \<open>Numbers and escapes\<close>

function parse_digits_loop :: "u8 list \<Rightarrow> nat \<Rightarrow> nat \<Rightarrow> int \<Rightarrow> bool \<Rightarrow> (int \<times> nat) option" where
  "parse_digits_loop buf p0 p v allow_overflow =
     (case rd buf p of
        None \<Rightarrow> None
      | Some b \<Rightarrow>
          if uint b < 0x30 \<or> uint b > 0x39 then Some (v, p)
          else
            let v = v * 10 + uint b - 0x30 in
            if v \<ge> 0x7fffffff then
              if allow_overflow then parse_digits_loop buf p0 (p + 1) 0x7fffffff allow_overflow
              else Some (- 1, p0)
            else parse_digits_loop buf p0 (p + 1) v allow_overflow)"
  by pat_completeness auto
termination
  by (relation "measure (\<lambda>(buf, p0, p, v, a). length buf - p)") (auto simp: rd_Some_iff)

declare parse_digits_loop.simps [simp del]

definition parse_digits :: "u8 list \<Rightarrow> nat \<Rightarrow> bool \<Rightarrow> (int \<times> nat) option" where
  "parse_digits buf p allow_overflow = parse_digits_loop buf p p 0 allow_overflow"

definition re_parse_expect :: "REParseState \<Rightarrow> nat \<Rightarrow> u8 \<Rightarrow> (int \<times> nat \<times> REParseState) option" where
  "re_parse_expect s p c = do {
     b \<leftarrow> rd (ps_buf s) p;
     if b \<noteq> c then
       let (r, s) = re_parse_error s (msg ''expecting '' @ [0x27, c, 0x27]) in Some (r, p, s)
     else Some (0, p + 1, s) }"

text \<open>The two hexadecimal loops; \<open>Some None\<close> is the result -1.\<close>

function hex_brace_loop :: "u8 list \<Rightarrow> nat \<Rightarrow> u32 \<Rightarrow> (u32 \<times> nat) option option" where
  "hex_brace_loop buf p c =
     (case rd buf p of
        None \<Rightarrow> None
      | Some b \<Rightarrow>
          if from_hex (uint b) < 0 then Some None
          else
            let c = push_bit 4 c OR word_of_int (from_hex (uint b)) in
            if c > 0x10FFFF then Some None
            else case rd buf (p + 1) of
              None \<Rightarrow> None
            | Some b1 \<Rightarrow> if b1 = 0x7D then Some (Some (c, p + 2)) else hex_brace_loop buf (p + 1) c)"
  by pat_completeness auto
termination
  by (relation "measure (\<lambda>(buf, p, c). length buf - p)") (auto simp: rd_Some_iff)

declare hex_brace_loop.simps [simp del]

fun hex_digits :: "nat \<Rightarrow> u8 list \<Rightarrow> nat \<Rightarrow> u32 \<Rightarrow> (u32 \<times> nat) option option" where
  "hex_digits 0 buf p c = Some (Some (c, p))"
| "hex_digits (Suc n) buf p c = do {
     b \<leftarrow> rd buf p;
     let h = from_hex (uint b);
     if h < 0 then Some None else hex_digits n buf (p + 1) (push_bit 4 c OR word_of_int h) }"

text \<open>An escaped high surrogate followed by an escaped low surrogate.\<close>

definition escaped_pair :: "u8 list \<Rightarrow> nat \<Rightarrow> u32 \<Rightarrow> (u32 \<times> nat) option" where
  "escaped_pair buf p c = do {
     b0 \<leftarrow> rd buf p;
     if b0 \<noteq> 0x5C then Some (c, p)
     else do {
       b1 \<leftarrow> rd buf (p + 1);
       if b1 \<noteq> 0x75 then Some (c, p)
       else do {
         r \<leftarrow> hex_digits 4 buf (p + 2) 0;
         case r of
           None \<Rightarrow> Some (c, p)
         | Some (c1, p1) \<Rightarrow>
             Some (if c1 \<ge> 0xdc00 \<and> c1 < 0xe000
                   then ((push_bit 10 (c AND 0x3ff) OR (c1 AND 0x3ff)) + 0x10000, p + 6) else (c, p)) } } }"

definition escape_hex :: "u8 list \<Rightarrow> nat \<Rightarrow> nat \<Rightarrow> bool \<Rightarrow> (u32 \<times> nat) option option" where
  "escape_hex buf p allow_utf16 is_x = do {
     b \<leftarrow> rd buf p;
     if b = 0x7B \<and> allow_utf16 \<noteq> 0 then hex_brace_loop buf (p + 1) 0
     else do {
       r \<leftarrow> hex_digits (if is_x then 2 else 4) buf p 0;
       case r of
         None \<Rightarrow> Some None
       | Some (c, p) \<Rightarrow>
           if c \<ge> 0xd800 \<and> c < 0xdc00 \<and> allow_utf16 = 2 then map_option Some (escaped_pair buf p c)
           else Some (Some (c, p)) } }"

text \<open>\<open>\0\<close> to \<open>\7\<close>: in unicode mode only \<open>\0\<close> not followed by a digit, else a legacy octal sequence.\<close>

definition escape_octal :: "u8 list \<Rightarrow> nat \<Rightarrow> nat \<Rightarrow> u32 \<Rightarrow> (u32 \<times> nat) option option" where
  "escape_octal buf p allow_utf16 c = do {
     b \<leftarrow> rd buf p;
     if allow_utf16 = 2 then Some (if c \<noteq> 0 \<or> is_digit (uint b) then None else Some (c, p))
     else
       let v = ucast b - 0x30 in
       if v > 7 then Some (Some (c, p))
       else
         let c = push_bit 3 c OR v in
         if c \<ge> 32 then Some (Some (c, p + 1))
         else do {
           b \<leftarrow> rd buf (p + 1);
           let v = ucast b - 0x30;
           Some (Some (if v > 7 then (c, p + 1) else (push_bit 3 c OR v, p + 2))) } }"

text \<open>\<open>lre_parse_escape\<close>: the character, -1 or -2, and the position, which an error leaves alone.\<close>

definition lre_parse_escape :: "u8 list \<Rightarrow> nat \<Rightarrow> nat \<Rightarrow> (int \<times> nat) option" where
  "lre_parse_escape buf p allow_utf16 = do {
     c \<leftarrow> rd buf p;
     let char = (\<lambda>v. Some (Some (v, p + 1)));
     r \<leftarrow> (if c = 0x62 then char 8
           else if c = 0x66 then char 12
           else if c = 0x6E then char 10
           else if c = 0x72 then char 13
           else if c = 0x74 then char 9
           else if c = 0x76 then char 11
           else if c = 0x78 \<or> c = 0x75 then escape_hex buf (p + 1) allow_utf16 (c = 0x78)
           else if c \<ge> 0x30 \<and> c \<le> 0x37 then escape_octal buf (p + 1) allow_utf16 (ucast c - 0x30)
           else Some None);
     Some (case r of
       Some (v, p') \<Rightarrow> (uint v, p')
     | None \<Rightarrow>
         (if c = 0x78 \<or> c = 0x75 \<or> c \<ge> 0x30 \<and> c \<le> 0x37 then - 1 else - 2, p)) }"

section \<open>Unicode properties and class atoms\<close>

definition is_unicode_char :: "int \<Rightarrow> bool" where
  "is_unicode_char c \<longleftrightarrow>
     (c \<ge> 0x30 \<and> c \<le> 0x39) \<or> (c \<ge> 0x41 \<and> c \<le> 0x5A) \<or> (c \<ge> 0x61 \<and> c \<le> 0x7A) \<or> c = 0x5F"

text \<open>Read a name into a buffer of 64 bytes: \<open>Some None\<close> when it does not fit.\<close>

function unicode_name :: "u8 list \<Rightarrow> nat \<Rightarrow> u8 list \<Rightarrow> (u8 list \<times> nat) option option" where
  "unicode_name buf p acc =
     (case rd buf p of
        None \<Rightarrow> None
      | Some b \<Rightarrow>
          if is_unicode_char (uint b) then
            if length acc \<ge> 63 then Some None else unicode_name buf (p + 1) (acc @ [b])
          else Some (Some (acc @ [0], p)))"
  by pat_completeness auto
termination
  by (relation "measure (\<lambda>(buf, p, acc). length buf - p)") (auto simp: rd_Some_iff)

declare unicode_name.simps [simp del]

text \<open>The set of the property \<open>name\<close>, \<open>value\<close>: the range and the result of the lookup, or the error.\<close>

definition property_range :: "CharRange \<Rightarrow> u8 list \<Rightarrow> u8 list \<Rightarrow> ((int \<times> CharRange) + string) option" where
  "property_range cr name val =
     (if name = cstr ''Script'' \<or> name = cstr ''sc'' then do {
        (ret, cr) \<leftarrow> unicode_script cr val False;
        Some (if ret = - 2 then Inr ''unknown unicode script'' else Inl (ret, cr)) }
      else if name = cstr ''Script_Extensions'' \<or> name = cstr ''scx'' then do {
        (ret, cr) \<leftarrow> unicode_script cr val True;
        Some (if ret = - 2 then Inr ''unknown unicode script'' else Inl (ret, cr)) }
      else if name = cstr ''General_Category'' \<or> name = cstr ''gc'' then do {
        (ret, cr) \<leftarrow> unicode_general_category cr val;
        Some (if ret = - 2 then Inr ''unknown unicode general category'' else Inl (ret, cr)) }
      else if val = [0] then do {
        (ret, cr) \<leftarrow> unicode_general_category cr name;
        if ret = - 1 then Some (Inl (ret, cr))
        else if ret < 0 then do {
          (ret, cr) \<leftarrow> unicode_prop cr name;
          Some (if ret = - 2 then Inr ''unknown unicode property name'' else Inl (ret, cr)) }
        else Some (Inl (0, cr)) }
      else Some (Inr ''unknown unicode property name''))"

type_synonym class_result = "(int \<times> CharRange option \<times> nat \<times> REParseState) option"

definition class_error :: "REParseState \<Rightarrow> nat \<Rightarrow> u8 list \<Rightarrow> class_result" where
  "class_error s p m = (let (r, s) = re_parse_error s m in Some (r, None, p, s))"

definition parse_unicode_property :: "REParseState \<Rightarrow> nat \<Rightarrow> bool \<Rightarrow> class_result" where
  "parse_unicode_property s p0 is_inv = do {
     b \<leftarrow> rd (ps_buf s) p0;
     if b \<noteq> 0x7B then class_error s p0 (msg ''expecting '' @ [0x27, 0x7B, 0x27] @ msg '' after '' @ [0x5C, 0x70])
     else do {
       r \<leftarrow> unicode_name (ps_buf s) (p0 + 1) [];
       case r of
         None \<Rightarrow> class_error s p0 (msg ''unknown unicode property name'')
       | Some (name, p) \<Rightarrow> do {
           b \<leftarrow> rd (ps_buf s) p;
           r \<leftarrow> (if b = 0x3D then unicode_name (ps_buf s) (p + 1) [] else Some (Some ([0], p)));
           case r of
             None \<Rightarrow> class_error s p0 (msg ''unknown unicode property value'')
           | Some (val, p) \<Rightarrow> do {
               b \<leftarrow> rd (ps_buf s) p;
               if b \<noteq> 0x7D then class_error s p0 (msg ''expecting '' @ [0x27, 0x7D, 0x27])
               else do {
                 m \<leftarrow> property_range (cr_init (ps_opaque s) (Some (ps_lre_realloc s))) name val;
                 case m of
                   Inr e \<Rightarrow> class_error s p0 (msg e)
                 | Inl (ret, cr) \<Rightarrow>
                     if ret \<noteq> 0 then let (r, s) = re_parse_out_of_memory s in Some (r, None, p0, s)
                     else if is_inv then do {
                       (ret, cr) \<leftarrow> cr_invert cr;
                       Some (if ret \<noteq> 0 then (- 1, None, p0, s) else (0, Some cr, p + 1, s)) }
                     else Some (0, Some cr, p + 1, s) } } } } }"

text \<open>The characters it is always valid to escape.\<close>

definition syntax_chars :: "u8 list" where
  "syntax_chars = [0x5E, 0x24, 0x5C, 0x2E, 0x2A, 0x2B, 0x3F, 0x28, 0x29, 0x5B, 0x5D, 0x7B, 0x7D, 0x7C, 0x2F]"

definition class_range_of :: "u8 \<Rightarrow> CharRangeEnum option" where
  "class_range_of c =
     (if c = 0x64 then Some CHAR_RANGE_d else if c = 0x44 then Some CHAR_RANGE_D
      else if c = 0x73 then Some CHAR_RANGE_s else if c = 0x53 then Some CHAR_RANGE_S
      else if c = 0x77 then Some CHAR_RANGE_w else if c = 0x57 then Some CHAR_RANGE_W else None)"

text \<open>
  The label \<open>normal_char\<close>: a character of the pattern at \<open>p\<close>, whose first byte is \<open>c\<close>. A malformed UTF-8 sequence
  gives -1, in unicode mode without a message.
\<close>

definition class_normal_char :: "REParseState \<Rightarrow> u8 \<Rightarrow> nat \<Rightarrow> class_result" where
  "class_normal_char s c p =
     (if c \<ge> 128 then do {
        r \<leftarrow> unicode_from_utf8 (ps_buf s) p (int UTF8_CHAR_LEN_MAX);
        case r of
          None \<Rightarrow> if \<not> ps_is_utf16 s then class_error s p (msg ''malformed unicode char'') else Some (- 1, None, p, s)
        | Some (v, p') \<Rightarrow>
            if v > 0xffff \<and> \<not> ps_is_utf16 s then class_error s p (msg ''malformed unicode char'')
            else Some (sint v, None, p', s) }
      else Some (uint c, None, p + 1, s))"

definition invalid_escape :: "REParseState \<Rightarrow> nat \<Rightarrow> class_result" where
  "invalid_escape s p = class_error s p (msg ''invalid escape sequence in regular expression'')"

text \<open>The escapes: \<open>p\<close> is the position after the backslash, \<open>c\<close> the byte there.\<close>

definition class_escape :: "REParseState \<Rightarrow> nat \<Rightarrow> u8 \<Rightarrow> bool \<Rightarrow> class_result" where
  "class_escape s p c inclass =
     (case class_range_of c of
        Some e \<Rightarrow> do {
          (ret, cr) \<leftarrow> cr_init_char_range s e;
          Some (if ret \<noteq> 0 then (- 1, None, p, s) else (CLASS_RANGE_BASE, Some cr, p + 1, s)) }
      | None \<Rightarrow>
          if c = 0x63 then do {
            b \<leftarrow> rd (ps_buf s) (p + 1);
            if b \<ge> 0x61 \<and> b \<le> 0x7A \<or> b \<ge> 0x41 \<and> b \<le> 0x5A \<or>
               (b \<ge> 0x30 \<and> b \<le> 0x39 \<or> b = 0x5F) \<and> inclass \<and> \<not> ps_is_utf16 s
            then Some (uint (b AND 0x1f), None, p + 2, s)
            else if ps_is_utf16 s then invalid_escape s p
            else Some (0x5C, None, p, s) }
          else if (c = 0x70 \<or> c = 0x50) \<and> ps_is_utf16 s then do {
            (ret, cr, p', s) \<leftarrow> parse_unicode_property s (p + 1) (c = 0x50);
            Some (if ret \<noteq> 0 then (- 1, None, p, s) else (CLASS_RANGE_BASE, cr, p', s)) }
          else do {
            (ret, p') \<leftarrow> lre_parse_escape (ps_buf s) p (if ps_is_utf16 s then 2 else 0);
            if ret \<ge> 0 then Some (ret, None, p', s)
            else if ret = - 2 \<and> c \<noteq> 0 \<and> c \<in> set syntax_chars then class_normal_char s c p
            else if ps_is_utf16 s then invalid_escape s p
            else class_normal_char s c p })"

text \<open>-1 on error, else a character or \<open>CLASS_RANGE_BASE\<close> and a class; the new position.\<close>

definition get_class_atom :: "REParseState \<Rightarrow> nat \<Rightarrow> bool \<Rightarrow> class_result" where
  "get_class_atom s p inclass = do {
     c \<leftarrow> rd (ps_buf s) p;
     if c = 0x5C then
       if p + 1 \<ge> ps_buf_end s then class_error s p (msg ''unexpected end'')
       else do { c \<leftarrow> rd (ps_buf s) (p + 1); class_escape s (p + 1) c inclass }
     else if c = 0 \<and> p \<ge> ps_buf_end s then class_error s p (msg ''unexpected end'')
     else class_normal_char s c p }"

section \<open>Character classes\<close>

text \<open>One atom or range of a class from \<open>p\<close> on: the new range, position and state; a negative result is an error with its message set.\<close>

definition class_add_atom :: "REParseState \<Rightarrow> CharRange \<Rightarrow> int \<Rightarrow> CharRange option \<Rightarrow> nat \<Rightarrow> (int \<times> CharRange \<times> nat \<times> REParseState) option" where
  "class_add_atom s cr c1 cr1 p = do {
     (ret, cr) \<leftarrow> (if c1 \<ge> CLASS_RANGE_BASE then
                    case cr1 of None \<Rightarrow> None | Some cr1 \<Rightarrow> cr_union1 cr (cr_points cr1) (cr_len cr1)
                  else cr_union_interval cr (word_of_int c1) (word_of_int c1));
     if ret \<noteq> 0 then let (r, s) = re_parse_out_of_memory s in Some (r, cr, p, s) else Some (0, cr, p, s) }"

definition class_invalid_range :: "REParseState \<Rightarrow> CharRange \<Rightarrow> nat \<Rightarrow> (int \<times> CharRange \<times> nat \<times> REParseState) option" where
  "class_invalid_range s cr p = (let (r, s) = re_parse_error s (msg ''invalid class range'') in Some (r, cr, p, s))"

definition class_item :: "REParseState \<Rightarrow> CharRange \<Rightarrow> nat \<Rightarrow> (int \<times> CharRange \<times> nat \<times> REParseState) option" where
  "class_item s cr p = do {
     (c1, cr1, p, s) \<leftarrow> get_class_atom s p True;
     if c1 < 0 then Some (- 1, cr, p, s)
     else do {
       b \<leftarrow> rd (ps_buf s) p;
       dash \<leftarrow> (if b = 0x2D then do { b1 \<leftarrow> rd (ps_buf s) (p + 1); Some (b1 \<noteq> 0x5D) } else Some False);
       if \<not> dash then class_add_atom s cr c1 cr1 p
       else if c1 \<ge> CLASS_RANGE_BASE then
         if cr1 = None then None
         else if ps_is_utf16 s then class_invalid_range s cr p
         else class_add_atom s cr c1 cr1 p
       else do {
         (c2, cr2, p0, s) \<leftarrow> get_class_atom s (p + 1) True;
         if c2 < 0 then Some (- 1, cr, p, s)
         else if c2 \<ge> CLASS_RANGE_BASE then
           if cr2 = None then None
           else if ps_is_utf16 s then class_invalid_range s cr p
           else class_add_atom s cr c1 cr1 p
         else if c2 < c1 then class_invalid_range s cr p0
         else do {
           (ret, cr) \<leftarrow> cr_union_interval cr (word_of_int c1) (word_of_int c2);
           if ret \<noteq> 0 then let (r, s) = re_parse_out_of_memory s in Some (r, cr, p0, s)
           else Some (0, cr, p0, s) } } } }"

function class_loop :: "REParseState \<Rightarrow> CharRange \<Rightarrow> nat \<Rightarrow> (int \<times> CharRange \<times> nat \<times> REParseState) option" where
  "class_loop s cr p =
     (case rd (ps_buf s) p of
        None \<Rightarrow> None
      | Some b \<Rightarrow>
          if b = 0x5D then Some (0, cr, p, s)
          else case class_item s cr p of
            None \<Rightarrow> None
          | Some (r, cr, p', s') \<Rightarrow>
              if r \<noteq> 0 then Some (- 1, cr, p', s')
              else if p' \<le> p \<or> ps_buf s' \<noteq> ps_buf s then None
              else class_loop s' cr p')"
  by pat_completeness auto
termination
  by (relation "measure (\<lambda>(s, cr, p). length (ps_buf s) - p)") (auto simp: rd_Some_iff)

declare class_loop.simps [simp del]

definition re_parse_char_class :: "REParseState \<Rightarrow> nat \<Rightarrow> (int \<times> nat \<times> REParseState) option" where
  "re_parse_char_class s p0 = do {
     b \<leftarrow> rd (ps_buf s) (p0 + 1);
     let invert = (b = 0x5E);
     (r, cr, p, s) \<leftarrow> class_loop s (cr_init (ps_opaque s) (Some (ps_lre_realloc s))) (if invert then p0 + 2 else p0 + 1);
     if r \<noteq> 0 then Some (- 1, p0, s)
     else do {
       (r, cr) \<leftarrow> (if ps_ignore_case s then cr_canonicalize s cr else Some (0, cr));
       if r \<noteq> 0 then let (r, s) = re_parse_out_of_memory s in Some (r, p0, s)
       else do {
         (r, cr) \<leftarrow> (if invert then cr_invert cr else Some (0, cr));
         if r \<noteq> 0 then let (r, s) = re_parse_out_of_memory s in Some (r, p0, s)
         else do {
           (r, s) \<leftarrow> re_emit_range s cr;
           if r \<noteq> 0 then Some (- 1, p0, s) else Some (0, p + 1, s) } } } }"

section \<open>Group names and captures\<close>

text \<open>
  Read a group name into \<open>dest\<close>, of which \<open>q\<close> bytes are written; the result is 0 or -1 with the block, which an error leaves partly
  written, and the position.
\<close>

function group_name_loop ::
  "u8 list \<Rightarrow> u8 list \<Rightarrow> nat \<Rightarrow> nat \<Rightarrow> nat \<Rightarrow> bool \<Rightarrow> (int \<times> u8 list \<times> nat) option" where
  "group_name_loop buf dest buf_size q p is_utf16 =
     (case (do {
        b \<leftarrow> rd buf p;
        if b = 0x5C then do {
          b1 \<leftarrow> rd buf (p + 1);
          if b1 \<noteq> 0x75 then Some (Inl (- 1, dest))
          else do {
            (c, p') \<leftarrow> lre_parse_escape buf (p + 1) (if is_utf16 then 2 else 0);
            Some (Inr (word_of_int c, p')) } }
        else if b = 0x3E then
          if q = 0 then Some (Inl (- 1, dest))
          else do { dest \<leftarrow> wr dest q 0; Some (Inl (0, dest)) }
        else if b \<ge> 128 then do {
          r \<leftarrow> unicode_from_utf8 buf p (int UTF8_CHAR_LEN_MAX);
          Some (Inr (case r of None \<Rightarrow> (- 1, p) | Some (c, p') \<Rightarrow> (c, p'))) }
        else Some (Inr (ucast b, p + 1)) }) of
        None \<Rightarrow> None
      | Some (Inl (r, dest)) \<Rightarrow> Some (r, dest, if r = 0 then p + 1 else p)
      | Some (Inr (c, p')) \<Rightarrow>
          if c > 0x10FFFF then Some (- 1, dest, p)
          else case (if q = 0 then lre_js_is_ident_first c else lre_js_is_ident_next c) of
            None \<Rightarrow> None
          | Some ok \<Rightarrow>
              if \<not> ok \<or> q + UTF8_CHAR_LEN_MAX + 1 > buf_size then Some (- 1, dest, p)
              else case blit dest q (if c < 128 then [ucast c] else unicode_to_utf8 c) of
                None \<Rightarrow> None
              | Some dest \<Rightarrow>
                  if p' \<le> p \<or> p \<ge> length buf then None
                  else group_name_loop buf dest buf_size
                    (q + (if c < 128 then 1 else length (unicode_to_utf8 c))) p' is_utf16)"
  by pat_completeness auto
termination
  by (relation "measure (\<lambda>(buf, dest, n, q, p, u). length buf - p)") auto

declare group_name_loop.simps [simp del]

definition re_parse_group_name :: "u8 list \<Rightarrow> u8 list \<Rightarrow> nat \<Rightarrow> nat \<Rightarrow> bool \<Rightarrow> (int \<times> u8 list \<times> nat) option" where
  "re_parse_group_name buf dest buf_size p is_utf16 = do {
     (r, dest, p') \<leftarrow> group_name_loop buf dest buf_size 0 p is_utf16;
     Some (if r \<noteq> 0 then (- 1, dest, p) else (0, dest, p')) }"

text \<open>Skip a class in \<open>re_parse_captures\<close>: the position of its closing bracket.\<close>

function skip_class :: "u8 list \<Rightarrow> nat \<Rightarrow> nat \<Rightarrow> nat option" where
  "skip_class buf buf_end p =
     (if p < buf_end then
        case rd buf p of
          None \<Rightarrow> None
        | Some b \<Rightarrow> if b = 0x5D then Some p else skip_class buf buf_end (if b = 0x5C then p + 2 else p + 1)
      else Some p)"
  by pat_completeness auto
termination
  by (relation "measure (\<lambda>(buf, e, p). e - p)") auto

declare skip_class.simps [simp del]

lemma skip_class_ge: "skip_class buf e p = Some p' \<Longrightarrow> p \<le> p'"
proof (induction buf e p rule: skip_class.induct)
  case (1 buf e p)
  then show ?case
    by (subst (asm) (2) skip_class.simps) (fastforce split: if_splits option.splits)
qed

text \<open>
  A group at \<open>p\<close>: is it a named capture, an unnamed one, or none.
\<close>

definition group_kind :: "u8 list \<Rightarrow> nat \<Rightarrow> (bool \<times> bool) option" where
  "group_kind buf p = do {
     b1 \<leftarrow> rd buf (p + 1);
     if b1 = 0x3F then do {
       b2 \<leftarrow> rd buf (p + 2);
       if b2 = 0x3C then do {
         b3 \<leftarrow> rd buf (p + 3);
         Some (b3 \<noteq> 0x3D \<and> b3 \<noteq> 0x21, b3 \<noteq> 0x3D \<and> b3 \<noteq> 0x21) }
       else Some (False, False) }
     else Some (True, False) }"

text \<open>
  \<open>re_parse_captures\<close>: the captures counted, or the index of the one named \<open>capture_name\<close>, with the flag \<open>has_named_captures\<close>. The name of
  a group is parsed only to compare it; the scan goes on behind the name, one character further.
\<close>

function captures_loop ::
  "u8 list \<Rightarrow> nat \<Rightarrow> bool \<Rightarrow> u8 list option \<Rightarrow> nat \<Rightarrow> int \<Rightarrow> nat \<Rightarrow> ((int \<times> int) + (int \<times> int)) option" where
  "captures_loop buf buf_end is_utf16 capture_name capture_index has_named p =
     (if p < buf_end then
        case rd buf p of
          None \<Rightarrow> None
        | Some b \<Rightarrow>
            if b = 0x28 then
              case group_kind buf p of
                None \<Rightarrow> None
              | Some (is_capture, is_named) \<Rightarrow>
                  if \<not> is_capture then
                    captures_loop buf buf_end is_utf16 capture_name capture_index has_named (p + 1)
                  else
                    let has_named = (if is_named then 1 else has_named) in
                    (case (case capture_name of
                             Some nm \<Rightarrow>
                               if is_named then do {
                                 (r, dest, p') \<leftarrow> re_parse_group_name buf (replicate TMP_BUF_SIZE 0) TMP_BUF_SIZE (p + 3) is_utf16;
                                 Some (r = 0 \<and> cstr_at dest 0 = nm, if r = 0 then p' else p + 3) }
                               else Some (False, p)
                           | None \<Rightarrow> Some (False, p)) of
                       None \<Rightarrow> None
                     | Some (found, p') \<Rightarrow>
                         if found then Some (Inl (int capture_index, has_named))
                         else if capture_index + 1 \<ge> CAPTURE_COUNT_MAX then
                           Some (Inr (int capture_index + 1, has_named))
                         else if p' < p then None
                         else captures_loop buf buf_end is_utf16 capture_name (capture_index + 1) has_named (p' + 1))
            else if b = 0x5C then captures_loop buf buf_end is_utf16 capture_name capture_index has_named (p + 2)
            else if b = 0x5B then
              case skip_class buf buf_end (p + 1) of
                None \<Rightarrow> None
              | Some p' \<Rightarrow> captures_loop buf buf_end is_utf16 capture_name capture_index has_named (p' + 1)
            else captures_loop buf buf_end is_utf16 capture_name capture_index has_named (p + 1)
      else Some (Inr (int capture_index, has_named)))"
  by pat_completeness auto
termination
  by (relation "measure (\<lambda>(buf, e, u, nm, i, h, p). e - p)") (auto dest!: skip_class_ge)

declare captures_loop.simps [simp del]

definition re_parse_captures :: "REParseState \<Rightarrow> u8 list option \<Rightarrow> (int \<times> int) option" where
  "re_parse_captures s capture_name = do {
     r \<leftarrow> captures_loop (ps_buf s) (ps_buf_end s) (ps_is_utf16 s) capture_name 1 0 0;
     Some (case r of
       Inl (i, h) \<Rightarrow> (i, h)
     | Inr (i, h) \<Rightarrow> (if capture_name \<noteq> None then - 1 else i, h)) }"

definition re_count_captures :: "REParseState \<Rightarrow> (int \<times> REParseState) option" where
  "re_count_captures s =
     (if ps_total_capture_count s < 0 then do {
        (n, h) \<leftarrow> re_parse_captures s None;
        Some (n, s\<lparr>ps_total_capture_count := n, ps_has_named_captures := h\<rparr>) }
      else Some (ps_total_capture_count s, s))"

definition re_has_named_captures :: "REParseState \<Rightarrow> (bool \<times> REParseState) option" where
  "re_has_named_captures s = do {
     s \<leftarrow> (if ps_has_named_captures s < 0 then map_option snd (re_count_captures s) else Some s);
     Some (ps_has_named_captures s \<noteq> 0, s) }"

function find_group_loop :: "u8 list \<Rightarrow> u8 list \<Rightarrow> nat \<Rightarrow> nat \<Rightarrow> int \<Rightarrow> int option" where
  "find_group_loop names name buf_end p capture_index =
     (if p < buf_end then
        case strlen (drop p names) of
          None \<Rightarrow> None
        | Some len \<Rightarrow>
            if take len (drop p names) = name then Some capture_index
            else find_group_loop names name buf_end (p + len + 1) (capture_index + 1)
      else Some (- 1))"
  by pat_completeness auto
termination
  by (relation "measure (\<lambda>(names, name, e, p, i). e - p)") auto

declare find_group_loop.simps [simp del]

text \<open>\<open>name\<close> is a C string without its zero.\<close>

definition find_group_name :: "REParseState \<Rightarrow> u8 list \<Rightarrow> int option" where
  "find_group_name s name =
     find_group_loop (db_buf (ps_group_names s)) name (db_size (ps_group_names s)) 0 1"

section \<open>Atoms\<close>

text \<open>
  The first half of \<open>re_parse_term\<close> gives its result (non-zero for an early return), the position, \<open>last_atom_start\<close> (\<open>None\<close> for -1)
  and \<open>last_capture_count\<close>.
\<close>

type_synonym atom_result = "(int \<times> nat \<times> nat option \<times> nat \<times> REParseState) option"

definition atom_return :: "int \<times> REParseState \<Rightarrow> atom_result" where
  "atom_return m = (let (r, s) = m in Some (r, 0, None, 0, s))"

definition atom_error :: "REParseState \<Rightarrow> string \<Rightarrow> atom_result" where
  "atom_error s m = atom_return (re_parse_error s (msg m))"

definition emit_if :: "bool \<Rightarrow> REParseState \<Rightarrow> REOPCodeEnum \<Rightarrow> REParseState option" where
  "emit_if b s opcode = (if b then re_emit_op s opcode else Some s)"

definition code_size :: "REParseState \<Rightarrow> nat" where
  "code_size s = db_size (ps_byte_code s)"

definition patch_u8 :: "REParseState \<Rightarrow> nat \<Rightarrow> u8 \<Rightarrow> REParseState option" where
  "patch_u8 s pos v = do {
     b \<leftarrow> wr (db_buf (ps_byte_code s)) pos v;
     Some (s\<lparr>ps_byte_code := (ps_byte_code s)\<lparr>db_buf := b\<rparr>\<rparr>) }"

definition patch_u32 :: "REParseState \<Rightarrow> nat \<Rightarrow> u32 \<Rightarrow> REParseState option" where
  "patch_u32 s pos v = do {
     b \<leftarrow> put_u32 (db_buf (ps_byte_code s)) pos v;
     Some (s\<lparr>ps_byte_code := (ps_byte_code s)\<lparr>db_buf := b\<rparr>\<rparr>) }"

text \<open>The label \<open>normal_char\<close>: emit a character or a class.\<close>

definition term_char :: "REParseState \<Rightarrow> bool \<Rightarrow> nat \<Rightarrow> int \<Rightarrow> CharRange option \<Rightarrow> atom_result" where
  "term_char s is_backward_dir p c cr = do {
     let start = code_size s;
     let lcc = ps_capture_count s;
     s \<leftarrow> emit_if is_backward_dir s REOP_prev;
     (r, s) \<leftarrow>
       (if c \<ge> CLASS_RANGE_BASE then (case cr of None \<Rightarrow> None | Some cr \<Rightarrow> re_emit_range s cr)
        else do {
          c \<leftarrow> (if ps_ignore_case s then lre_canonicalize (word_of_int c) (ps_is_utf16 s) else Some (word_of_int c));
          s \<leftarrow> (if c \<le> 0xffff then re_emit_op_u16 s REOP_char c
                else map_option snd (re_emit_op_u32 s REOP_char32 c));
          Some (0, s) });
     if r \<noteq> 0 then atom_return (- 1, s)
     else do {
       s \<leftarrow> emit_if is_backward_dir s REOP_prev;
       Some (0, p, Some start, lcc, s) } }"

text \<open>The label \<open>parse_class_atom\<close>.\<close>

definition term_class_atom :: "REParseState \<Rightarrow> bool \<Rightarrow> nat \<Rightarrow> atom_result" where
  "term_class_atom s is_backward_dir p = do {
     (c, cr, p, s) \<leftarrow> get_class_atom s p False;
     if c < 0 then atom_return (- 1, s) else term_char s is_backward_dir p c cr }"

text \<open>Does the brace at \<open>p\<close> start a repetition count?\<close>

definition is_repeat_count :: "u8 list \<Rightarrow> nat \<Rightarrow> bool option" where
  "is_repeat_count buf p = do {
     b \<leftarrow> rd buf (p + 1);
     if \<not> is_digit (uint b) then Some False
     else do {
       (v, p1) \<leftarrow> parse_digits buf (p + 1) True;
       b \<leftarrow> rd buf p1;
       p1 \<leftarrow> (if b = 0x2C then do {
                b \<leftarrow> rd buf (p1 + 1);
                if is_digit (uint b) then map_option snd (parse_digits buf (p1 + 1) True) else Some (p1 + 1) }
              else Some p1);
       b \<leftarrow> rd buf p1;
       Some (b = 0x7D) } }"

text \<open>A disjunction in parentheses from \<open>p\<close> on, by the parser \<open>parse_disj\<close>, with its closing parenthesis.\<close>

definition sub_disjunction ::
  "(bool \<Rightarrow> REParseState \<Rightarrow> parse_result) \<Rightarrow> bool \<Rightarrow> REParseState \<Rightarrow> nat \<Rightarrow> (int \<times> nat \<times> REParseState) option" where
  "sub_disjunction parse_disj is_backward_dir s p = do {
     (r, s) \<leftarrow> parse_disj is_backward_dir (s\<lparr>ps_buf_ptr := p\<rparr>);
     if r \<noteq> 0 then Some (- 1, p, s) else Some (0, ps_buf_ptr s, s) }"

definition term_lookahead ::
  "(bool \<Rightarrow> REParseState \<Rightarrow> parse_result) \<Rightarrow> REParseState \<Rightarrow> bool \<Rightarrow> bool \<Rightarrow> nat \<Rightarrow> atom_result" where
  "term_lookahead parse_disj s is_neg is_backward_lookahead p =
     (let as_atom = (\<not> ps_is_utf16 s \<and> \<not> is_backward_lookahead);
          start = (if as_atom then Some (code_size s) else None);
          lcc = (if as_atom then ps_capture_count s else 0) in do {
        (pos, s) \<leftarrow> re_emit_op_u32 s (if is_neg then REOP_negative_lookahead else REOP_lookahead) 0;
        (r, p, s) \<leftarrow> sub_disjunction parse_disj is_backward_lookahead s p;
        if r \<noteq> 0 then atom_return (- 1, s)
        else do {
          (r, p, s) \<leftarrow> re_parse_expect s p 0x29;
          if r \<noteq> 0 then atom_return (- 1, s)
          else do {
            s \<leftarrow> re_emit_op s REOP_match;
            if dbuf_error (ps_byte_code s) then atom_return (- 1, s)
            else do {
              s \<leftarrow> patch_u32 s pos (of_nat (code_size s) - (of_nat pos + 4));
              Some (0, p, start, lcc, s) } } } })"

text \<open>The label \<open>parse_capture\<close>.\<close>

definition term_capture ::
  "(bool \<Rightarrow> REParseState \<Rightarrow> parse_result) \<Rightarrow> REParseState \<Rightarrow> bool \<Rightarrow> nat \<Rightarrow> atom_result" where
  "term_capture parse_disj s is_backward_dir p =
     (if ps_capture_count s \<ge> CAPTURE_COUNT_MAX then atom_error s ''too many captures''
      else
        let start = code_size s; lcc = ps_capture_count s; capture_index = of_nat (ps_capture_count s);
            s = s\<lparr>ps_capture_count := ps_capture_count s + 1\<rparr> in do {
          s \<leftarrow> re_emit_op_u8 s (if is_backward_dir then REOP_save_end else REOP_save_start) capture_index;
          (r, p, s) \<leftarrow> sub_disjunction parse_disj is_backward_dir s p;
          if r \<noteq> 0 then atom_return (- 1, s)
          else do {
            s \<leftarrow> re_emit_op_u8 s (if is_backward_dir then REOP_save_start else REOP_save_end) capture_index;
            (r, p, s) \<leftarrow> re_parse_expect s p 0x29;
            if r \<noteq> 0 then atom_return (- 1, s) else Some (0, p, Some start, lcc, s) } })"

definition term_named_capture ::
  "(bool \<Rightarrow> REParseState \<Rightarrow> parse_result) \<Rightarrow> REParseState \<Rightarrow> bool \<Rightarrow> nat \<Rightarrow> atom_result" where
  "term_named_capture parse_disj s is_backward_dir p = do {
     (r, u, p) \<leftarrow> re_parse_group_name (ps_buf s) (ps_u s) TMP_BUF_SIZE p (ps_is_utf16 s);
     let s = s\<lparr>ps_u := u\<rparr>;
     if r \<noteq> 0 then atom_error s ''invalid group name''
     else do {
       i \<leftarrow> find_group_name s (cstr_at u 0);
       if i > 0 then atom_error s ''duplicate group name''
       else do {
         (r, g) \<leftarrow> dbuf_put (ps_group_names s) (cstr_at u 0 @ [0]);
         term_capture parse_disj (s\<lparr>ps_group_names := g, ps_has_named_captures := 1\<rparr>) is_backward_dir p } } }"

definition term_group ::
  "(bool \<Rightarrow> REParseState \<Rightarrow> parse_result) \<Rightarrow> REParseState \<Rightarrow> bool \<Rightarrow> nat \<Rightarrow> atom_result" where
  "term_group parse_disj s is_backward_dir p = do {
     b1 \<leftarrow> rd (ps_buf s) (p + 1);
     if b1 \<noteq> 0x3F then do {
       (r, g) \<leftarrow> dbuf_putc (ps_group_names s) 0;
       term_capture parse_disj (s\<lparr>ps_group_names := g\<rparr>) is_backward_dir (p + 1) }
     else do {
       b2 \<leftarrow> rd (ps_buf s) (p + 2);
       if b2 = 0x3A then
         let start = code_size s; lcc = ps_capture_count s in do {
           (r, p, s) \<leftarrow> sub_disjunction parse_disj is_backward_dir s (p + 3);
           if r \<noteq> 0 then atom_return (- 1, s)
           else do {
             (r, p, s) \<leftarrow> re_parse_expect s p 0x29;
             if r \<noteq> 0 then atom_return (- 1, s) else Some (0, p, Some start, lcc, s) } }
       else if b2 = 0x3D \<or> b2 = 0x21 then term_lookahead parse_disj s (b2 = 0x21) False (p + 3)
       else if b2 = 0x3C then do {
         b3 \<leftarrow> rd (ps_buf s) (p + 3);
         if b3 = 0x3D \<or> b3 = 0x21 then term_lookahead parse_disj s (b3 = 0x21) True (p + 4)
         else term_named_capture parse_disj s is_backward_dir (p + 3) }
       else atom_error s ''invalid group'' } }"

definition term_back_reference :: "REParseState \<Rightarrow> bool \<Rightarrow> nat \<Rightarrow> int \<Rightarrow> atom_result" where
  "term_back_reference s is_backward_dir p c =
     (let start = code_size s; lcc = ps_capture_count s in do {
        s \<leftarrow> re_emit_op_u8 s (if is_backward_dir then REOP_backward_back_reference else REOP_back_reference)
          (word_of_int c);
        Some (0, p, Some start, lcc, s) })"

text \<open>\<open>\k\<close> at \<open>p\<close>: errors are tolerated outside unicode mode when the pattern has no named group.\<close>

definition term_k_error :: "REParseState \<Rightarrow> bool \<Rightarrow> nat \<Rightarrow> string \<Rightarrow> atom_result" where
  "term_k_error s is_backward_dir p m = do {
     (named, s) \<leftarrow> (if ps_is_utf16 s then Some (True, s) else re_has_named_captures s);
     if named then atom_error s m else term_class_atom s is_backward_dir p }"

definition term_k :: "REParseState \<Rightarrow> bool \<Rightarrow> nat \<Rightarrow> atom_result" where
  "term_k s is_backward_dir p = do {
     b2 \<leftarrow> rd (ps_buf s) (p + 2);
     if b2 \<noteq> 0x3C then term_k_error s is_backward_dir p ''expecting group name''
     else do {
       (r, u, p1) \<leftarrow> re_parse_group_name (ps_buf s) (ps_u s) TMP_BUF_SIZE (p + 3) (ps_is_utf16 s);
       let s = s\<lparr>ps_u := u\<rparr>;
       if r \<noteq> 0 then term_k_error s is_backward_dir p ''invalid group name''
       else do {
         c \<leftarrow> find_group_name s (cstr_at u 0);
         c \<leftarrow> (if c < 0 then map_option fst (re_parse_captures s (Some (cstr_at u 0))) else Some c);
         if c < 0 then term_k_error s is_backward_dir p ''group name not defined''
         else term_back_reference s is_backward_dir p1 c } } }"

definition is_octal :: "u8 \<Rightarrow> bool" where
  "is_octal b \<longleftrightarrow> b \<ge> 0x30 \<and> b \<le> 0x37"

text \<open>\<open>\0\<close>: \<open>p\<close> is the position after it.\<close>

definition term_zero_escape :: "REParseState \<Rightarrow> bool \<Rightarrow> nat \<Rightarrow> atom_result" where
  "term_zero_escape s is_backward_dir p = do {
     b \<leftarrow> rd (ps_buf s) p;
     if ps_is_utf16 s then
       if is_digit (uint b) then atom_error s ''invalid decimal escape in regular expression''
       else term_char s is_backward_dir p 0 None
     else if is_octal b then do {
       b1 \<leftarrow> rd (ps_buf s) (p + 1);
       if is_octal b1 then term_char s is_backward_dir (p + 2) ((uint b - 0x30) * 8 + uint b1 - 0x30) None
       else term_char s is_backward_dir (p + 1) (uint b - 0x30) None }
     else term_char s is_backward_dir p 0 None }"

text \<open>The legacy reading of a decimal escape at \<open>q\<close> that is no back reference: the character and the position.\<close>

definition legacy_octal :: "u8 list \<Rightarrow> nat \<Rightarrow> (int \<times> nat) option" where
  "legacy_octal buf q = do {
     b \<leftarrow> rd buf q;
     if b \<le> 0x37 then do {
       let (c, p) = (if b \<le> 0x33 then (uint b - 0x30, q + 1) else (0, q));
       b1 \<leftarrow> rd buf p;
       if is_octal b1 then do {
         let c = c * 8 + uint b1 - 0x30;
         b2 \<leftarrow> rd buf (p + 1);
         Some (if is_octal b2 then (c * 8 + uint b2 - 0x30, p + 2) else (c, p + 1)) }
       else Some (c, p) }
     else Some (uint b, q + 1) }"

definition term_decimal_escape :: "REParseState \<Rightarrow> bool \<Rightarrow> nat \<Rightarrow> atom_result" where
  "term_decimal_escape s is_backward_dir q = do {
     (c, p) \<leftarrow> parse_digits (ps_buf s) q False;
     (bad, s) \<leftarrow> (if c < 0 then Some (True, s)
                 else if c < int (ps_capture_count s) then Some (False, s)
                 else do { (n, s) \<leftarrow> re_count_captures s; Some (c \<ge> n, s) });
     if \<not> bad then term_back_reference s is_backward_dir p c
     else if ps_is_utf16 s then atom_error s ''back reference out of range in regular expression''
     else do {
       (c, p) \<leftarrow> legacy_octal (ps_buf s) q;
       term_char s is_backward_dir p c None } }"

definition term_escape :: "REParseState \<Rightarrow> bool \<Rightarrow> nat \<Rightarrow> atom_result" where
  "term_escape s is_backward_dir p = do {
     b \<leftarrow> rd (ps_buf s) (p + 1);
     if b = 0x62 \<or> b = 0x42 then do {
       s \<leftarrow> re_emit_op s (if b \<noteq> 0x62 then REOP_not_word_boundary else REOP_word_boundary);
       Some (0, p + 2, None, 0, s) }
     else if b = 0x6B then term_k s is_backward_dir p
     else if b = 0x30 then term_zero_escape s is_backward_dir (p + 2)
     else if b \<ge> 0x31 \<and> b \<le> 0x39 then term_decimal_escape s is_backward_dir (p + 1)
     else term_class_atom s is_backward_dir p }"

definition re_parse_atom :: "(bool \<Rightarrow> REParseState \<Rightarrow> parse_result) \<Rightarrow> REParseState \<Rightarrow> bool \<Rightarrow> atom_result" where
  "re_parse_atom parse_disj s is_backward_dir =
     (let p = ps_buf_ptr s in do {
        c \<leftarrow> rd (ps_buf s) p;
        if c = 0x5E then do { s \<leftarrow> re_emit_op s REOP_line_start; Some (0, p + 1, None, 0, s) }
        else if c = 0x24 then do { s \<leftarrow> re_emit_op s REOP_line_end; Some (0, p + 1, None, 0, s) }
        else if c = 0x2E then
          let start = code_size s; lcc = ps_capture_count s in do {
            s \<leftarrow> emit_if is_backward_dir s REOP_prev;
            s \<leftarrow> re_emit_op s (if ps_dotall s then REOP_any else REOP_dot);
            s \<leftarrow> emit_if is_backward_dir s REOP_prev;
            Some (0, p + 1, Some start, lcc, s) }
        else if c = 0x7B then
          if ps_is_utf16 s then atom_error s ''syntax error''
          else do {
            rep \<leftarrow> is_repeat_count (ps_buf s) p;
            if rep then atom_error s ''nothing to repeat'' else term_class_atom s is_backward_dir p }
        else if c = 0x2A \<or> c = 0x2B \<or> c = 0x3F then atom_error s ''nothing to repeat''
        else if c = 0x28 then term_group parse_disj s is_backward_dir p
        else if c = 0x5C then term_escape s is_backward_dir p
        else if c = 0x5B then
          let start = code_size s; lcc = ps_capture_count s in do {
            s \<leftarrow> emit_if is_backward_dir s REOP_prev;
            (r, p, s) \<leftarrow> re_parse_char_class s p;
            if r \<noteq> 0 then atom_return (- 1, s)
            else do {
              s \<leftarrow> emit_if is_backward_dir s REOP_prev;
              Some (0, p, Some start, lcc, s) } }
        else if (c = 0x5D \<or> c = 0x7D) \<and> ps_is_utf16 s then atom_error s ''syntax error''
        else term_class_atom s is_backward_dir p })"

section \<open>Quantifiers\<close>

text \<open>
  The quantifier at \<open>p\<close>: \<open>None\<close> when there is none, else its bounds (infinity is \<open>INT32_MAX\<close>); the position and the state. A non-zero
  result is an error.
\<close>

definition parse_quantifier :: "REParseState \<Rightarrow> nat \<Rightarrow> (int \<times> (int \<times> int) option \<times> nat \<times> REParseState) option" where
  "parse_quantifier s p =
     (let count_error = (let (r, s) = re_parse_error s (msg ''invalid repetition count'') in Some (r, None, p, s)) in do {
        c \<leftarrow> rd (ps_buf s) p;
        if c = 0x2A then Some (0, Some (0, 0x7fffffff), p + 1, s)
        else if c = 0x2B then Some (0, Some (1, 0x7fffffff), p + 1, s)
        else if c = 0x3F then Some (0, Some (0, 1), p + 1, s)
        else if c = 0x7B then do {
          d \<leftarrow> rd (ps_buf s) (p + 1);
          if \<not> is_digit (uint d) then
            if ps_is_utf16 s then count_error else Some (0, None, p, s)
          else do {
            (quant_min, p1) \<leftarrow> parse_digits (ps_buf s) (p + 1) True;
            b \<leftarrow> rd (ps_buf s) p1;
            (quant_max, p2) \<leftarrow>
              (if b = 0x2C then do {
                 d \<leftarrow> rd (ps_buf s) (p1 + 1);
                 if is_digit (uint d) then parse_digits (ps_buf s) (p1 + 1) True
                 else Some (0x7fffffff, p1 + 1) }
               else Some (quant_min, p1));
            if quant_max < quant_min then count_error
            else do {
              b \<leftarrow> rd (ps_buf s) p2;
              if b \<noteq> 0x7D \<and> \<not> ps_is_utf16 s then Some (0, None, p, s)
              else do {
                (r, p3, s) \<leftarrow> re_parse_expect s p2 0x7D;
                Some (r, if r \<noteq> 0 then None else Some (quant_min, quant_max), p3, s) } } } }
        else Some (0, None, p, s) })"

definition insert_code :: "REParseState \<Rightarrow> nat \<Rightarrow> nat \<Rightarrow> (REParseState \<Rightarrow> parse_result) \<Rightarrow> parse_result" where
  "insert_code s pos len f = do {
     (r, b) \<leftarrow> dbuf_insert (ps_byte_code s) pos len;
     let s = s\<lparr>ps_byte_code := b\<rparr>;
     if r \<noteq> 0 then Some (re_parse_out_of_memory s) else f s }"

text \<open>The atom as a simple greedy quantifier of \<open>len\<close> characters.\<close>

definition emit_simple_quantifier :: "REParseState \<Rightarrow> nat \<Rightarrow> int \<Rightarrow> int \<Rightarrow> int \<Rightarrow> parse_result" where
  "emit_simple_quantifier s start quant_min quant_max len = do {
     s \<leftarrow> re_emit_op s REOP_match;
     insert_code s start 17 (\<lambda>s. do {
       s \<leftarrow> patch_u8 s start (opc REOP_simple_greedy_quant);
       s \<leftarrow> patch_u32 s (start + 1) (of_nat (code_size s - start - 17));
       s \<leftarrow> patch_u32 s (start + 5) (word_of_int quant_min);
       s \<leftarrow> patch_u32 s (start + 9) (word_of_int quant_max);
       s \<leftarrow> patch_u32 s (start + 13) (word_of_int len);
       Some (0, s) }) }"

definition split_op :: "bool \<Rightarrow> REOPCodeEnum" where
  "split_op greedy = (if greedy then REOP_split_next_first else REOP_split_goto_first)"

definition zero_len :: "bool \<Rightarrow> nat" where
  "zero_len add_zero_advance_check = (if add_zero_advance_check then 1 else 0)"

text \<open>The quantifiers \<open>{0,...}\<close> of the atom of \<open>len\<close> bytes at \<open>start\<close>, after the captures it would set are reset.\<close>

definition emit_optional ::
  "REParseState \<Rightarrow> nat \<Rightarrow> nat \<Rightarrow> int \<Rightarrow> bool \<Rightarrow> bool \<Rightarrow> parse_result" where
  "emit_optional s start len quant_max greedy add_zero_advance_check =
     (if quant_max = 0 then Some (0, s\<lparr>ps_byte_code := (ps_byte_code s)\<lparr>db_size := start\<rparr>\<rparr>)
      else if quant_max = 1 then
        insert_code s start 5 (\<lambda>s. do {
          s \<leftarrow> patch_u8 s start (opc (split_op greedy));
          s \<leftarrow> patch_u32 s (start + 1) (of_nat len);
          Some (0, s) })
      else if quant_max = 0x7fffffff then
        insert_code s start (5 + zero_len add_zero_advance_check) (\<lambda>s. do {
          s \<leftarrow> patch_u8 s start (opc (split_op greedy));
          s \<leftarrow> patch_u32 s (start + 1) (of_nat (len + 5 + zero_len add_zero_advance_check));
          s \<leftarrow> (if add_zero_advance_check then do {
                  s \<leftarrow> patch_u8 s (start + 1 + 4) (opc REOP_push_char_pos);
                  map_option snd (re_emit_goto s REOP_bne_char_pos (of_nat start)) }
                else map_option snd (re_emit_goto s REOP_goto (of_nat start)));
          Some (0, s) })
      else
        insert_code s start 10 (\<lambda>s. do {
          s \<leftarrow> patch_u8 s start (opc REOP_push_i32);
          s \<leftarrow> patch_u32 s (start + 1) (word_of_int quant_max);
          s \<leftarrow> patch_u8 s (start + 5) (opc (split_op greedy));
          s \<leftarrow> patch_u32 s (start + 6) (of_nat (len + 5));
          (pos, s) \<leftarrow> re_emit_goto s REOP_loop (of_nat (start + 5));
          s \<leftarrow> re_emit_op s REOP_drop;
          Some (0, s) }))"

definition put_self :: "REParseState \<Rightarrow> nat \<Rightarrow> nat \<Rightarrow> REParseState option" where
  "put_self s offset len = do {
     (r, b) \<leftarrow> dbuf_put_self (ps_byte_code s) offset len;
     Some (s\<lparr>ps_byte_code := b\<rparr>) }"

text \<open>What follows the mandatory iterations: a copy of the atom in a loop.\<close>

definition emit_tail ::
  "REParseState \<Rightarrow> nat \<Rightarrow> nat \<Rightarrow> int \<Rightarrow> int \<Rightarrow> bool \<Rightarrow> bool \<Rightarrow> parse_result" where
  "emit_tail s start len quant_min quant_max greedy add_zero_advance_check =
     (if quant_max = 0x7fffffff then do {
        let pos = code_size s;
        (q, s) \<leftarrow> re_emit_op_u32 s (split_op greedy) (of_nat (len + 5 + zero_len add_zero_advance_check));
        s \<leftarrow> emit_if add_zero_advance_check s REOP_push_char_pos;
        s \<leftarrow> put_self s start len;
        (q, s) \<leftarrow> re_emit_goto s (if add_zero_advance_check then REOP_bne_char_pos else REOP_goto) (of_nat pos);
        Some (0, s) }
      else if quant_max > quant_min then do {
        (q, s) \<leftarrow> re_emit_op_u32 s REOP_push_i32 (word_of_int (quant_max - quant_min));
        let pos = code_size s;
        (q, s) \<leftarrow> re_emit_op_u32 s (split_op greedy) (of_nat (len + 5));
        s \<leftarrow> put_self s start len;
        (q, s) \<leftarrow> re_emit_goto s REOP_loop (of_nat pos);
        s \<leftarrow> re_emit_op s REOP_drop;
        Some (0, s) }
      else Some (0, s))"

definition emit_repeated ::
  "REParseState \<Rightarrow> nat \<Rightarrow> nat \<Rightarrow> int \<Rightarrow> int \<Rightarrow> bool \<Rightarrow> bool \<Rightarrow> parse_result" where
  "emit_repeated s start len quant_min quant_max greedy add_zero_advance_check =
     (if quant_min = 1 \<and> quant_max = 0x7fffffff \<and> \<not> add_zero_advance_check then do {
        (q, s) \<leftarrow> re_emit_goto s (if greedy then REOP_split_goto_first else REOP_split_next_first) (of_nat start);
        Some (0, s) }
      else if quant_min = 1 then emit_tail s start len quant_min quant_max greedy add_zero_advance_check
      else
        insert_code s start 5 (\<lambda>s. do {
          s \<leftarrow> patch_u8 s start (opc REOP_push_i32);
          s \<leftarrow> patch_u32 s (start + 1) (word_of_int quant_min);
          (q, s) \<leftarrow> re_emit_goto s REOP_loop (of_nat (start + 5));
          s \<leftarrow> re_emit_op s REOP_drop;
          emit_tail s (start + 5) len quant_min quant_max greedy add_zero_advance_check }))"

text \<open>The general code of a quantified atom at \<open>start\<close>, with \<open>lcc\<close> captures before it.\<close>

definition emit_general ::
  "REParseState \<Rightarrow> nat \<Rightarrow> nat \<Rightarrow> int \<Rightarrow> int \<Rightarrow> bool \<Rightarrow> bool \<Rightarrow> parse_result" where
  "emit_general s start lcc quant_min quant_max greedy add_zero_advance_check =
     (let len = code_size s - start in
      if quant_min = 0 then
        if lcc \<noteq> ps_capture_count s then
          insert_code s start 3 (\<lambda>s. do {
            s \<leftarrow> patch_u8 s start (opc REOP_save_reset);
            s \<leftarrow> patch_u8 s (start + 1) (of_nat lcc);
            s \<leftarrow> patch_u8 s (start + 2) (of_nat (ps_capture_count s - 1));
            emit_optional s (start + 3) len quant_max greedy add_zero_advance_check })
        else emit_optional s start len quant_max greedy add_zero_advance_check
      else emit_repeated s start len quant_min quant_max greedy add_zero_advance_check)"

definition emit_quantifier ::
  "REParseState \<Rightarrow> nat \<Rightarrow> nat \<Rightarrow> int \<Rightarrow> int \<Rightarrow> bool \<Rightarrow> parse_result" where
  "emit_quantifier s start lcc quant_min quant_max greedy =
     (if greedy then
        if dbuf_error (ps_byte_code s) then Some (re_parse_out_of_memory s)
        else do {
          let atom = drop start (db_buf (ps_byte_code s));
          len \<leftarrow> (if quant_max > 0 then re_is_simple_quantifier atom (code_size s - start) else Some 0);
          if len > 0 then emit_simple_quantifier s start quant_min quant_max len
          else do {
            adv \<leftarrow> re_check_advance atom (code_size s - start);
            emit_general s start lcc quant_min quant_max greedy (adv = 0) } }
      else emit_general s start lcc quant_min quant_max greedy False)"

text \<open>The whole term: an atom and its quantifier.\<close>

definition re_parse_term :: "(bool \<Rightarrow> REParseState \<Rightarrow> parse_result) \<Rightarrow> REParseState \<Rightarrow> bool \<Rightarrow> parse_result" where
  "re_parse_term parse_disj s is_backward_dir = do {
     (r, p, last_atom_start, lcc, s) \<leftarrow> re_parse_atom parse_disj s is_backward_dir;
     if r \<noteq> 0 then Some (r, s)
     else case last_atom_start of
       None \<Rightarrow> Some (0, s\<lparr>ps_buf_ptr := p\<rparr>)
     | Some start \<Rightarrow> do {
         (r, q, p, s) \<leftarrow> parse_quantifier s p;
         if r \<noteq> 0 then Some (- 1, s)
         else case q of
           None \<Rightarrow> Some (0, s\<lparr>ps_buf_ptr := p\<rparr>)
         | Some (quant_min, quant_max) \<Rightarrow> do {
             b \<leftarrow> rd (ps_buf s) p;
             let lazy = (b = 0x3F);
             (r, s) \<leftarrow> emit_quantifier s start lcc quant_min quant_max (\<not> lazy);
             if r \<noteq> 0 then Some (- 1, s)
             else Some (0, s\<lparr>ps_buf_ptr := (if lazy then p + 1 else p)\<rparr>) } } }"

section \<open>Alternatives and disjunctions\<close>

text \<open>In a lookbehind the last term, from \<open>term_start\<close> on, is moved before the others, from \<open>start\<close> on.\<close>

definition move_term_first :: "REParseState \<Rightarrow> nat \<Rightarrow> nat \<Rightarrow> parse_result" where
  "move_term_first s start term_start =
     (let endp = code_size s; term_size = endp - term_start;
          (r, b) = dbuf_realloc (ps_byte_code s) (size_t (endp + term_size)) in
      if r \<noteq> 0 then Some (- 1, s\<lparr>ps_byte_code := b\<rparr>)
      else do {
        code \<leftarrow> slice (db_buf b) start (endp - start);
        m \<leftarrow> blit (db_buf b) (start + term_size) code;
        last_term \<leftarrow> slice m endp term_size;
        m \<leftarrow> blit m start last_term;
        Some (0, s\<lparr>ps_byte_code := b\<lparr>db_buf := m\<rparr>\<rparr>) })"

function alternative_loop ::
  "(bool \<Rightarrow> REParseState \<Rightarrow> parse_result) \<Rightarrow> bool \<Rightarrow> nat \<Rightarrow> REParseState \<Rightarrow> parse_result" where
  "alternative_loop parse_disj is_backward_dir start s =
     (if ps_buf_ptr s \<ge> ps_buf_end s then Some (0, s)
      else case rd (ps_buf s) (ps_buf_ptr s) of
        None \<Rightarrow> None
      | Some b \<Rightarrow>
          if b = 0x7C \<or> b = 0x29 then Some (0, s)
          else case try_ok (re_parse_term parse_disj s is_backward_dir) (\<lambda>s'.
              if is_backward_dir then move_term_first s' start (code_size s) else Some (0, s')) of
            None \<Rightarrow> None
          | Some (r, s') \<Rightarrow>
              if r \<noteq> 0 then Some (r, s')
              else if ps_buf_ptr s' \<le> ps_buf_ptr s \<or> ps_buf_end s' \<noteq> ps_buf_end s then None
              else alternative_loop parse_disj is_backward_dir start s')"
  by pat_completeness auto
termination
  by (relation "measure (\<lambda>(d, b, start, s). ps_buf_end s - ps_buf_ptr s)") auto

declare alternative_loop.simps [simp del]

definition re_parse_alternative ::
  "(bool \<Rightarrow> REParseState \<Rightarrow> parse_result) \<Rightarrow> REParseState \<Rightarrow> bool \<Rightarrow> parse_result" where
  "re_parse_alternative parse_disj s is_backward_dir =
     alternative_loop parse_disj is_backward_dir (code_size s) s"

text \<open>One more alternative of the disjunction whose code starts at \<open>start\<close>; the patch of the jump is made without looking at the error flag.\<close>

definition disjunction_step ::
  "(bool \<Rightarrow> REParseState \<Rightarrow> parse_result) \<Rightarrow> bool \<Rightarrow> nat \<Rightarrow> REParseState \<Rightarrow> parse_result" where
  "disjunction_step parse_disj is_backward_dir start s =
     (let s = s\<lparr>ps_buf_ptr := ps_buf_ptr s + 1\<rparr>; len = code_size s - start in
      insert_code s start 5 (\<lambda>s. do {
        s \<leftarrow> patch_u8 s start (opc REOP_split_next_first);
        s \<leftarrow> patch_u32 s (start + 1) (of_nat (len + 5));
        (pos, s) \<leftarrow> re_emit_op_u32 s REOP_goto 0;
        try_ok (re_parse_alternative parse_disj s is_backward_dir) (\<lambda>s. do {
          s \<leftarrow> patch_u32 s pos (of_nat (code_size s) - (of_nat pos + 4));
          Some (0, s) }) }))"

function disjunction_loop ::
  "(bool \<Rightarrow> REParseState \<Rightarrow> parse_result) \<Rightarrow> bool \<Rightarrow> nat \<Rightarrow> REParseState \<Rightarrow> parse_result" where
  "disjunction_loop parse_disj is_backward_dir start s =
     (case rd (ps_buf s) (ps_buf_ptr s) of
        None \<Rightarrow> None
      | Some b \<Rightarrow>
          if b \<noteq> 0x7C then Some (0, s)
          else case disjunction_step parse_disj is_backward_dir start s of
            None \<Rightarrow> None
          | Some (r, s') \<Rightarrow>
              if r \<noteq> 0 then Some (- 1, s')
              else if ps_buf_ptr s' \<le> ps_buf_ptr s \<or> ps_buf s' \<noteq> ps_buf s then None
              else disjunction_loop parse_disj is_backward_dir start s')"
  by pat_completeness auto
termination
  by (relation "measure (\<lambda>(d, b, start, s). length (ps_buf s) - ps_buf_ptr s)") (auto simp: rd_Some_iff)

declare disjunction_loop.simps [simp del]

fun re_parse_disjunction :: "nat \<Rightarrow> bool \<Rightarrow> REParseState \<Rightarrow> parse_result" where
  "re_parse_disjunction 0 is_backward_dir s = Some (re_parse_error s (msg ''stack overflow''))"
| "re_parse_disjunction (Suc depth) is_backward_dir s =
     try_ok (re_parse_alternative (re_parse_disjunction depth) s is_backward_dir)
       (disjunction_loop (re_parse_disjunction depth) is_backward_dir (code_size s))"

section \<open>The compiler\<close>

definition put_header :: "REParseState \<Rightarrow> REParseState option" where
  "put_header s = do {
     (r, b) \<leftarrow> dbuf_putc (ps_byte_code s) (ucast (ps_re_flags s));
     (r, b) \<leftarrow> dbuf_putc b 0;
     (r, b) \<leftarrow> dbuf_putc b 0;
     (r, b) \<leftarrow> dbuf_put_u32 b 0;
     Some (s\<lparr>ps_byte_code := b\<rparr>) }"

definition init_parse_state ::
  "u8 realloc_fun \<Rightarrow> u32 realloc_fun \<Rightarrow> u8 list \<Rightarrow> nat \<Rightarrow> u32 \<Rightarrow> REParseState" where
  "init_parse_state realloc8 realloc32 buf buf_len re_flags =
     \<lparr>ps_byte_code = dbuf_init2 0 (Some realloc8), ps_buf = buf, ps_buf_ptr = 0, ps_buf_end = buf_len,
      ps_re_flags = re_flags, ps_is_utf16 = (re_flags AND ucast LRE_FLAG_UTF16 \<noteq> 0),
      ps_ignore_case = (re_flags AND ucast LRE_FLAG_IGNORECASE \<noteq> 0),
      ps_dotall = (re_flags AND ucast LRE_FLAG_DOTALL \<noteq> 0),
      ps_capture_count = 1, ps_total_capture_count = - 1, ps_has_named_captures = - 1,
      ps_opaque = 0, ps_lre_realloc = realloc32, ps_group_names = dbuf_init2 0 (Some realloc8),
      ps_u = replicate TMP_BUF_SIZE 0\<rparr>"

text \<open>The parse proper: the header, the loop over the start positions unless sticky, and the pattern as capture 0.\<close>

definition compile_code :: "nat \<Rightarrow> REParseState \<Rightarrow> parse_result" where
  "compile_code depth s = do {
     s \<leftarrow> put_header s;
     s \<leftarrow> (if ps_re_flags s AND ucast LRE_FLAG_STICKY \<noteq> 0 then Some s
           else do {
             (pos, s) \<leftarrow> re_emit_op_u32 s REOP_split_goto_first (1 + 5);
             s \<leftarrow> re_emit_op s REOP_any;
             map_option snd (re_emit_op_u32 s REOP_goto (- (5 + 1 + 5))) });
     s \<leftarrow> re_emit_op_u8 s REOP_save_start 0;
     try_ok (re_parse_disjunction depth False s) (\<lambda>s. do {
       s \<leftarrow> re_emit_op_u8 s REOP_save_end 0;
       s \<leftarrow> re_emit_op s REOP_match;
       b \<leftarrow> rd (ps_buf s) (ps_buf_ptr s);
       Some (if b \<noteq> 0 then re_parse_error s (msg ''extraneous characters at the end'')
             else if dbuf_error (ps_byte_code s) then re_parse_out_of_memory s
             else (0, s)) }) }"

text \<open>The sizes of the header, and the group names.\<close>

definition finish_code :: "REParseState \<Rightarrow> nat \<Rightarrow> REParseState option" where
  "finish_code s stack_size = do {
     let n = code_size s;
     s \<leftarrow> patch_u8 s RE_HEADER_CAPTURE_COUNT (of_nat (ps_capture_count s));
     s \<leftarrow> patch_u8 s RE_HEADER_STACK_SIZE (of_nat stack_size);
     s \<leftarrow> patch_u32 s 3 (of_nat n - of_nat RE_HEADER_LEN);
     if db_size (ps_group_names s) > ps_capture_count s - 1 then do {
       names \<leftarrow> slice (db_buf (ps_group_names s)) 0 (db_size (ps_group_names s));
       (r, b) \<leftarrow> dbuf_put (ps_byte_code s) names;
       flags \<leftarrow> rd (db_buf b) RE_HEADER_FLAGS;
       patch_u8 (s\<lparr>ps_byte_code := b\<rparr>) RE_HEADER_FLAGS (flags OR LRE_FLAG_NAMED_GROUPS) }
     else Some s }"

text \<open>
  \<open>lre_compile\<close>: the bytecode (\<open>None\<close> for the result \<open>NULL\<close>) and the block of the error message.
\<close>

definition lre_compile ::
  "nat \<Rightarrow> u8 realloc_fun \<Rightarrow> u32 realloc_fun \<Rightarrow> u8 list \<Rightarrow> int \<Rightarrow> u8 list \<Rightarrow> nat \<Rightarrow> u32 \<Rightarrow> (u8 list option \<times> u8 list) option" where
  "lre_compile depth realloc8 realloc32 error_msg error_msg_size buf buf_len re_flags = do {
     (r, s) \<leftarrow> compile_code depth (init_parse_state realloc8 realloc32 buf buf_len re_flags);
     if r \<noteq> 0 then do { m \<leftarrow> pstrcpy error_msg 0 error_msg_size (ps_u s); Some (None, m) }
     else do {
       r \<leftarrow> compute_stack_size (db_buf (ps_byte_code s)) (code_size s);
       case r of
         None \<Rightarrow> do {
           let (r, s) = re_parse_error s (msg ''too many imbricated quantifiers'');
           m \<leftarrow> pstrcpy error_msg 0 error_msg_size (ps_u s);
           Some (None, m) }
       | Some stack_size \<Rightarrow> do {
           s \<leftarrow> finish_code s stack_size;
           m \<leftarrow> wr error_msg 0 0;
           code \<leftarrow> slice (db_buf (ps_byte_code s)) 0 (code_size s);
           Some (Some code, m) } } }"

end
