(* ===== verification/RangeParity.thy ===== *)
theory RangeParity
  imports RegexpParse
begin

text \<open>
  The character ranges the compiler emits are whole intervals: every operation that succeeds leaves an even number of points, from the
  decoders of the Unicode tables to the classes of the parser. The range instruction counts intervals, so
  its table has the length its count says.
\<close>

definition ev :: "(int \<times> CharRange) option \<Rightarrow> bool" where
  "ev m \<longleftrightarrow> (\<forall>cr. m = Some (0, cr) \<longrightarrow> even (cr_len cr))"

named_theorems parity

lemma ev_Some [parity]: "even (cr_len cr) \<Longrightarrow> ev (Some (0, cr))"
  by (simp add: ev_def)

lemma ev_None [parity]: "ev None"
  by (simp add: ev_def)

lemma ev_failed [parity]: "ev (Some (- numeral n, cr))" "ev (Some (- 1, cr))"
  by (simp_all add: ev_def)

lemma evD: "ev m \<Longrightarrow> m = Some (0, cr) \<Longrightarrow> even (cr_len cr)"
  by (simp add: ev_def)

lemma ev_try [parity]: "ev m \<Longrightarrow> (\<And>cr. even (cr_len cr) \<Longrightarrow> ev (f cr)) \<Longrightarrow> ev (try_ok m f)"
  by (auto simp: ev_def try_ok_def split: option.splits if_splits)

lemma ev_bind [parity]: "(\<And>x. m = Some x \<Longrightarrow> ev (f x)) \<Longrightarrow> ev (Option.bind m f)"
  by (cases m) (auto simp: parity)

lemma ev_if [parity]: "(b \<Longrightarrow> ev m) \<Longrightarrow> (\<not> b \<Longrightarrow> ev n) \<Longrightarrow> ev (if b then m else n)"
  by simp

lemma try_ok_0 [simp]: "try_ok m f = Some (0, x) \<longleftrightarrow> (\<exists>y. m = Some (0, y) \<and> f y = Some (0, x))"
  by (auto simp: try_ok_def split: option.splits if_splits)

section \<open>Ranges\<close>

lemma cr_realloc_len: "cr_realloc cr n = (r, cr') \<Longrightarrow> cr_len cr' = cr_len cr"
  by (auto simp: cr_realloc_def Let_def split: if_splits option.splits)

lemma ev_add_interval [parity]: "even (cr_len cr) \<Longrightarrow> ev (cr_add_interval cr a b)"
  unfolding ev_def cr_add_interval_def
  by (auto simp: Let_def bind_Some_iff split: prod.splits if_splits dest!: cr_realloc_len)

lemma ev_add_if [parity]: "even (cr_len cr) \<Longrightarrow> ev (add_if b cr c d)"
  by (simp add: add_if_def parity)

lemma compress_loop_even: "compress_loop pt len i k = Some (pt', k') \<Longrightarrow> even k \<Longrightarrow> even k'"
proof (induction pt len i k arbitrary: pt' k' rule: compress_loop.induct)
  case (1 pt len i k)
  show ?case
  proof (cases "i + 1 < len")
    case True
    with "1.prems"(1) obtain x y where xy: "rd pt i = Some x" "rd pt (i + 1) = Some y"
      by (subst (asm) compress_loop.simps) (auto simp: bind_Some_iff)
    show ?thesis
    proof (cases "x = y")
      case True
      with \<open>i + 1 < len\<close> xy "1.prems" "1.IH"(1) [OF _ xy True] show ?thesis
        by (subst (asm) compress_loop.simps) simp
    next
      case False
      with \<open>i + 1 < len\<close> xy "1.prems"(1) obtain j pt1 e pt2 where
        j: "compress_scan pt len i = Some j" "wr pt k x = Some pt1" "rd pt1 (j + 1) = Some e" "wr pt1 (k + 1) e = Some pt2"
        and r: "compress_loop pt2 len (j + 2) (k + 2) = Some (pt', k')"
        by (subst (asm) compress_loop.simps) (auto simp: bind_Some_iff)
      show ?thesis using "1.IH"(2) [OF \<open>i + 1 < len\<close> xy False j r] "1.prems"(2) by simp
    qed
  next
    case False
    with "1.prems" show ?thesis by (subst (asm) compress_loop.simps) simp
  qed
qed

lemma cr_compress_even: "cr_compress cr = Some cr' \<Longrightarrow> even (cr_len cr')"
  by (auto simp: cr_compress_def bind_Some_iff dest!: compress_loop_even)

lemma ev_cr_op [parity]: "ev (cr_op cr a n b m opr)"
  by (auto simp: ev_def cr_op_def bind_Some_iff split: if_splits dest: cr_compress_even)

lemma ev_cr_union [parity]: "ev (cr_union1 cr b n)" "ev (cr_union_interval cr c d)"
  by (simp_all add: cr_union1_def cr_union_interval_def parity)

lemma ev_cr_invert [parity]: "ev (cr_invert cr)"
  by (auto simp: ev_def cr_invert_def bind_Some_iff Let_def split: if_splits prod.splits dest: cr_compress_even)

lemma ev_cr_copy: "even (cr_len cr1) \<Longrightarrow> ev (cr_copy cr cr1)"
  by (auto simp: ev_def cr_copy_def bind_Some_iff Let_def split: if_splits prod.splits)

section \<open>Decoders\<close>

lemma ev_every_second [parity]: "even (cr_len cr) \<Longrightarrow> ev (add_every_second cr c0 c)"
proof (induction cr c0 c rule: add_every_second.induct)
  case (1 cr c0 c)
  show ?case
    by (subst add_every_second.simps) (auto intro!: parity "1.IH" "1.prems")
qed

lemma ev_script_loop [parity]: "even (cr_len cr) \<Longrightarrow> ev (script_loop tab i p c cr)"
proof (induction tab i p c cr rule: script_loop.induct)
  case (1 tab i p c cr)
  show ?case
    by (subst script_loop.simps) (auto simp: Let_def intro!: parity "1.IH" "1.prems" split: option.split)
qed

lemma ev_script_ext_loop [parity]: "even (cr_len cr) \<Longrightarrow> ev (script_ext_loop tab ic i p c cr)"
proof (induction tab ic i p c cr rule: script_ext_loop.induct)
  case (1 tab ic i p c cr)
  show ?case
    by (subst script_ext_loop.simps) (auto simp: Let_def intro!: parity "1.IH" "1.prems" split: option.split)
qed

lemma ev_gc_add [parity]: "even (cr_len cr) \<Longrightarrow> ev (gc_add cr m v c0 c)"
  by (auto simp: gc_add_def Let_def intro!: parity)

lemma ev_gc_loop [parity]: "even (cr_len cr) \<Longrightarrow> ev (gc_loop tab m p c cr)"
proof (induction tab m p c cr rule: gc_loop.induct)
  case (1 tab m p c cr)
  show ?case
    by (subst gc_loop.simps) (auto simp: Let_def intro!: parity "1.IH" "1.prems" split: option.split)
qed

lemma ev_prop1_loop [parity]: "even (cr_len cr) \<Longrightarrow> ev (prop1_loop tab e p c bt cr)"
proof (induction "e - p" arbitrary: p c bt cr rule: less_induct)
  case less
  show ?case
    by (subst prop1_loop.simps)
      (auto simp: Let_def intro!: parity less.hyps less.prems split: option.split dest!: long_run_bytes)
qed

lemma ev_case1_entry [parity]: "even (cr_len cr) \<Longrightarrow> ev (case1_entry cm rm v cr)"
  by (auto simp: case1_entry_def Let_def intro!: parity)

lemma ev_case1_loop [parity]: "even (cr_len cr) \<Longrightarrow> ev (case1_loop cm rm vs cr)"
  by (induction vs arbitrary: cr) (auto intro!: parity)

lemma ev_case1 [parity]: "even (cr_len cr) \<Longrightarrow> ev (unicode_case1 cr m)"
  by (auto simp: unicode_case1_def intro!: parity)

lemma ev_prop1 [parity]: "even (cr_len cr) \<Longrightarrow> ev (unicode_prop1 cr i)"
  by (auto simp: unicode_prop1_def intro!: parity)

lemma ev_category1 [parity]: "even (cr_len cr) \<Longrightarrow> ev (unicode_general_category1 cr m)"
  by (auto simp: unicode_general_category1_def intro!: parity)

lemma ev_category [parity]: "even (cr_len cr) \<Longrightarrow> ev (unicode_general_category cr nm)"
  by (auto simp: unicode_general_category_def intro!: parity)

lemma ev_leaf: "pop_leaf opr = Some leaf \<Longrightarrow> ev (leaf (cr_init m f))"
  by (cases opr) (auto intro!: parity)

lemma prop_ops_even:
  "prop_ops_loop cr oprs stack = Some (0, stack') \<Longrightarrow> \<forall>x \<in> set stack. even (cr_len x) \<Longrightarrow>
     \<forall>x \<in> set stack'. even (cr_len x)"
proof (induction cr oprs stack rule: prop_ops_loop.induct)
  case (2 cr opr oprs stack)
  then obtain st where st: "prop_op_step cr opr stack = Some (0, st)" "prop_ops_loop cr oprs st = Some (0, stack')"
    by (auto simp: try_ok_def split: option.splits if_splits)
  have "\<forall>x \<in> set st. even (cr_len x)"
    using st(1) "2.prems"(2) ev_leaf [of opr] ev_cr_op ev_cr_invert
    by (auto simp: prop_op_step_def Let_def ev_def split: option.splits list.splits if_splits)
  with 2(1) st(2) show ?case by simp
qed simp

lemma ev_prop_ops [parity]: "ev (unicode_prop_ops cr oprs)"
  by (auto simp: unicode_prop_ops_def intro!: parity ev_cr_copy dest!: prop_ops_even split: option.split list.split)

lemma ev_unicode_prop [parity]: "even (cr_len cr) \<Longrightarrow> ev (unicode_prop cr nm)"
  by (auto simp: unicode_prop_def Let_def intro!: parity split: option.split)

lemma ev_fail [parity]:
  "(\<And>cr. m = Some (0, cr) \<Longrightarrow> ev (f cr)) \<Longrightarrow> ev (script_fail m f)"
  by (auto simp: script_fail_def intro!: parity split: option.split)

lemma ev_script [parity]: "even (cr_len cr) \<Longrightarrow> ev (unicode_script cr nm b)"
  unfolding unicode_script_def Let_def
  by (auto intro!: parity dest: evD [OF ev_cr_op] evD [OF ev_script_loop])

section \<open>Classes\<close>

lemma gc_loop_result: "gc_loop tab m p c cr = Some (r, cr') \<Longrightarrow> r = 0 \<or> r = - 1"
proof (induction tab m p c cr rule: gc_loop.induct)
  case (1 tab m p c cr)
  then show ?case
    by (subst (asm) (2) gc_loop.simps) (fastforce simp: Let_def try_ok_def split: option.splits if_splits)
qed

lemma category_unknown:
  "unicode_general_category cr nm = Some (r, cr') \<Longrightarrow> r < 0 \<Longrightarrow> r \<noteq> - 1 \<Longrightarrow> cr' = cr"
  by (auto simp: unicode_general_category_def unicode_general_category1_def bind_Some_iff split: if_splits
      dest: gc_loop_result)

lemma property_range_even:
  assumes "property_range cr name val = Some (Inl (0, cr'))" and "even (cr_len cr)"
  shows "even (cr_len cr')"
proof -
  have "r < 0 \<Longrightarrow> r \<noteq> - 1 \<Longrightarrow> unicode_general_category cr name = Some (r, x) \<Longrightarrow> even (cr_len x)" for r x
    using category_unknown assms(2) by blast
  moreover have "unicode_general_category cr nm = Some (0, x) \<Longrightarrow> even (cr_len x)" for nm x
    using assms(2) by (rule evD [OF ev_category])
  moreover have "unicode_general_category cr name = Some (r, x) \<Longrightarrow> \<not> r < 0 \<Longrightarrow> r = 0" for r x
    by (auto simp: unicode_general_category_def unicode_general_category1_def bind_Some_iff split: if_splits
        dest: gc_loop_result)
  moreover have "unicode_script cr val b = Some (0, x) \<Longrightarrow> even (cr_len x)" for b x
    using assms(2) by (rule evD [OF ev_script])
  moreover have "even (cr_len x) \<Longrightarrow> unicode_prop x name = Some (0, y) \<Longrightarrow> even (cr_len y)" for x y
    by (rule evD [OF ev_unicode_prop])
  ultimately show ?thesis
    using assms(1) unfolding property_range_def
    by (auto simp: bind_Some_iff split: if_splits)
qed

section \<open>Class atoms\<close>

text \<open>What a result satisfies if there is one, by the structure of the program.\<close>

definition post :: "('a \<Rightarrow> bool) \<Rightarrow> 'a option \<Rightarrow> bool" where
  "post P m \<longleftrightarrow> (\<forall>x. m = Some x \<longrightarrow> P x)"

named_theorems post_intros

lemma postI: "(\<And>x. m = Some x \<Longrightarrow> P x) \<Longrightarrow> post P m"
  by (simp add: post_def)

lemma postD: "post P m \<Longrightarrow> m = Some x \<Longrightarrow> P x"
  by (simp add: post_def)

lemma post_Some [post_intros]: "P x \<Longrightarrow> post P (Some x)"
  by (simp add: post_def)

lemma post_None [post_intros]: "post P None"
  by (simp add: post_def)

lemma post_bind [post_intros]: "(\<And>x. m = Some x \<Longrightarrow> post P (f x)) \<Longrightarrow> post P (Option.bind m f)"
  by (cases m) (auto simp: post_def)

lemma post_if [post_intros]: "(b \<Longrightarrow> post P m) \<Longrightarrow> (\<not> b \<Longrightarrow> post P n) \<Longrightarrow> post P (if b then m else n)"
  by simp

lemma post_prod [post_intros]: "(\<And>a b. x = (a, b) \<Longrightarrow> post P (f a b)) \<Longrightarrow> post P (case x of (a, b) \<Rightarrow> f a b)"
  by (cases x) simp

lemma post_option [post_intros]:
  "(x = None \<Longrightarrow> post P m) \<Longrightarrow> (\<And>y. x = Some y \<Longrightarrow> post P (f y)) \<Longrightarrow> post P (case x of None \<Rightarrow> m | Some y \<Rightarrow> f y)"
  by (cases x) auto

lemma post_sum [post_intros]:
  "(\<And>y. x = Inl y \<Longrightarrow> post P (f y)) \<Longrightarrow> (\<And>y. x = Inr y \<Longrightarrow> post P (g y)) \<Longrightarrow> post P (case x of Inl y \<Rightarrow> f y | Inr y \<Rightarrow> g y)"
  by (cases x) auto

lemma post_let [post_intros]: "post P (f x) \<Longrightarrow> post P (Let x f)"
  by simp

lemma post_mono: "post P m \<Longrightarrow> (\<And>x. P x \<Longrightarrow> Q x) \<Longrightarrow> post Q m"
  by (simp add: post_def)

lemma post_seq: "post Q m \<Longrightarrow> (\<And>x. Q x \<Longrightarrow> post P (f x)) \<Longrightarrow> post P (Option.bind m f)"
  by (cases m) (auto simp: post_def)

lemma post_case_option: "post Q m \<Longrightarrow> (\<And>y. Q y \<Longrightarrow> post P (f y)) \<Longrightarrow> post P (case m of None \<Rightarrow> None | Some y \<Rightarrow> f y)"
  by (cases m) (auto simp: post_def)

text \<open>The parts of the parser state that only emitting code and opening a group change.\<close>

definition same :: "REParseState \<Rightarrow> REParseState \<Rightarrow> bool" where
  "same s s' \<longleftrightarrow> ps_byte_code s' = ps_byte_code s \<and> ps_capture_count s' = ps_capture_count s"

lemma same_refl [simp]: "same s s"
  by (simp add: same_def)

lemma same_trans: "same s s' \<Longrightarrow> same s' s'' \<Longrightarrow> same s s''"
  by (simp add: same_def)

lemma same_error: "re_parse_error s m = (r, s') \<Longrightarrow> same s s' \<and> r = - 1"
  "re_parse_out_of_memory s = (r, s') \<Longrightarrow> same s s' \<and> r = - 1"
  by (auto simp: re_parse_error_def re_parse_out_of_memory_def Let_def same_def)

text \<open>A class atom leaves the code alone, and its range is even.\<close>

definition atom_ev :: "REParseState \<Rightarrow> int \<times> CharRange option \<times> nat \<times> REParseState \<Rightarrow> bool" where
  "atom_ev s x = (case x of (r, cr, p, s') \<Rightarrow> same s s' \<and> (\<forall>c. r \<ge> 0 \<longrightarrow> cr = Some c \<longrightarrow> even (cr_len c)))"

lemma class_error_ev: "post (atom_ev s) (class_error s p m)"
  unfolding class_error_def by (intro post_intros) (auto simp: atom_ev_def dest!: same_error)

lemma parse_unicode_property_ev: "post (atom_ev s) (parse_unicode_property s p b)"
  unfolding parse_unicode_property_def
  by (intro post_intros class_error_ev)
    (auto simp: atom_ev_def dest!: same_error property_range_even evD [OF ev_cr_invert] split: if_splits)

lemma class_normal_char_ev: "post (atom_ev s) (class_normal_char s c p)"
  unfolding class_normal_char_def by (intro post_intros class_error_ev) (auto simp: atom_ev_def)

lemma add_points_len: "add_points cr tab i n = Some (0, cr') \<Longrightarrow> cr_len cr' = cr_len cr + n"
proof (induction cr tab i n rule: add_points.induct)
  case (2 cr tab i n)
  then obtain v cr1 where c: "rd tab i = Some v" "cr_add_point cr (ucast v) = Some (0, cr1)"
    "add_points cr1 tab (i + 1) n = Some (0, cr')"
    by (auto simp: bind_Some_iff)
  then have "cr_len cr1 = cr_len cr + 1"
    by (auto simp: cr_add_point_def Let_def bind_Some_iff split: prod.splits if_splits dest!: cr_realloc_len)
  with 2(1) [OF c(1), of cr1] c(3) show ?case by simp
qed simp

lemma cr_init_char_range_even: "cr_init_char_range s c = Some (0, cr) \<Longrightarrow> even (cr_len cr)"
  by (auto simp: cr_init_char_range_def bind_Some_iff split: prod.splits if_splits
      dest!: add_points_len dest: evD [OF ev_cr_invert])

lemma class_escape_ev: "post (atom_ev s) (class_escape s p c b)"
  unfolding class_escape_def invalid_escape_def
  by (intro post_intros class_error_ev class_normal_char_ev)
    (auto simp: atom_ev_def split: if_splits dest: cr_init_char_range_even dest!: postD [OF parse_unicode_property_ev])

lemma get_class_atom_ev: "post (atom_ev s) (get_class_atom s p b)"
  unfolding get_class_atom_def
  by (intro post_intros class_error_ev class_normal_char_ev class_escape_ev)

definition item_ev :: "REParseState \<Rightarrow> int \<times> CharRange \<times> nat \<times> REParseState \<Rightarrow> bool" where
  "item_ev s x = (case x of (r, cr, p, s') \<Rightarrow> same s s' \<and> (r = 0 \<longrightarrow> even (cr_len cr)))"

lemma class_add_atom_ev: "post (item_ev s) (class_add_atom s cr c1 cr1 p)"
  unfolding class_add_atom_def
  by (intro post_intros)
    (auto simp: item_ev_def dest!: same_error evD [OF ev_cr_union(1)] evD [OF ev_cr_union(2)] split: option.splits if_splits)

lemma class_invalid_range_ev: "post (item_ev s) (class_invalid_range s cr p)"
  unfolding class_invalid_range_def by (intro post_intros) (auto simp: item_ev_def dest!: same_error)

lemma item_ev_trans: "same s s' \<Longrightarrow> post (item_ev s') m \<Longrightarrow> post (item_ev s) m"
  by (auto simp: post_def item_ev_def dest: same_trans)

lemma class_item_ev: "post (item_ev s) (class_item s cr p)"
proof -
  have a: "get_class_atom s p b = Some (r, x, q, s') \<Longrightarrow> same s s'" for p b r x q s s'
    using postD [OF get_class_atom_ev] by (fastforce simp: atom_ev_def)
  show ?thesis
    unfolding class_item_def
    by (intro post_intros item_ev_trans [OF _ class_add_atom_ev] item_ev_trans [OF _ class_invalid_range_ev])
      (auto simp: item_ev_def dest!: a same_error evD [OF ev_cr_union(2)] intro: same_trans)
qed

lemma class_loop_ev: "even (cr_len cr) \<Longrightarrow> post (item_ev s) (class_loop s cr p)"
proof (induction s cr p rule: class_loop.induct)
  case (1 s cr p)
  show ?case
  proof (subst class_loop.simps, intro post_intros, goal_cases)
    case (1 b)
    then show ?case using "1.prems" by (simp add: item_ev_def)
  next
    case (2 b x r x2 cr' x3 p' s')
    then show ?case using postD [OF class_item_ev [of s cr p]] by (fastforce simp: item_ev_def)
  next
    case (3 b x r x2 cr' x3 p' s')
    then have "item_ev s (r, cr', p', s')" using postD [OF class_item_ev [of s cr p]] by simp
    with 3 show ?case
      by (intro item_ev_trans [of s s'] "1.IH" [OF 3(1,2,3)]) (auto simp: item_ev_def)
  qed
qed

end
