(* ===== verification/RegexpExec.thy ===== *)
theory RegexpExec
  imports RegexpOps
begin

text \<open>
  The backtracking matcher of \<^verbatim>\<open>libregexp.c\<close>. Pointers into the subject and into the bytecode are offsets; a
  \<open>NULL\<close> capture is \<open>None\<close>. The counter stack holds machine words, so a pushed position is the address of
  the subject plus the offset. The state stack is a block of saved states that \<open>push_state\<close> grows with the caller's
  allocator.

  One turn of the interpreter loop is \<open>exec_op\<close>, the code at the labels \<open>no_match\<close> and \<open>recurse\<close> is \<open>unwind\<close>, and
  \<open>lre_exec_backtrack\<close> is the loop itself. A run is a \<open>Fault\<close> on an access outside a block, a failed
  assertion or an invalid opcode, and a \<open>Timeout\<close> when the fuel, one unit per turn, is used up.
\<close>

section \<open>Reading characters\<close>

definition is_hi_surrogate :: "u32 \<Rightarrow> bool" where
  "is_hi_surrogate c \<longleftrightarrow> c \<ge> 0xd800 \<and> c < 0xdc00"

definition is_lo_surrogate :: "u32 \<Rightarrow> bool" where
  "is_lo_surrogate c \<longleftrightarrow> c \<ge> 0xdc00 \<and> c < 0xe000"

definition from_surrogates :: "u32 \<Rightarrow> u32 \<Rightarrow> u32" where
  "from_surrogates c c1 = (push_bit 10 (c AND 0x3ff) OR (c1 AND 0x3ff)) + 0x10000"

definition GET_CHAR :: "nat \<Rightarrow> u8 list \<Rightarrow> nat \<Rightarrow> nat \<Rightarrow> (u32 \<times> nat) option" where
  "GET_CHAR cbuf_type buf cptr cbuf_end =
     (if cbuf_type = 0 then do { b \<leftarrow> rd buf cptr; Some (ucast b, cptr + 1) }
      else do {
        c \<leftarrow> get_u16 buf cptr;
        if is_hi_surrogate c \<and> cbuf_type = 2 \<and> cptr + 2 < cbuf_end then do {
          c1 \<leftarrow> get_u16 buf (cptr + 2);
          if is_lo_surrogate c1 then Some (from_surrogates c c1, cptr + 4) else Some (c, cptr + 2) }
        else Some (c, cptr + 2) })"

definition PEEK_CHAR :: "nat \<Rightarrow> u8 list \<Rightarrow> nat \<Rightarrow> nat \<Rightarrow> u32 option" where
  "PEEK_CHAR cbuf_type buf cptr cbuf_end =
     (if cbuf_type = 0 then do { b \<leftarrow> rd buf cptr; Some (ucast b) }
      else do {
        c \<leftarrow> get_u16 buf cptr;
        if is_hi_surrogate c \<and> cbuf_type = 2 \<and> cptr + 2 < cbuf_end then do {
          c1 \<leftarrow> get_u16 buf (cptr + 2);
          if is_lo_surrogate c1 then Some (from_surrogates c c1) else Some c }
        else Some c })"

text \<open>A pointer moved back by \<open>n\<close> bytes, within the block.\<close>

definition ptr_back :: "nat \<Rightarrow> nat \<Rightarrow> nat option" where
  "ptr_back p n = (if n \<le> p then Some (p - n) else None)"

definition PEEK_PREV_CHAR :: "nat \<Rightarrow> u8 list \<Rightarrow> nat \<Rightarrow> nat \<Rightarrow> u32 option" where
  "PEEK_PREV_CHAR cbuf_type buf cptr cbuf_start =
     (if cbuf_type = 0 then do { p \<leftarrow> ptr_back cptr 1; b \<leftarrow> rd buf p; Some (ucast b) }
      else do {
        p \<leftarrow> ptr_back cptr 2;
        c \<leftarrow> get_u16 buf p;
        if is_lo_surrogate c \<and> cbuf_type = 2 \<and> cptr \<ge> cbuf_start + 4 then do {
          p \<leftarrow> ptr_back cptr 4;
          c1 \<leftarrow> get_u16 buf p;
          if is_hi_surrogate c1 then Some (from_surrogates c1 c) else Some c }
        else Some c })"

definition GET_PREV_CHAR :: "nat \<Rightarrow> u8 list \<Rightarrow> nat \<Rightarrow> nat \<Rightarrow> (u32 \<times> nat) option" where
  "GET_PREV_CHAR cbuf_type buf cptr cbuf_start =
     (if cbuf_type = 0 then do { cptr \<leftarrow> ptr_back cptr 1; b \<leftarrow> rd buf cptr; Some (ucast b, cptr) }
      else do {
        cptr \<leftarrow> ptr_back cptr 2;
        c \<leftarrow> get_u16 buf cptr;
        if is_lo_surrogate c \<and> cbuf_type = 2 \<and> cptr > cbuf_start then do {
          p \<leftarrow> ptr_back cptr 2;
          c1 \<leftarrow> get_u16 buf p;
          if is_hi_surrogate c1 then Some (from_surrogates c1 c, p) else Some (c, cptr) }
        else Some (c, cptr) })"

definition PREV_CHAR :: "nat \<Rightarrow> u8 list \<Rightarrow> nat \<Rightarrow> nat \<Rightarrow> nat option" where
  "PREV_CHAR cbuf_type buf cptr cbuf_start =
     (if cbuf_type = 0 then ptr_back cptr 1
      else do {
        cptr \<leftarrow> ptr_back cptr 2;
        if cbuf_type = 2 then do {
          c \<leftarrow> get_u16 buf cptr;
          if is_lo_surrogate c \<and> cptr > cbuf_start then do {
            p \<leftarrow> ptr_back cptr 2;
            c \<leftarrow> get_u16 buf p;
            if is_hi_surrogate c then Some p else Some cptr }
          else Some cptr }
        else Some cptr })"

fun prev_chars :: "nat \<Rightarrow> nat \<Rightarrow> u8 list \<Rightarrow> nat \<Rightarrow> nat \<Rightarrow> nat option" where
  "prev_chars 0 cbuf_type buf cptr cbuf_start = Some cptr"
| "prev_chars (Suc n) cbuf_type buf cptr cbuf_start =
     do { cptr \<leftarrow> PREV_CHAR cbuf_type buf cptr cbuf_start; prev_chars n cbuf_type buf cptr cbuf_start }"

section \<open>Execution state\<close>

datatype REExecStateEnum =
    RE_EXEC_STATE_SPLIT | RE_EXEC_STATE_LOOKAHEAD | RE_EXEC_STATE_NEGATIVE_LOOKAHEAD
  | RE_EXEC_STATE_GREEDY_QUANT

type_synonym captures = "nat option list"

record REExecState =
  rs_type :: REExecStateEnum
  rs_stack_len :: u8
  rs_count :: nat
  rs_cptr :: nat
  rs_pc :: nat
  rs_capture :: captures
  rs_stack :: "u64 list"

text \<open>\<open>ex_cbuf_addr\<close> is the address of the subject; \<open>ex_lre_realloc\<close> is the allocator of the caller, in units of states.\<close>

record REExecContext =
  ex_cbuf :: "u8 list"
  ex_cbuf_addr :: nat
  ex_cbuf_end :: nat
  ex_cbuf_type :: nat
  ex_capture_count :: nat
  ex_stack_size_max :: nat
  ex_multi_line :: bool
  ex_ignore_case :: bool
  ex_is_utf16 :: bool
  ex_opaque :: nat
  ex_lre_realloc :: "REExecState realloc_fun"
  ex_state_size :: nat
  ex_state_stack :: "REExecState list"
  ex_state_stack_size :: nat
  ex_state_stack_len :: nat

text \<open>The local variables and parameters of \<open>lre_exec_backtrack\<close>: \<open>capture\<close> and \<open>stack\<close> are blocks shared with the caller.\<close>

record thread =
  th_pc :: nat
  th_cptr :: nat
  th_capture :: captures
  th_stack :: "u64 list"
  th_stack_len :: nat

definition grow_state_stack :: "REExecContext \<Rightarrow> int \<times> REExecContext" where
  "grow_state_stack s =
     (if ex_state_stack_len s + 1 > ex_state_stack_size s then
        let sz = size_t (ex_state_stack_size s * 3) div 2;
            new_size = (if sz < 8 then 8 else sz)
        in case ex_lre_realloc s (ex_opaque s) (ex_state_stack s)
                  (size_t (new_size * ex_state_size s) div ex_state_size s) of
             None \<Rightarrow> (- 1, s\<lparr>ex_opaque := Suc (ex_opaque s)\<rparr>)
           | Some new_stack \<Rightarrow>
               (0, s\<lparr>ex_state_stack_size := new_size, ex_state_stack := new_stack,
                     ex_opaque := Suc (ex_opaque s)\<rparr>)
      else (0, s))"

text \<open>A saved state has room for \<open>stack_size_max\<close> counters: copying more leaves its slot.\<close>

definition push_state ::
  "REExecContext \<Rightarrow> thread \<Rightarrow> nat \<Rightarrow> nat \<Rightarrow> REExecStateEnum \<Rightarrow> nat \<Rightarrow> (int \<times> REExecContext) option" where
  "push_state s th pc cptr type cnt =
     (let (r, s) = grow_state_stack s in
      if r \<noteq> 0 then Some (- 1, s)
      else do {
        caps \<leftarrow> slice (th_capture th) 0 (2 * ex_capture_count s);
        st \<leftarrow> slice (th_stack th) 0 (th_stack_len th);
        if th_stack_len th > ex_stack_size_max s then None
        else do {
          b \<leftarrow> wr (ex_state_stack s) (ex_state_stack_len s)
            \<lparr>rs_type = type, rs_stack_len = of_nat (th_stack_len th), rs_count = cnt, rs_cptr = cptr,
             rs_pc = pc, rs_capture = caps, rs_stack = st\<rparr>;
          Some (0, s\<lparr>ex_state_stack := b, ex_state_stack_len := ex_state_stack_len s + 1\<rparr>) } })"

section \<open>Instructions\<close>

datatype op_result =
    Op_next REExecContext thread
  | Op_no_match thread
  | Op_match thread
  | Op_error REExecContext thread
  | Op_quant thread nat u32 u32

text \<open>\<open>pc + (int)val\<close>, within the bytecode.\<close>

definition pc_add :: "u8 list \<Rightarrow> nat \<Rightarrow> u32 \<Rightarrow> nat option" where
  "pc_add bc pc val =
     (let t = int pc + sint val in if 0 \<le> t \<and> t \<le> int (length bc) then Some (nat t) else None)"

definition canonicalize_if :: "REExecContext \<Rightarrow> u32 \<Rightarrow> u32 option" where
  "canonicalize_if s c = (if ex_ignore_case s then lre_canonicalize c (ex_is_utf16 s) else Some c)"

text \<open>Read the next character, canonicalized if asked for, and go on if it passes the test; at the end of the subject there is no match.\<close>

definition match_char ::
  "REExecContext \<Rightarrow> thread \<Rightarrow> (u32 \<Rightarrow> bool option) \<Rightarrow> op_result option" where
  "match_char s th test =
     (if th_cptr th \<ge> ex_cbuf_end s then Some (Op_no_match th)
      else do {
        (c, cptr) \<leftarrow> GET_CHAR (ex_cbuf_type s) (ex_cbuf s) (th_cptr th) (ex_cbuf_end s);
        c \<leftarrow> canonicalize_if s c;
        ok \<leftarrow> test c;
        Some (if ok then Op_next s (th\<lparr>th_cptr := cptr\<rparr>) else Op_no_match (th\<lparr>th_cptr := cptr\<rparr>)) })"

definition match_any :: "REExecContext \<Rightarrow> thread \<Rightarrow> (u32 \<Rightarrow> bool) \<Rightarrow> op_result option" where
  "match_any s th test =
     (if th_cptr th = ex_cbuf_end s then Some (Op_no_match th)
      else do {
        (c, cptr) \<leftarrow> GET_CHAR (ex_cbuf_type s) (ex_cbuf s) (th_cptr th) (ex_cbuf_end s);
        Some (if test c then Op_next s (th\<lparr>th_cptr := cptr\<rparr>) else Op_no_match (th\<lparr>th_cptr := cptr\<rparr>)) })"

text \<open>
  The binary search of the range instructions, entries \<open>lo\<close> to \<open>hi\<close> of a table at \<open>pc\<close> whose values are read by \<open>get\<close> and
  take \<open>w\<close> bytes. An index below 0 would wrap around and leave the table.
\<close>

function range_search ::
  "(u8 list \<Rightarrow> nat \<Rightarrow> u32 option) \<Rightarrow> nat \<Rightarrow> u8 list \<Rightarrow> nat \<Rightarrow> u32 \<Rightarrow> nat \<Rightarrow> nat \<Rightarrow> bool option" where
  "range_search get w bc pc c idx_min idx_max =
     (if idx_min \<le> idx_max then
        let idx = (idx_min + idx_max) div 2 in
        case get bc (pc + idx * (2 * w)) of
          None \<Rightarrow> None
        | Some low \<Rightarrow>
            case get bc (pc + idx * (2 * w) + w) of
              None \<Rightarrow> None
            | Some high \<Rightarrow>
                if c < low then
                  if idx = 0 then None else range_search get w bc pc c idx_min (idx - 1)
                else if c > high then range_search get w bc pc c (idx + 1) idx_max
                else Some True
      else Some False)"
  by pat_completeness auto
termination
proof (relation "measure (\<lambda>(get, w, bc, pc, c, lo, hi). Suc hi - lo)", goal_cases)
  case 1
  then show ?case by simp
next
  case (2 get w bc pc c lo hi idx)
  then have "lo \<le> idx" "idx \<le> hi" "0 < idx" by linarith+
  then show ?case by simp
next
  case (3 get w bc pc c lo hi idx)
  then have "lo \<le> idx" "idx \<le> hi" by linarith+
  then show ?case by simp
qed

declare range_search.simps [simp del]

text \<open>\<open>REOP_range\<close>: a last value 0xffff stands for infinity. \<open>REOP_range32\<close> has no such convention.\<close>

definition range_test :: "u8 list \<Rightarrow> nat \<Rightarrow> nat \<Rightarrow> u32 \<Rightarrow> bool option" where
  "range_test bc pc n c = do {
     low \<leftarrow> get_u16 bc pc;
     if c < low then Some False
     else if n = 0 then None
     else do {
       high \<leftarrow> get_u16 bc (pc + (n - 1) * 4 + 2);
       if c \<ge> 0xffff \<and> high = 0xffff then Some True
       else if c > high then Some False
       else range_search get_u16 2 bc pc c 0 (n - 1) } }"

definition range32_test :: "u8 list \<Rightarrow> nat \<Rightarrow> nat \<Rightarrow> u32 \<Rightarrow> bool option" where
  "range32_test bc pc n c = do {
     low \<leftarrow> get_u32 bc pc;
     if c < low then Some False
     else if n = 0 then None
     else do {
       high \<leftarrow> get_u32 bc (pc + (n - 1) * 8 + 4);
       if c > high then Some False
       else range_search get_u32 4 bc pc c 0 (n - 1) } }"

text \<open>The loops of the back references: \<open>Some None\<close> is a mismatch, else the new position.\<close>

lemma GET_CHAR_advances: "GET_CHAR ct buf p e = Some (c, p') \<Longrightarrow> p < p'"
  by (auto simp: GET_CHAR_def bind_Some_iff split: if_splits)

lemma GET_PREV_CHAR_goes_back: "GET_PREV_CHAR ct buf p e = Some (c, p') \<Longrightarrow> p' < p"
  by (auto simp: GET_PREV_CHAR_def ptr_back_def bind_Some_iff split: if_splits)

definition same_char :: "REExecContext \<Rightarrow> u32 \<Rightarrow> u32 \<Rightarrow> bool option" where
  "same_char s c1 c2 = do { c1 \<leftarrow> canonicalize_if s c1; c2 \<leftarrow> canonicalize_if s c2; Some (c1 = c2) }"

function back_ref_loop :: "REExecContext \<Rightarrow> nat \<Rightarrow> nat \<Rightarrow> nat \<Rightarrow> nat option option" where
  "back_ref_loop s cptr1 cptr1_end cptr =
     (if cptr1 < cptr1_end then
        if cptr \<ge> ex_cbuf_end s then Some None
        else
          case GET_CHAR (ex_cbuf_type s) (ex_cbuf s) cptr1 cptr1_end of
            None \<Rightarrow> None
          | Some (c1, cptr1) \<Rightarrow>
              case GET_CHAR (ex_cbuf_type s) (ex_cbuf s) cptr (ex_cbuf_end s) of
                None \<Rightarrow> None
              | Some (c2, cptr) \<Rightarrow>
                  case same_char s c1 c2 of
                    None \<Rightarrow> None
                  | Some eq \<Rightarrow> if eq then back_ref_loop s cptr1 cptr1_end cptr else Some None
      else Some (Some cptr))"
  by pat_completeness auto
termination
  by (relation "measure (\<lambda>(s, p, e, q). e - p)") (auto dest!: GET_CHAR_advances)

declare back_ref_loop.simps [simp del]

function backward_ref_loop :: "REExecContext \<Rightarrow> nat \<Rightarrow> nat \<Rightarrow> nat \<Rightarrow> nat option option" where
  "backward_ref_loop s cptr1 cptr1_start cptr =
     (if cptr1 > cptr1_start then
        if cptr = 0 then Some None
        else
          case GET_PREV_CHAR (ex_cbuf_type s) (ex_cbuf s) cptr1 cptr1_start of
            None \<Rightarrow> None
          | Some (c1, cptr1) \<Rightarrow>
              case GET_PREV_CHAR (ex_cbuf_type s) (ex_cbuf s) cptr 0 of
                None \<Rightarrow> None
              | Some (c2, cptr) \<Rightarrow>
                  case same_char s c1 c2 of
                    None \<Rightarrow> None
                  | Some eq \<Rightarrow> if eq then backward_ref_loop s cptr1 cptr1_start cptr else Some None
      else Some (Some cptr))"
  by pat_completeness auto
termination
  by (relation "measure (\<lambda>(s, p, e, q). p)") (auto dest!: GET_PREV_CHAR_goes_back)

declare backward_ref_loop.simps [simp del]

fun reset_captures :: "captures \<Rightarrow> nat \<Rightarrow> nat \<Rightarrow> captures option" where
  "reset_captures cap val 0 = Some cap"
| "reset_captures cap val (Suc n) = do {
     cap \<leftarrow> wr cap (2 * val) None;
     cap \<leftarrow> wr cap (2 * val + 1) None;
     reset_captures cap (val + 1) n }"

definition word_boundary_at :: "REExecContext \<Rightarrow> nat \<Rightarrow> bool option" where
  "word_boundary_at s cptr = do {
     v1 \<leftarrow> (if cptr = 0 then Some False
           else do { c \<leftarrow> PEEK_PREV_CHAR (ex_cbuf_type s) (ex_cbuf s) cptr 0; Some (is_word_char c) });
     v2 \<leftarrow> (if cptr \<ge> ex_cbuf_end s then Some False
           else do { c \<leftarrow> PEEK_CHAR (ex_cbuf_type s) (ex_cbuf s) cptr (ex_cbuf_end s); Some (is_word_char c) });
     Some (v1 \<noteq> v2) }"

text \<open>Go on when the condition holds, else there is no match.\<close>

definition go_if :: "REExecContext \<Rightarrow> thread \<Rightarrow> bool \<Rightarrow> op_result" where
  "go_if s th b = (if b then Op_next s th else Op_no_match th)"

definition save_and_go ::
  "REExecContext \<Rightarrow> thread \<Rightarrow> nat \<Rightarrow> REExecStateEnum \<Rightarrow> nat \<Rightarrow> op_result option" where
  "save_and_go s th pc1 type pc = do {
     (ret, s) \<leftarrow> push_state s th pc1 (th_cptr th) type 0;
     Some (if ret < 0 then Op_error s th else Op_next s (th\<lparr>th_pc := pc\<rparr>)) }"

text \<open>\<open>stack[stack_len++] = v\<close>.\<close>

definition push_counter :: "REExecContext \<Rightarrow> thread \<Rightarrow> u64 \<Rightarrow> op_result option" where
  "push_counter s th v = do {
     st \<leftarrow> wr (th_stack th) (th_stack_len th) v;
     Some (Op_next s (th\<lparr>th_stack := st, th_stack_len := th_stack_len th + 1\<rparr>)) }"

definition position_word :: "REExecContext \<Rightarrow> nat \<Rightarrow> u64" where
  "position_word s cptr = of_nat (ex_cbuf_addr s + cptr)"

text \<open>
  One turn of the interpreter loop. \<open>pc\<close> is the position after the opcode; the simple greedy quantifier
  needs the interpreter itself and is left to \<open>lre_exec_backtrack\<close>.
\<close>

definition exec_op :: "u8 list \<Rightarrow> REExecContext \<Rightarrow> thread \<Rightarrow> op_result option" where
  "exec_op bc s th = do {
     b \<leftarrow> rd bc (th_pc th);
     (opcode, len) \<leftarrow> reop b;
     let pc = th_pc th + 1; cptr = th_cptr th in
     case opcode of
       REOP_match \<Rightarrow> Some (Op_match th)
     | REOP_char32 \<Rightarrow> do {
         val \<leftarrow> get_u32 bc pc;
         match_char s (th\<lparr>th_pc := pc + 4\<rparr>) (\<lambda>c. Some (val = c)) }
     | REOP_char \<Rightarrow> do {
         val \<leftarrow> get_u16 bc pc;
         match_char s (th\<lparr>th_pc := pc + 2\<rparr>) (\<lambda>c. Some (val = c)) }
     | REOP_split_goto_first \<Rightarrow> do {
         val \<leftarrow> get_u32 bc pc;
         pc' \<leftarrow> pc_add bc (pc + 4) val;
         save_and_go s th (pc + 4) RE_EXEC_STATE_SPLIT pc' }
     | REOP_split_next_first \<Rightarrow> do {
         val \<leftarrow> get_u32 bc pc;
         pc1 \<leftarrow> pc_add bc (pc + 4) val;
         save_and_go s th pc1 RE_EXEC_STATE_SPLIT (pc + 4) }
     | REOP_lookahead \<Rightarrow> do {
         val \<leftarrow> get_u32 bc pc;
         pc1 \<leftarrow> pc_add bc (pc + 4) val;
         save_and_go s th pc1 RE_EXEC_STATE_LOOKAHEAD (pc + 4) }
     | REOP_negative_lookahead \<Rightarrow> do {
         val \<leftarrow> get_u32 bc pc;
         pc1 \<leftarrow> pc_add bc (pc + 4) val;
         save_and_go s th pc1 RE_EXEC_STATE_NEGATIVE_LOOKAHEAD (pc + 4) }
     | REOP_goto \<Rightarrow> do {
         val \<leftarrow> get_u32 bc pc;
         pc' \<leftarrow> pc_add bc (pc + 4) val;
         Some (Op_next s (th\<lparr>th_pc := pc'\<rparr>)) }
     | REOP_line_start \<Rightarrow>
         if cptr = 0 then Some (Op_next s (th\<lparr>th_pc := pc\<rparr>))
         else if \<not> ex_multi_line s then Some (Op_no_match th)
         else do {
           c \<leftarrow> PEEK_PREV_CHAR (ex_cbuf_type s) (ex_cbuf s) cptr 0;
           Some (go_if s (th\<lparr>th_pc := pc\<rparr>) (is_line_terminator c)) }
     | REOP_line_end \<Rightarrow>
         if cptr = ex_cbuf_end s then Some (Op_next s (th\<lparr>th_pc := pc\<rparr>))
         else if \<not> ex_multi_line s then Some (Op_no_match th)
         else do {
           c \<leftarrow> PEEK_CHAR (ex_cbuf_type s) (ex_cbuf s) cptr (ex_cbuf_end s);
           Some (go_if s (th\<lparr>th_pc := pc\<rparr>) (is_line_terminator c)) }
     | REOP_dot \<Rightarrow> match_any s (th\<lparr>th_pc := pc\<rparr>) (\<lambda>c. \<not> is_line_terminator c)
     | REOP_any \<Rightarrow> match_any s (th\<lparr>th_pc := pc\<rparr>) (\<lambda>c. True)
     | REOP_save_start \<Rightarrow> do {
         val \<leftarrow> rd bc pc;
         if unat val < ex_capture_count s then do {
           cap \<leftarrow> wr (th_capture th) (2 * unat val) (Some cptr);
           Some (Op_next s (th\<lparr>th_pc := pc + 1, th_capture := cap\<rparr>)) }
         else None }
     | REOP_save_end \<Rightarrow> do {
         val \<leftarrow> rd bc pc;
         if unat val < ex_capture_count s then do {
           cap \<leftarrow> wr (th_capture th) (2 * unat val + 1) (Some cptr);
           Some (Op_next s (th\<lparr>th_pc := pc + 1, th_capture := cap\<rparr>)) }
         else None }
     | REOP_save_reset \<Rightarrow> do {
         val \<leftarrow> rd bc pc;
         val2 \<leftarrow> rd bc (pc + 1);
         if unat val2 < ex_capture_count s then do {
           cap \<leftarrow> reset_captures (th_capture th) (unat val) (Suc (unat val2) - unat val);
           Some (Op_next s (th\<lparr>th_pc := pc + 2, th_capture := cap\<rparr>)) }
         else None }
     | REOP_push_i32 \<Rightarrow> do {
         val \<leftarrow> get_u32 bc pc;
         push_counter s (th\<lparr>th_pc := pc + 4\<rparr>) (ucast val) }
     | REOP_drop \<Rightarrow> do {
         n \<leftarrow> ptr_back (th_stack_len th) 1;
         Some (Op_next s (th\<lparr>th_pc := pc, th_stack_len := n\<rparr>)) }
     | REOP_loop \<Rightarrow> do {
         val \<leftarrow> get_u32 bc pc;
         i \<leftarrow> ptr_back (th_stack_len th) 1;
         v \<leftarrow> rd (th_stack th) i;
         st \<leftarrow> wr (th_stack th) i (v - 1);
         pc' \<leftarrow> (if v - 1 \<noteq> 0 then pc_add bc (pc + 4) val else Some (pc + 4));
         Some (Op_next s (th\<lparr>th_pc := pc', th_stack := st\<rparr>)) }
     | REOP_push_char_pos \<Rightarrow> push_counter s (th\<lparr>th_pc := pc\<rparr>) (position_word s cptr)
     | REOP_bne_char_pos \<Rightarrow> do {
         val \<leftarrow> get_u32 bc pc;
         i \<leftarrow> ptr_back (th_stack_len th) 1;
         v \<leftarrow> rd (th_stack th) i;
         pc' \<leftarrow> (if v \<noteq> position_word s cptr then pc_add bc (pc + 4) val else Some (pc + 4));
         Some (Op_next s (th\<lparr>th_pc := pc', th_stack_len := i\<rparr>)) }
     | REOP_word_boundary \<Rightarrow> do {
         v \<leftarrow> word_boundary_at s cptr;
         Some (go_if s (th\<lparr>th_pc := pc\<rparr>) v) }
     | REOP_not_word_boundary \<Rightarrow> do {
         v \<leftarrow> word_boundary_at s cptr;
         Some (go_if s (th\<lparr>th_pc := pc\<rparr>) (\<not> v)) }
     | REOP_back_reference \<Rightarrow> do {
         val \<leftarrow> rd bc pc;
         if unat val \<ge> ex_capture_count s then Some (Op_no_match th)
         else do {
           cs \<leftarrow> rd (th_capture th) (2 * unat val);
           ce \<leftarrow> rd (th_capture th) (2 * unat val + 1);
           case (cs, ce) of
             (Some cptr1_start, Some cptr1_end) \<Rightarrow> do {
               r \<leftarrow> back_ref_loop s cptr1_start cptr1_end cptr;
               Some (case r of None \<Rightarrow> Op_no_match th
                     | Some cptr \<Rightarrow> Op_next s (th\<lparr>th_pc := pc + 1, th_cptr := cptr\<rparr>)) }
           | _ \<Rightarrow> Some (Op_next s (th\<lparr>th_pc := pc + 1\<rparr>)) } }
     | REOP_backward_back_reference \<Rightarrow> do {
         val \<leftarrow> rd bc pc;
         if unat val \<ge> ex_capture_count s then Some (Op_no_match th)
         else do {
           cs \<leftarrow> rd (th_capture th) (2 * unat val);
           ce \<leftarrow> rd (th_capture th) (2 * unat val + 1);
           case (cs, ce) of
             (Some cptr1_start, Some cptr1_end) \<Rightarrow> do {
               r \<leftarrow> backward_ref_loop s cptr1_end cptr1_start cptr;
               Some (case r of None \<Rightarrow> Op_no_match th
                     | Some cptr \<Rightarrow> Op_next s (th\<lparr>th_pc := pc + 1, th_cptr := cptr\<rparr>)) }
           | _ \<Rightarrow> Some (Op_next s (th\<lparr>th_pc := pc + 1\<rparr>)) } }
     | REOP_range \<Rightarrow> do {
         n \<leftarrow> get_u16 bc pc;
         match_char s (th\<lparr>th_pc := pc + 2 + 4 * unat n\<rparr>) (range_test bc (pc + 2) (unat n)) }
     | REOP_range32 \<Rightarrow> do {
         n \<leftarrow> get_u16 bc pc;
         match_char s (th\<lparr>th_pc := pc + 2 + 8 * unat n\<rparr>) (range32_test bc (pc + 2) (unat n)) }
     | REOP_prev \<Rightarrow>
         if cptr = 0 then Some (Op_no_match th)
         else do {
           cptr \<leftarrow> PREV_CHAR (ex_cbuf_type s) (ex_cbuf s) cptr 0;
           Some (Op_next s (th\<lparr>th_pc := pc, th_cptr := cptr\<rparr>)) }
     | REOP_simple_greedy_quant \<Rightarrow> do {
         next_pos \<leftarrow> get_u32 bc pc;
         quant_min \<leftarrow> get_u32 bc (pc + 4);
         quant_max \<leftarrow> get_u32 bc (pc + 8);
         pc' \<leftarrow> pc_add bc (pc + 16) next_pos;
         Some (Op_quant (th\<lparr>th_pc := pc'\<rparr>) (pc + 16) quant_min quant_max) }
     | REOP_invalid \<Rightarrow> None }"

section \<open>Backtracking\<close>

text \<open>\<open>pop_state1\<close>, and \<open>pop_state\<close>, which restores the captures too; the counters go back to the shared block.\<close>

definition pop_state1 :: "REExecContext \<Rightarrow> REExecState \<Rightarrow> thread \<Rightarrow> thread option" where
  "pop_state1 s rs th = do {
     saved \<leftarrow> slice (rs_stack rs) 0 (unat (rs_stack_len rs));
     st \<leftarrow> blit (th_stack th) 0 saved;
     Some (th\<lparr>th_pc := rs_pc rs, th_cptr := rs_cptr rs, th_stack := st,
              th_stack_len := unat (rs_stack_len rs)\<rparr>) }"

definition pop_state :: "REExecContext \<Rightarrow> REExecState \<Rightarrow> thread \<Rightarrow> thread option" where
  "pop_state s rs th = do {
     saved \<leftarrow> slice (rs_capture rs) 0 (2 * ex_capture_count s);
     cap \<leftarrow> blit (th_capture th) 0 saved;
     pop_state1 s rs (th\<lparr>th_capture := cap\<rparr>) }"

definition drop_state :: "REExecContext \<Rightarrow> REExecContext" where
  "drop_state s = s\<lparr>ex_state_stack_len := ex_state_stack_len s - 1\<rparr>"

text \<open>The top state is a greedy quantifier with iterations left: give back one of them.\<close>

definition retry_greedy ::
  "u8 list \<Rightarrow> REExecContext \<Rightarrow> REExecState \<Rightarrow> thread \<Rightarrow> (REExecContext \<times> thread) option" where
  "retry_greedy bc s rs th = do {
     th \<leftarrow> pop_state s rs th;
     char_count \<leftarrow> get_u32 bc (rs_pc rs + 12);
     cptr \<leftarrow> prev_chars (unat char_count) (ex_cbuf_type s) (ex_cbuf s) (rs_cptr rs) 0;
     val \<leftarrow> get_u32 bc (rs_pc rs);
     pc \<leftarrow> pc_add bc (rs_pc rs + 16) val;
     cnt \<leftarrow> ptr_back (rs_count rs) 1;
     b \<leftarrow> wr (ex_state_stack s) (ex_state_stack_len s - 1) (rs\<lparr>rs_cptr := cptr, rs_count := cnt\<rparr>);
     let s = s\<lparr>ex_state_stack := b\<rparr> in
     Some (if cnt = 0 then drop_state s else s, th\<lparr>th_pc := pc, th_cptr := cptr\<rparr>) }"

datatype unwind_result =
    Finished bool REExecContext thread
  | Resume REExecContext thread

definition resume_at :: "REExecContext \<Rightarrow> thread option \<Rightarrow> unwind_result option" where
  "resume_at s m = do { th \<leftarrow> m; Some (Resume (drop_state s) th) }"

function unwind :: "u8 list \<Rightarrow> bool \<Rightarrow> REExecContext \<Rightarrow> thread \<Rightarrow> unwind_result option" where
  "unwind bc ret s th =
     (if ex_state_stack_len s = 0 then Some (Finished ret s th)
      else case rd (ex_state_stack s) (ex_state_stack_len s - 1) of
        None \<Rightarrow> None
      | Some rs \<Rightarrow>
          (case rs_type rs of
             RE_EXEC_STATE_SPLIT \<Rightarrow>
               if \<not> ret then resume_at s (pop_state s rs th) else unwind bc ret (drop_state s) th
           | RE_EXEC_STATE_GREEDY_QUANT \<Rightarrow>
               if \<not> ret then do { (s, th) \<leftarrow> retry_greedy bc s rs th; Some (Resume s th) }
               else unwind bc ret (drop_state s) th
           | RE_EXEC_STATE_LOOKAHEAD \<Rightarrow>
               if ret then resume_at s (pop_state1 s rs th) else unwind bc False (drop_state s) th
           | RE_EXEC_STATE_NEGATIVE_LOOKAHEAD \<Rightarrow>
               if \<not> ret then resume_at s (pop_state s rs th) else unwind bc False (drop_state s) th))"
  by pat_completeness auto
termination
  by (relation "measure (\<lambda>(bc, ret, s, th). ex_state_stack_len s)") (auto simp: drop_state_def)

declare unwind.simps [simp del]

section \<open>The interpreter\<close>

datatype 'a outcome = Fault | Timeout | Ret 'a

text \<open>The result: an allocation error (-1), no match (0), or a match; with \<open>no_recurse\<close> it is the position reached.\<close>

datatype exec_ret = R_error | R_no_match | R_match nat

definition INT32_MAX :: u32 where
  "INT32_MAX = 0x7fffffff"

fun lre_exec_backtrack ::
    "nat \<Rightarrow> u8 list \<Rightarrow> REExecContext \<Rightarrow> thread \<Rightarrow> bool \<Rightarrow> (exec_ret \<times> REExecContext \<times> thread) outcome"
  and greedy_loop ::
    "nat \<Rightarrow> u8 list \<Rightarrow> REExecContext \<Rightarrow> thread \<Rightarrow> nat \<Rightarrow> u32 \<Rightarrow> nat \<Rightarrow> (nat option \<times> REExecContext \<times> thread) outcome"
where
  "lre_exec_backtrack 0 bc s th no_recurse = Timeout"
| "lre_exec_backtrack (Suc fuel) bc s th no_recurse =
     (let recurse = (\<lambda>ret s th.
        case unwind bc ret s th of
          None \<Rightarrow> Fault
        | Some (Finished r s th) \<Rightarrow> Ret (if r then R_match (th_cptr th) else R_no_match, s, th)
        | Some (Resume s th) \<Rightarrow> lre_exec_backtrack fuel bc s th no_recurse) in
      case exec_op bc s th of
        None \<Rightarrow> Fault
      | Some (Op_next s th) \<Rightarrow> lre_exec_backtrack fuel bc s th no_recurse
      | Some (Op_error s th) \<Rightarrow> Ret (R_error, s, th)
      | Some (Op_match th) \<Rightarrow>
          if no_recurse then Ret (R_match (th_cptr th), s, th) else recurse True s th
      | Some (Op_no_match th) \<Rightarrow>
          if no_recurse then Ret (R_no_match, s, th) else recurse False s th
      | Some (Op_quant th pc1 quant_min quant_max) \<Rightarrow>
          (case greedy_loop fuel bc s th pc1 quant_max 0 of
             Fault \<Rightarrow> Fault
           | Timeout \<Rightarrow> Timeout
           | Ret (None, s, th) \<Rightarrow> Ret (R_error, s, th)
           | Ret (Some q, s, th) \<Rightarrow>
               if q < unat quant_min then
                 if no_recurse then Ret (R_no_match, s, th) else recurse False s th
               else if q > unat quant_min then
                 case push_state s th (pc1 - 16) (th_cptr th) RE_EXEC_STATE_GREEDY_QUANT (q - unat quant_min) of
                   None \<Rightarrow> Fault
                 | Some (ret, s) \<Rightarrow>
                     if ret < 0 then Ret (R_error, s, th) else lre_exec_backtrack fuel bc s th no_recurse
               else lre_exec_backtrack fuel bc s th no_recurse))"
| "greedy_loop 0 bc s th pc1 quant_max q = Timeout"
| "greedy_loop (Suc fuel) bc s th pc1 quant_max q =
     (case lre_exec_backtrack fuel bc s (th\<lparr>th_pc := pc1\<rparr>) True of
        Fault \<Rightarrow> Fault
      | Timeout \<Rightarrow> Timeout
      | Ret (res, s, th1) \<Rightarrow>
          let th = th\<lparr>th_capture := th_capture th1, th_stack := th_stack th1\<rparr> in
          (case res of
             R_error \<Rightarrow> Ret (None, s, th)
           | R_no_match \<Rightarrow> Ret (Some q, s, th)
           | R_match p \<Rightarrow>
               if q + 1 \<ge> unat quant_max \<and> quant_max \<noteq> INT32_MAX then Ret (Some (q + 1), s, th\<lparr>th_cptr := p\<rparr>)
               else greedy_loop fuel bc s (th\<lparr>th_cptr := p\<rparr>) pc1 quant_max (q + 1)))"

text \<open>
  The entry point. \<open>sizeof(REExecState)\<close> is 32 on a 64-bit target; the counters, which \<open>alloca\<close> leaves
  unspecified, are never read before they are written and start as zeros here.
\<close>

text \<open>
  \<open>clen\<close> and \<open>cindex\<close> are of type \<open>int\<close>: the shift by \<open>cbuf_type\<close> is undefined when the result is above \<open>INT_MAX\<close>.
\<close>

definition lre_exec ::
  "nat \<Rightarrow> REExecState realloc_fun \<Rightarrow> nat \<Rightarrow> captures \<Rightarrow> u8 list \<Rightarrow> u8 list \<Rightarrow> nat \<Rightarrow> nat \<Rightarrow> nat \<Rightarrow>
    (int \<times> captures) outcome" where
  "lre_exec fuel lre_realloc cbuf_addr capture bc_buf buf cindex clen cbuf_type =
     (if int clen * 2 ^ cbuf_type > 0x7fffffff \<or> int cindex * 2 ^ cbuf_type > 0x7fffffff then Fault
      else case (rd bc_buf RE_HEADER_FLAGS, rd bc_buf RE_HEADER_CAPTURE_COUNT, rd bc_buf RE_HEADER_STACK_SIZE) of
        (Some re_flags, Some ccount, Some ssize) \<Rightarrow>
          let s = \<lparr>ex_cbuf = buf, ex_cbuf_addr = cbuf_addr, ex_cbuf_end = clen * 2 ^ cbuf_type,
                   ex_cbuf_type = (if cbuf_type = 1 \<and> re_flags AND LRE_FLAG_UTF16 \<noteq> 0 then 2 else cbuf_type),
                   ex_capture_count = unat ccount, ex_stack_size_max = unat ssize,
                   ex_multi_line = (re_flags AND LRE_FLAG_MULTILINE \<noteq> 0),
                   ex_ignore_case = (re_flags AND LRE_FLAG_IGNORECASE \<noteq> 0),
                   ex_is_utf16 = (re_flags AND LRE_FLAG_UTF16 \<noteq> 0),
                   ex_opaque = 0, ex_lre_realloc = lre_realloc,
                   ex_state_size = 32 + unat ccount * 8 * 2 + unat ssize * 8,
                   ex_state_stack = [], ex_state_stack_size = 0, ex_state_stack_len = 0\<rparr>
          in (case blit capture 0 (replicate (unat ccount * 2) None) of
                None \<Rightarrow> Fault
              | Some cap \<Rightarrow>
                  (case lre_exec_backtrack fuel bc_buf s
                     \<lparr>th_pc = RE_HEADER_LEN, th_cptr = cindex * 2 ^ cbuf_type, th_capture = cap,
                      th_stack = replicate (unat ssize) 0, th_stack_len = 0\<rparr> False of
                     Fault \<Rightarrow> Fault
                   | Timeout \<Rightarrow> Timeout
                   | Ret (ret, s, th) \<Rightarrow>
                       Ret (case ret of R_error \<Rightarrow> - 1 | R_no_match \<Rightarrow> 0 | R_match p \<Rightarrow> 1, th_capture th)))
      | _ \<Rightarrow> Fault)"

definition lre_get_capture_count :: "u8 list \<Rightarrow> nat option" where
  "lre_get_capture_count bc_buf = do { b \<leftarrow> rd bc_buf RE_HEADER_CAPTURE_COUNT; Some (unat b) }"

definition lre_get_flags :: "u8 list \<Rightarrow> u8 option" where
  "lre_get_flags bc_buf = rd bc_buf RE_HEADER_FLAGS"

text \<open>The offset of the group names, \<open>Some None\<close> when there are none.\<close>

definition lre_get_groupnames :: "u8 list \<Rightarrow> nat option option" where
  "lre_get_groupnames bc_buf = do {
     flags \<leftarrow> lre_get_flags bc_buf;
     if flags AND LRE_FLAG_NAMED_GROUPS = 0 then Some None
     else do { n \<leftarrow> get_u32 bc_buf 3; Some (Some (7 + unat n)) } }"

end
