(* ===== verification/RegexpSafety.thy ===== *)
theory RegexpSafety
  imports RegexpExec
begin

text \<open>
  Memory safety of the matcher. \<open>re_code_ok\<close> is a linear bytecode check in the manner of a
  bytecode verifier: it walks the code once, as \<open>compute_stack_size\<close> does, giving every instruction the height of the counter stack, and
  checks every operand, jump target and quantifier body. The theorem: on verified code the
  matcher never leaves a block and fails no assertion, whatever the subject and the allocator
  do, and the captures it leaves are positions of the subject.
\<close>

section \<open>Verified code\<close>

definition next_height :: "REOPCodeEnum \<Rightarrow> nat \<Rightarrow> nat" where
  "next_height opcode h =
     (if opcode \<in> {REOP_push_i32, REOP_push_char_pos} then h + 1
      else if opcode \<in> {REOP_drop, REOP_bne_char_pos} then h - 1 else h)"

text \<open>The instructions from \<open>pos\<close> to \<open>e\<close> with their heights.\<close>

function insns :: "u8 list \<Rightarrow> nat \<Rightarrow> nat \<Rightarrow> nat \<Rightarrow> (nat \<times> nat) list" where
  "insns bc e pos h =
     (if pos < e then
        case op_at bc pos of
          None \<Rightarrow> []
        | Some (opcode, len) \<Rightarrow> (pos, h) # insns bc e (pos + len) (next_height opcode h)
      else [])"
  by pat_completeness auto
termination
  by (relation "measure (\<lambda>(bc, e, pos, h). e - pos)") (auto dest!: op_at_pos)

declare insns.simps [simp del]

definition range_filled :: "REOPCodeEnum \<Rightarrow> nat \<Rightarrow> bool" where
  "range_filled opcode len \<longleftrightarrow> (opcode \<in> {REOP_range, REOP_range32} \<longrightarrow> len > 3)"

definition is_assertion :: "REOPCodeEnum \<Rightarrow> bool" where
  "is_assertion opcode \<longleftrightarrow>
     opcode \<in> {REOP_line_start, REOP_line_end, REOP_word_boundary, REOP_not_word_boundary}"

text \<open>The body of a simple quantifier: \<open>n\<close> characters among assertions, then \<open>REOP_match\<close>.\<close>

function simple_body :: "u8 list \<Rightarrow> nat \<Rightarrow> nat \<Rightarrow> bool" where
  "simple_body bc pos n =
     (case op_at bc pos of
        None \<Rightarrow> False
      | Some (opcode, len) \<Rightarrow>
          pos + len \<le> length bc \<and> range_filled opcode len \<and>
          (if opcode = REOP_match then n = 0
           else if is_simple_char opcode then 0 < n \<and> simple_body bc (pos + len) (n - 1)
           else is_assertion opcode \<and> simple_body bc (pos + len) n))"
  by pat_completeness auto
termination
  by (relation "measure (\<lambda>(bc, pos, n). length bc - pos)") (auto dest!: op_at_pos)

declare simple_body.simps [simp del]

text \<open>A jump by the operand at \<open>q\<close>, relative to \<open>base\<close>, reaches an instruction of height \<open>h\<close>.\<close>

definition jump_ok :: "u8 list \<Rightarrow> (nat \<times> nat) set \<Rightarrow> nat \<Rightarrow> nat \<Rightarrow> nat \<Rightarrow> bool" where
  "jump_ok bc L q base h =
     (case get_u32 bc q of
        None \<Rightarrow> False
      | Some val \<Rightarrow> (case pc_add bc base val of None \<Rightarrow> False | Some t \<Rightarrow> (t, h) \<in> L))"

definition op_ok :: "u8 list \<Rightarrow> nat \<Rightarrow> (nat \<times> nat) set \<Rightarrow> nat \<Rightarrow> nat \<Rightarrow> bool" where
  "op_ok bc ccount L pos h =
     (case op_at bc pos of
        None \<Rightarrow> False
      | Some (opcode, len) \<Rightarrow>
          pos + len \<le> length bc \<and> range_filled opcode len \<and>
          (opcode \<notin> {REOP_match, REOP_goto, REOP_simple_greedy_quant} \<longrightarrow>
             (pos + len, next_height opcode h) \<in> L) \<and>
          (case opcode of
             REOP_invalid \<Rightarrow> False
           | REOP_goto \<Rightarrow> jump_ok bc L (pos + 1) (pos + 5) h
           | REOP_split_goto_first \<Rightarrow> jump_ok bc L (pos + 1) (pos + 5) h
           | REOP_split_next_first \<Rightarrow> jump_ok bc L (pos + 1) (pos + 5) h
           | REOP_lookahead \<Rightarrow> jump_ok bc L (pos + 1) (pos + 5) h
           | REOP_negative_lookahead \<Rightarrow> jump_ok bc L (pos + 1) (pos + 5) h
           | REOP_loop \<Rightarrow> 0 < h \<and> jump_ok bc L (pos + 1) (pos + 5) h
           | REOP_bne_char_pos \<Rightarrow> 0 < h \<and> jump_ok bc L (pos + 1) (pos + 5) (h - 1)
           | REOP_drop \<Rightarrow> 0 < h
           | REOP_save_start \<Rightarrow> unat (bc ! (pos + 1)) < ccount
           | REOP_save_end \<Rightarrow> unat (bc ! (pos + 1)) < ccount
           | REOP_save_reset \<Rightarrow> unat (bc ! (pos + 2)) < ccount
           | REOP_simple_greedy_quant \<Rightarrow>
               jump_ok bc L (pos + 1) (pos + 17) h \<and>
               (case get_u32 bc (pos + 13) of
                  None \<Rightarrow> False
                | Some n \<Rightarrow> simple_body bc (pos + 17) (unat n))
           | _ \<Rightarrow> True))"

definition code_ok :: "u8 list \<Rightarrow> nat \<Rightarrow> nat \<Rightarrow> (nat \<times> nat) set \<Rightarrow> bool" where
  "code_ok bc ccount ssize L \<longleftrightarrow>
     (\<forall>(pos, h) \<in> L. h \<le> ssize \<and> op_ok bc ccount L pos h)"

definition re_code_ok :: "u8 list \<Rightarrow> bool" where
  "re_code_ok bc =
     (case (rd bc RE_HEADER_CAPTURE_COUNT, rd bc RE_HEADER_STACK_SIZE, get_u32 bc 3) of
        (Some ccount, Some ssize, Some n) \<Rightarrow>
          let L = set (insns bc (RE_HEADER_LEN + unat n) RE_HEADER_LEN 0) in
          RE_HEADER_LEN + unat n \<le> length bc \<and> (RE_HEADER_LEN, 0) \<in> L \<and>
          code_ok bc (unat ccount) (unat ssize) L
      | _ \<Rightarrow> False)"

section \<open>Positions in the subject\<close>

text \<open>Offsets at which a character can start or end: 16-bit subjects have even offsets.\<close>

definition pos_ok :: "nat \<Rightarrow> u8 list \<Rightarrow> nat \<Rightarrow> bool" where
  "pos_ok ct buf p \<longleftrightarrow> p \<le> length buf \<and> (ct \<noteq> 0 \<longrightarrow> even p)"

definition buf_ok :: "nat \<Rightarrow> u8 list \<Rightarrow> bool" where
  "buf_ok ct buf \<longleftrightarrow> (ct \<noteq> 0 \<longrightarrow> even (length buf))"

lemma get_u16_total: "i + 2 \<le> length b \<Longrightarrow> \<exists>v. get_u16 b i = Some v"
  by (simp add: get_u16_def slice_def)

lemma get_u32_total: "i + 4 \<le> length b \<Longrightarrow> \<exists>v. get_u32 b i = Some v"
  by (simp add: get_u32_def slice_def)

lemma even_next: "even p \<Longrightarrow> even n \<Longrightarrow> p < n \<Longrightarrow> p + 2 \<le> (n :: nat)"
  by (cases "n = Suc p") auto

lemma GET_CHAR_ok:
  assumes "buf_ok ct buf" "pos_ok ct buf p" "pos_ok ct buf e" "p < e"
  shows "\<exists>c p'. GET_CHAR ct buf p e = Some (c, p') \<and> pos_ok ct buf p' \<and> p' \<le> e"
proof (cases "ct = 0")
  case True
  with assms show ?thesis by (auto simp: GET_CHAR_def pos_ok_def)
next
  case False
  then have e: "even p" "even e" "even (length buf)" using assms by (auto simp: pos_ok_def buf_ok_def)
  have pe: "p + 2 \<le> e" "e \<le> length buf" using even_next [of p e] e assms by (auto simp: pos_ok_def)
  then obtain c where c: "get_u16 buf p = Some c" using get_u16_total [of p buf] by auto
  show ?thesis
  proof (cases "is_hi_surrogate c \<and> ct = 2 \<and> p + 2 < e")
    case True
    then have p4: "p + 4 \<le> e" using even_next [of "p + 2" e] e by auto
    then obtain c1 where "get_u16 buf (p + 2) = Some c1" using get_u16_total [of "p + 2" buf] pe by auto
    with True c p4 pe e show ?thesis by (auto simp: GET_CHAR_def pos_ok_def)
  next
    case no: False
    with c False pe e show ?thesis by (auto simp: GET_CHAR_def pos_ok_def)
  qed
qed

lemma PEEK_CHAR_eq: "PEEK_CHAR ct buf p e = map_option fst (GET_CHAR ct buf p e)"
  by (auto simp: PEEK_CHAR_def GET_CHAR_def split: Option.bind_splits)

lemma prev_char_ok:
  assumes "pos_ok ct buf p" "pos_ok ct buf st" "st < p"
  shows "\<exists>c p'. GET_PREV_CHAR ct buf p st = Some (c, p') \<and> PEEK_PREV_CHAR ct buf p st = Some c \<and>
    PREV_CHAR ct buf p st = Some p' \<and> pos_ok ct buf p' \<and> st \<le> p' \<and> p' < p"
proof (cases "ct = 0")
  case True
  with assms show ?thesis
    by (auto simp: GET_PREV_CHAR_def PEEK_PREV_CHAR_def PREV_CHAR_def pos_ok_def ptr_back_def)
next
  case False
  then have e: "even p" "even st" "p \<le> length buf" using assms by (auto simp: pos_ok_def)
  have pe: "st + 2 \<le> p" using even_next [of st p] e assms by auto
  then obtain c where c: "get_u16 buf (p - 2) = Some c"
    using get_u16_total [of "p - 2" buf] e by fastforce
  show ?thesis
  proof (cases "st < p - 2")
    case True
    then have p4: "st + 4 \<le> p" using even_next [of st "p - 2"] e pe by simp
    then obtain c1 where c1: "get_u16 buf (p - 4) = Some c1"
      using get_u16_total [of "p - 4" buf] e by fastforce
    have "p - 2 - 2 = p - 4" "2 \<le> p - 2" using p4 by auto
    with True c c1 p4 pe e False show ?thesis
      by (auto simp: GET_PREV_CHAR_def PEEK_PREV_CHAR_def PREV_CHAR_def pos_ok_def ptr_back_def)
  next
    case no: False
    then have "\<not> st + 4 \<le> p" using pe by linarith
    with no c False pe e show ?thesis
      by (auto simp: GET_PREV_CHAR_def PEEK_PREV_CHAR_def PREV_CHAR_def pos_ok_def ptr_back_def)
  qed
qed

text \<open>\<open>n\<close> characters lead from \<open>p\<close> to \<open>p'\<close>.\<close>

fun gets :: "nat \<Rightarrow> nat \<Rightarrow> u8 list \<Rightarrow> nat \<Rightarrow> nat \<Rightarrow> bool" where
  "gets 0 ct buf p p' \<longleftrightarrow> p' = p"
| "gets (Suc n) ct buf p p' \<longleftrightarrow> (\<exists>c q. gets n ct buf p q \<and> GET_CHAR ct buf q (length buf) = Some (c, p'))"

lemma gets_append: "gets n ct buf p q \<Longrightarrow> gets m ct buf q r \<Longrightarrow> gets (n + m) ct buf p r"
  by (induction m arbitrary: r) auto

text \<open>The middle of a surrogate pair is the only place where going back does not undo going forward.\<close>

definition mid_pair :: "nat \<Rightarrow> u8 list \<Rightarrow> nat \<Rightarrow> bool" where
  "mid_pair ct buf p \<longleftrightarrow> ct = 2 \<and> 2 \<le> p \<and>
     (\<exists>c c1. get_u16 buf (p - 2) = Some c \<and> get_u16 buf p = Some c1 \<and> is_hi_surrogate c \<and> is_lo_surrogate c1)"

lemma surrogates_disjoint: "is_hi_surrogate c \<Longrightarrow> \<not> is_lo_surrogate c"
  by (auto simp: is_hi_surrogate_def is_lo_surrogate_def)

lemma get_u16_bound: "get_u16 buf p = Some c \<Longrightarrow> p + 2 \<le> length buf"
  by (auto simp: get_u16_def bind_Some_iff slice_Some_iff)

lemma GET_CHAR_not_mid:
  assumes "GET_CHAR ct buf p (length buf) = Some (c, p')" and "even (length buf)" and "even p"
  shows "\<not> mid_pair ct buf p'"
proof
  assume m: "mid_pair ct buf p'"
  then have ct: "ct = 2" by (simp add: mid_pair_def)
  obtain c0 where c0: "get_u16 buf p = Some c0" using assms ct by (auto simp: GET_CHAR_def bind_Some_iff)
  from assms ct m c0 surrogates_disjoint show False
    by (auto simp: GET_CHAR_def bind_Some_iff mid_pair_def dest: get_u16_bound split: if_splits)
qed

lemma prev_of_get:
  assumes "GET_CHAR ct buf p (length buf) = Some (c, p')" and "\<not> mid_pair ct buf p"
    and "pos_ok ct buf p"
  shows "PREV_CHAR ct buf p' 0 = Some p"
proof (cases "ct = 0")
  case True
  with assms show ?thesis by (auto simp: GET_CHAR_def PREV_CHAR_def ptr_back_def bind_Some_iff)
next
  case False
  then obtain c0 where c0: "get_u16 buf p = Some c0" using assms by (auto simp: GET_CHAR_def bind_Some_iff)
  consider c1 where "ct = 2" "is_hi_surrogate c0" "get_u16 buf (p + 2) = Some c1" "is_lo_surrogate c1" "p' = p + 4"
    | "p' = p + 2"
    using assms(1) c0 False by (auto simp: GET_CHAR_def bind_Some_iff split: if_splits)
  then show ?thesis
  proof cases
    case 1
    then show ?thesis using c0 by (simp add: PREV_CHAR_def ptr_back_def)
  next
    case 2
    show ?thesis
    proof (cases "ct = 2 \<and> is_lo_surrogate c0 \<and> 0 < p")
      case True
      then have p2: "2 \<le> p" using assms(3) even_next [of 0 p] by (simp add: pos_ok_def)
      then obtain c2 where "get_u16 buf (p - 2) = Some c2"
        using get_u16_total [of "p - 2" buf] assms(3) by (fastforce simp: pos_ok_def)
      then show ?thesis using assms 2 c0 True p2
        by (auto simp: PREV_CHAR_def ptr_back_def mid_pair_def)
    qed (use 2 c0 False in \<open>auto simp: PREV_CHAR_def ptr_back_def\<close>)
  qed
qed

lemma gets_pos_ok:
  assumes "gets n ct buf p q" and "buf_ok ct buf" and "pos_ok ct buf p"
  shows "pos_ok ct buf q"
  using assms(1)
proof (induction n arbitrary: q)
  case 0
  then show ?case using assms by simp
next
  case (Suc n)
  then obtain c q1 where q1: "gets n ct buf p q1" "GET_CHAR ct buf q1 (length buf) = Some (c, q)" by auto
  have "q1 < length buf" using q1(2) by (auto simp: GET_CHAR_def bind_Some_iff rd_Some_iff split: if_splits dest: get_u16_bound)
  with GET_CHAR_ok [OF assms(2) Suc.IH [OF q1(1)], of "length buf"] assms(2) q1(2)
  show ?case by (auto simp: pos_ok_def buf_ok_def)
qed

lemma gets_prev:
  assumes "gets n ct buf p q" and "buf_ok ct buf" and "pos_ok ct buf p"
  shows "prev_chars n ct buf q 0 \<noteq> None"
  using assms(1)
proof (induction n arbitrary: q)
  case (Suc n)
  then obtain c q1 where q1: "gets n ct buf p q1" "GET_CHAR ct buf q1 (length buf) = Some (c, q)" by auto
  have ok: "pos_ok ct buf q1" "pos_ok ct buf q" "q1 < q"
    using gets_pos_ok [OF q1(1) assms(2,3)] gets_pos_ok [OF Suc.prems assms(2,3)] GET_CHAR_advances [OF q1(2)] by auto
  show ?case
  proof (cases n)
    case 0
    obtain p' where "PREV_CHAR ct buf q 0 = Some p'"
      using prev_char_ok [OF ok(2), of 0] ok by (auto simp: pos_ok_def)
    with 0 show ?thesis by simp
  next
    case (Suc m)
    then obtain c' q2 where q2: "gets m ct buf p q2" "GET_CHAR ct buf q2 (length buf) = Some (c', q1)"
      using q1(1) by auto
    have "\<not> mid_pair ct buf q1"
    proof (cases "ct = 2")
      case True
      then show ?thesis using GET_CHAR_not_mid [OF q2(2)] gets_pos_ok [OF q2(1) assms(2,3)] assms(2)
        by (simp add: pos_ok_def buf_ok_def)
    qed (simp add: mid_pair_def)
    from prev_of_get [OF q1(2) this ok(1)] Suc.IH [OF q1(1)] show ?thesis by simp
  qed
qed simp

lemma prev_chars_add:
  "prev_chars (a + b) ct buf p st = Option.bind (prev_chars a ct buf p st) (\<lambda>q. prev_chars b ct buf q st)"
  by (induction a arbitrary: p) (auto split: Option.bind_splits)

lemma prev_chars_pos_ok:
  "prev_chars n ct buf p 0 = Some q \<Longrightarrow> pos_ok ct buf p \<Longrightarrow> pos_ok ct buf q"
proof (induction n arbitrary: p)
  case (Suc n)
  then obtain p1 where p1: "PREV_CHAR ct buf p 0 = Some p1" "prev_chars n ct buf p1 0 = Some q"
    by (auto simp: bind_Some_iff)
  then have "0 < p" by (auto simp: PREV_CHAR_def ptr_back_def bind_Some_iff split: if_splits intro: gr0I)
  then show ?case using prev_char_ok [OF Suc.prems(2), of 0] p1 Suc.IH by (auto simp: pos_ok_def)
qed simp

section \<open>Invariant of the machine\<close>

definition capture_ok :: "nat \<Rightarrow> u8 list \<Rightarrow> nat option \<Rightarrow> bool" where
  "capture_ok ct buf c = (case c of None \<Rightarrow> True | Some p \<Rightarrow> pos_ok ct buf p)"

definition captures_ok :: "REExecContext \<Rightarrow> captures \<Rightarrow> bool" where
  "captures_ok s cap \<longleftrightarrow> 2 * ex_capture_count s \<le> length cap \<and>
     list_all (capture_ok (ex_cbuf_type s) (ex_cbuf s)) (take (2 * ex_capture_count s) cap)"

text \<open>The blocks shared with the caller, and the whole thread, which stands at an instruction of its height.\<close>

definition blocks_ok :: "REExecContext \<Rightarrow> thread \<Rightarrow> bool" where
  "blocks_ok s th \<longleftrightarrow> captures_ok s (th_capture th) \<and> length (th_stack th) = ex_stack_size_max s"

definition here_ok :: "REExecContext \<Rightarrow> thread \<Rightarrow> bool" where
  "here_ok s th \<longleftrightarrow> blocks_ok s th \<and> pos_ok (ex_cbuf_type s) (ex_cbuf s) (th_cptr th)"

definition thread_ok :: "(nat \<times> nat) set \<Rightarrow> REExecContext \<Rightarrow> thread \<Rightarrow> bool" where
  "thread_ok L s th \<longleftrightarrow> here_ok s th \<and> (th_pc th, th_stack_len th) \<in> L"

text \<open>A saved greedy quantifier can go back as many iterations as it still has.\<close>

definition greedy_ok :: "u8 list \<Rightarrow> (nat \<times> nat) set \<Rightarrow> REExecContext \<Rightarrow> REExecState \<Rightarrow> bool" where
  "greedy_ok bc L s rs \<longleftrightarrow> 0 < rs_count rs \<and>
     jump_ok bc L (rs_pc rs) (rs_pc rs + 16) (unat (rs_stack_len rs)) \<and>
     (\<exists>n. get_u32 bc (rs_pc rs + 12) = Some n \<and>
        prev_chars (rs_count rs * unat n) (ex_cbuf_type s) (ex_cbuf s) (rs_cptr rs) 0 \<noteq> None)"

definition state_ok :: "u8 list \<Rightarrow> (nat \<times> nat) set \<Rightarrow> REExecContext \<Rightarrow> REExecState \<Rightarrow> bool" where
  "state_ok bc L s rs \<longleftrightarrow>
     captures_ok s (rs_capture rs) \<and> pos_ok (ex_cbuf_type s) (ex_cbuf s) (rs_cptr rs) \<and>
     unat (rs_stack_len rs) \<le> length (rs_stack rs) \<and> unat (rs_stack_len rs) \<le> ex_stack_size_max s \<and>
     (if rs_type rs = RE_EXEC_STATE_GREEDY_QUANT then greedy_ok bc L s rs
      else (rs_pc rs, unat (rs_stack_len rs)) \<in> L)"

text \<open>
  The allocator of the matcher: the contract of \<open>realloc\<close>, and no block of more than half the address space, as the C standard
  library's cannot be (\<open>PTRDIFF_MAX\<close>).
\<close>

locale state_realloc = realloc_contract +
  fixes state_size :: nat
  assumes max_block: "realloc opq b n = Some b' \<Longrightarrow> n * state_size < 2 ^ 63"

definition stack_ok :: "u8 list \<Rightarrow> (nat \<times> nat) set \<Rightarrow> REExecContext \<Rightarrow> bool" where
  "stack_ok bc L s \<longleftrightarrow>
     state_realloc (ex_lre_realloc s) (ex_state_size s) \<and>
     32 \<le> ex_state_size s \<and> ex_state_size s < 2 ^ 16 \<and>
     ex_state_stack_size s * ex_state_size s < 2 ^ 63 \<and>
     length (ex_state_stack s) = ex_state_stack_size s \<and>
     ex_state_stack_len s \<le> ex_state_stack_size s \<and>
     (\<forall>i < ex_state_stack_len s. state_ok bc L s (ex_state_stack s ! i))"

definition subject_ok :: "REExecContext \<Rightarrow> bool" where
  "subject_ok s \<longleftrightarrow> buf_ok (ex_cbuf_type s) (ex_cbuf s) \<and> ex_cbuf_end s = length (ex_cbuf s) \<and>
     ex_stack_size_max s \<le> 255"

definition ctx_ok :: "u8 list \<Rightarrow> (nat \<times> nat) set \<Rightarrow> REExecContext \<Rightarrow> bool" where
  "ctx_ok bc L s \<longleftrightarrow> subject_ok s \<and> stack_ok bc L s \<and>
     code_ok bc (ex_capture_count s) (ex_stack_size_max s) L"

text \<open>What never changes during a run.\<close>

definition same_run :: "REExecContext \<Rightarrow> REExecContext \<Rightarrow> bool" where
  "same_run s s' \<longleftrightarrow>
     ex_cbuf s' = ex_cbuf s \<and> ex_cbuf_end s' = ex_cbuf_end s \<and> ex_cbuf_type s' = ex_cbuf_type s \<and>
     ex_capture_count s' = ex_capture_count s \<and> ex_stack_size_max s' = ex_stack_size_max s \<and>
     ex_state_size s' = ex_state_size s \<and> ex_lre_realloc s' = ex_lre_realloc s"

lemma same_run_refl [simp]: "same_run s s"
  by (simp add: same_run_def)

lemma same_run_trans: "same_run s s' \<Longrightarrow> same_run s' s'' \<Longrightarrow> same_run s s''"
  by (simp add: same_run_def)

lemma same_run_ok:
  assumes "same_run s s'"
  shows "captures_ok s' = captures_ok s" "blocks_ok s' = blocks_ok s" "here_ok s' = here_ok s"
    "thread_ok L s' = thread_ok L s" "state_ok bc L s' = state_ok bc L s" "subject_ok s' = subject_ok s"
  using assms
  by (auto simp: same_run_def captures_ok_def blocks_ok_def here_ok_def thread_ok_def state_ok_def
    greedy_ok_def subject_ok_def fun_eq_iff)

section \<open>The state stack\<close>

lemma new_size_bound:
  fixes k z :: nat
  assumes "32 \<le> z" "z < 2 ^ 16" "k * z < 2 ^ 63"
  defines "m \<equiv> (if k * 3 div 2 < 8 then 8 else k * 3 div 2)"
  shows "size_t (k * 3) = k * 3" "size_t (m * z) div z = m"
proof -
  have "k * 32 \<le> k * z" using assms by (intro mult_le_mono) auto
  then have k: "k * 32 < 2 ^ 63" using assms(3) by linarith
  then show "size_t (k * 3) = k * 3" by (simp add: size_t_def)
  have "k * 3 div 2 * z * 2 \<le> k * 3 * z" using div_times_less_eq_dividend [of "k * 3" 2]
    by (metis mult.assoc mult.commute mult_le_mono1)
  moreover have "k * 3 * z < 3 * 2 ^ 63" using assms(3) by simp
  moreover have "x < 2 ^ 64" if "x * 2 \<le> y" "y < 3 * 2 ^ 63" for x y :: nat using that by simp
  ultimately have "k * 3 div 2 * z < 2 ^ 64" by blast
  then have "m * z < 2 ^ 64" using assms(2) by (simp add: m_def)
  then show "size_t (m * z) div z = m" using assms(1) by simp
qed

lemma grow_state_stack_ok:
  assumes "stack_ok bc L s" and "grow_state_stack s = (r, s')"
  shows "stack_ok bc L s' \<and> same_run s s' \<and> ex_state_stack_len s' = ex_state_stack_len s \<and>
    (r = 0 \<and> ex_state_stack_len s < ex_state_stack_size s' \<or> r = - 1)"
proof (cases "ex_state_stack_len s + 1 > ex_state_stack_size s")
  case False
  with assms show ?thesis by (auto simp: grow_state_stack_def)
next
  case True
  define k where "k = ex_state_stack_size s"
  define m where "m = (if k * 3 div 2 < 8 then 8 else k * 3 div 2)"
  have z: "32 \<le> ex_state_size s" "ex_state_size s < 2 ^ 16" "k * ex_state_size s < 2 ^ 63"
    and len: "ex_state_stack_len s = k" "length (ex_state_stack s) = k"
    and al: "state_realloc (ex_lre_realloc s) (ex_state_size s)"
    using assms(1) True by (auto simp: stack_ok_def k_def)
  have "k < m" by (auto simp: m_def)
  have g: "grow_state_stack s =
    (case ex_lre_realloc s (ex_opaque s) (ex_state_stack s) m of
       None \<Rightarrow> (- 1, s\<lparr>ex_opaque := Suc (ex_opaque s)\<rparr>)
     | Some b \<Rightarrow> (0, s\<lparr>ex_state_stack_size := m, ex_state_stack := b, ex_opaque := Suc (ex_opaque s)\<rparr>))"
    using True unfolding grow_state_stack_def Let_def k_def [symmetric] new_size_bound(1) [OF z]
      m_def [symmetric] new_size_bound(2) [OF z, folded m_def] by simp
  show ?thesis
  proof (cases "ex_lre_realloc s (ex_opaque s) (ex_state_stack s) m")
    case None
    then have "r = - 1" "s' = s\<lparr>ex_opaque := Suc (ex_opaque s)\<rparr>" using assms(2) g by auto
    moreover have "same_run s (s\<lparr>ex_opaque := Suc (ex_opaque s)\<rparr>)" by (simp add: same_run_def)
    ultimately show ?thesis using assms(1) same_run_ok(5) [of s s'] by (simp add: stack_ok_def)
  next
    case (Some b)
    then have s': "r = 0"
      "s' = s\<lparr>ex_state_stack_size := m, ex_state_stack := b, ex_opaque := Suc (ex_opaque s)\<rparr>"
      using assms(2) g by auto
    have run: "same_run s s'" by (simp add: s' same_run_def)
    have rc: "realloc_contract (ex_lre_realloc s)" using al by (simp add: state_realloc_def)
    have b: "length b = m" "m * ex_state_size s < 2 ^ 63" "take k b = ex_state_stack s"
      using realloc_contract.realloc_length [OF rc Some] state_realloc.max_block [OF al Some]
        realloc_contract.realloc_keeps [OF rc Some, of k] len \<open>k < m\<close> by auto
    have "b ! i = ex_state_stack s ! i" if "i < k" for i
      using b(3) that by (metis nth_take)
    then show ?thesis
      using assms(1) same_run_ok(5) [OF run] run b len \<open>k < m\<close> s'
      by (simp add: stack_ok_def)
  qed
qed

lemma push_state_ok:
  assumes s: "stack_ok bc L s" "subject_ok s" and th: "here_ok s th" and n: "th_stack_len th \<le> ex_stack_size_max s"
    and cptr: "pos_ok (ex_cbuf_type s) (ex_cbuf s) cptr"
    and new: "\<And>rs. rs_type rs = type \<Longrightarrow> rs_pc rs = pc \<Longrightarrow> rs_cptr rs = cptr \<Longrightarrow> rs_count rs = cnt \<Longrightarrow>
      unat (rs_stack_len rs) = th_stack_len th \<Longrightarrow>
      (if type = RE_EXEC_STATE_GREEDY_QUANT then greedy_ok bc L s rs
       else (pc, th_stack_len th) \<in> L)"
  shows "\<exists>r s'. push_state s th pc cptr type cnt = Some (r, s') \<and> stack_ok bc L s' \<and> same_run s s' \<and>
    (r = 0 \<or> r = - 1)"
proof -
  obtain r s1 where g: "grow_state_stack s = (r, s1)" by (metis surj_pair)
  note ok = grow_state_stack_ok [OF s(1) g]
  show ?thesis
  proof (cases "r = 0")
    case False
    then show ?thesis using ok by (auto simp: push_state_def g)
  next
    case True
    have run: "same_run s s1" and len: "ex_state_stack_len s1 < ex_state_stack_size s1"
      and s1: "stack_ok bc L s1" using ok True by auto
    define cc where "cc = ex_capture_count s"
    have cc: "ex_capture_count s1 = cc" "ex_stack_size_max s1 = ex_stack_size_max s"
      using run by (auto simp: same_run_def cc_def)
    define rs where "rs = \<lparr>rs_type = type, rs_stack_len = of_nat (th_stack_len th), rs_count = cnt,
      rs_cptr = cptr, rs_pc = pc, rs_capture = take (2 * cc) (th_capture th),
      rs_stack = take (th_stack_len th) (th_stack th)\<rparr>"
    define s2 where "s2 = s1\<lparr>ex_state_stack := (ex_state_stack s1)[ex_state_stack_len s1 := rs],
      ex_state_stack_len := ex_state_stack_len s1 + 1\<rparr>"
    have caps: "2 * cc \<le> length (th_capture th)" "th_stack_len th \<le> length (th_stack th)"
      using th n by (auto simp: here_ok_def blocks_ok_def captures_ok_def cc_def)
    have "th_stack_len th < 2 ^ 8" using n s(2) by (simp add: subject_ok_def)
    then have u: "unat (rs_stack_len rs) = th_stack_len th" by (simp add: rs_def unat_of_nat)
    have "state_ok bc L s rs"
      using new [of rs] u th caps cptr n
      by (auto simp: state_ok_def rs_def here_ok_def blocks_ok_def captures_ok_def cc_def)
    moreover have run2: "same_run s s2" using run by (simp add: same_run_def s2_def)
    ultimately have "stack_ok bc L s2"
      using s1 len same_run_ok(5) [OF run2] same_run_ok(5) [OF run]
      by (auto simp: stack_ok_def s2_def nth_list_update less_Suc_eq)
    moreover have "push_state s th pc cptr type cnt = Some (0, s2)"
      using True caps n len s1 cc
      by (simp add: push_state_def g slice_def wr_def stack_ok_def s2_def rs_def)
    ultimately show ?thesis using run2 by auto
  qed
qed

lemma captures_ok_blit:
  assumes "captures_ok s a" and "captures_ok s cap" and "blit cap 0 (take (2 * ex_capture_count s) a) = Some cap'"
  shows "captures_ok s cap'"
  using assms by (auto simp: captures_ok_def blit_Some_iff)

lemma pop_state1_ok:
  assumes "state_ok bc L s rs" and "blocks_ok s th"
  shows "\<exists>th'. pop_state1 s rs th = Some th' \<and> here_ok s th' \<and> th_pc th' = rs_pc rs \<and>
    th_cptr th' = rs_cptr rs \<and> th_stack_len th' = unat (rs_stack_len rs)"
proof -
  let ?n = "unat (rs_stack_len rs)"
  have n: "?n \<le> length (rs_stack rs)" "?n \<le> length (th_stack th)"
    using assms by (auto simp: state_ok_def blocks_ok_def)
  then obtain st where st: "blit (th_stack th) 0 (take ?n (rs_stack rs)) = Some st"
    by (auto simp: blit_def)
  have "length st = length (th_stack th)" using length_blit [OF st] .
  with n st assms show ?thesis
    by (auto simp: pop_state1_def slice_def here_ok_def blocks_ok_def state_ok_def)
qed

lemma pop_state_ok:
  assumes "state_ok bc L s rs" and "blocks_ok s th"
  shows "\<exists>th'. pop_state s rs th = Some th' \<and> here_ok s th' \<and> th_pc th' = rs_pc rs \<and>
    th_cptr th' = rs_cptr rs \<and> th_stack_len th' = unat (rs_stack_len rs)"
proof -
  let ?n = "2 * ex_capture_count s"
  have caps: "captures_ok s (rs_capture rs)" "captures_ok s (th_capture th)"
    using assms by (auto simp: state_ok_def blocks_ok_def)
  then have n: "?n \<le> length (rs_capture rs)" "?n \<le> length (th_capture th)"
    by (auto simp: captures_ok_def)
  then obtain cap where cap: "blit (th_capture th) 0 (take ?n (rs_capture rs)) = Some cap"
    by (auto simp: blit_def)
  have "blocks_ok s (th\<lparr>th_capture := cap\<rparr>)"
    using captures_ok_blit [OF caps cap] assms(2) by (simp add: blocks_ok_def)
  from pop_state1_ok [OF assms(1) this] n cap show ?thesis
    by (auto simp: pop_state_def slice_def)
qed

lemma drop_state_ok:
  assumes "stack_ok bc L s"
  shows "stack_ok bc L (drop_state s)" "same_run s (drop_state s)"
proof -
  show run: "same_run s (drop_state s)" by (simp add: same_run_def drop_state_def)
  show "stack_ok bc L (drop_state s)"
    using assms same_run_ok(5) [OF run] by (auto simp: stack_ok_def drop_state_def)
qed

lemma jump_okD:
  "jump_ok bc L q base h \<Longrightarrow> \<exists>val t. get_u32 bc q = Some val \<and> pc_add bc base val = Some t \<and> (t, h) \<in> L"
  by (auto simp: jump_ok_def split: option.splits)

lemma retry_greedy_ok:
  assumes s: "stack_ok bc L s" "0 < ex_state_stack_len s" and rs: "rs = ex_state_stack s ! (ex_state_stack_len s - 1)"
    and ty: "rs_type rs = RE_EXEC_STATE_GREEDY_QUANT" and th: "blocks_ok s th"
  shows "\<exists>s' th'. retry_greedy bc s rs th = Some (s', th') \<and> stack_ok bc L s' \<and> same_run s s' \<and> thread_ok L s th'"
proof -
  have st: "state_ok bc L s rs" using s rs by (auto simp: stack_ok_def)
  obtain th1 where th1: "pop_state s rs th = Some th1" "here_ok s th1" "th_pc th1 = rs_pc rs"
    "th_cptr th1 = rs_cptr rs" "th_stack_len th1 = unat (rs_stack_len rs)"
    using pop_state_ok [OF st th] by blast
  from st ty obtain n c where n: "get_u32 bc (rs_pc rs + 12) = Some n" "rs_count rs = Suc c"
    "prev_chars (unat n + c * unat n) (ex_cbuf_type s) (ex_cbuf s) (rs_cptr rs) 0 \<noteq> None"
    and j: "jump_ok bc L (rs_pc rs) (rs_pc rs + 16) (unat (rs_stack_len rs))"
    by (auto simp: state_ok_def greedy_ok_def gr0_conv_Suc)
  then obtain p where p: "prev_chars (unat n) (ex_cbuf_type s) (ex_cbuf s) (rs_cptr rs) 0 = Some p"
    "prev_chars (c * unat n) (ex_cbuf_type s) (ex_cbuf s) p 0 \<noteq> None"
    by (auto simp: prev_chars_add bind_Some_iff)
  have pos: "pos_ok (ex_cbuf_type s) (ex_cbuf s) p"
    using prev_chars_pos_ok [OF p(1)] st by (simp add: state_ok_def)
  obtain val t where t: "get_u32 bc (rs_pc rs) = Some val" "pc_add bc (rs_pc rs + 16) val = Some t"
    "(t, unat (rs_stack_len rs)) \<in> L" using jump_okD [OF j] by auto
  let ?rs = "rs\<lparr>rs_cptr := p, rs_count := c\<rparr>"
  let ?s = "s\<lparr>ex_state_stack := (ex_state_stack s)[ex_state_stack_len s - 1 := ?rs]\<rparr>"
  have len: "ex_state_stack_len s - 1 < length (ex_state_stack s)" using s by (auto simp: stack_ok_def)
  have "thread_ok L s (th1\<lparr>th_pc := t, th_cptr := p\<rparr>)"
    using th1 t pos by (auto simp: thread_ok_def here_ok_def blocks_ok_def)
  moreover have eq: "retry_greedy bc s rs th =
      Some (if c = 0 then drop_state ?s else ?s, th1\<lparr>th_pc := t, th_cptr := p\<rparr>)"
    using th1 n p t len by (simp add: retry_greedy_def ptr_back_def wr_def Let_def)
  moreover have run: "same_run s ?s" "same_run s (drop_state ?s)" by (simp_all add: same_run_def drop_state_def)
  moreover have "stack_ok bc L (if c = 0 then drop_state ?s else ?s)"
  proof (cases "c = 0")
    case True
    then show ?thesis using s same_run_ok(5) [OF run(2)]
      by (auto simp: stack_ok_def drop_state_def)
  next
    case False
    then have "state_ok bc L s ?rs"
      using st ty n p pos j by (auto simp: state_ok_def greedy_ok_def)
    then show ?thesis using s same_run_ok(5) [OF run(1)] False len
      by (auto simp: stack_ok_def nth_list_update)
  qed
  ultimately show ?thesis by auto
qed

definition unwind_ok :: "u8 list \<Rightarrow> (nat \<times> nat) set \<Rightarrow> REExecContext \<Rightarrow> unwind_result \<Rightarrow> bool" where
  "unwind_ok bc L s r =
     (case r of
        Finished ret s' th \<Rightarrow> stack_ok bc L s' \<and> same_run s s' \<and> blocks_ok s th
      | Resume s' th \<Rightarrow> stack_ok bc L s' \<and> same_run s s' \<and> thread_ok L s th)"

lemma unwind_safe:
  assumes "stack_ok bc L s" and "blocks_ok s th"
  shows "\<exists>r. unwind bc ret s th = Some r \<and> unwind_ok bc L s r"
  using assms
proof (induction bc ret s th rule: unwind.induct)
  case (1 bc ret s th)
  show ?case
  proof (cases "ex_state_stack_len s = 0")
    case True
    then show ?thesis using "1.prems" by (simp add: unwind.simps [of bc ret s th] unwind_ok_def)
  next
    case len: False
    define rs where "rs = ex_state_stack s ! (ex_state_stack_len s - 1)"
    have rd: "rd (ex_state_stack s) (ex_state_stack_len s - 1) = Some rs"
      using len "1.prems"(1) by (auto simp: rs_def rd_def stack_ok_def)
    have st: "state_ok bc L s rs" using len "1.prems"(1) by (auto simp: rs_def stack_ok_def)
    note drop = drop_state_ok [OF "1.prems"(1)]
    have resume: "\<exists>r. resume_at s m = Some r \<and> unwind_ok bc L s r"
      if "rs_type rs \<noteq> RE_EXEC_STATE_GREEDY_QUANT"
        "\<exists>th'. m = Some th' \<and> here_ok s th' \<and> th_pc th' = rs_pc rs \<and>
          th_cptr th' = rs_cptr rs \<and> th_stack_len th' = unat (rs_stack_len rs)" for m
      using that st drop by (auto simp: resume_at_def unwind_ok_def thread_ok_def state_ok_def)
    have again: "\<exists>r. unwind bc ret' (drop_state s) th = Some r \<and> unwind_ok bc L s r"
      if "\<exists>r. unwind bc ret' (drop_state s) th = Some r \<and> unwind_ok bc L (drop_state s) r" for ret'
      using that drop(2) same_run_ok [OF drop(2)] same_run_trans [OF drop(2)]
      by (fastforce simp: unwind_ok_def split: unwind_result.splits)
    have blocks: "blocks_ok (drop_state s) th" using "1.prems"(2) same_run_ok(2) [OF drop(2)] by simp
    have pop: "\<exists>th'. pop_state s rs th = Some th' \<and> here_ok s th' \<and> th_pc th' = rs_pc rs \<and>
        th_cptr th' = rs_cptr rs \<and> th_stack_len th' = unat (rs_stack_len rs)"
      by (rule pop_state_ok [OF st "1.prems"(2)])
    have pop1: "\<exists>th'. pop_state1 s rs th = Some th' \<and> here_ok s th' \<and> th_pc th' = rs_pc rs \<and>
        th_cptr th' = rs_cptr rs \<and> th_stack_len th' = unat (rs_stack_len rs)"
      by (rule pop_state1_ok [OF st "1.prems"(2)])
    have retry: "\<exists>s' th'. retry_greedy bc s rs th = Some (s', th') \<and> stack_ok bc L s' \<and> same_run s s' \<and> thread_ok L s th'"
      if "rs_type rs = RE_EXEC_STATE_GREEDY_QUANT"
      using retry_greedy_ok [OF "1.prems"(1) _ rs_def that "1.prems"(2)] len by simp
    note IH = "1.IH" [OF len rd]
    show ?thesis
    proof (cases "rs_type rs")
      case RE_EXEC_STATE_SPLIT
      then show ?thesis
        using len rd resume [OF _ pop] again [OF IH(1) [OF _ _ drop(1) blocks]]
        by (cases ret) (simp_all add: unwind.simps [of bc _ s th])
    next
      case RE_EXEC_STATE_GREEDY_QUANT
      have "\<exists>r. Option.bind (retry_greedy bc s rs th) (\<lambda>(s, th). Some (Resume s th)) = Some r \<and> unwind_ok bc L s r"
        using retry [OF RE_EXEC_STATE_GREEDY_QUANT] by (auto simp: unwind_ok_def)
      with RE_EXEC_STATE_GREEDY_QUANT show ?thesis
        using len rd again [OF IH(4) [OF _ _ drop(1) blocks]]
        by (cases ret) (simp_all add: unwind.simps [of bc _ s th])
    next
      case RE_EXEC_STATE_LOOKAHEAD
      then show ?thesis
        using len rd resume [OF _ pop1] again [OF IH(2) [OF _ _ drop(1) blocks]]
        by (cases ret) (simp_all add: unwind.simps [of bc _ s th])
    next
      case RE_EXEC_STATE_NEGATIVE_LOOKAHEAD
      then show ?thesis
        using len rd resume [OF _ pop] again [OF IH(3) [OF _ _ drop(1) blocks]]
        by (cases ret) (simp_all add: unwind.simps [of bc _ s th])
    qed
  qed
qed

section \<open>One instruction\<close>

definition op_size :: "REOPCodeEnum \<Rightarrow> nat" where
  "op_size opcode = (case map_of reopcode_info opcode of None \<Rightarrow> 0 | Some n \<Rightarrow> n)"

lemma reop_size: "reop b = Some (opcode, n) \<Longrightarrow> n = op_size opcode"
proof -
  assume "reop b = Some (opcode, n)"
  then have "(opcode, n) \<in> set reopcode_info" by (auto simp: reop_def rd_Some_iff in_set_conv_nth)
  then show ?thesis by (auto simp: reopcode_info_def op_size_def)
qed

lemma op_atD:
  assumes "op_at bc pos = Some (opcode, len)"
  shows "pos < length bc" "reop (bc ! pos) = Some (opcode, op_size opcode)"
    "opcode \<noteq> REOP_range \<Longrightarrow> opcode \<noteq> REOP_range32 \<Longrightarrow> len = op_size opcode"
    "opcode = REOP_range \<Longrightarrow> \<exists>n. get_u16 bc (pos + 1) = Some n \<and> len = 3 + unat n * 4"
    "opcode = REOP_range32 \<Longrightarrow> \<exists>n. get_u16 bc (pos + 1) = Some n \<and> len = 3 + unat n * 8"
proof -
  obtain b n where bn: "rd bc pos = Some b" "reop b = Some (opcode, n)"
    using assms by (auto simp: op_at_def bind_Some_iff split: if_splits)
  show "pos < length bc" "reop (bc ! pos) = Some (opcode, op_size opcode)"
    using bn reop_size [OF bn(2)] by (auto simp: rd_Some_iff)
  show "opcode \<noteq> REOP_range \<Longrightarrow> opcode \<noteq> REOP_range32 \<Longrightarrow> len = op_size opcode"
    "opcode = REOP_range \<Longrightarrow> \<exists>n. get_u16 bc (pos + 1) = Some n \<and> len = 3 + unat n * 4"
    "opcode = REOP_range32 \<Longrightarrow> \<exists>n. get_u16 bc (pos + 1) = Some n \<and> len = 3 + unat n * 8"
    using assms bn reop_size [OF bn(2)]
    by (auto simp: op_at_def bind_Some_iff op_size_def reopcode_info_def)
qed

definition op_result_ok :: "u8 list \<Rightarrow> (nat \<times> nat) set \<Rightarrow> REExecContext \<Rightarrow> op_result \<Rightarrow> bool" where
  "op_result_ok bc L s r =
     (case r of
        Op_next s' th \<Rightarrow> stack_ok bc L s' \<and> same_run s s' \<and> thread_ok L s th
      | Op_no_match th \<Rightarrow> blocks_ok s th
      | Op_match th \<Rightarrow> blocks_ok s th
      | Op_error s' th \<Rightarrow> blocks_ok s th
      | Op_quant th pc1 quant_min quant_max \<Rightarrow>
          thread_ok L s th \<and> 16 \<le> pc1 \<and> jump_ok bc L (pc1 - 16) pc1 (th_stack_len th) \<and>
          (\<exists>n. get_u32 bc (pc1 - 4) = Some n \<and> simple_body bc pc1 (unat n)))"

lemma canonicalize_total: "\<exists>c'. canonicalize_if s c = Some c'"
proof -
  have conv: "\<exists>res. lre_case_conv c t = Some res \<and> 0 < length res" if ge: "\<not> c < 128" for t
  proof -
    obtain res where "lre_case_conv c t = Some res" "length res \<in> {1, 2, 3}"
      using case_conv_search [OF ge, of t] unfolding conv_ok_def by blast
    then show ?thesis by (intro exI [of _ res]) auto
  qed
  show ?thesis
    using conv [of 0] conv [of 2]
    by (cases "c < 128") (auto simp: canonicalize_if_def lre_canonicalize_def)
qed

lemma match_char_ok:
  assumes "stack_ok bc L s" "subject_ok s" "thread_ok L s th" and test: "\<And>c. \<exists>b. test c = Some b"
  shows "\<exists>r. match_char s th test = Some r \<and> op_result_ok bc L s r"
proof (cases "th_cptr th \<ge> ex_cbuf_end s")
  case True
  with assms show ?thesis by (auto simp: match_char_def op_result_ok_def thread_ok_def here_ok_def)
next
  case False
  let ?ct = "ex_cbuf_type s" and ?buf = "ex_cbuf s"
  obtain c p' where c: "GET_CHAR ?ct ?buf (th_cptr th) (ex_cbuf_end s) = Some (c, p')" "pos_ok ?ct ?buf p'"
    using GET_CHAR_ok [of ?ct ?buf "th_cptr th" "ex_cbuf_end s"] assms False
    by (auto simp: subject_ok_def thread_ok_def here_ok_def pos_ok_def buf_ok_def)
  obtain c' where c': "canonicalize_if s c = Some c'" using canonicalize_total by blast
  obtain b where b: "test c' = Some b" using test by blast
  show ?thesis
    using False c c' b assms
    by (auto simp: match_char_def op_result_ok_def thread_ok_def here_ok_def blocks_ok_def)
qed

lemma match_any_ok:
  assumes "stack_ok bc L s" "subject_ok s" "thread_ok L s th"
  shows "\<exists>r. match_any s th test = Some r \<and> op_result_ok bc L s r"
proof (cases "th_cptr th = ex_cbuf_end s")
  case True
  with assms show ?thesis by (auto simp: match_any_def op_result_ok_def thread_ok_def here_ok_def)
next
  case False
  let ?ct = "ex_cbuf_type s" and ?buf = "ex_cbuf s"
  obtain c p' where c: "GET_CHAR ?ct ?buf (th_cptr th) (ex_cbuf_end s) = Some (c, p')" "pos_ok ?ct ?buf p'"
    using GET_CHAR_ok [of ?ct ?buf "th_cptr th" "ex_cbuf_end s"] assms False
    by (auto simp: subject_ok_def thread_ok_def here_ok_def pos_ok_def buf_ok_def)
  show ?thesis
    using False c assms
    by (auto simp: match_any_def op_result_ok_def thread_ok_def here_ok_def blocks_ok_def)
qed

lemma range_search_total:
  assumes "\<And>i. i \<le> hi \<Longrightarrow> \<exists>v. get bc (pc + i * (2 * w)) = Some v"
    and "\<And>i. i \<le> hi \<Longrightarrow> \<exists>v. get bc (pc + i * (2 * w) + w) = Some v"
    and "get bc pc = Some v0" "\<not> c < v0"
  shows "\<exists>b. range_search get w bc pc c lo hi = Some b"
  using assms
proof (induction get w bc pc c lo hi rule: range_search.induct)
  case (1 get w bc pc c lo hi)
  show ?case
  proof (cases "lo \<le> hi")
    case True
    define i where "i = (lo + hi) div 2"
    have i: "i \<le> hi" using True by (simp add: i_def)
    obtain a b where ab: "get bc (pc + i * (2 * w)) = Some a" "get bc (pc + i * (2 * w) + w) = Some b"
      using "1.prems"(1,2) [OF i] by blast
    note IH = "1.IH" [OF True i_def ab]
    have i0: "i \<noteq> 0" if "c < a" using that ab(1) "1.prems"(3,4) by (cases "i = 0") auto
    show ?thesis
    proof (cases "c < a")
      case lt: True
      have "\<exists>r. range_search get w bc pc c lo (i - 1) = Some r"
        using IH(1) [OF lt i0 [OF lt]] "1.prems" i by auto
      then show ?thesis
        using True ab lt i0 [OF lt] by (subst range_search.simps) (simp add: i_def)
    next
      case ge: False
      have "\<exists>r. range_search get w bc pc c (i + 1) hi = Some r" if "b < c"
        using IH(2) [OF ge that] "1.prems" by auto
      then show ?thesis
        using True ab ge by (subst range_search.simps) (auto simp: i_def)
    qed
  qed (auto simp: range_search.simps)
qed

lemma range_test_total:
  assumes "pc + n * 4 \<le> length bc" "0 < n"
  shows "\<exists>b. range_test bc pc n c = Some b"
proof -
  have i: "\<exists>v. get_u16 bc (pc + i * (2 * 2)) = Some v" "\<exists>v. get_u16 bc (pc + i * (2 * 2) + 2) = Some v"
    if "i \<le> n - 1" for i using that assms by (intro get_u16_total; linarith)+
  obtain v0 where v0: "get_u16 bc pc = Some v0" using i(1) [of 0] by auto
  have hi: "\<exists>v. get_u16 bc (pc + (n - 1) * 4 + 2) = Some v" using i(2) [of "n - 1"] by simp
  have "\<exists>b. range_search get_u16 2 bc pc c 0 (n - 1) = Some b" if "\<not> c < v0"
    by (rule range_search_total) (use i v0 that in auto)
  then show ?thesis using v0 hi assms(2) by (auto simp: range_test_def)
qed

lemma range32_test_total:
  assumes "pc + n * 8 \<le> length bc" "0 < n"
  shows "\<exists>b. range32_test bc pc n c = Some b"
proof -
  have i: "\<exists>v. get_u32 bc (pc + i * (2 * 4)) = Some v" "\<exists>v. get_u32 bc (pc + i * (2 * 4) + 4) = Some v"
    if "i \<le> n - 1" for i using that assms by (intro get_u32_total; linarith)+
  obtain v0 where v0: "get_u32 bc pc = Some v0" using i(1) [of 0] by auto
  have hi: "\<exists>v. get_u32 bc (pc + (n - 1) * 8 + 4) = Some v" using i(2) [of "n - 1"] by simp
  have "\<exists>b. range_search get_u32 4 bc pc c 0 (n - 1) = Some b" if "\<not> c < v0"
    by (rule range_search_total) (use i v0 that in auto)
  then show ?thesis using v0 hi assms(2) by (auto simp: range32_test_def)
qed

lemma same_char_total: "\<exists>b. same_char s c1 c2 = Some b"
  using canonicalize_total [of s c1] canonicalize_total [of s c2] by (auto simp: same_char_def)

lemma back_ref_loop_ok:
  assumes "subject_ok s" "pos_ok (ex_cbuf_type s) (ex_cbuf s) p1" "pos_ok (ex_cbuf_type s) (ex_cbuf s) e1"
    "pos_ok (ex_cbuf_type s) (ex_cbuf s) p"
  shows "\<exists>r. back_ref_loop s p1 e1 p = Some r \<and> (\<forall>q. r = Some q \<longrightarrow> pos_ok (ex_cbuf_type s) (ex_cbuf s) q)"
  using assms
proof (induction s p1 e1 p rule: back_ref_loop.induct)
  case (1 s p1 e1 p)
  let ?ct = "ex_cbuf_type s" and ?buf = "ex_cbuf s"
  show ?case
  proof (cases "p1 < e1 \<and> \<not> p \<ge> ex_cbuf_end s")
    case False
    then show ?thesis using "1.prems" by (subst back_ref_loop.simps) auto
  next
    case True
    have b: "buf_ok ?ct ?buf" and e: "ex_cbuf_end s = length ?buf" "pos_ok ?ct ?buf (ex_cbuf_end s)"
      using "1.prems"(1) by (auto simp: subject_ok_def pos_ok_def buf_ok_def)
    obtain c1 q1 where q1: "GET_CHAR ?ct ?buf p1 e1 = Some (c1, q1)" "pos_ok ?ct ?buf q1"
      using GET_CHAR_ok [OF b "1.prems"(2,3)] True by blast
    obtain c2 q where q: "GET_CHAR ?ct ?buf p (ex_cbuf_end s) = Some (c2, q)" "pos_ok ?ct ?buf q"
      using GET_CHAR_ok [OF b "1.prems"(4) e(2)] True by auto
    obtain eq where eq: "same_char s c1 c2 = Some eq" using same_char_total by blast
    have "eq \<Longrightarrow> \<exists>r. back_ref_loop s q1 e1 q = Some r \<and> (\<forall>q. r = Some q \<longrightarrow> pos_ok ?ct ?buf q)"
      using True "1.IH" [of "(c1, q1)" c1 q1 "(c2, q)" c2 q eq] q1 q eq "1.prems" by simp
    then show ?thesis using True q1 q eq by (subst back_ref_loop.simps) auto
  qed
qed

lemma backward_ref_loop_ok:
  assumes "subject_ok s" "pos_ok (ex_cbuf_type s) (ex_cbuf s) p1" "pos_ok (ex_cbuf_type s) (ex_cbuf s) s1"
    "pos_ok (ex_cbuf_type s) (ex_cbuf s) p"
  shows "\<exists>r. backward_ref_loop s p1 s1 p = Some r \<and> (\<forall>q. r = Some q \<longrightarrow> pos_ok (ex_cbuf_type s) (ex_cbuf s) q)"
  using assms
proof (induction s p1 s1 p rule: backward_ref_loop.induct)
  case (1 s p1 s1 p)
  let ?ct = "ex_cbuf_type s" and ?buf = "ex_cbuf s"
  show ?case
  proof (cases "p1 > s1 \<and> p \<noteq> 0")
    case False
    then show ?thesis using "1.prems" by (subst backward_ref_loop.simps) auto
  next
    case True
    have z: "pos_ok ?ct ?buf 0" by (simp add: pos_ok_def)
    obtain c1 q1 where q1: "GET_PREV_CHAR ?ct ?buf p1 s1 = Some (c1, q1)" "pos_ok ?ct ?buf q1"
      using prev_char_ok [OF "1.prems"(2,3)] True by blast
    obtain c2 q where q: "GET_PREV_CHAR ?ct ?buf p 0 = Some (c2, q)" "pos_ok ?ct ?buf q"
      using prev_char_ok [OF "1.prems"(4) z] True by auto
    obtain eq where eq: "same_char s c1 c2 = Some eq" using same_char_total by blast
    have "eq \<Longrightarrow> \<exists>r. backward_ref_loop s q1 s1 q = Some r \<and> (\<forall>q. r = Some q \<longrightarrow> pos_ok ?ct ?buf q)"
      using True "1.IH" [of "(c1, q1)" c1 q1 "(c2, q)" c2 q eq] q1 q eq "1.prems" by simp
    then show ?thesis using True q1 q eq by (subst backward_ref_loop.simps) auto
  qed
qed

lemma captures_ok_update:
  assumes "captures_ok s cap" and "capture_ok (ex_cbuf_type s) (ex_cbuf s) v"
  shows "captures_ok s (cap[i := v])"
  using assms by (cases "i < 2 * ex_capture_count s")
    (auto simp: captures_ok_def take_update_swap list_all_iff dest!: set_update_subset_insert [THEN subsetD])

lemma reset_captures_ok:
  "captures_ok s cap \<Longrightarrow> (0 < n \<longrightarrow> val + n \<le> ex_capture_count s) \<Longrightarrow>
     \<exists>cap'. reset_captures cap val n = Some cap' \<and> captures_ok s cap'"
proof (induction n arbitrary: cap val)
  case (Suc n)
  let ?c = "cap[2 * val := None, 2 * val + 1 := None]"
  have "captures_ok s ?c" using Suc.prems(1) by (intro captures_ok_update) (auto simp: capture_ok_def)
  moreover have "2 * val + 1 < length cap" using Suc.prems by (auto simp: captures_ok_def)
  ultimately show ?case using Suc.IH [of ?c "val + 1"] Suc.prems(2) by (simp add: wr_def)
qed simp

lemma captures_ok_nth:
  assumes "captures_ok s cap" and "i < 2 * ex_capture_count s"
  shows "rd cap i = Some (cap ! i)" "capture_ok (ex_cbuf_type s) (ex_cbuf s) (cap ! i)"
  using assms by (auto simp: captures_ok_def rd_def list_all_length)

lemma peek_ok:
  assumes "subject_ok s" "here_ok s th"
  shows "th_cptr th \<noteq> 0 \<Longrightarrow> \<exists>c. PEEK_PREV_CHAR (ex_cbuf_type s) (ex_cbuf s) (th_cptr th) 0 = Some c"
    "th_cptr th \<noteq> ex_cbuf_end s \<Longrightarrow>
       \<exists>c. PEEK_CHAR (ex_cbuf_type s) (ex_cbuf s) (th_cptr th) (ex_cbuf_end s) = Some c"
proof -
  have p: "pos_ok (ex_cbuf_type s) (ex_cbuf s) (th_cptr th)" using assms by (simp add: here_ok_def)
  show "th_cptr th \<noteq> 0 \<Longrightarrow> \<exists>c. PEEK_PREV_CHAR (ex_cbuf_type s) (ex_cbuf s) (th_cptr th) 0 = Some c"
    using prev_char_ok [OF p, of 0] by (auto simp: pos_ok_def)
  show "th_cptr th \<noteq> ex_cbuf_end s \<Longrightarrow>
       \<exists>c. PEEK_CHAR (ex_cbuf_type s) (ex_cbuf s) (th_cptr th) (ex_cbuf_end s) = Some c"
    using GET_CHAR_ok [of _ _ "th_cptr th" "ex_cbuf_end s", OF _ p] assms(1) p
    by (fastforce simp: PEEK_CHAR_eq subject_ok_def pos_ok_def buf_ok_def)
qed

lemma word_boundary_at_total:
  assumes "subject_ok s" "here_ok s th"
  shows "\<exists>b. word_boundary_at s (th_cptr th) = Some b"
  using peek_ok [OF assms] by (cases "th_cptr th = 0"; cases "th_cptr th \<ge> ex_cbuf_end s") (auto simp: word_boundary_at_def)

lemma save_and_go_ok:
  assumes "stack_ok bc L s" "subject_ok s" "here_ok s th" "th_stack_len th \<le> ex_stack_size_max s"
    and "type \<noteq> RE_EXEC_STATE_GREEDY_QUANT" and "(pc1, th_stack_len th) \<in> L" "(pc, th_stack_len th) \<in> L"
  shows "\<exists>r. save_and_go s th pc1 type pc = Some r \<and> op_result_ok bc L s r"
proof -
  obtain r s' where "push_state s th pc1 (th_cptr th) type 0 = Some (r, s')" "stack_ok bc L s'" "same_run s s'"
    using push_state_ok [OF assms(1-4), of "th_cptr th" type pc1 0] assms by (auto simp: here_ok_def)
  then show ?thesis using assms
    by (auto simp: save_and_go_def op_result_ok_def thread_ok_def here_ok_def blocks_ok_def)
qed

lemma code_okD:
  assumes "code_ok bc cc ss L" and "(pos, h) \<in> L"
  obtains opcode len where "h \<le> ss" "op_at bc pos = Some (opcode, len)" "pos + len \<le> length bc"
    "range_filled opcode len" "op_ok bc cc L pos h"
    "opcode \<notin> {REOP_match, REOP_goto, REOP_simple_greedy_quant} \<longrightarrow> (pos + len, next_height opcode h) \<in> L"
proof -
  have ok: "op_ok bc cc L pos h" "h \<le> ss" using assms by (auto simp: code_ok_def)
  then obtain opcode len where "op_at bc pos = Some (opcode, len)"
    by (auto simp: op_ok_def split: option.splits)
  with that [of opcode len] ok show thesis by (simp add: op_ok_def)
qed

lemma exec_op_safe:
  assumes ctx: "ctx_ok bc L s" and th: "thread_ok L s th"
  shows "\<exists>r. exec_op bc s th = Some r \<and> op_result_ok bc L s r"
proof -
  define pos where "pos = th_pc th"
  define h where "h = th_stack_len th"
  have sub: "subject_ok s" and st: "stack_ok bc L s" and code: "code_ok bc (ex_capture_count s) (ex_stack_size_max s) L"
    using ctx by (auto simp: ctx_ok_def)
  have here: "here_ok s th" and L: "(pos, h) \<in> L" using th by (auto simp: thread_ok_def pos_def h_def)
  have caps: "captures_ok s (th_capture th)" and blk: "blocks_ok s th" and cptr: "pos_ok (ex_cbuf_type s) (ex_cbuf s) (th_cptr th)"
    using here by (auto simp: here_ok_def blocks_ok_def)
  obtain opcode len where hs: "h \<le> ex_stack_size_max s" and op: "op_at bc pos = Some (opcode, len)"
    and fit: "pos + len \<le> length bc" and filled: "range_filled opcode len"
    and ok: "op_ok bc (ex_capture_count s) L pos h"
    and fall: "opcode \<notin> {REOP_match, REOP_goto, REOP_simple_greedy_quant} \<longrightarrow> (pos + len, next_height opcode h) \<in> L"
    by (rule code_okD [OF code L])
  note d = op_atD [OF op]
  have rd: "rd bc pos = Some (bc ! pos)" using d(1) by simp
  have move: "thread_ok L s (th\<lparr>th_pc := q\<rparr>)" if "(q, h) \<in> L" for q
    using that here by (simp add: thread_ok_def h_def here_ok_def blocks_ok_def)
  have next_ok: "op_result_ok bc L s (Op_next s (th\<lparr>th_pc := q\<rparr>))" if "(q, h) \<in> L" for q
    using move [OF that] st by (simp add: op_result_ok_def)
  have go: "op_result_ok bc L s (go_if s (th\<lparr>th_pc := q\<rparr>) b)" if "(q, h) \<in> L" for q b
    using move [OF that] st blk by (simp add: op_result_ok_def go_if_def blocks_ok_def)
  have nomatch: "op_result_ok bc L s (Op_no_match th)" using blk by (simp add: op_result_ok_def)
  have jump: "\<exists>val t. get_u32 bc (pos + 1) = Some val \<and> pc_add bc (pos + 1 + 4) val = Some t \<and> (t, h') \<in> L"
    if "jump_ok bc L (pos + 1) (pos + 5) h'" for h' using jump_okD [OF that] by (simp add: add.commute)
  have cap1: "captures_ok s ((th_capture th)[i := Some (th_cptr th)])" for i
    using captures_ok_update [OF caps] cptr by (simp add: capture_ok_def)
  have stk: "length (th_stack th) = ex_stack_size_max s" using blk by (simp add: blocks_ok_def)
  have saved: "\<exists>r. save_and_go s th pc1 type q = Some r \<and> op_result_ok bc L s r"
    if "type \<noteq> RE_EXEC_STATE_GREEDY_QUANT" "(pc1, h) \<in> L" "(q, h) \<in> L" for pc1 type q
    using save_and_go_ok [OF st sub here] hs that by (simp add: h_def)
  note peek = peek_ok [OF sub here]
  note simps = exec_op_def rd [unfolded pos_def] Let_def op_ok_def op_size_def reopcode_info_def
    pos_def [symmetric] h_def [symmetric] next_height_def
  show ?thesis
  proof (cases opcode)
    case REOP_invalid
    then show ?thesis using ok op by (simp add: op_ok_def)
  next
    case REOP_match
    then show ?thesis using d blk by (simp add: simps op_result_ok_def)
  next
    case REOP_char
    then obtain v where "get_u16 bc (pos + 1) = Some v" "(pos + 1 + 2, h) \<in> L"
      using get_u16_total [of "pos + 1" bc] fit fall d by (auto simp: simps numeral_eq_Suc)
    with REOP_char show ?thesis using match_char_ok [OF st sub move] d by (simp add: simps)
  next
    case REOP_char32
    then obtain v where "get_u32 bc (pos + 1) = Some v" "(pos + 1 + 4, h) \<in> L"
      using get_u32_total [of "pos + 1" bc] fit fall d by (auto simp: simps numeral_eq_Suc)
    with REOP_char32 show ?thesis using match_char_ok [OF st sub move] d by (simp add: simps)
  next
    case REOP_dot
    then show ?thesis using match_any_ok [OF st sub move] d fall by (simp add: simps)
  next
    case REOP_any
    then show ?thesis using match_any_ok [OF st sub move] d fall by (simp add: simps)
  next
    case REOP_line_start
    then have "(pos + 1, h) \<in> L" using d fall by (simp add: simps)
    with REOP_line_start show ?thesis using d next_ok go nomatch peek(1) by (auto simp: simps)
  next
    case REOP_line_end
    then have "(pos + 1, h) \<in> L" using d fall by (simp add: simps)
    with REOP_line_end show ?thesis using d next_ok go nomatch peek(2) by (auto simp: simps)
  next
    case REOP_goto
    then have "jump_ok bc L (pos + 1) (pos + 5) h" using ok op by (simp add: op_ok_def)
    from jump [OF this] REOP_goto show ?thesis using d next_ok by (auto simp: simps)
  next
    case REOP_split_goto_first
    then have "jump_ok bc L (pos + 1) (pos + 5) h" "(pos + 1 + 4, h) \<in> L"
      using ok op fall d by (simp_all add: simps numeral_eq_Suc)
    with jump REOP_split_goto_first show ?thesis using d saved [of RE_EXEC_STATE_SPLIT] by (fastforce simp: simps)
  next
    case REOP_split_next_first
    then have "jump_ok bc L (pos + 1) (pos + 5) h" "(pos + 1 + 4, h) \<in> L"
      using ok op fall d by (simp_all add: simps numeral_eq_Suc)
    with jump REOP_split_next_first show ?thesis using d saved [of RE_EXEC_STATE_SPLIT] by (fastforce simp: simps)
  next
    case REOP_lookahead
    then have "jump_ok bc L (pos + 1) (pos + 5) h" "(pos + 1 + 4, h) \<in> L"
      using ok op fall d by (simp_all add: simps numeral_eq_Suc)
    with jump REOP_lookahead show ?thesis using d saved [of RE_EXEC_STATE_LOOKAHEAD] by (fastforce simp: simps)
  next
    case REOP_negative_lookahead
    then have "jump_ok bc L (pos + 1) (pos + 5) h" "(pos + 1 + 4, h) \<in> L"
      using ok op fall d by (simp_all add: simps numeral_eq_Suc)
    with jump REOP_negative_lookahead show ?thesis
      using d saved [of RE_EXEC_STATE_NEGATIVE_LOOKAHEAD] by (fastforce simp: simps)
  next
    case REOP_save_start
    then have v: "unat (bc ! (pos + 1)) < ex_capture_count s" "(pos + 1 + 1, h) \<in> L" "pos + 1 < length bc"
      using ok op fall d fit by (simp_all add: simps numeral_eq_Suc)
    then have "2 * unat (bc ! (pos + 1)) < length (th_capture th)" using caps by (simp add: captures_ok_def)
    with REOP_save_start v show ?thesis
      using d st here cap1 by (simp add: simps wr_def op_result_ok_def thread_ok_def here_ok_def blocks_ok_def)
  next
    case REOP_save_end
    then have v: "unat (bc ! (pos + 1)) < ex_capture_count s" "(pos + 1 + 1, h) \<in> L" "pos + 1 < length bc"
      using ok op fall d fit by (simp_all add: simps numeral_eq_Suc)
    then have "2 * unat (bc ! (pos + 1)) + 1 < length (th_capture th)" using caps by (simp add: captures_ok_def)
    with REOP_save_end v show ?thesis
      using d st here cap1 by (simp add: simps wr_def op_result_ok_def thread_ok_def here_ok_def blocks_ok_def)
  next
    case REOP_save_reset
    then have v: "unat (bc ! (pos + 2)) < ex_capture_count s" "(pos + 1 + 2, h) \<in> L" "pos + 2 < length bc"
      using ok op fall d fit by (simp_all add: simps numeral_eq_Suc)
    then obtain cap where "reset_captures (th_capture th) (unat (bc ! (pos + 1)))
        (Suc (unat (bc ! (pos + 2))) - unat (bc ! (pos + 1))) = Some cap" "captures_ok s cap"
      using reset_captures_ok [OF caps, of "Suc (unat (bc ! (pos + 2))) - unat (bc ! (pos + 1))" "unat (bc ! (pos + 1))"]
      by auto
    with REOP_save_reset v show ?thesis
      using d st here by (simp add: simps op_result_ok_def thread_ok_def here_ok_def blocks_ok_def)
  next
    case REOP_loop
    then have v: "0 < h" "jump_ok bc L (pos + 1) (pos + 5) h" "(pos + 1 + 4, h) \<in> L"
      using ok op fall d by (simp_all add: simps numeral_eq_Suc)
    with jump obtain val t where t: "get_u32 bc (pos + 1) = Some val" "pc_add bc (pos + 1 + 4) val = Some t" "(t, h) \<in> L"
      by blast
    have "h - 1 < length (th_stack th)" using v hs stk by simp
    with REOP_loop v t show ?thesis
      using d st here by (auto simp: simps ptr_back_def wr_def op_result_ok_def thread_ok_def here_ok_def blocks_ok_def)
  next
    case REOP_push_i32
    then have v2: "(pos + 1 + 4, h + 1) \<in> L"
      using ok op fall d by (simp_all add: simps numeral_eq_Suc)
    then have v: "h < ex_stack_size_max s" "(pos + 1 + 4, h + 1) \<in> L" using code by (auto simp: code_ok_def)
    obtain val where "get_u32 bc (pos + 1) = Some val"
      using get_u32_total [of "pos + 1" bc] fit d REOP_push_i32 by (auto simp: simps)
    with REOP_push_i32 v show ?thesis
      using d st here stk by (simp add: simps push_counter_def wr_def op_result_ok_def thread_ok_def here_ok_def blocks_ok_def)
  next
    case REOP_drop
    then have "0 < h" "(pos + 1, h - 1) \<in> L" using ok op fall d by (simp_all add: simps numeral_eq_Suc)
    with REOP_drop show ?thesis
      using d st here by (simp add: simps ptr_back_def op_result_ok_def thread_ok_def here_ok_def blocks_ok_def)
  next
    case REOP_word_boundary
    then have "(pos + 1, h) \<in> L" using d fall by (simp add: simps)
    with REOP_word_boundary show ?thesis using d go word_boundary_at_total [OF sub here] by (auto simp: simps)
  next
    case REOP_not_word_boundary
    then have "(pos + 1, h) \<in> L" using d fall by (simp add: simps)
    with REOP_not_word_boundary show ?thesis using d go word_boundary_at_total [OF sub here] by (auto simp: simps)
  next
    case REOP_push_char_pos
    then have v2: "(pos + 1, h + 1) \<in> L"
      using ok op fall d by (simp_all add: simps numeral_eq_Suc)
    then have v: "h < ex_stack_size_max s" "(pos + 1, h + 1) \<in> L" using code by (auto simp: code_ok_def)
    with REOP_push_char_pos show ?thesis
      using d st here stk by (simp add: simps push_counter_def wr_def op_result_ok_def thread_ok_def here_ok_def blocks_ok_def)
  next
    case REOP_bne_char_pos
    then have v: "0 < h" "jump_ok bc L (pos + 1) (pos + 5) (h - 1)" "(pos + 1 + 4, h - 1) \<in> L"
      using ok op fall d by (simp_all add: simps numeral_eq_Suc)
    with jump obtain val t where t: "get_u32 bc (pos + 1) = Some val" "pc_add bc (pos + 1 + 4) val = Some t" "(t, h - 1) \<in> L"
      by blast
    have "h - 1 < length (th_stack th)" using v hs stk by simp
    with REOP_bne_char_pos v t show ?thesis
      using d st here by (auto simp: simps ptr_back_def op_result_ok_def thread_ok_def here_ok_def blocks_ok_def)
  next
    case REOP_range
    then obtain n where n: "get_u16 bc (pos + 1) = Some n" "len = 3 + unat n * 4" using d by auto
    then have v: "0 < unat n" "(pos + 1 + 2 + 4 * unat n, h) \<in> L" "pos + 1 + 2 + unat n * 4 \<le> length bc"
      using filled fall fit REOP_range by (auto simp: range_filled_def simps add.assoc mult.commute numeral_eq_Suc)
    from match_char_ok [OF st sub move [OF v(2)] range_test_total [OF v(3,1)]] REOP_range n show ?thesis
      using d by (simp add: simps)
  next
    case REOP_range32
    then obtain n where n: "get_u16 bc (pos + 1) = Some n" "len = 3 + unat n * 8" using d by auto
    then have v: "0 < unat n" "(pos + 1 + 2 + 8 * unat n, h) \<in> L" "pos + 1 + 2 + unat n * 8 \<le> length bc"
      using filled fall fit REOP_range32 by (auto simp: range_filled_def simps add.assoc mult.commute numeral_eq_Suc)
    from match_char_ok [OF st sub move [OF v(2)] range32_test_total [OF v(3,1)]] REOP_range32 n show ?thesis
      using d by (simp add: simps)
  next
    case REOP_back_reference
    define v where "v = unat (bc ! (pos + 1))"
    have v: "(pos + 1 + 1, h) \<in> L" "pos + 1 < length bc"
      using REOP_back_reference fall d fit by (simp_all add: simps numeral_eq_Suc)
    have cs: "rd (th_capture th) (2 * v) = Some (th_capture th ! (2 * v))"
      "rd (th_capture th) (2 * v + 1) = Some (th_capture th ! (2 * v + 1))"
      "capture_ok (ex_cbuf_type s) (ex_cbuf s) (th_capture th ! (2 * v))"
      "capture_ok (ex_cbuf_type s) (ex_cbuf s) (th_capture th ! (2 * v + 1))"
      if "v < ex_capture_count s"
      using that captures_ok_nth [OF caps, of "2 * v"] captures_ok_nth [OF caps, of "2 * v + 1"] by auto
    have br: "\<exists>r. back_ref_loop s a b (th_cptr th) = Some r \<and>
        (\<forall>q. r = Some q \<longrightarrow> pos_ok (ex_cbuf_type s) (ex_cbuf s) q)"
      if "th_capture th ! (2 * v) = Some a" "th_capture th ! (2 * v + 1) = Some b" "v < ex_capture_count s" for a b
      using that cs(3,4) cptr by (intro back_ref_loop_ok [OF sub]) (auto simp: capture_ok_def)
    show ?thesis
    proof (cases "v < ex_capture_count s \<and> th_capture th ! (2 * v) \<noteq> None \<and> th_capture th ! (2 * v + 1) \<noteq> None")
      case True
      then obtain a b where ab: "th_capture th ! (2 * v) = Some a" "th_capture th ! (2 * v + 1) = Some b" by auto
      with True br cs(1,2) v d REOP_back_reference st here nomatch show ?thesis
        by (fastforce simp: simps v_def [symmetric, simplified] op_result_ok_def thread_ok_def here_ok_def blocks_ok_def split: option.splits)
    next
      case False
      with cs(1,2) v d REOP_back_reference next_ok [OF v(1)] nomatch show ?thesis
        by (auto simp: simps v_def [symmetric, simplified] split: option.splits)
    qed
  next
    case REOP_backward_back_reference
    define v where "v = unat (bc ! (pos + 1))"
    have v: "(pos + 1 + 1, h) \<in> L" "pos + 1 < length bc"
      using REOP_backward_back_reference fall d fit by (simp_all add: simps numeral_eq_Suc)
    have cs: "rd (th_capture th) (2 * v) = Some (th_capture th ! (2 * v))"
      "rd (th_capture th) (2 * v + 1) = Some (th_capture th ! (2 * v + 1))"
      "capture_ok (ex_cbuf_type s) (ex_cbuf s) (th_capture th ! (2 * v))"
      "capture_ok (ex_cbuf_type s) (ex_cbuf s) (th_capture th ! (2 * v + 1))"
      if "v < ex_capture_count s"
      using that captures_ok_nth [OF caps, of "2 * v"] captures_ok_nth [OF caps, of "2 * v + 1"] by auto
    have br: "\<exists>r. backward_ref_loop s b a (th_cptr th) = Some r \<and>
        (\<forall>q. r = Some q \<longrightarrow> pos_ok (ex_cbuf_type s) (ex_cbuf s) q)"
      if "th_capture th ! (2 * v) = Some a" "th_capture th ! (2 * v + 1) = Some b" "v < ex_capture_count s" for a b
      using that cs(3,4) cptr by (intro backward_ref_loop_ok [OF sub]) (auto simp: capture_ok_def)
    show ?thesis
    proof (cases "v < ex_capture_count s \<and> th_capture th ! (2 * v) \<noteq> None \<and> th_capture th ! (2 * v + 1) \<noteq> None")
      case True
      then obtain a b where ab: "th_capture th ! (2 * v) = Some a" "th_capture th ! (2 * v + 1) = Some b" by auto
      with True br cs(1,2) v d REOP_backward_back_reference st here nomatch show ?thesis
        by (fastforce simp: simps v_def [symmetric, simplified] op_result_ok_def thread_ok_def here_ok_def blocks_ok_def split: option.splits)
    next
      case False
      with cs(1,2) v d REOP_backward_back_reference next_ok [OF v(1)] nomatch show ?thesis
        by (auto simp: simps v_def [symmetric, simplified] split: option.splits)
    qed
  next
    case REOP_prev
    then have "(pos + 1, h) \<in> L" using d fall by (simp add: simps)
    moreover have "\<exists>p. PREV_CHAR (ex_cbuf_type s) (ex_cbuf s) (th_cptr th) 0 = Some p \<and>
      pos_ok (ex_cbuf_type s) (ex_cbuf s) p" if "th_cptr th \<noteq> 0"
      using prev_char_ok [OF cptr, of 0] that by (auto simp: pos_ok_def)
    ultimately show ?thesis using REOP_prev d nomatch st here
      by (auto simp: simps op_result_ok_def thread_ok_def here_ok_def blocks_ok_def)
  next
    case REOP_simple_greedy_quant
    then have j: "jump_ok bc L (pos + 1) (pos + 17) h" using ok op by (simp add: op_ok_def)
    obtain n where n: "get_u32 bc (pos + 13) = Some n" "simple_body bc (pos + 17) (unat n)"
      using ok op REOP_simple_greedy_quant by (auto simp: op_ok_def split: option.splits)
    have len: "len = 17" using d REOP_simple_greedy_quant by (simp add: op_size_def reopcode_info_def)
    obtain q1 q2 where q: "get_u32 bc (pos + 1 + 4) = Some q1" "get_u32 bc (pos + 1 + 8) = Some q2"
      using get_u32_total [of "pos + 1 + 4" bc] get_u32_total [of "pos + 1 + 8" bc] fit len by auto
    obtain val t where t: "get_u32 bc (pos + 1) = Some val" "pc_add bc (pos + 1 + 16) val = Some t" "(t, h) \<in> L"
      using jump_okD [OF j] by (auto simp: add.commute)
    have "exec_op bc s th = Some (Op_quant (th\<lparr>th_pc := t\<rparr>) (pos + 1 + 16) q1 q2)"
      using d rd t q REOP_simple_greedy_quant
      by (simp add: exec_op_def Let_def pos_def [symmetric] del: add_Suc_right One_nat_def)
    moreover have "op_result_ok bc L s (Op_quant (th\<lparr>th_pc := t\<rparr>) (pos + 17) q1 q2)"
    proof -
      have e: "pos + 17 - 16 = pos + 1" "pos + 17 - 4 = pos + 13" by simp_all
      show ?thesis unfolding op_result_ok_def op_result.case e
        using move [OF t(3)] j n by (auto simp: h_def)
    qed
    ultimately show ?thesis by (auto simp: add.commute)
  qed
qed

section \<open>Bodies of simple quantifiers\<close>

text \<open>
  Running the body of a simple quantifier ends, changes nothing but the position, and a match has
  read exactly as many characters as the quantifier records.
\<close>

definition body_result ::
  "nat \<Rightarrow> REExecContext \<Rightarrow> thread \<Rightarrow> (exec_ret \<times> REExecContext \<times> thread) outcome \<Rightarrow> bool" where
  "body_result n s th r \<longleftrightarrow> (\<exists>res th'. r = Ret (res, s, th') \<and>
     th_capture th' = th_capture th \<and> th_stack th' = th_stack th \<and>
     (res = R_no_match \<or> (\<exists>p. res = R_match p \<and> gets n (ex_cbuf_type s) (ex_cbuf s) (th_cptr th) p)))"

text \<open>What one instruction of a body does: it fails, or goes on \<open>k\<close> characters further.\<close>

definition body_step :: "nat \<Rightarrow> nat \<Rightarrow> REExecContext \<Rightarrow> thread \<Rightarrow> op_result option \<Rightarrow> bool" where
  "body_step k q s th r \<longleftrightarrow>
     (\<exists>th'. th_capture th' = th_capture th \<and> th_stack th' = th_stack th \<and>
        (r = Some (Op_no_match th') \<or>
         r = Some (Op_next s th') \<and> th_pc th' = q \<and> gets k (ex_cbuf_type s) (ex_cbuf s) (th_cptr th) (th_cptr th')))"

lemma match_char_step:
  assumes "subject_ok s" "pos_ok (ex_cbuf_type s) (ex_cbuf s) (th_cptr th)" and "\<And>c. \<exists>b. test c = Some b"
  shows "body_step 1 q s th (match_char s (th\<lparr>th_pc := q\<rparr>) test)"
proof (cases "th_cptr th \<ge> ex_cbuf_end s")
  case True
  then show ?thesis by (auto simp: match_char_def body_step_def intro!: exI [of _ "th\<lparr>th_pc := q\<rparr>"])
next
  case False
  let ?ct = "ex_cbuf_type s" and ?buf = "ex_cbuf s"
  obtain c p' where c: "GET_CHAR ?ct ?buf (th_cptr th) (length ?buf) = Some (c, p')"
    using GET_CHAR_ok [of ?ct ?buf "th_cptr th" "length ?buf"] assms False
    by (auto simp: subject_ok_def pos_ok_def buf_ok_def)
  obtain c' where c': "canonicalize_if s c = Some c'" using canonicalize_total by blast
  obtain b where b: "test c' = Some b" using assms(3) by blast
  show ?thesis
    using False c c' b assms(1)
    by (auto simp: match_char_def body_step_def subject_ok_def intro!: exI [of _ "th\<lparr>th_pc := q, th_cptr := p'\<rparr>"])
qed

lemma match_any_step:
  assumes "subject_ok s" "pos_ok (ex_cbuf_type s) (ex_cbuf s) (th_cptr th)"
  shows "body_step 1 q s th (match_any s (th\<lparr>th_pc := q\<rparr>) test)"
proof (cases "th_cptr th = ex_cbuf_end s")
  case True
  then show ?thesis by (auto simp: match_any_def body_step_def intro!: exI [of _ "th\<lparr>th_pc := q\<rparr>"])
next
  case False
  let ?ct = "ex_cbuf_type s" and ?buf = "ex_cbuf s"
  obtain c p' where c: "GET_CHAR ?ct ?buf (th_cptr th) (length ?buf) = Some (c, p')"
    using GET_CHAR_ok [of ?ct ?buf "th_cptr th" "length ?buf"] assms False
    by (auto simp: subject_ok_def pos_ok_def buf_ok_def)
  show ?thesis
    using False c assms(1)
    by (auto simp: match_any_def body_step_def subject_ok_def intro!: exI [of _ "th\<lparr>th_pc := q, th_cptr := p'\<rparr>"])
qed

lemma go_if_step: "body_step 0 q s th (Some (go_if s (th\<lparr>th_pc := q\<rparr>) b))"
  by (auto simp: body_step_def go_if_def intro!: exI [of _ "th\<lparr>th_pc := q\<rparr>"])

lemma simple_bodyD:
  assumes "simple_body bc pos n"
  obtains opcode len where "op_at bc pos = Some (opcode, len)" "pos + len \<le> length bc" "range_filled opcode len"
    "opcode = REOP_match \<and> n = 0 \<or>
     is_simple_char opcode \<and> 0 < n \<and> simple_body bc (pos + len) (n - 1) \<or>
     is_assertion opcode \<and> simple_body bc (pos + len) n"
proof -
  obtain opcode len where op: "op_at bc pos = Some (opcode, len)"
    using assms by (subst (asm) simple_body.simps) (auto split: option.splits)
  then show thesis using assms that [OF op]
    by (subst (asm) simple_body.simps) (auto split: if_splits)
qed

lemma simple_char_step:
  assumes sub: "subject_ok s" and here: "here_ok s th" and op: "op_at bc (th_pc th) = Some (opcode, len)"
    and fit: "th_pc th + len \<le> length bc" and filled: "range_filled opcode len" and c: "is_simple_char opcode"
  shows "body_step 1 (th_pc th + len) s th (exec_op bc s th)"
proof -
  let ?pos = "th_pc th"
  note d = op_atD [OF op]
  have p: "pos_ok (ex_cbuf_type s) (ex_cbuf s) (th_cptr th)" using here by (simp add: here_ok_def)
  note step = match_char_step [OF sub p] match_any_step [OF sub p]
  note simps = exec_op_def Let_def op_size_def reopcode_info_def
  show ?thesis
  proof (cases opcode)
    case REOP_char
    then have len: "len = 3" using d by (simp add: simps)
    then obtain v where "get_u16 bc (?pos + 1) = Some v" using get_u16_total [of "?pos + 1" bc] fit by auto
    with REOP_char len show ?thesis using step(1) [of "\<lambda>c. Some (v = c)" "?pos + 1 + 2"] d
      by (simp add: simps numeral_3_eq_3)
  next
    case REOP_char32
    then have len: "len = 1 + 4" using d by (simp add: simps)
    then obtain v where "get_u32 bc (?pos + 1) = Some v" using get_u32_total [of "?pos + 1" bc] fit by auto
    with REOP_char32 len show ?thesis using step(1) [of "\<lambda>c. Some (v = c)" "?pos + 1 + 4"] d
      by (simp add: simps add.commute)
  next
    case REOP_dot
    then show ?thesis using step(2) [of "?pos + 1"] d by (simp add: simps)
  next
    case REOP_any
    then show ?thesis using step(2) [of "?pos + 1"] d by (simp add: simps)
  next
    case REOP_range
    then obtain n where n: "get_u16 bc (?pos + 1) = Some n" "len = 3 + unat n * 4" using d by auto
    then have v: "0 < unat n" "?pos + 1 + 2 + unat n * 4 \<le> length bc" "?pos + len = ?pos + 1 + 2 + 4 * unat n"
      using filled fit REOP_range by (auto simp: range_filled_def)
    from step(1) [OF range_test_total [OF v(2,1)], of "?pos + 1 + 2 + 4 * unat n"] REOP_range n d show ?thesis
      unfolding v(3) by (simp add: simps)
  next
    case REOP_range32
    then obtain n where n: "get_u16 bc (?pos + 1) = Some n" "len = 3 + unat n * 8" using d by auto
    then have v: "0 < unat n" "?pos + 1 + 2 + unat n * 8 \<le> length bc" "?pos + len = ?pos + 1 + 2 + 8 * unat n"
      using filled fit REOP_range32 by (auto simp: range_filled_def)
    from step(1) [OF range32_test_total [OF v(2,1)], of "?pos + 1 + 2 + 8 * unat n"] REOP_range32 n d show ?thesis
      unfolding v(3) by (simp add: simps)
  qed (use c in auto)
qed

lemma assertion_step:
  assumes sub: "subject_ok s" and here: "here_ok s th" and op: "op_at bc (th_pc th) = Some (opcode, len)"
    and a: "is_assertion opcode"
  shows "body_step 0 (th_pc th + len) s th (exec_op bc s th)"
proof -
  note d = op_atD [OF op]
  note peek = peek_ok [OF sub here]
  have len: "len = 1" using d a by (auto simp: is_assertion_def op_size_def reopcode_info_def)
  have nm: "body_step 0 q s th (Some (Op_no_match th))" for q by (auto simp: body_step_def)
  have nx: "body_step 0 (Suc (th_pc th)) s th (Some (Op_next s (th\<lparr>th_pc := Suc (th_pc th)\<rparr>)))"
    by (auto simp: body_step_def)
  note gi = go_if_step [of "Suc (th_pc th)" s th]
  obtain b where b: "word_boundary_at s (th_cptr th) = Some b" using word_boundary_at_total [OF sub here] by blast
  from a consider "opcode = REOP_line_start" | "opcode = REOP_line_end" | "opcode = REOP_word_boundary"
    | "opcode = REOP_not_word_boundary" by (auto simp: is_assertion_def)
  then show ?thesis
    by cases (use d(1,2) len nm nx gi b peek in \<open>auto simp: exec_op_def Let_def\<close>)
qed

lemma body_run:
  assumes sub: "subject_ok s"
  shows "here_ok s th \<Longrightarrow> simple_body bc (th_pc th) n \<Longrightarrow>
    lre_exec_backtrack fuel bc s th True = Timeout \<and> fuel \<le> length bc - th_pc th \<or>
    body_result n s th (lre_exec_backtrack fuel bc s th True)"
proof (induction fuel arbitrary: th n)
  case (Suc fuel)
  obtain opcode len where op: "op_at bc (th_pc th) = Some (opcode, len)" and fit: "th_pc th + len \<le> length bc"
    and filled: "range_filled opcode len"
    and alt: "opcode = REOP_match \<and> n = 0 \<or>
     is_simple_char opcode \<and> 0 < n \<and> simple_body bc (th_pc th + len) (n - 1) \<or>
     is_assertion opcode \<and> simple_body bc (th_pc th + len) n"
    by (rule simple_bodyD [OF Suc.prems(2)])
  note d = op_atD [OF op]
  have len: "0 < len" using op_at_pos [OF op] by simp
  have step: ?case if k: "body_step k (th_pc th + len) s th (exec_op bc s th)"
    and b: "simple_body bc (th_pc th + len) (n - k)" "k \<le> n" for k
  proof -
    from k obtain th' where th': "th_capture th' = th_capture th" "th_stack th' = th_stack th"
      and r: "exec_op bc s th = Some (Op_no_match th') \<or> exec_op bc s th = Some (Op_next s th') \<and>
        th_pc th' = th_pc th + len \<and> gets k (ex_cbuf_type s) (ex_cbuf s) (th_cptr th) (th_cptr th')"
      by (auto simp: body_step_def)
    from r show ?thesis
    proof
      assume "exec_op bc s th = Some (Op_no_match th')"
      then show ?thesis using th' by (simp add: body_result_def)
    next
      assume e: "exec_op bc s th = Some (Op_next s th') \<and> th_pc th' = th_pc th + len \<and>
        gets k (ex_cbuf_type s) (ex_cbuf s) (th_cptr th) (th_cptr th')"
      have "here_ok s th'"
        using Suc.prems(1) th' e gets_pos_ok [of k "ex_cbuf_type s" "ex_cbuf s" "th_cptr th" "th_cptr th'"] sub
        by (auto simp: here_ok_def blocks_ok_def subject_ok_def)
      from Suc.IH [OF this, of "n - k"] b e consider
        "lre_exec_backtrack fuel bc s th' True = Timeout" "fuel \<le> length bc - th_pc th'"
        | "body_result (n - k) s th' (lre_exec_backtrack fuel bc s th' True)" by auto
      then show ?thesis
      proof cases
        case 1
        then have "Suc fuel \<le> length bc - th_pc th" using e fit len by linarith
        then show ?thesis using 1 e by simp
      next
        case 2
        then obtain res t where t: "lre_exec_backtrack fuel bc s th' True = Ret (res, s, t)"
          "th_capture t = th_capture th" "th_stack t = th_stack th"
          "res = R_no_match \<or> (\<exists>p. res = R_match p \<and> gets (n - k) (ex_cbuf_type s) (ex_cbuf s) (th_cptr th') p)"
          using th' by (auto simp: body_result_def)
        have "gets n (ex_cbuf_type s) (ex_cbuf s) (th_cptr th) p"
          if "gets (n - k) (ex_cbuf_type s) (ex_cbuf s) (th_cptr th') p" for p
          using gets_append [OF conjunct2 [OF conjunct2 [OF e]] that] b(2) by simp
        then show ?thesis using t e by (auto simp: body_result_def)
      qed
    qed
  qed
  from alt show ?case
  proof (elim disjE conjE)
    assume "opcode = REOP_match" "n = 0"
    then show ?thesis using d by (simp add: exec_op_def body_result_def)
  next
    assume "is_simple_char opcode" "0 < n" "simple_body bc (th_pc th + len) (n - 1)"
    then show ?thesis using step [OF simple_char_step [OF sub Suc.prems(1) op fit filled]] by simp
  next
    assume "is_assertion opcode" "simple_body bc (th_pc th + len) n"
    then show ?thesis using step [OF assertion_step [OF sub Suc.prems(1) op]] by simp
  qed
qed simp

definition greedy_result ::
  "nat \<Rightarrow> nat \<Rightarrow> REExecContext \<Rightarrow> thread \<Rightarrow> (nat option \<times> REExecContext \<times> thread) outcome \<Rightarrow> bool" where
  "greedy_result n q0 s th r \<longleftrightarrow> (\<exists>k p. r = Ret (Some (q0 + k), s, th\<lparr>th_cptr := p\<rparr>) \<and>
     gets (k * n) (ex_cbuf_type s) (ex_cbuf s) (th_cptr th) p)"

lemma greedy_loop_run:
  assumes sub: "subject_ok s" and body: "simple_body bc pc1 n"
  shows "here_ok s th \<Longrightarrow> greedy_loop fuel bc s th pc1 quant_max q0 = Timeout \<or>
    greedy_result n q0 s th (greedy_loop fuel bc s th pc1 quant_max q0)"
proof (induction fuel arbitrary: th q0)
  case (Suc fuel)
  have "here_ok s (th\<lparr>th_pc := pc1\<rparr>)" using Suc.prems by (simp add: here_ok_def blocks_ok_def)
  from body_run [OF sub this, of bc n fuel] body consider
    "lre_exec_backtrack fuel bc s (th\<lparr>th_pc := pc1\<rparr>) True = Timeout"
    | "body_result n s (th\<lparr>th_pc := pc1\<rparr>) (lre_exec_backtrack fuel bc s (th\<lparr>th_pc := pc1\<rparr>) True)" by auto
  then show ?case
  proof cases
    case 1
    then show ?thesis by simp
  next
    case 2
    then obtain res t where t: "lre_exec_backtrack fuel bc s (th\<lparr>th_pc := pc1\<rparr>) True = Ret (res, s, t)"
      "th\<lparr>th_capture := th_capture t, th_stack := th_stack t\<rparr> = th"
      "res = R_no_match \<or> (\<exists>p. res = R_match p \<and> gets n (ex_cbuf_type s) (ex_cbuf s) (th_cptr th) p)"
      by (auto simp: body_result_def)
    show ?thesis
    proof (cases "\<exists>p. res = R_match p")
      case False
      then have "greedy_loop (Suc fuel) bc s th pc1 quant_max q0 = Ret (Some (q0 + 0), s, th\<lparr>th_cptr := th_cptr th\<rparr>)"
        using t by auto
      then show ?thesis unfolding greedy_result_def by (metis gets.simps(1) mult_0)
    next
      case True
      then obtain p where p: "res = R_match p" "gets n (ex_cbuf_type s) (ex_cbuf s) (th_cptr th) p" using t by auto
      let ?th = "th\<lparr>th_cptr := p\<rparr>"
      have "here_ok s ?th"
        using Suc.prems gets_pos_ok [OF p(2)] sub by (auto simp: here_ok_def blocks_ok_def subject_ok_def)
      from Suc.IH [OF this, of "q0 + 1"] consider
        (out) "greedy_loop fuel bc s ?th pc1 quant_max (q0 + 1) = Timeout"
        | (fin) k r where "greedy_loop fuel bc s ?th pc1 quant_max (q0 + 1) = Ret (Some (q0 + 1 + k), s, th\<lparr>th_cptr := r\<rparr>)"
          "gets (k * n) (ex_cbuf_type s) (ex_cbuf s) p r"
        by (auto simp: greedy_result_def)
      note rest = this
      show ?thesis
      proof (cases "q0 + 1 \<ge> unat quant_max \<and> quant_max \<noteq> INT32_MAX")
        case True
        then have "greedy_loop (Suc fuel) bc s th pc1 quant_max q0 = Ret (Some (q0 + 1), s, ?th)"
          using t p by simp
        then show ?thesis using p(2) unfolding greedy_result_def by (metis mult_1)
      next
        case False
        then have "greedy_loop (Suc fuel) bc s th pc1 quant_max q0 = greedy_loop fuel bc s ?th pc1 quant_max (q0 + 1)"
          using t p by auto
        note more = this
        from rest show ?thesis
        proof cases
          case out
          then show ?thesis using more by simp
        next
          case (fin k r)
          have "gets (Suc k * n) (ex_cbuf_type s) (ex_cbuf s) (th_cptr th) r"
            using gets_append [OF p(2) fin(2)] by simp
          then show ?thesis using fin(1) more
            unfolding greedy_result_def by (intro disjI2 exI [of _ "Suc k"] exI [of _ r]) simp
        qed
      qed
    qed
  qed
qed simp

section \<open>Safety of the interpreter\<close>

definition run_ok :: "REExecContext \<Rightarrow> (exec_ret \<times> REExecContext \<times> thread) outcome \<Rightarrow> bool" where
  "run_ok s r \<longleftrightarrow> r = Timeout \<or> (\<exists>res s' th. r = Ret (res, s', th) \<and> blocks_ok s th)"

lemma backtrack_safe:
  "ctx_ok bc L s \<Longrightarrow> thread_ok L s th \<Longrightarrow> run_ok s (lre_exec_backtrack fuel bc s th False)"
proof (induction fuel arbitrary: s th)
  case (Suc fuel)
  have sub: "subject_ok s" and st: "stack_ok bc L s" and code: "code_ok bc (ex_capture_count s) (ex_stack_size_max s) L"
    using Suc.prems(1) by (auto simp: ctx_ok_def)
  have again: "run_ok s (lre_exec_backtrack fuel bc s' th' False)"
    if "stack_ok bc L s'" "same_run s s'" "thread_ok L s th'" for s' th'
  proof -
    have "ctx_ok bc L s'"
      using that same_run_ok(6) [OF that(2)] sub code by (simp add: ctx_ok_def same_run_def)
    from Suc.IH [OF this] that(3) same_run_ok(2,4) [OF that(2)] show ?thesis
      by (auto simp: run_ok_def)
  qed
  have recurse: "run_ok s (case unwind bc ret s th' of None \<Rightarrow> Fault
      | Some (Finished r s th) \<Rightarrow> Ret (if r then R_match (th_cptr th) else R_no_match, s, th)
      | Some (Resume s th) \<Rightarrow> lre_exec_backtrack fuel bc s th False)" if blk: "blocks_ok s th'" for ret th'
  proof -
    obtain u where u: "unwind bc ret s th' = Some u" "unwind_ok bc L s u" using unwind_safe [OF st blk] by blast
    then show ?thesis using again by (cases u) (auto simp: unwind_ok_def run_ok_def)
  qed
  obtain r where r: "exec_op bc s th = Some r" "op_result_ok bc L s r"
    using exec_op_safe [OF Suc.prems] by blast
  show ?case
  proof (cases r)
    case (Op_quant th' pc1 quant_min quant_max)
    then obtain n where th': "thread_ok L s th'" "16 \<le> pc1" "jump_ok bc L (pc1 - 16) pc1 (th_stack_len th')"
      and n: "get_u32 bc (pc1 - 4) = Some n" "simple_body bc pc1 (unat n)"
      using r(2) by (auto simp: op_result_ok_def)
    have here: "here_ok s th'" using th'(1) by (simp add: thread_ok_def)
    from greedy_loop_run [OF sub n(2) here, of fuel quant_max 0] consider
      "greedy_loop fuel bc s th' pc1 quant_max 0 = Timeout"
      | q p where "greedy_loop fuel bc s th' pc1 quant_max 0 = Ret (Some q, s, th'\<lparr>th_cptr := p\<rparr>)"
        "gets (q * unat n) (ex_cbuf_type s) (ex_cbuf s) (th_cptr th') p"
      by (auto simp: greedy_result_def)
    then show ?thesis
    proof cases
      case 1
      then show ?thesis using r(1) Op_quant by (simp add: run_ok_def)
    next
      case (2 q p)
      let ?th = "th'\<lparr>th_cptr := p\<rparr>"
      have pos: "pos_ok (ex_cbuf_type s) (ex_cbuf s) p"
        using gets_pos_ok [OF 2(2)] sub here by (simp add: subject_ok_def here_ok_def)
      have here': "here_ok s ?th" "thread_ok L s ?th" "blocks_ok s ?th"
        using here pos th'(1) by (auto simp: here_ok_def blocks_ok_def thread_ok_def)
      have prev: "prev_chars ((q - k) * unat n) (ex_cbuf_type s) (ex_cbuf s) p 0 \<noteq> None" for k
      proof -
        have "prev_chars ((q - k) * unat n + (q - (q - k)) * unat n) (ex_cbuf_type s) (ex_cbuf s) p 0 \<noteq> None"
          using gets_prev [OF 2(2)] sub here
          by (simp add: add_mult_distrib [symmetric] subject_ok_def here_ok_def)
        then show ?thesis by (auto simp: prev_chars_add bind_Some_iff)
      qed
      have len: "th_stack_len ?th \<le> ex_stack_size_max s"
        using th'(1) code by (auto simp: thread_ok_def code_ok_def)
      have e: "pc1 - 16 + 16 = pc1" "pc1 - 16 + 12 = pc1 - 4" using th'(2) by auto
      have new: "greedy_ok bc L s rs"
        if "rs_pc rs = pc1 - 16" "rs_cptr rs = p" "rs_count rs = q - unat quant_min"
          "unat (rs_stack_len rs) = th_stack_len ?th" "q > unat quant_min" for rs :: REExecState
        unfolding greedy_ok_def that e using that(5) th'(3) n(1) prev by auto
      obtain ret s' where ps: "push_state s ?th (pc1 - 16) p RE_EXEC_STATE_GREEDY_QUANT (q - unat quant_min) = Some (ret, s')"
        "stack_ok bc L s'" "same_run s s'" if "q > unat quant_min"
        using push_state_ok [OF st sub here'(1) len pos, of RE_EXEC_STATE_GREEDY_QUANT "pc1 - 16" "q - unat quant_min"] new
        by (metis (no_types, lifting))
      show ?thesis
        using r(1) Op_quant 2(1) ps again [OF st _ here'(2)] again [OF _ _ here'(2)] recurse [OF here'(3)] here'(3)
        by (auto simp: run_ok_def)
    qed
  qed (use r again recurse in \<open>auto simp: op_result_ok_def run_ok_def\<close>)
qed (simp add: run_ok_def)

text \<open>The C library's \<open>realloc\<close> for blocks of elements of \<open>z\<close> bytes: it fails beyond \<open>PTRDIFF_MAX\<close>, new elements are unspecified.\<close>

definition c_realloc :: "nat \<Rightarrow> 'a \<Rightarrow> 'a realloc_fun" where
  "c_realloc z junk opq ptr n =
     (if n * z < 2 ^ 63 then Some (take n ptr @ replicate (n - length ptr) junk) else None)"

interpretation c_state_realloc: state_realloc "c_realloc z junk" z for z junk
  by unfold_locales (auto simp: c_realloc_def split: if_splits)

lemma re_code_okD:
  assumes "re_code_ok bc"
  obtains L where "7 \<le> length bc" "(RE_HEADER_LEN, 0) \<in> L" "code_ok bc (unat (bc ! 1)) (unat (bc ! 2)) L"
  using assms that
  by (auto simp: re_code_ok_def Let_def rd_Some_iff RE_HEADER_LEN_def RE_HEADER_CAPTURE_COUNT_def
    RE_HEADER_STACK_SIZE_def split: option.splits)

lemma exec_safe:
  assumes "re_code_ok bc" and "cbuf_type \<le> 1" and "length buf = clen * 2 ^ cbuf_type" and "cindex \<le> clen"
    and "clen * 2 ^ cbuf_type < 2 ^ 31" and "2 * unat (bc ! 1) \<le> length capture"
    and "state_realloc alloc (32 + unat (bc ! 1) * 8 * 2 + unat (bc ! 2) * 8)"
  shows "lre_exec fuel alloc addr capture bc buf cindex clen cbuf_type = Timeout \<or>
    (\<exists>r cap. lre_exec fuel alloc addr capture bc buf cindex clen cbuf_type = Ret (r, cap) \<and> r \<in> {- 1, 0, 1} \<and>
       2 * unat (bc ! 1) \<le> length cap \<and>
       (\<forall>i < 2 * unat (bc ! 1). \<forall>p. cap ! i = Some p \<longrightarrow> p \<le> length buf \<and> 2 ^ cbuf_type dvd p))"
proof -
  obtain L where hdr: "7 \<le> length bc" and L: "(RE_HEADER_LEN, 0) \<in> L"
    and code: "code_ok bc (unat (bc ! 1)) (unat (bc ! 2)) L"
    by (rule re_code_okD [OF assms(1)])
  define ct where "ct = (if cbuf_type = 1 \<and> bc ! 0 AND LRE_FLAG_UTF16 \<noteq> 0 then 2 else cbuf_type)"
  define s where "s = \<lparr>ex_cbuf = buf, ex_cbuf_addr = addr, ex_cbuf_end = clen * 2 ^ cbuf_type,
    ex_cbuf_type = ct, ex_capture_count = unat (bc ! 1), ex_stack_size_max = unat (bc ! 2),
    ex_multi_line = (bc ! 0 AND LRE_FLAG_MULTILINE \<noteq> 0), ex_ignore_case = (bc ! 0 AND LRE_FLAG_IGNORECASE \<noteq> 0),
    ex_is_utf16 = (bc ! 0 AND LRE_FLAG_UTF16 \<noteq> 0), ex_opaque = 0, ex_lre_realloc = alloc,
    ex_state_size = 32 + unat (bc ! 1) * 8 * 2 + unat (bc ! 2) * 8,
    ex_state_stack = [], ex_state_stack_size = 0, ex_state_stack_len = 0\<rparr>"
  obtain cap where cap: "blit capture 0 (replicate (unat (bc ! 1) * 2) None) = Some cap"
    using assms(6) by (auto simp: blit_def)
  define th where "th = \<lparr>th_pc = RE_HEADER_LEN, th_cptr = cindex * 2 ^ cbuf_type, th_capture = cap,
    th_stack = replicate (unat (bc ! 2)) 0, th_stack_len = 0\<rparr>"
  have ct: "ct \<noteq> 0 \<longleftrightarrow> cbuf_type = 1" using assms(2) by (auto simp: ct_def)
  have "unat (bc ! 1) < 256" "unat (bc ! 2) < 256" using unsigned_less [of "bc ! 1"] unsigned_less [of "bc ! 2"] by auto
  then have "ctx_ok bc L s"
    using code assms(3,7) ct by (auto simp: ctx_ok_def subject_ok_def stack_ok_def s_def buf_ok_def)
  moreover have "captures_ok s cap"
    using cap assms(6) by (auto simp: captures_ok_def s_def blit_Some_iff list_all_iff capture_ok_def mult.commute)
  then have "thread_ok L s th"
    using L assms(3,4) ct by (auto simp: thread_ok_def here_ok_def blocks_ok_def th_def s_def pos_ok_def)
  ultimately have run: "run_ok s (lre_exec_backtrack fuel bc s th False)" by (rule backtrack_safe)
  have rd: "rd bc RE_HEADER_FLAGS = Some (bc ! 0)" "rd bc RE_HEADER_CAPTURE_COUNT = Some (bc ! 1)"
    "rd bc RE_HEADER_STACK_SIZE = Some (bc ! 2)"
    using hdr by (auto simp: rd_def RE_HEADER_FLAGS_def RE_HEADER_CAPTURE_COUNT_def RE_HEADER_STACK_SIZE_def)
  have "cbuf_type = 0 \<or> cbuf_type = 1" using assms(2) by linarith
  then have shift: "\<not> (int clen * 2 ^ cbuf_type > 0x7fffffff \<or> int cindex * 2 ^ cbuf_type > 0x7fffffff)"
  proof (elim disjE)
    assume c: "cbuf_type = 0"
    show ?thesis using assms(4,5) unfolding c by simp
  next
    assume c: "cbuf_type = 1"
    show ?thesis using assms(4,5) unfolding c by simp
  qed
  have exec: "lre_exec fuel alloc addr capture bc buf cindex clen cbuf_type =
    (case lre_exec_backtrack fuel bc s th False of Fault \<Rightarrow> Fault | Timeout \<Rightarrow> Timeout
     | Ret (ret, s, th) \<Rightarrow> Ret (case ret of R_error \<Rightarrow> - 1 | R_no_match \<Rightarrow> 0 | R_match p \<Rightarrow> 1, th_capture th))"
    unfolding lre_exec_def if_not_P [OF shift] rd option.case prod.case Let_def cap s_def ct_def th_def ..
  from run consider "lre_exec_backtrack fuel bc s th False = Timeout"
    | res s' th' where "lre_exec_backtrack fuel bc s th False = Ret (res, s', th')" "blocks_ok s th'"
    unfolding run_ok_def by blast
  then show ?thesis
  proof cases
    case 1
    then show ?thesis by (simp add: exec)
  next
    case (2 res s' th')
    have b: "captures_ok s (th_capture th')" using 2(2) by (simp add: blocks_ok_def)
    have "p \<le> length buf \<and> 2 ^ cbuf_type dvd p" if "i < 2 * unat (bc ! 1)" "th_capture th' ! i = Some p" for i p
    proof -
      have "cbuf_type = 0 \<or> cbuf_type = 1" using assms(2) by linarith
      then show ?thesis using captures_ok_nth(2) [OF b, of i] that ct
        by (elim disjE) (simp_all add: s_def capture_ok_def pos_ok_def)
    qed
    then show ?thesis
      using 2(1) b by (auto simp: exec captures_ok_def s_def split: exec_ret.splits)
  qed
qed

text \<open>
  C2. Memory safety of the matcher. On bytecode the verifier accepts, for every subject of 8-bit or 16-bit
  characters of less than 2 GiB, every start position in it, every allocator that honours its contract and any number of steps, the
  matcher never reads or writes outside the bytecode, the subject, the captures, the counter stack or the state stack, fails no assertion
  and meets no invalid opcode; when it returns, the result is 1, 0 or -1 and
  every capture is \<open>NULL\<close> or a character boundary of the subject.
\<close>

theorem lre_exec_safe:
  assumes "re_code_ok bc" and "cbuf_type \<le> 1" and "length buf = clen * 2 ^ cbuf_type" and "cindex \<le> clen"
    and "clen * 2 ^ cbuf_type < 2 ^ 31" and "2 * unat (bc ! 1) \<le> length capture"
    and "state_realloc alloc (32 + unat (bc ! 1) * 8 * 2 + unat (bc ! 2) * 8)"
  shows "lre_exec fuel alloc addr capture bc buf cindex clen cbuf_type = Timeout \<or>
    (\<exists>r cap. lre_exec fuel alloc addr capture bc buf cindex clen cbuf_type = Ret (r, cap) \<and> r \<in> {- 1, 0, 1} \<and>
       2 * unat (bc ! 1) \<le> length cap \<and>
       (\<forall>i < 2 * unat (bc ! 1). \<forall>p. cap ! i = Some p \<longrightarrow> p \<le> length buf \<and> 2 ^ cbuf_type dvd p))"
  using assms by (rule exec_safe)

text \<open>The bytecode of the sticky pattern \<open>/a/y\<close> on the subject \<open>a\<close>.\<close>

theorem lre_exec_safe_witness:
  "re_code_ok [32, 1, 0, 8, 0, 0, 0, 11, 0, 1, 97, 0, 12, 0, 10] \<and>
   (lre_exec 9 (c_realloc 48 undefined) 4096 [None, None] [32, 1, 0, 8, 0, 0, 0, 11, 0, 1, 97, 0, 12, 0, 10] [97] 0 1 0 = Timeout \<or>
    (\<exists>r cap. lre_exec 9 (c_realloc 48 undefined) 4096 [None, None]
         [32, 1, 0, 8, 0, 0, 0, 11, 0, 1, 97, 0, 12, 0, 10] [97] 0 1 0 = Ret (r, cap) \<and> r \<in> {- 1, 0, 1} \<and>
       2 \<le> length cap \<and> (\<forall>i < 2. \<forall>p. cap ! i = Some p \<longrightarrow> p \<le> 1)))"
proof -
  let ?bc = "[32, 1, 0, 8, 0, 0, 0, 11, 0, 1, 97, 0, 12, 0, 10] :: u8 list"
  have ok: "re_code_ok ?bc" by code_simp
  have al: "state_realloc (c_realloc 48 undefined) (32 + unat (?bc ! 1) * 8 * 2 + unat (?bc ! 2) * 8)"
    using c_state_realloc.state_realloc_axioms [of 48 undefined] by simp
  show ?thesis
    using lre_exec_safe [OF ok, of 0 "[97]" 1 0 "[None, None]" "c_realloc 48 undefined" 9 4096] ok al by simp
qed

end
