(* ===== verification/RegexpCode.thy ===== *)
theory RegexpCode
  imports RegexpSafety
begin

text \<open>
  Fragments of verified code. A fragment is \<open>closed\<close> when its instructions follow each other to its end, its jumps
  stay in it or go to its end, and it leaves the counter stack as it found it: what the compiler emits for
  a term, an alternative or a disjunction. Closed fragments can be put one after the other
  and wrapped into the code of the quantifiers, lookaheads and disjunctions, and a closed fragment between a header and
  a final \<open>REOP_match\<close> is code the verifier accepts.
\<close>

section \<open>Walking over code\<close>

function walk :: "u8 list \<Rightarrow> nat \<Rightarrow> nat \<Rightarrow> nat \<Rightarrow> nat option" where
  "walk c e pos h =
     (if pos < e then
        case op_at c pos of
          None \<Rightarrow> None
        | Some (opcode, len) \<Rightarrow>
            if opcode \<in> {REOP_drop, REOP_bne_char_pos} \<and> h = 0 \<or> e < pos + len then None
            else walk c e (pos + len) (next_height opcode h)
      else if pos = e then Some h else None)"
  by pat_completeness auto
termination
  by (relation "measure (\<lambda>(c, e, pos, h). e - pos)") (auto dest!: op_at_pos)

declare walk.simps [simp del]

definition shift :: "nat \<Rightarrow> nat \<Rightarrow> nat \<times> nat \<Rightarrow> nat \<times> nat" where
  "shift n k x = (fst x + n, snd x + k)"

lemma rd_append: "rd a i = Some v \<Longrightarrow> rd (a @ b) i = Some v" "rd (a @ b) (length a + i) = rd b i"
  by (auto simp: rd_def nth_append)

lemma slice_append: "slice a i n = Some v \<Longrightarrow> slice (a @ b) i n = Some v"
  "slice (a @ b) (length a + i) n = slice b i n"
  by (auto simp: slice_Some_iff) (simp add: slice_def)

lemma get_u16_append: "get_u16 a i = Some v \<Longrightarrow> get_u16 (a @ b) i = Some v"
  "get_u16 (a @ b) (length a + i) = get_u16 b i"
  by (auto simp: get_u16_def bind_Some_iff slice_append)

lemma get_u32_append: "get_u32 a i = Some v \<Longrightarrow> get_u32 (a @ b) i = Some v"
  "get_u32 (a @ b) (length a + i) = get_u32 b i"
  by (auto simp: get_u32_def bind_Some_iff slice_append)

lemma op_at_append: "op_at a pos = Some x \<Longrightarrow> op_at (a @ b) pos = Some x"
  by (auto simp: op_at_def bind_Some_iff rd_append get_u16_append split: if_splits)

lemma op_at_append2: "op_at (a @ b) (length a + pos) = op_at b pos"
proof -
  have "get_u16 (a @ b) (length a + pos + 1) = get_u16 b (pos + 1)"
    using get_u16_append(2) [of a b "pos + 1"] by simp
  then show ?thesis by (simp only: op_at_def rd_append(2))
qed

lemma walk_shift: "walk (a @ b) (length a + e) (length a + pos) h = walk b e pos h"
proof (induction b e pos h rule: walk.induct)
  case (1 b e pos h)
  show ?case
  proof (cases "pos < e")
    case True
    then show ?thesis
      using "1.IH" by (subst (1 2) walk.simps) (auto simp: op_at_append2 add.assoc split: option.splits)
  qed (subst (1 2) walk.simps, simp)
qed

lemma insns_shift: "insns (a @ b) (length a + e) (length a + pos) h = map (shift (length a) 0) (insns b e pos h)"
proof (induction b e pos h rule: insns.induct)
  case (1 b e pos h)
  show ?case
  proof (cases "pos < e")
    case True
    then show ?thesis
      using "1.IH" by (subst (1 2) insns.simps) (auto simp: op_at_append2 add.assoc shift_def split: option.splits)
  qed (subst (1 2) insns.simps, simp)
qed

lemma walk_append:
  assumes "walk a (length a) pos h = Some h1"
  shows "walk (a @ b) (length a + length b) pos h = walk b (length b) 0 h1 \<and>
    insns (a @ b) (length a + length b) pos h =
      insns a (length a) pos h @ map (shift (length a) 0) (insns b (length b) 0 h1)"
  using assms
proof (induction a "length a" pos h rule: walk.induct)
  case (1 a pos h)
  show ?case
  proof (cases "pos < length a")
    case True
    then obtain opcode len where op: "op_at a pos = Some (opcode, len)"
      and n: "\<not> (opcode \<in> {REOP_drop, REOP_bne_char_pos} \<and> h = 0 \<or> length a < pos + len)"
      and w: "walk a (length a) (pos + len) (next_height opcode h) = Some h1"
      using "1.prems" by (subst (asm) walk.simps) (auto split: option.splits if_splits)
    note IH = "1.hyps" [OF True op refl n w]
    have op2: "op_at (a @ b) pos = Some (opcode, len)" using op by (rule op_at_append)
    show ?thesis
      using True op op2 n IH
      by (auto simp: walk.simps [of "a @ b" _ pos] insns.simps [of "a @ b" _ pos] insns.simps [of a _ pos])
  next
    case False
    then have "pos = length a" "h1 = h" using "1.prems" by (subst (asm) walk.simps; simp split: if_splits)+
    then show ?thesis
      using walk_shift [of a b "length b" 0 h] insns_shift [of a b "length b" 0 h]
      by (simp add: insns.simps [of a])
  qed
qed

lemma walk_height:
  "walk c e pos h = Some h' \<Longrightarrow>
     walk c e pos (h + k) = Some (h' + k) \<and> insns c e pos (h + k) = map (shift 0 k) (insns c e pos h)"
proof (induction c e pos h rule: walk.induct)
  case (1 c e pos h)
  show ?case
  proof (cases "pos < e")
    case True
    then obtain opcode len where op: "op_at c pos = Some (opcode, len)"
      and n: "\<not> (opcode \<in> {REOP_drop, REOP_bne_char_pos} \<and> h = 0 \<or> e < pos + len)"
      and w: "walk c e (pos + len) (next_height opcode h) = Some h'"
      using "1.prems" by (subst (asm) walk.simps) (auto split: option.splits if_splits)
    have nh: "next_height opcode (h + k) = next_height opcode h + k"
      using n by (auto simp: next_height_def)
    show ?thesis
      using True op n "1.IH" [OF True op refl n w] nh
      by (auto simp: walk.simps [of c e pos] insns.simps [of c e pos] shift_def)
  next
    case False
    then show ?thesis using "1.prems" by (simp add: walk.simps [of c e pos] insns.simps [of c e pos] split: if_splits)
  qed
qed

section \<open>Instructions relative to labels\<close>

type_synonym labels = "(int \<times> nat) set"

definition lab_jump :: "u8 list \<Rightarrow> labels \<Rightarrow> nat \<Rightarrow> nat \<Rightarrow> nat \<Rightarrow> bool" where
  "lab_jump c L q base h = (case get_u32 c q of None \<Rightarrow> False | Some v \<Rightarrow> (int base + sint v, h) \<in> L)"

text \<open>The instructions that go on with the next one, that jump, that need a counter, and the capture an instruction writes at most.\<close>

definition falls :: "REOPCodeEnum \<Rightarrow> bool" where
  "falls opcode \<longleftrightarrow> opcode \<notin> {REOP_match, REOP_goto, REOP_simple_greedy_quant}"

definition jumps :: "REOPCodeEnum \<Rightarrow> bool" where
  "jumps opcode \<longleftrightarrow> opcode \<in> {REOP_goto, REOP_split_goto_first, REOP_split_next_first, REOP_lookahead,
     REOP_negative_lookahead, REOP_loop, REOP_bne_char_pos}"

definition pops :: "REOPCodeEnum \<Rightarrow> bool" where
  "pops opcode \<longleftrightarrow> opcode \<in> {REOP_loop, REOP_bne_char_pos, REOP_drop}"

definition max_capture :: "u8 list \<Rightarrow> nat \<Rightarrow> REOPCodeEnum \<Rightarrow> nat option" where
  "max_capture c pos opcode =
     (if opcode \<in> {REOP_save_start, REOP_save_end} then Some (unat (c ! (pos + 1)))
      else if opcode = REOP_save_reset then Some (unat (c ! (pos + 2))) else None)"

definition quant_ok :: "u8 list \<Rightarrow> labels \<Rightarrow> nat \<Rightarrow> nat \<Rightarrow> bool" where
  "quant_ok c L pos h \<longleftrightarrow> lab_jump c L (pos + 1) (pos + 17) h \<and>
     (\<exists>n. get_u32 c (pos + 13) = Some n \<and> simple_body c (pos + 17) (unat n))"

text \<open>As \<open>op_ok\<close>, with labels that are offsets from the start of the fragment.\<close>

definition insn_ok :: "u8 list \<Rightarrow> nat \<Rightarrow> labels \<Rightarrow> nat \<Rightarrow> nat \<Rightarrow> REOPCodeEnum \<Rightarrow> nat \<Rightarrow> bool" where
  "insn_ok c ccount L pos h opcode len \<longleftrightarrow>
     pos + len \<le> length c \<and> range_filled opcode len \<and> opcode \<noteq> REOP_invalid \<and>
     (falls opcode \<longrightarrow> (int (pos + len), next_height opcode h) \<in> L) \<and>
     (jumps opcode \<longrightarrow> lab_jump c L (pos + 1) (pos + 5) (next_height opcode h)) \<and>
     (pops opcode \<longrightarrow> 0 < h) \<and>
     (\<forall>i. max_capture c pos opcode = Some i \<longrightarrow> i < ccount) \<and>
     (opcode = REOP_simple_greedy_quant \<longrightarrow> quant_ok c L pos h)"

definition rel_ok :: "u8 list \<Rightarrow> nat \<Rightarrow> labels \<Rightarrow> nat \<Rightarrow> nat \<Rightarrow> bool" where
  "rel_ok c ccount L pos h \<longleftrightarrow> (\<exists>opcode len. op_at c pos = Some (opcode, len) \<and> insn_ok c ccount L pos h opcode len)"

definition lshift :: "int \<Rightarrow> nat \<Rightarrow> labels \<Rightarrow> labels" where
  "lshift n k L = (\<lambda>(t, h). (t + n, h + k)) ` L"

lemma lshift_simps [simp]:
  "lshift n k {} = {}" "lshift n k (insert (t, h) L) = insert (t + n, h + k) (lshift n k L)"
  "lshift n k (A \<union> B) = lshift n k A \<union> lshift n k B" "lshift 0 0 L = L"
  "lshift n k (lshift m j L) = lshift (m + n) (j + k) L"
  by (force simp: lshift_def image_iff)+

lemma lshiftI: "(t, h) \<in> L \<Longrightarrow> (t + n, h + k) \<in> lshift n k L"
  by (force simp: lshift_def)

lemma simple_body_append: "simple_body a pos n \<Longrightarrow> simple_body (a @ b) pos n"
proof (induction a pos n rule: simple_body.induct)
  case (1 a pos n)
  then obtain opcode len where op: "op_at a pos = Some (opcode, len)"
    by (subst (asm) (3) simple_body.simps) (auto split: option.splits)
  then show ?case
    using "1.prems" "1.IH" [OF op refl] op_at_append [OF op, of b]
    by (simp add: simple_body.simps [of "a @ b" pos] simple_body.simps [of a pos] split: if_splits)
qed

lemma simple_body_append2: "simple_body (a @ b) (length a + pos) n = simple_body b pos n"
proof (induction b pos n rule: simple_body.induct)
  case (1 b pos n)
  show ?case
    using "1.IH"
    by (subst (1 2) simple_body.simps) (auto simp: op_at_append2 add.assoc split: option.splits)
qed

lemma lab_jump_append: "lab_jump a L q base h \<Longrightarrow> lab_jump (a @ b) L q base h"
  by (auto simp: lab_jump_def get_u32_append(1) split: option.splits)

lemma lab_jump_append2:
  assumes "lab_jump b L q base h"
  shows "lab_jump (a @ b) (lshift (int (length a)) 0 L) (length a + q) (length a + base) h"
proof -
  obtain v where v: "get_u32 b q = Some v" "(int base + sint v, h) \<in> L"
    using assms by (auto simp: lab_jump_def split: option.splits)
  have "get_u32 (a @ b) (length a + q) = Some v" using v(1) by (simp add: get_u32_append(2))
  moreover have "(int base + sint v + int (length a), h + 0) \<in> lshift (int (length a)) 0 L"
    using v(2) by (rule lshiftI)
  ultimately show ?thesis by (simp add: lab_jump_def algebra_simps)
qed

lemma lab_jump_mono: "lab_jump a L q base h \<Longrightarrow> L \<subseteq> L' \<Longrightarrow> lab_jump a L' q base h"
  by (auto simp: lab_jump_def split: option.splits)

lemma lab_jump_height: "lab_jump a L q base h \<Longrightarrow> lab_jump a (lshift 0 k L) q base (h + k)"
  using lshiftI [of _ h L 0 k] by (auto simp: lab_jump_def split: option.splits)

lemma quant_ok_mono: "quant_ok c L pos h \<Longrightarrow> L \<subseteq> L' \<Longrightarrow> quant_ok c L' pos h"
  unfolding quant_ok_def using lab_jump_mono by blast

lemma rel_ok_mono:
  assumes "rel_ok c cc L pos h" and "L \<subseteq> L'" and "cc \<le> cc'"
  shows "rel_ok c cc' L' pos h"
  using assms lab_jump_mono quant_ok_mono less_le_trans unfolding rel_ok_def insn_ok_def by blast

lemma next_height_add: "(pops opcode \<longrightarrow> 0 < h) \<Longrightarrow> next_height opcode (h + k) = next_height opcode h + k"
  by (auto simp: next_height_def pops_def)

lemma lshiftI0: "(t, h) \<in> L \<Longrightarrow> (t, h + k) \<in> lshift 0 k L"
  using lshiftI [of t h L 0 k] by simp

lemma rel_ok_height:
  assumes "rel_ok c cc L pos h"
  shows "rel_ok c cc (lshift 0 k L) pos (h + k)"
proof -
  obtain opcode len where op: "op_at c pos = Some (opcode, len)" and ok: "insn_ok c cc L pos h opcode len"
    using assms unfolding rel_ok_def by blast
  have nh: "next_height opcode (h + k) = next_height opcode h + k"
    using ok by (intro next_height_add) (simp add: insn_ok_def)
  have q: "quant_ok c L pos h \<Longrightarrow> quant_ok c (lshift 0 k L) pos (h + k)"
    unfolding quant_ok_def using lab_jump_height by blast
  have "insn_ok c cc (lshift 0 k L) pos (h + k) opcode len"
    using ok lab_jump_height lshiftI0 q trans_less_add1 unfolding insn_ok_def nh by blast
  with op show ?thesis unfolding rel_ok_def by blast
qed

lemma max_capture_append:
  assumes "op_at a pos = Some (opcode, len)" "pos + len \<le> length a"
  shows "max_capture (a @ b) pos opcode = max_capture a pos opcode"
proof (cases "opcode \<in> {REOP_save_start, REOP_save_end, REOP_save_reset}")
  case True
  then have "opcode \<noteq> REOP_range" "opcode \<noteq> REOP_range32" by auto
  with op_atD(3) [OF assms(1)] have "len = op_size opcode" by simp
  with True assms(2) show ?thesis by (auto simp: max_capture_def op_size_def reopcode_info_def nth_append)
qed (auto simp: max_capture_def)

lemma rel_ok_append:
  assumes "rel_ok a cc L pos h"
  shows "rel_ok (a @ b) cc L pos h"
proof -
  obtain opcode len where op: "op_at a pos = Some (opcode, len)" and ok: "insn_ok a cc L pos h opcode len"
    using assms unfolding rel_ok_def by blast
  have m: "max_capture (a @ b) pos opcode = max_capture a pos opcode"
    by (rule max_capture_append [OF op]) (use ok in \<open>simp add: insn_ok_def\<close>)
  have q: "quant_ok a L pos h \<Longrightarrow> quant_ok (a @ b) L pos h"
    unfolding quant_ok_def using lab_jump_append get_u32_append(1) simple_body_append by blast
  have "insn_ok (a @ b) cc L pos h opcode len"
    using ok lab_jump_append q trans_le_add1 unfolding insn_ok_def m length_append by blast
  with op_at_append [OF op] show ?thesis unfolding rel_ok_def by blast
qed

lemma rel_ok_append2:
  assumes "rel_ok b cc L pos h"
  shows "rel_ok (a @ b) cc (lshift (int (length a)) 0 L) (length a + pos) h"
proof -
  obtain opcode len where op: "op_at b pos = Some (opcode, len)" and ok: "insn_ok b cc L pos h opcode len"
    using assms unfolding rel_ok_def by blast
  have m: "max_capture (a @ b) (length a + pos) opcode = max_capture b pos opcode"
    by (simp add: max_capture_def nth_append)
  have sh: "(int (pos + len), x) \<in> L \<Longrightarrow> (int (length a + pos + len), x) \<in> lshift (int (length a)) 0 L" for x
    using lshiftI [of "int (pos + len)" x L "int (length a)" 0] by (simp add: algebra_simps)
  have j: "lab_jump b L (pos + 1) (pos + m) x \<Longrightarrow>
      lab_jump (a @ b) (lshift (int (length a)) 0 L) (length a + pos + 1) (length a + pos + m) x" for m x
    using lab_jump_append2 [of b L "pos + 1" "pos + m" x a] by (simp only: add.assoc)
  have g: "get_u32 (a @ b) (length a + pos + 13) = get_u32 b (pos + 13)"
    using get_u32_append(2) [of a b "pos + 13"] by (simp only: add.assoc)
  have b: "simple_body (a @ b) (length a + pos + 17) n = simple_body b (pos + 17) n" for n
    using simple_body_append2 [of a b "pos + 17" n] by (simp only: add.assoc)
  have q: "quant_ok b L pos h \<Longrightarrow> quant_ok (a @ b) (lshift (int (length a)) 0 L) (length a + pos) h"
    unfolding quant_ok_def g b using j by blast
  have l: "pos + len \<le> length b \<Longrightarrow> length a + pos + len \<le> length a + length b" by simp
  have "insn_ok (a @ b) cc (lshift (int (length a)) 0 L) (length a + pos) h opcode len"
    using ok sh j q l unfolding insn_ok_def m length_append by blast
  with op show ?thesis unfolding rel_ok_def op_at_append2 by blast
qed

section \<open>Fragments\<close>

text \<open>
  A fragment entered with a counter stack of \<open>hs\<close> entries and left with \<open>he\<close>, whose jumps go to its own labels or to those of
  \<open>L\<close>, relative to its start.
\<close>

definition labs :: "u8 list \<Rightarrow> nat \<Rightarrow> nat \<Rightarrow> labels" where
  "labs c hs he = insert (int (length c), he) ((\<lambda>(p, h). (int p, h)) ` set (insns c (length c) 0 hs))"

definition seg :: "nat \<Rightarrow> labels \<Rightarrow> u8 list \<Rightarrow> nat \<Rightarrow> nat \<Rightarrow> bool" where
  "seg cc L c hs he \<longleftrightarrow> walk c (length c) 0 hs = Some he \<and>
     (\<forall>(p, h) \<in> set (insns c (length c) 0 hs). rel_ok c cc (labs c hs he \<union> L) p h)"

definition closed :: "nat \<Rightarrow> u8 list \<Rightarrow> bool" where
  "closed cc c \<longleftrightarrow> seg cc {} c 0 0"

lemma labs_end [simp]: "(int (length c), he) \<in> labs c hs he"
  by (simp add: labs_def)

lemma labs_start:
  assumes "walk c (length c) 0 hs = Some he"
  shows "(0, hs) \<in> labs c hs he"
proof (cases "0 < length c")
  case True
  with assms obtain opcode len where "op_at c 0 = Some (opcode, len)" by (auto simp: walk.simps [of c "length c" 0] split: option.splits)
  with True have "(0, hs) \<in> set (insns c (length c) 0 hs)" by (simp add: insns.simps [of c "length c" 0])
  then show ?thesis by (force simp: labs_def)
next
  case False
  then have "c = []" by simp
  with assms have "hs = he" by (simp add: walk.simps [of "[]" 0])
  with \<open>c = []\<close> show ?thesis by (simp add: labs_def)
qed

lemma labs_append:
  assumes "walk a (length a) 0 h0 = Some h1" "walk b (length b) 0 h1 = Some h2"
  shows "labs (a @ b) h0 h2 = labs a h0 h1 \<union> lshift (int (length a)) 0 (labs b h1 h2)"
proof -
  have "insert (int (length a), h1) (labs (a @ b) h0 h2) = labs a h0 h1 \<union> lshift (int (length a)) 0 (labs b h1 h2)"
  proof -
    have i: "insns (a @ b) (length (a @ b)) 0 h0 = insns a (length a) 0 h0 @ map (shift (length a) 0) (insns b (length b) 0 h1)"
      using walk_append [OF assms(1), of b] by simp
    have "(\<lambda>(p, h). (int p, h)) ` shift (length a) 0 ` X = lshift (int (length a)) 0 ((\<lambda>(p, h). (int p, h)) ` X)" for X
      by (simp add: lshift_def shift_def image_image case_prod_beta add.commute)
    then show ?thesis unfolding labs_def i by (simp add: image_Un add.commute) blast
  qed
  moreover have "(int (length a), h1) \<in> labs (a @ b) h0 h2"
  proof (cases "0 < length b")
    case True
    with assms(2) obtain opcode len where x: "op_at b 0 = Some (opcode, len)"
      by (auto simp: walk.simps [of b "length b" 0] split: option.splits)
    have "(0, h1) \<in> set (insns b (length b) 0 h1)" using True x by (simp add: insns.simps [of b "length b" 0])
    then have "shift (length a) 0 (0, h1) \<in> shift (length a) 0 ` set (insns b (length b) 0 h1)" by (rule imageI)
    then have "(length a, h1) \<in> set (insns (a @ b) (length (a @ b)) 0 h0)"
      using walk_append [OF assms(1), of b] by (simp add: shift_def)
    then show ?thesis by (force simp: labs_def)
  next
    case False
    then have "b = []" by simp
    with assms(2) have "h2 = h1" by (simp add: walk.simps [of "[]" 0])
    with \<open>b = []\<close> show ?thesis by (simp add: labs_def)
  qed
  ultimately show ?thesis by (simp only: insert_absorb)
qed

lemma seg_append:
  assumes "seg cc La a h0 h1" "seg cc Lb b h1 h2"
    and "La \<subseteq> labs (a @ b) h0 h2 \<union> L" "lshift (int (length a)) 0 Lb \<subseteq> labs (a @ b) h0 h2 \<union> L"
  shows "seg cc L (a @ b) h0 h2"
proof -
  have w: "walk a (length a) 0 h0 = Some h1" "walk b (length b) 0 h1 = Some h2" using assms by (auto simp: seg_def)
  note ap = walk_append [OF w(1), of b]
  note la = labs_append [OF w]
  have "rel_ok (a @ b) cc (labs (a @ b) h0 h2 \<union> L) p h" if ins: "(p, h) \<in> set (insns (a @ b) (length (a @ b)) 0 h0)" for p h
  proof -
    consider "(p, h) \<in> set (insns a (length a) 0 h0)"
      | p' where "(p', h) \<in> set (insns b (length b) 0 h1)" "p = length a + p'"
      using ins ap by (auto simp: shift_def add.commute)
    then show ?thesis
    proof cases
      case 1
      then have "rel_ok (a @ b) cc (labs a h0 h1 \<union> La) p h" using assms(1) rel_ok_append by (auto simp: seg_def)
      then show ?thesis by (rule rel_ok_mono) (use la assms(3) in auto)
    next
      case 2
      then have "rel_ok (a @ b) cc (lshift (int (length a)) 0 (labs b h1 h2 \<union> Lb)) p h"
        using assms(2) rel_ok_append2 [of b cc "labs b h1 h2 \<union> Lb" p' h a] by (auto simp: seg_def)
      then show ?thesis by (rule rel_ok_mono) (use la assms(4) in auto)
    qed
  qed
  then show ?thesis using ap w by (auto simp: seg_def)
qed

lemma segD: "seg cc L c hs he \<Longrightarrow> walk c (length c) 0 hs = Some he"
  by (simp add: seg_def)

lemma seg_mono: "seg cc L c hs he \<Longrightarrow> L \<subseteq> L' \<Longrightarrow> cc \<le> cc' \<Longrightarrow> seg cc' L' c hs he"
  unfolding seg_def using rel_ok_mono [of c cc "labs c hs he \<union> L" _ _ "labs c hs he \<union> L'" cc'] by blast

lemma labs_height:
  "walk c (length c) 0 hs = Some he \<Longrightarrow> labs c (hs + k) (he + k) = lshift 0 k (labs c hs he)"
  using walk_height [of c "length c" 0 hs he k]
  by (simp add: labs_def lshift_def shift_def image_image case_prod_beta)

lemma seg_height:
  assumes "seg cc {} c hs he"
  shows "seg cc {} c (hs + k) (he + k)"
proof -
  note w = segD [OF assms]
  have "rel_ok c cc (lshift 0 k (labs c hs he)) p (h + k)" if "(p, h) \<in> set (insns c (length c) 0 hs)" for p h
    using assms that by (intro rel_ok_height) (auto simp: seg_def)
  then show ?thesis
    using walk_height [OF w, of k] by (auto simp: seg_def labs_height [OF w] shift_def)
qed

lemma seg_Nil: "seg cc L [] h h"
  by (simp add: seg_def walk.simps [of "[]" 0] insns.simps [of "[]" 0])

lemma closed_Nil: "closed cc []"
  by (simp add: closed_def seg_Nil)

lemma closed_append: "closed cc a \<Longrightarrow> closed cc b \<Longrightarrow> closed cc (a @ b)"
  unfolding closed_def by (erule seg_append) auto

lemma closed_mono: "closed cc c \<Longrightarrow> cc \<le> cc' \<Longrightarrow> closed cc' c"
  unfolding closed_def by (erule seg_mono) auto

lemma closed_at: "closed cc c \<Longrightarrow> seg cc {} c k k"
  unfolding closed_def using seg_height [of cc c 0 0 k] by simp

text \<open>Two and three fragments in a row, which may jump to the borders between them.\<close>

lemma labs_append_points:
  assumes "seg cc La a h0 h1" "seg cc Lb b h1 h2"
  shows "{(0, h0), (int (length a), h1), (int (length a + length b), h2)} \<subseteq> labs (a @ b) h0 h2"
proof -
  note w = segD [OF assms(1)] segD [OF assms(2)]
  have "(int (length b), h2) \<in> labs b h1 h2" by simp
  from lshiftI [OF this, of "int (length a)" 0] have "(int (length a + length b), h2) \<in> labs (a @ b) h0 h2"
    by (simp add: labs_append [OF w] add.commute)
  then show ?thesis using labs_start [OF w(1)] by (simp add: labs_append [OF w])
qed

lemma seg2:
  assumes ab: "seg cc La a h0 h1" "seg cc Lb b h1 h2"
    and L: "La \<union> lshift (int (length a)) 0 Lb \<subseteq>
      {(0, h0), (int (length a), h1), (int (length a + length b), h2)} \<union> L"
  shows "seg cc L (a @ b) h0 h2"
  by (rule seg_append [OF ab]) (use L labs_append_points [OF ab] in blast)+

lemma seg3:
  assumes a: "seg cc La a h0 h1" and b: "seg cc Lb b h1 h2" and c: "seg cc Lc c h2 h3"
    and L: "La \<union> lshift (int (length a)) 0 Lb \<union> lshift (int (length a + length b)) 0 Lc \<subseteq>
      {(0, h0), (int (length a), h1), (int (length a + length b), h2), (int (length a + length b + length c), h3)} \<union> L"
  shows "seg cc L (a @ b @ c) h0 h3"
proof -
  have ab: "seg cc (La \<union> lshift (int (length a)) 0 Lb) (a @ b) h0 h2"
    using a b by (rule seg_append) auto
  have p: "{(0, h0), (int (length a), h1), (int (length a + length b), h2),
      (int (length a + length b + length c), h3)} \<subseteq> labs ((a @ b) @ c) h0 h3"
    using labs_append_points [OF a b] labs_append_points [OF ab c] labs_append [OF segD [OF ab] segD [OF c]] by auto
  have "seg cc L ((a @ b) @ c) h0 h3"
    by (rule seg_append [OF ab c]) (use L p in \<open>auto simp only: length_append\<close>)
  then show ?thesis by simp
qed

section \<open>Single instructions\<close>

lemma reop_opc: "reop (opc opcode) = Some (opcode, op_size opcode)"
  by (cases opcode) (simp_all add: reop_def opc_def reopcode_info_def op_size_def rd_def)

lemma op_at_opc:
  "opcode \<noteq> REOP_range \<Longrightarrow> opcode \<noteq> REOP_range32 \<Longrightarrow> op_at (opc opcode # r) 0 = Some (opcode, op_size opcode)"
  by (simp add: op_at_def rd_def reop_opc)

lemma get_u32_Cons: "get_u32 (x # u32_bytes v @ r) 1 = Some v"
  by (simp add: get_u32_def slice_def)

lemma get_u16_Cons: "get_u16 (x # u16_bytes v @ r) 1 = Some (ucast v)"
  by (simp add: get_u16_def slice_def)

lemma op_at_range:
  "op_at (opc REOP_range # u16_bytes n @ r) 0 = Some (REOP_range, 3 + unat n * 4)"
  "op_at (opc REOP_range32 # u16_bytes n @ r) 0 = Some (REOP_range32, 3 + unat n * 8)"
  using get_u16_Cons [of _ n r]
  by (simp_all add: op_at_def rd_def reop_opc op_size_def reopcode_info_def unat_ucast_up)

text \<open>An instruction before a fragment.\<close>

lemma seg_Cons:
  assumes op: "op_at (i @ r) 0 = Some (opcode, length i)" and n: "i \<noteq> []"
    and r: "seg cc Lr r (next_height opcode h) he" and Lr: "lshift (int (length i)) 0 Lr \<subseteq> L"
    and ok: "insn_ok (i @ r) cc ({(0, h), (int (length i), next_height opcode h), (int (length i + length r), he)} \<union> L)
      0 h opcode (length i)"
  shows "seg cc L (i @ r) h he"
proof -
  define c where "c = i @ r"
  have pop: "\<not> (opcode \<in> {REOP_drop, REOP_bne_char_pos} \<and> h = 0)" using ok by (auto simp: insn_ok_def pops_def)
  have w: "walk c (length c) 0 h = Some he"
    using walk_shift [of i r "length r" 0 "next_height opcode h"] segD [OF r] op n pop
    by (subst walk.simps) (simp add: c_def)
  have ins: "insns c (length c) 0 h = (0, h) # map (shift (length i) 0) (insns r (length r) 0 (next_height opcode h))"
    using insns_shift [of i r "length r" 0 "next_height opcode h"] op n
    by (subst insns.simps) (simp add: c_def)
  have labs: "labs c h he = insert (0, h) (lshift (int (length i)) 0 (labs r (next_height opcode h) he))"
    unfolding labs_def ins
    by (simp add: image_image lshift_def shift_def case_prod_beta add.commute insert_commute c_def)
  have z: "(0, h) \<in> labs c h he" by (simp add: labs)
  have st: "(int (length i), next_height opcode h) \<in> labs c h he"
    using lshiftI [OF labs_start [OF segD [OF r]], of "int (length i)" 0] by (simp add: labs)
  have "rel_ok c cc (labs c h he \<union> L) 0 h"
  proof -
    have "rel_ok c cc ({(0, h), (int (length i), next_height opcode h), (int (length i + length r), he)} \<union> L) 0 h"
      using op ok unfolding rel_ok_def c_def by blast
    then show ?thesis
      by (rule rel_ok_mono) (use st z labs_end [of c he h] in \<open>auto simp: c_def\<close>)
  qed
  moreover have "rel_ok c cc (labs c h he \<union> L) (length i + p) h'"
    if "(p, h') \<in> set (insns r (length r) 0 (next_height opcode h))" for p h'
  proof -
    have "rel_ok r cc (labs r (next_height opcode h) he \<union> Lr) p h'" using r that by (auto simp: seg_def)
    then have "rel_ok c cc (lshift (int (length i)) 0 (labs r (next_height opcode h) he \<union> Lr)) (length i + p) h'"
      unfolding c_def by (rule rel_ok_append2)
    then show ?thesis by (rule rel_ok_mono) (use Lr in \<open>auto simp: labs\<close>)
  qed
  ultimately show ?thesis using w by (auto simp: seg_def ins shift_def add.commute c_def [symmetric])
qed

lemma seg_insn:
  assumes "op_at c 0 = Some (opcode, length c)" "c \<noteq> []"
    and "insn_ok c cc ({(0, h), (int (length c), next_height opcode h)} \<union> L) 0 h opcode (length c)"
  shows "seg cc L c h (next_height opcode h)"
  using seg_Cons [of c "[]" opcode cc "{}" h "next_height opcode h" L] assms by (simp add: seg_Nil)

lemmas op_sizes = op_size_def reopcode_info_def

definition plain :: "REOPCodeEnum \<Rightarrow> bool" where
  "plain opcode \<longleftrightarrow> opcode \<in> {REOP_char, REOP_char32, REOP_dot, REOP_any, REOP_line_start, REOP_line_end,
     REOP_word_boundary, REOP_not_word_boundary, REOP_back_reference, REOP_backward_back_reference, REOP_prev}"

lemma closed_plain:
  assumes "plain opcode" and "op_size opcode = Suc (length ops)"
  shows "closed cc (opc opcode # ops)"
proof -
  have p: "opcode \<noteq> REOP_range" "opcode \<noteq> REOP_range32" "next_height opcode 0 = 0"
    using assms(1) by (auto simp: plain_def next_height_def)
  have "insn_ok (opc opcode # ops) cc ({(0, 0), (int (Suc (length ops)), 0)} \<union> {}) 0 0 opcode (Suc (length ops))"
    using assms(1) p(3)
    by (auto simp: insn_ok_def plain_def range_filled_def falls_def jumps_def pops_def max_capture_def)
  then show ?thesis
    using seg_insn [of "opc opcode # ops" opcode cc 0 "{}"] op_at_opc [OF p(1,2), of ops] p(3) assms(2)
    by (simp add: closed_def)
qed

lemma closed_op: "plain opcode \<Longrightarrow> op_size opcode = 1 \<Longrightarrow> closed cc [opc opcode]"
  by (rule closed_plain) auto

lemma closed_op_u8: "opcode \<in> {REOP_back_reference, REOP_backward_back_reference} \<Longrightarrow> closed cc [opc opcode, v]"
  by (rule closed_plain) (auto simp: plain_def op_sizes)

lemma closed_char: "closed cc (opc REOP_char # u16_bytes v)" "closed cc (opc REOP_char32 # u32_bytes w)"
  by (rule closed_plain; simp add: plain_def op_sizes)+

lemma closed_save:
  assumes "opcode \<in> {REOP_save_start, REOP_save_end}" and "unat v < cc"
  shows "closed cc [opc opcode, v]"
proof -
  have "next_height opcode 0 = 0" "op_size opcode = 2"
    and "op_at [opc opcode, v] 0 = Some (opcode, op_size opcode)"
    using assms(1) op_at_opc [of opcode "[v]"] by (auto simp: next_height_def op_sizes)
  moreover have "insn_ok [opc opcode, v] cc {(0, 0), (2, 0)} 0 0 opcode 2"
    using assms by (auto simp: insn_ok_def range_filled_def falls_def jumps_def pops_def max_capture_def next_height_def)
  ultimately show ?thesis using seg_insn [of "[opc opcode, v]" opcode cc 0 "{}"] by (simp add: closed_def numeral_2_eq_2)
qed

lemma closed_save_reset:
  assumes "unat v < cc"
  shows "closed cc [opc REOP_save_reset, u, v]"
proof -
  have "insn_ok [opc REOP_save_reset, u, v] cc {(0, 0), (3, 0)} 0 0 REOP_save_reset 3"
    using assms by (auto simp: insn_ok_def range_filled_def falls_def jumps_def pops_def max_capture_def next_height_def)
  then show ?thesis
    using seg_insn [of "[opc REOP_save_reset, u, v]" REOP_save_reset cc 0 "{}"] op_at_opc [of REOP_save_reset "[u, v]"]
    by (simp add: closed_def next_height_def op_sizes numeral_3_eq_3)
qed

lemma closed_range:
  assumes "opcode = REOP_range \<and> length tab = 4 * unat n \<or> opcode = REOP_range32 \<and> length tab = 8 * unat n" and "n \<noteq> 0"
  shows "closed cc (opc opcode # u16_bytes n @ tab)"
proof -
  define c where "c = opc opcode # u16_bytes n @ tab"
  have n: "unat n \<noteq> 0" using assms(2) by (simp add: unat_eq_zero)
  have op: "op_at c 0 = Some (opcode, length c)" using assms(1) op_at_range [of n tab] by (auto simp: c_def)
  have "3 < length c" using assms(1) n by (auto simp: c_def)
  then have "insn_ok c cc {(0, 0), (int (length c), 0)} 0 0 opcode (length c)"
    using assms(1) by (auto simp: insn_ok_def range_filled_def falls_def jumps_def pops_def max_capture_def next_height_def)
  moreover have "next_height opcode 0 = 0" using assms(1) by (auto simp: next_height_def)
  ultimately show ?thesis using seg_insn [OF op, of cc 0 "{}"] by (simp add: closed_def c_def)
qed

text \<open>The instructions that change the counters, jump or end a match.\<close>

lemma seg_push:
  "seg cc L (opc REOP_push_i32 # u32_bytes v) h (Suc h)" "seg cc L [opc REOP_push_char_pos] h (Suc h)"
  using seg_insn [of "opc REOP_push_i32 # u32_bytes v" REOP_push_i32 cc h L] op_at_opc [of REOP_push_i32 "u32_bytes v"]
    seg_insn [of "[opc REOP_push_char_pos]" REOP_push_char_pos cc h L] op_at_opc [of REOP_push_char_pos "[]"]
  by (simp_all add: op_sizes insn_ok_def range_filled_def falls_def jumps_def pops_def max_capture_def next_height_def)

lemma seg_drop: "seg cc L [opc REOP_drop] (Suc h) h"
  using seg_insn [of "[opc REOP_drop]" REOP_drop cc "Suc h" L] op_at_opc [of REOP_drop "[]"]
  by (simp add: op_sizes insn_ok_def range_filled_def falls_def jumps_def pops_def max_capture_def next_height_def)

lemma seg_match: "seg cc L [opc REOP_match] h h"
  using seg_insn [of "[opc REOP_match]" REOP_match cc h L] op_at_opc [of REOP_match "[]"]
  by (simp add: op_sizes insn_ok_def range_filled_def falls_def jumps_def pops_def max_capture_def next_height_def)

lemma seg_jump:
  assumes "jumps opcode" and "pops opcode \<longrightarrow> 0 < h" and "5 + sint v = t"
  shows "seg cc {(t, next_height opcode h)} (opc opcode # u32_bytes v) h (next_height opcode h)"
proof -
  define c where "c = opc opcode # u32_bytes v"
  have op: "opcode \<noteq> REOP_range" "opcode \<noteq> REOP_range32" "op_size opcode = 5"
    and no: "range_filled opcode 5" "opcode \<noteq> REOP_invalid" "max_capture c 0 opcode = None" "opcode \<noteq> REOP_simple_greedy_quant"
    using assms(1) by (auto simp: jumps_def op_sizes range_filled_def max_capture_def)
  have g: "get_u32 c (0 + 1) = Some v" using get_u32_Cons [of _ v "[]"] by (simp add: c_def)
  have "insn_ok c cc ({(0, h), (int (length c), next_height opcode h)} \<union> {(t, next_height opcode h)}) 0 h opcode (length c)"
    unfolding insn_ok_def lab_jump_def g using assms no by (simp add: c_def)
  then have "seg cc {(t, next_height opcode h)} c h (next_height opcode h)"
    using op_at_opc [OF op(1,2), of "u32_bytes v"] op(3) by (intro seg_insn) (simp_all add: c_def)
  then show ?thesis by (simp add: c_def)
qed

section \<open>The code of the constructs\<close>

lemma sint_of_int_small: "- (2 ^ 31) \<le> k \<Longrightarrow> k < 2 ^ 31 \<Longrightarrow> sint (word_of_int k :: u32) = k"
  by (simp add: signed_of_int signed_take_bit_int_eq_self)

lemma sint_of_nat_small: "n < 2 ^ 31 \<Longrightarrow> sint (of_nat n :: u32) = int n"
  using sint_of_int_small [of "int n"] by (simp add: of_nat_less_iff [of n "2 ^ 31", where 'a = int, symmetric])

lemma sint_minus_small: "n \<le> 2 ^ 31 \<Longrightarrow> sint (- of_nat n :: u32) = - int n"
  using sint_of_int_small [of "- int n"] by simp

definition is_split :: "REOPCodeEnum \<Rightarrow> bool" where
  "is_split opcode \<longleftrightarrow> opcode = REOP_split_goto_first \<or> opcode = REOP_split_next_first"

lemma jump_kinds:
  "is_split opcode \<Longrightarrow> jumps opcode \<and> \<not> pops opcode \<and> next_height opcode h = h"
  "jumps REOP_goto \<and> \<not> pops REOP_goto \<and> next_height REOP_goto h = h"
  "jumps REOP_loop \<and> next_height REOP_loop h = h"
  "jumps REOP_bne_char_pos \<and> next_height REOP_bne_char_pos (Suc h) = h"
  "jumps REOP_lookahead \<and> \<not> pops REOP_lookahead \<and> next_height REOP_lookahead h = h"
  "jumps REOP_negative_lookahead \<and> \<not> pops REOP_negative_lookahead \<and> next_height REOP_negative_lookahead h = h"
  by (auto simp: is_split_def jumps_def pops_def next_height_def)

lemma seg_split: "is_split opcode \<Longrightarrow> 5 + sint v = t \<Longrightarrow> seg cc {(t, h)} (opc opcode # u32_bytes v) h h"
  using seg_jump [of opcode h v t cc] jump_kinds(1) [of opcode h] by simp

lemma seg_goto: "5 + sint v = t \<Longrightarrow> seg cc {(t, h)} (opc REOP_goto # u32_bytes v) h h"
  using seg_jump [of REOP_goto h v t cc] jump_kinds(2) [of h] by simp

lemma seg_loop: "5 + sint v = t \<Longrightarrow> seg cc {(t, Suc h)} (opc REOP_loop # u32_bytes v) (Suc h) (Suc h)"
  using seg_jump [of REOP_loop "Suc h" v t cc] jump_kinds(3) [of "Suc h"] by simp

lemma seg_bne: "5 + sint v = t \<Longrightarrow> seg cc {(t, h)} (opc REOP_bne_char_pos # u32_bytes v) (Suc h) h"
  using seg_jump [of REOP_bne_char_pos "Suc h" v t cc] jump_kinds(4) [of h] by simp

lemma closed_optional:
  assumes "is_split opcode" "closed cc a" "sint v = int (length a)"
  shows "closed cc ((opc opcode # u32_bytes v) @ a)"
  unfolding closed_def
  by (rule seg2 [OF seg_split [OF assms(1) refl] assms(2) [unfolded closed_def]]) (simp add: assms(3))

lemma closed_star:
  assumes "is_split opcode" "closed cc a" "sint v = int (length a) + 5" "sint w = - (int (length a) + 10)"
  shows "closed cc ((opc opcode # u32_bytes v) @ a @ (opc REOP_goto # u32_bytes w))"
  unfolding closed_def
  by (rule seg3 [OF seg_split [OF assms(1) refl] assms(2) [unfolded closed_def] seg_goto [OF refl]]) (simp add: assms(3,4))

lemma closed_checked_star:
  assumes "is_split opcode" "closed cc a" "sint v = int (length a) + 6" "sint w = - (int (length a) + 11)"
  shows "closed cc ((opc opcode # u32_bytes v) @ ([opc REOP_push_char_pos] @ a) @ (opc REOP_bne_char_pos # u32_bytes w))"
proof -
  have "seg cc {} ([opc REOP_push_char_pos] @ a) 0 (Suc 0)"
    by (rule seg2 [OF seg_push(2) [where L = "{}"] closed_at [OF assms(2)]]) simp
  from seg3 [OF seg_split [OF assms(1) refl] this seg_bne [OF refl]] show ?thesis
    by (simp add: closed_def assms(3,4))
qed

lemma closed_counted_star:
  assumes "is_split opcode" "closed cc a" "sint v = int (length a) + 5" "sint w = - (int (length a) + 10)"
  shows "closed cc ((opc REOP_push_i32 # u32_bytes n) @
    ((opc opcode # u32_bytes v) @ a @ (opc REOP_loop # u32_bytes w)) @ [opc REOP_drop])"
proof -
  have "seg cc {} ((opc opcode # u32_bytes v) @ a @ (opc REOP_loop # u32_bytes w)) (Suc 0) (Suc 0)"
    by (rule seg3 [OF seg_split [OF assms(1) refl] closed_at [OF assms(2)] seg_loop [OF refl]]) (simp add: assms(3,4))
  from seg3 [OF seg_push(1) this seg_drop, of "{}" n "{}"] show ?thesis by (simp add: closed_def)
qed

lemma closed_plus:
  assumes "is_split opcode" "closed cc a" "sint w = - (int (length a) + 5)"
  shows "closed cc (a @ (opc opcode # u32_bytes w))"
  unfolding closed_def
  by (rule seg2 [OF assms(2) [unfolded closed_def] seg_split [OF assms(1) refl]]) (simp add: assms(3))

lemma closed_repeat:
  assumes "closed cc a" "sint w = - (int (length a) + 5)"
  shows "closed cc ((opc REOP_push_i32 # u32_bytes n) @ (a @ (opc REOP_loop # u32_bytes w)) @ [opc REOP_drop])"
proof -
  have "seg cc {} (a @ (opc REOP_loop # u32_bytes w)) (Suc 0) (Suc 0)"
    by (rule seg2 [OF closed_at [OF assms(1)] seg_loop [OF refl]]) (simp add: assms(2))
  from seg3 [OF seg_push(1) this seg_drop, of "{}" n "{}"] show ?thesis by (simp add: closed_def)
qed

lemma closed_lookahead:
  assumes "opcode = REOP_lookahead \<or> opcode = REOP_negative_lookahead" "closed cc a" "sint v = int (length a) + 1"
  shows "closed cc ((opc opcode # u32_bytes v) @ a @ [opc REOP_match])"
proof -
  have "seg cc {(5 + sint v, 0)} (opc opcode # u32_bytes v) 0 0"
    using assms(1) seg_jump [of opcode 0 v "5 + sint v" cc] jump_kinds(5,6) [of 0] by auto
  from seg3 [OF this assms(2) [unfolded closed_def] seg_match, of "{}" "{}"] show ?thesis
    by (simp add: closed_def assms(3))
qed

lemma closed_disjunction:
  assumes "closed cc a" "closed cc b" "sint v = int (length a) + 5" "sint w = int (length b)"
  shows "closed cc ((opc REOP_split_next_first # u32_bytes v) @ a @ (opc REOP_goto # u32_bytes w) @ b)"
proof -
  have sp: "is_split REOP_split_next_first" by (simp add: is_split_def)
  have "seg cc {(int (length a + 10 + length b), 0)}
      ((opc REOP_split_next_first # u32_bytes v) @ a @ (opc REOP_goto # u32_bytes w)) 0 0"
    by (rule seg3 [OF seg_split [OF sp refl] assms(1) [unfolded closed_def] seg_goto [OF refl]]) (simp add: assms(3,4))
  from seg2 [OF this assms(2) [unfolded closed_def], of "{}"] show ?thesis by (simp add: closed_def)
qed

lemma closed_simple_quantifier:
  assumes "closed cc a" "simple_body (a @ [opc REOP_match]) 0 n" "n < 2 ^ 32" "sint v = int (length a) + 1"
  shows "closed cc ((opc REOP_simple_greedy_quant # u32_bytes v @ u32_bytes mn @ u32_bytes mx @ u32_bytes (of_nat n)) @
    a @ [opc REOP_match])"
proof -
  define i where "i = opc REOP_simple_greedy_quant # u32_bytes v @ u32_bytes mn @ u32_bytes mx @ u32_bytes (of_nat n)"
  define r where "r = a @ [opc REOP_match]"
  have len: "length i = 17" by (simp add: i_def)
  have r: "seg cc {} r 0 0" unfolding r_def by (rule seg2 [OF assms(1) [unfolded closed_def] seg_match [where L = "{}"]]) simp
  have op: "op_at (i @ r) 0 = Some (REOP_simple_greedy_quant, length i)"
    using op_at_opc [of REOP_simple_greedy_quant] unfolding len by (simp add: i_def op_sizes)
  have v: "get_u32 (i @ r) (0 + 1) = Some v" using get_u32_Cons [of _ v] by (simp add: i_def)
  have "get_u32 ((opc REOP_simple_greedy_quant # u32_bytes v @ u32_bytes mn @ u32_bytes mx) @ u32_bytes (of_nat n) @ r) (13 + 0)
      = Some (of_nat n)"
    using get_u32_append(2) [of "opc REOP_simple_greedy_quant # u32_bytes v @ u32_bytes mn @ u32_bytes mx" "u32_bytes (of_nat n) @ r" 0]
    by (simp add: get_u32_def slice_def)
  then have n: "get_u32 (i @ r) (0 + 13) = Some (of_nat n)" by (simp add: i_def)
  have b: "simple_body (i @ r) (0 + 17) (unat (of_nat n :: u32))"
    using simple_body_append2 [of i r 0 n] assms(2,3) by (simp add: len r_def unat_of_nat)
  have "quant_ok (i @ r) ({(0, 0), (int (length i), 0), (int (length i + length r), 0)} \<union> {}) 0 0"
    unfolding quant_ok_def lab_jump_def v using n b by (simp add: len r_def assms(4))
  then have "insn_ok (i @ r) cc ({(0, 0), (int (length i), 0), (int (length i + length r), 0)} \<union> {}) 0 0
      REOP_simple_greedy_quant (length i)"
    by (simp add: insn_ok_def len range_filled_def falls_def jumps_def pops_def max_capture_def)
  with seg_Cons [of i r REOP_simple_greedy_quant cc "{}" 0 0 "{}"] r op len show ?thesis
    by (simp add: closed_def next_height_def i_def r_def)
qed

section \<open>Whole programs\<close>

lemma insns_prefix:
  "walk a e pos h = Some h' \<Longrightarrow> insns (a @ b) e pos h = insns a e pos h"
proof (induction a e pos h rule: walk.induct)
  case (1 a e pos h)
  show ?case
  proof (cases "pos < e")
    case True
    then obtain opcode len where op: "op_at a pos = Some (opcode, len)"
      and n: "\<not> (opcode \<in> {REOP_drop, REOP_bne_char_pos} \<and> h = 0 \<or> e < pos + len)"
      and w: "walk a e (pos + len) (next_height opcode h) = Some h'"
      using "1.prems" by (subst (asm) walk.simps) (auto split: option.splits if_splits)
    show ?thesis
      using True op op_at_append [OF op, of b] "1.IH" [OF True op refl n w]
      by (simp add: insns.simps [of "a @ b" e pos] insns.simps [of a e pos])
  qed (simp add: insns.simps [of _ e pos])
qed

lemma insns_bound: "(p, h') \<in> set (insns c e pos h) \<Longrightarrow> p < e \<and> pos \<le> p"
proof (induction c e pos h rule: insns.induct)
  case (1 c e pos h)
  have "\<not> pos < e \<Longrightarrow> insns c e pos h = []" by (simp add: insns.simps [of c e pos])
  with "1.prems" have "pos < e" by (metis emptyE list.set(1))
  obtain opcode len where op: "op_at c pos = Some (opcode, len)"
  proof (cases "op_at c pos")
    case None
    then have "insns c e pos h = []" by (simp add: insns.simps [of c e pos])
    with "1.prems" show ?thesis by simp
  qed auto
  with \<open>pos < e\<close> have "(p, h') = (pos, h) \<or> (p, h') \<in> set (insns c e (pos + len) (next_height opcode h))"
    using "1.prems" by (simp add: insns.simps [of c e pos])
  with "1.IH" [OF \<open>pos < e\<close> op refl] \<open>pos < e\<close> show ?case by auto
qed

text \<open>No height is above what \<open>compute_stack_size\<close> computes.\<close>

lemma stack_size_loop_bounds:
  "stack_size_loop c e pos h m = Some (Some ss) \<Longrightarrow> h \<le> m \<Longrightarrow>
     m \<le> ss \<and> (m \<le> STACK_SIZE_MAX \<longrightarrow> ss \<le> STACK_SIZE_MAX) \<and> (\<forall>(p, h') \<in> set (insns c e pos h). h' \<le> ss)"
proof (induction c e pos h m rule: stack_size_loop.induct)
  case (1 c e pos h m)
  show ?case
  proof (cases "pos < e")
    case True
    then obtain opcode len where op: "op_at c pos = Some (opcode, len)"
      and b: "pos + snd (reopcode_info ! unat (c ! pos)) \<le> e"
      using "1.prems" by (subst (asm) stack_size_loop.simps) (auto split: option.splits if_splits)
    have ins: "insns c e pos h = (pos, h) # insns c e (pos + len) (next_height opcode h)"
      using True op by (simp add: insns.simps [of c e pos])
    consider "opcode \<in> {REOP_push_i32, REOP_push_char_pos}" | "opcode \<in> {REOP_drop, REOP_bne_char_pos}"
      | "opcode \<notin> {REOP_push_i32, REOP_push_char_pos}" "opcode \<notin> {REOP_drop, REOP_bne_char_pos}" by blast
    then show ?thesis
    proof cases
      case push: 1
      then have nh: "next_height opcode h = h + 1" by (simp add: next_height_def)
      show ?thesis
      proof (cases "h + 1 > m")
        case m: True
        then have "stack_size_loop c e (pos + len) (h + 1) (h + 1) = Some (Some ss)" "h + 1 \<le> STACK_SIZE_MAX"
          using "1.prems"(1) True op b push by (subst (asm) stack_size_loop.simps, simp split: if_splits)+
        with "1.IH"(1) [OF True op refl b push m] m "1.prems"(2) show ?thesis by (fastforce simp: ins nh)
      next
        case m: False
        then have "stack_size_loop c e (pos + len) (h + 1) m = Some (Some ss)"
          using "1.prems"(1) True op b push by (subst (asm) stack_size_loop.simps) (simp split: if_splits)
        with "1.IH"(2) [OF True op refl b push m] m "1.prems"(2) show ?thesis by (fastforce simp: ins nh)
      qed
    next
      case drop: 2
      then have nh: "next_height opcode h = h - 1" "opcode \<notin> {REOP_push_i32, REOP_push_char_pos}"
        by (auto simp: next_height_def)
      then have l: "stack_size_loop c e (pos + len) (h - 1) m = Some (Some ss)" "h > 0"
        using "1.prems"(1) True op b drop by (subst (asm) stack_size_loop.simps, simp split: if_splits)+
      with "1.IH"(3) [OF True op refl b nh(2) drop] "1.prems"(2) show ?thesis by (fastforce simp: ins nh)
    next
      case other: 3
      then have nh: "next_height opcode h = h" by (auto simp: next_height_def)
      have "stack_size_loop c e (pos + len) h m = Some (Some ss)"
        using "1.prems"(1) True op b other by (subst (asm) stack_size_loop.simps) (simp split: if_splits)
      with "1.IH"(4) [OF True op refl b other] "1.prems"(2) show ?thesis by (fastforce simp: ins nh)
    qed
  next
    case False
    then show ?thesis using "1.prems" by (subst (asm) stack_size_loop.simps) (simp add: insns.simps [of c e pos])
  qed
qed

lemma lab_jump_ok:
  assumes "lab_jump c ((\<lambda>(p, h). (int p, h)) ` X) q base h" and "\<forall>(p, h) \<in> X. p \<le> length c"
  shows "jump_ok c X q base h"
proof -
  obtain v where v: "get_u32 c q = Some v" "(int base + sint v, h) \<in> (\<lambda>(p, h). (int p, h)) ` X"
    using assms(1) by (auto simp: lab_jump_def split: option.splits)
  then obtain p where p: "(p, h) \<in> X" "int base + sint v = int p" by auto
  with assms(2) have "p \<le> length c" by auto
  with p v show ?thesis by (simp add: jump_ok_def pc_add_def)
qed

lemma rel_ok_op_ok:
  assumes ok: "rel_ok c cc ((\<lambda>(p, h). (int p, h)) ` X) pos h" and X: "\<forall>(p, h) \<in> X. p \<le> length c"
  shows "op_ok c cc X pos h"
proof -
  obtain opcode len where op: "op_at c pos = Some (opcode, len)"
    and i: "insn_ok c cc ((\<lambda>(p, h). (int p, h)) ` X) pos h opcode len"
    using ok unfolding rel_ok_def by blast
  have mem: "(int t, k) \<in> (\<lambda>(p, h). (int p, h)) ` X \<Longrightarrow> (t, k) \<in> X" for t k by auto
  have j: "jumps opcode \<Longrightarrow> jump_ok c X (pos + 1) (pos + 5) (next_height opcode h)"
    using i lab_jump_ok [OF _ X] by (simp add: insn_ok_def)
  have q: "opcode = REOP_simple_greedy_quant \<Longrightarrow> jump_ok c X (pos + 1) (pos + 17) h \<and>
      (\<exists>n. get_u32 c (pos + 13) = Some n \<and> simple_body c (pos + 17) (unat n))"
    using i lab_jump_ok [OF _ X] by (auto simp: insn_ok_def quant_ok_def)
  have "falls opcode \<longrightarrow> (pos + len, next_height opcode h) \<in> X" using i mem by (simp add: insn_ok_def)
  moreover have "pos + len \<le> length c" "range_filled opcode len" "opcode \<noteq> REOP_invalid" "pops opcode \<longrightarrow> 0 < h"
    "\<forall>i. max_capture c pos opcode = Some i \<longrightarrow> i < cc"
    using i by (simp_all add: insn_ok_def)
  ultimately show ?thesis
    unfolding op_ok_def op using j q
    by (cases opcode) (auto simp: falls_def jumps_def pops_def max_capture_def next_height_def)
qed

lemma closed_re_code_ok:
  assumes c: "closed cc c" and cc: "cc \<le> 255" and ss: "ss \<le> 255" and len: "length c + 1 < 2 ^ 32"
    and hdr: "length hdr = 7" "hdr ! 1 = of_nat cc" "hdr ! 2 = of_nat ss" "drop 3 hdr = u32_bytes (of_nat (length c + 1))"
    and h: "\<forall>(p, h) \<in> set (insns (c @ [opc REOP_match]) (length c + 1) 0 0). h \<le> ss"
  shows "re_code_ok (hdr @ (c @ [opc REOP_match]) @ names)"
proof -
  define b where "b = c @ [opc REOP_match]"
  define bc where "bc = hdr @ b @ names"
  define I where "I = set (insns b (length b) 0 0)"
  define X where "X = shift 7 0 ` I"
  note w = segD [OF c [unfolded closed_def]]
  have sb: "walk b (length b) 0 0 = Some 0" and ib: "I = insert (length c, 0) (set (insns c (length c) 0 0))"
    using walk_append [OF w, of "[opc REOP_match]"] op_at_opc [of REOP_match "[]"]
    by (simp_all add: b_def I_def walk.simps [of "[_]" "Suc 0"] insns.simps [of "[_]" "Suc 0"] op_sizes next_height_def shift_def)
  have L: "(\<lambda>(p, h). (int p, h)) ` I = labs c 0 0" by (simp add: labs_def ib)
  have rel: "rel_ok b cc ((\<lambda>(p, h). (int p, h)) ` I) p h" if "(p, h) \<in> I" for p h
  proof (cases "(p, h) \<in> set (insns c (length c) 0 0)")
    case True
    then have "rel_ok c cc (labs c 0 0) p h" using c by (auto simp: closed_def seg_def)
    then show ?thesis unfolding L b_def by (rule rel_ok_append)
  next
    case False
    then have ph: "p = length c" "h = 0" using that by (auto simp: ib)
    have "rel_ok [opc REOP_match] cc {} 0 0"
      using op_at_opc [of REOP_match "[]"]
      by (simp add: rel_ok_def insn_ok_def op_sizes range_filled_def falls_def jumps_def pops_def max_capture_def)
    from rel_ok_append2 [OF this, of c] have "rel_ok b cc {} p h" by (simp add: b_def ph)
    then show ?thesis by (rule rel_ok_mono) simp_all
  qed
  have ins: "insns bc (7 + length b) 7 0 = map (shift 7 0) (insns b (length b) 0 0)"
    using insns_shift [of hdr "b @ names" "length b" 0 0] insns_prefix [OF sb, of names] hdr(1) by (simp add: bc_def)
  have X: "\<forall>(p, h) \<in> X. p \<le> length bc"
  proof -
    have "p < length b" if "(p, h) \<in> I" for p h using insns_bound [of p h b "length b" 0 0] that by (simp add: I_def)
    moreover have "length bc = 7 + length b + length names" using hdr(1) by (simp add: bc_def)
    ultimately have "p + 7 \<le> length bc" if "(p, h) \<in> I" for p h using that by fastforce
    then show ?thesis by (auto simp: X_def shift_def)
  qed
  have img: "(\<lambda>(p, h). (int p, h)) ` X = lshift 7 0 ((\<lambda>(p, h). (int p, h)) ` I)"
    by (simp add: X_def image_image lshift_def shift_def case_prod_beta)
  have "op_ok bc cc X (7 + p) h" if "(p, h) \<in> I" for p h
  proof (rule rel_ok_op_ok [OF _ X])
    have "rel_ok (b @ names) cc ((\<lambda>(p, h). (int p, h)) ` I) p h" using rel [OF that] by (rule rel_ok_append)
    from rel_ok_append2 [OF this, of hdr] show "rel_ok bc cc ((\<lambda>(p, h). (int p, h)) ` X) (7 + p) h"
      by (simp add: img bc_def hdr(1))
  qed
  moreover have "h \<le> ss" if "(p, h) \<in> I" for p h using h that by (auto simp: I_def b_def)
  ultimately have "code_ok bc cc ss X" by (auto simp: code_ok_def X_def shift_def add.commute)
  moreover have "(7, 0) \<in> X"
  proof -
    have "(0, 0) \<in> I" using labs_start [OF w] by (auto simp: L [symmetric])
    then show ?thesis by (force simp: X_def shift_def)
  qed
  moreover have "rd bc 1 = Some (of_nat cc)" "rd bc 2 = Some (of_nat ss)"
    using hdr by (simp_all add: rd_def bc_def nth_append)
  moreover have "get_u32 bc 3 = Some (of_nat (length b))"
  proof -
    have "hdr = take 3 hdr @ u32_bytes (of_nat (length c + 1))" using hdr(4) append_take_drop_id [of 3 hdr] by simp
    then have "bc = take 3 hdr @ u32_bytes (of_nat (length b)) @ b @ names" by (simp add: bc_def b_def)
    moreover have "get_u32 (take 3 hdr @ u32_bytes (of_nat (length b)) @ b @ names) (length (take 3 hdr) + 0) = Some (of_nat (length b))"
      by (simp only: get_u32_append(2)) (simp add: get_u32_def slice_def)
    ultimately show ?thesis using hdr(1) by simp
  qed
  ultimately show ?thesis
    using cc ss len ins hdr(1)
    by (simp add: re_code_ok_def RE_HEADER_CAPTURE_COUNT_def RE_HEADER_STACK_SIZE_def RE_HEADER_LEN_def unat_of_nat
        b_def [symmetric] bc_def [symmetric] X_def I_def) (simp add: bc_def b_def)
qed

end
