(* ===== verification/EmitSpec.thy ===== *)
theory EmitSpec
  imports RangeParity RegexpCode
begin

text \<open>
  What the emit functions of the compiler do to the code, when no allocation has failed: the error flag of the code buffer is
  never cleared, so a buffer that has no error at the end had none before, and every function appended to, patched or opened
  a gap in the code it found.
\<close>

definition err :: "REParseState \<Rightarrow> bool" where
  "err s = db_error (ps_byte_code s)"

definition code :: "REParseState \<Rightarrow> u8 list" where
  "code s = dbuf_bytes (ps_byte_code s)"

text \<open>An allocator that never gives a block of 2 GiB or more.\<close>

definition small_blocks :: "u8 realloc_fun \<Rightarrow> bool" where
  "small_blocks f \<longleftrightarrow> (\<forall>opq b n b'. f opq b n = Some b' \<longrightarrow> length b' < 2 ^ 31)"

definition buf_wf :: "DynBuf \<Rightarrow> bool" where
  "buf_wf b \<longleftrightarrow> dbuf_ok b \<and> db_allocated_size b < 2 ^ 31 \<and> small_blocks (db_realloc_func b)"

definition st_ok :: "REParseState \<Rightarrow> bool" where
  "st_ok s \<longleftrightarrow> buf_wf (ps_byte_code s) \<and> 0 < ps_capture_count s \<and> ps_capture_count s \<le> CAPTURE_COUNT_MAX"

section \<open>The buffer\<close>

lemma buf_wf_bytes:
  assumes "buf_wf b"
  shows "length (dbuf_bytes b) = db_size b" "db_size b < 2 ^ 31"
  using assms by (auto simp: buf_wf_def dbuf_bytes_def dbuf_ok_def)

lemma dbuf_realloc_D:
  assumes r: "dbuf_realloc b n = (r, b')"
  shows "\<not> db_error b' \<Longrightarrow> \<not> db_error b \<and> r = 0"
    and "n < 2 ^ 64 \<Longrightarrow> buf_wf b \<Longrightarrow> buf_wf b'"
proof -
  show "\<not> db_error b' \<Longrightarrow> \<not> db_error b \<and> r = 0"
    using r by (auto simp: dbuf_realloc_def Let_def split: if_splits option.splits)
  assume n: "n < 2 ^ 64" and st_ok: "buf_wf b"
  then have ok: "dbuf_ok b'" using dbuf_realloc_cases(1) [OF _ n r] by (simp add: buf_wf_def)
  have "db_realloc_func b' = db_realloc_func b \<and> (db_allocated_size b' = db_allocated_size b \<or>
      (\<exists>opq x m y. db_realloc_func b opq x m = Some y \<and> db_buf b' = y))"
    using r by (fastforce simp: dbuf_realloc_def Let_def split: if_splits option.splits)
  with ok st_ok show "buf_wf b'" by (auto simp: buf_wf_def small_blocks_def dbuf_ok_def) metis
qed

lemma buf_wf_update:
  "buf_wf b \<Longrightarrow> dbuf_ok b' \<Longrightarrow> db_realloc_func b' = db_realloc_func b \<Longrightarrow>
     db_allocated_size b' = db_allocated_size b \<Longrightarrow> buf_wf b'"
  by (simp add: buf_wf_def)

text \<open>The test that precedes a put, and the realloc that follows when it fails.\<close>

lemma grow_D:
  assumes g: "(if size_t (db_size b + n) > db_allocated_size b
      then dbuf_realloc b (size_t (db_size b + n)) else (0, b)) = (r, b')"
  shows "\<not> db_error b' \<Longrightarrow> \<not> db_error b \<and> r = 0"
    and "n < 2 ^ 63 \<Longrightarrow> buf_wf b \<Longrightarrow> buf_wf b'"
proof -
  show "\<not> db_error b' \<Longrightarrow> \<not> db_error b \<and> r = 0" using g dbuf_realloc_D(1) by (auto split: if_splits)
  show "n < 2 ^ 63 \<Longrightarrow> buf_wf b \<Longrightarrow> buf_wf b'"
    using g dbuf_realloc_D(2) [of b "db_size b + n" r b'] buf_wf_bytes(2) [of b] by (auto split: if_splits)
qed

lemma dbuf_put_D:
  assumes p: "dbuf_put b data = Some (r, b')" and e: "\<not> db_error b'"
  shows "\<not> db_error b" and "buf_wf b \<Longrightarrow> length data < 2 ^ 63 \<Longrightarrow> buf_wf b' \<and> dbuf_bytes b' = dbuf_bytes b @ data"
proof -
  obtain r1 b1 where g: "(if size_t (db_size b + length data) > db_allocated_size b
      then dbuf_realloc b (size_t (db_size b + length data)) else (0, b)) = (r1, b1)" by (metis surj_pair)
  have b1: "db_error b' = db_error b1" "db_realloc_func b' = db_realloc_func b1" "db_allocated_size b' = db_allocated_size b1"
    using p unfolding dbuf_put_def Let_def g by (auto simp: bind_Some_iff split: if_splits)
  with grow_D(1) [OF g] e show "\<not> db_error b" by simp
  assume st_ok: "buf_wf b" and d: "length data < 2 ^ 63"
  then have n: "db_size b + length data < 2 ^ 64" using buf_wf_bytes(2) [OF st_ok] by simp
  have "dbuf_ok b'" "dbuf_bytes b' = dbuf_bytes b @ data"
    using dbuf_put_cases [of b data] st_ok n p e by (fastforce simp: buf_wf_def)+
  with grow_D(2) [OF g d st_ok] buf_wf_update [of b1 b'] b1 show "buf_wf b' \<and> dbuf_bytes b' = dbuf_bytes b @ data" by simp
qed

lemma dbuf_put_self_D:
  assumes p: "dbuf_put_self b offset len = Some (r, b')" and e: "\<not> db_error b'"
  shows "\<not> db_error b" and "buf_wf b \<Longrightarrow> offset + len \<le> db_size b \<and>
    buf_wf b' \<and> dbuf_bytes b' = dbuf_bytes b @ take len (drop offset (dbuf_bytes b))"
proof -
  obtain r1 b1 where g: "(if size_t (db_size b + len) > db_allocated_size b
      then dbuf_realloc b (size_t (db_size b + len)) else (0, b)) = (r1, b1)" by (metis surj_pair)
  have b1: "db_error b' = db_error b1" "db_realloc_func b' = db_realloc_func b1" "db_allocated_size b' = db_allocated_size b1"
    using p unfolding dbuf_put_self_def Let_def g by (auto simp: bind_Some_iff split: if_splits)
  with grow_D(1) [OF g] e show "\<not> db_error b" by simp
  assume st_ok: "buf_wf b"
  have "r1 = 0" "db_size b1 = db_size b"
    using grow_D(1) [OF g] b1 e g by (auto simp: dbuf_realloc_def Let_def split: if_splits option.splits)
  then have src: "offset + len \<le> db_size b"
    using p unfolding dbuf_put_self_def Let_def g by (auto split: if_splits)
  then have n: "db_size b + len < 2 ^ 64" "len < 2 ^ 63" using buf_wf_bytes(2) [OF st_ok] by auto
  have "dbuf_ok b'" "dbuf_bytes b' = dbuf_bytes b @ take len (drop offset (dbuf_bytes b))"
    using dbuf_put_self_cases [OF _ n(1) src] st_ok p e by (fastforce simp: buf_wf_def)+
  with grow_D(2) [OF g n(2) st_ok] buf_wf_update [of b1 b'] b1 src
  show "offset + len \<le> db_size b \<and> buf_wf b' \<and> dbuf_bytes b' = dbuf_bytes b @ take len (drop offset (dbuf_bytes b))" by simp
qed

lemma dbuf_insert_D:
  assumes p: "dbuf_insert b pos len = Some (r, b')" and e: "\<not> db_error b'"
  shows "\<not> db_error b" and "buf_wf b \<Longrightarrow> len < 2 ^ 63 \<Longrightarrow> pos \<le> db_size b \<and>
    buf_wf b' \<and> (\<exists>gap. length gap = len \<and> dbuf_bytes b' = take pos (dbuf_bytes b) @ gap @ drop pos (dbuf_bytes b))"
proof -
  obtain r1 b1 where g: "dbuf_realloc b (size_t (db_size b + len)) = (r1, b1)" by (metis surj_pair)
  have b1: "db_error b' = db_error b1" "db_realloc_func b' = db_realloc_func b1" "db_allocated_size b' = db_allocated_size b1"
    using p unfolding dbuf_insert_def Let_def g by (auto simp: bind_Some_iff split: if_splits)
  with dbuf_realloc_D(1) [OF g] e show "\<not> db_error b" by simp
  assume st_ok: "buf_wf b" and len: "len < 2 ^ 63"
  have "r1 = 0" "db_size b1 = db_size b"
    using dbuf_realloc_D(1) [OF g] b1 e g by (auto simp: dbuf_realloc_def Let_def split: if_splits option.splits)
  then have pos: "pos \<le> db_size b"
    using p unfolding dbuf_insert_def Let_def g by (auto split: if_splits)
  have n: "db_size b + len < 2 ^ 64" using buf_wf_bytes(2) [OF st_ok] len by simp
  have "dbuf_ok b'" "\<exists>gap. length gap = len \<and> dbuf_bytes b' = take pos (dbuf_bytes b) @ gap @ drop pos (dbuf_bytes b)"
    using dbuf_insert_cases [OF _ n pos] st_ok p e by (fastforce simp: buf_wf_def)+
  with dbuf_realloc_D(2) [OF g] n st_ok buf_wf_update [of b1 b'] b1 pos
  show "pos \<le> db_size b \<and> buf_wf b' \<and> (\<exists>gap. length gap = len \<and> dbuf_bytes b' = take pos (dbuf_bytes b) @ gap @ drop pos (dbuf_bytes b))"
    by simp
qed

lemma buf_wf_overwrite:
  assumes "blit (db_buf b) pos data = Some m" "buf_wf b"
  shows "buf_wf (b\<lparr>db_buf := m\<rparr>)" and "pos + length data \<le> db_size b \<Longrightarrow>
    dbuf_bytes (b\<lparr>db_buf := m\<rparr>) = take pos (dbuf_bytes b) @ data @ drop (pos + length data) (dbuf_bytes b)"
proof -
  show "buf_wf (b\<lparr>db_buf := m\<rparr>)" using assms length_blit [OF assms(1)] by (simp add: buf_wf_def dbuf_ok_def)
  assume le: "pos + length data \<le> db_size b"
  then have "pos \<le> db_size b" by simp
  with assms le show "dbuf_bytes (b\<lparr>db_buf := m\<rparr>) = take pos (dbuf_bytes b) @ data @ drop (pos + length data) (dbuf_bytes b)"
    by (auto simp: dbuf_bytes_def blit_Some_iff buf_wf_def dbuf_ok_def drop_take min.absorb2)
qed

section \<open>Emitting\<close>

text \<open>
  \<open>moved Q s s'\<close>: if the code of \<open>s'\<close> is without error so is that of \<open>s\<close>, and the code went from one to the other as \<open>Q\<close> says; the captures
  are the same.
\<close>

definition moved :: "(u8 list \<Rightarrow> u8 list \<Rightarrow> bool) \<Rightarrow> REParseState \<Rightarrow> REParseState \<Rightarrow> bool" where
  "moved Q s s' \<longleftrightarrow> ps_capture_count s' = ps_capture_count s \<and>
     (\<not> err s' \<longrightarrow> \<not> err s \<and> (st_ok s \<longrightarrow> st_ok s' \<and> Q (code s) (code s')))"

abbreviation emits :: "u8 list \<Rightarrow> REParseState \<Rightarrow> REParseState \<Rightarrow> bool" where
  "emits c \<equiv> moved (\<lambda>a b. b = a @ c)"

lemma movedD:
  "moved Q s s' \<Longrightarrow> \<not> err s' \<Longrightarrow> \<not> err s" "moved Q s s' \<Longrightarrow> \<not> err s' \<Longrightarrow> st_ok s \<Longrightarrow> st_ok s'"
  "moved Q s s' \<Longrightarrow> \<not> err s' \<Longrightarrow> st_ok s \<Longrightarrow> Q (code s) (code s')"
  "moved Q s s' \<Longrightarrow> ps_capture_count s' = ps_capture_count s"
  by (auto simp: moved_def)

lemma moved_trans:
  "moved Q s s' \<Longrightarrow> moved R s' s'' \<Longrightarrow> (\<And>a b c. Q a b \<Longrightarrow> R b c \<Longrightarrow> S a c) \<Longrightarrow> moved S s s''"
  unfolding moved_def by metis

lemma emits_trans: "emits c s s' \<Longrightarrow> emits d s' s'' \<Longrightarrow> emits (c @ d) s s''"
  by (erule moved_trans, assumption) simp

lemma emits_refl: "emits [] s s" "moved (=) s s" "moved (\<lambda>a b. b = a) s s"
  by (simp_all add: moved_def)

lemma emits_put:
  "dbuf_put (ps_byte_code s) data = Some (r, b) \<Longrightarrow> length data < 2 ^ 63 \<Longrightarrow> emits data s (s\<lparr>ps_byte_code := b\<rparr>)"
  using dbuf_put_D [of "ps_byte_code s" data r b] by (auto simp: moved_def err_def st_ok_def code_def)

lemma re_emit_op_spec: "re_emit_op s opcode = Some s' \<Longrightarrow> emits [opc opcode] s s'"
  by (auto simp: re_emit_op_def dbuf_putc_def bind_Some_iff intro!: emits_put)

lemma emit_u32_spec: "emit_u32 s v = Some s' \<Longrightarrow> emits (u32_bytes v) s s'"
  by (auto simp: emit_u32_def dbuf_put_u32_def bind_Some_iff intro!: emits_put)

lemma emit_u16_spec: "emit_u16 s v = Some s' \<Longrightarrow> emits (u16_bytes (ucast v)) s s'"
  by (auto simp: emit_u16_def dbuf_put_u16_def bind_Some_iff intro!: emits_put)

lemma re_emit_op_u8_spec: "re_emit_op_u8 s opcode v = Some s' \<Longrightarrow> emits [opc opcode, ucast v] s s'"
proof -
  assume "re_emit_op_u8 s opcode v = Some s'"
  then obtain s1 r b where "re_emit_op s opcode = Some s1" "dbuf_put (ps_byte_code s1) [ucast v] = Some (r, b)"
    "s' = s1\<lparr>ps_byte_code := b\<rparr>"
    by (auto simp: re_emit_op_u8_def dbuf_putc_def bind_Some_iff)
  from emits_trans [OF re_emit_op_spec [OF this(1)] emits_put [OF this(2)]] this(3) show ?thesis by simp
qed

lemma re_emit_op_u16_spec: "re_emit_op_u16 s opcode v = Some s' \<Longrightarrow> emits (opc opcode # u16_bytes (ucast v)) s s'"
  by (auto simp: re_emit_op_u16_def bind_Some_iff dest!: re_emit_op_spec emit_u16_spec dest: emits_trans)

lemma code_size_eq: "st_ok s \<Longrightarrow> code_size s = length (code s)"
  using buf_wf_bytes(1) [of "ps_byte_code s"] by (simp add: st_ok_def code_def code_size_def)

lemma code_small: "st_ok s \<Longrightarrow> length (code s) < 2 ^ 31"
  using buf_wf_bytes [of "ps_byte_code s"] by (simp add: st_ok_def code_def)

lemma re_emit_op_u32_spec:
  assumes "re_emit_op_u32 s opcode v = Some (pos, s')"
  shows "emits (opc opcode # u32_bytes v) s s'" and "st_ok s \<Longrightarrow> \<not> err s' \<Longrightarrow> pos = length (code s) + 1"
proof -
  obtain s1 where s1: "re_emit_op s opcode = Some s1" "emit_u32 s1 v = Some s'" "pos = code_size s1"
    using assms by (auto simp: re_emit_op_u32_def bind_Some_iff code_size_def)
  note e = re_emit_op_spec [OF s1(1)] emit_u32_spec [OF s1(2)]
  from emits_trans [OF e] show "emits (opc opcode # u32_bytes v) s s'" by simp
  show "st_ok s \<Longrightarrow> \<not> err s' \<Longrightarrow> pos = length (code s) + 1"
    using movedD [OF e(1)] movedD(1) [OF e(2)] code_size_eq [of s1] s1(3) by simp
qed

lemma re_emit_goto_spec:
  assumes "re_emit_goto s opcode v = Some (pos, s')"
  shows "moved (\<lambda>a b. b = a @ (opc opcode # u32_bytes (v - of_nat (length a + 5)))) s s'"
proof -
  obtain s1 where s1: "re_emit_op s opcode = Some s1" "emit_u32 s1 (v - (of_nat (code_size s1) + 4)) = Some s'"
    using assms by (auto simp: re_emit_goto_def bind_Some_iff code_size_def Let_def)
  note e = re_emit_op_spec [OF s1(1)] emit_u32_spec [OF s1(2)]
  have "st_ok s \<Longrightarrow> \<not> err s1 \<Longrightarrow> code_size s1 = length (code s) + 1"
    using movedD [OF e(1)] code_size_eq [of s1] by simp
  with e show ?thesis by (auto simp: moved_def algebra_simps)
qed

lemma emit_if_spec: "emit_if b s opcode = Some s' \<Longrightarrow> emits (if b then [opc opcode] else []) s s'"
  by (auto simp: emit_if_def emits_refl dest: re_emit_op_spec)

lemma put_self_spec:
  "put_self s offset len = Some s' \<Longrightarrow>
     moved (\<lambda>a b. offset + len \<le> length a \<and> b = a @ take len (drop offset a)) s s'"
  using dbuf_put_self_D [of "ps_byte_code s" offset len] buf_wf_bytes(1) [of "ps_byte_code s"]
  by (fastforce simp: put_self_def bind_Some_iff moved_def err_def st_ok_def code_def)

lemma patch_u32_spec:
  assumes "patch_u32 s pos v = Some s'"
  shows "moved (\<lambda>a b. pos + 4 \<le> length a \<longrightarrow> b = take pos a @ u32_bytes v @ drop (pos + 4) a) s s'"
proof -
  obtain m where m: "blit (db_buf (ps_byte_code s)) pos (u32_bytes v) = Some m"
    "s' = s\<lparr>ps_byte_code := (ps_byte_code s)\<lparr>db_buf := m\<rparr>\<rparr>"
    using assms by (auto simp: patch_u32_def put_u32_def bind_Some_iff)
  show ?thesis
    using buf_wf_overwrite [OF m(1)] buf_wf_bytes(1) [of "ps_byte_code s"] m(2)
    by (simp add: moved_def err_def st_ok_def code_def)
qed

lemma patch_u8_spec:
  assumes "patch_u8 s pos v = Some s'"
  shows "moved (\<lambda>a b. pos + 1 \<le> length a \<longrightarrow> b = take pos a @ [v] @ drop (pos + 1) a) s s'"
proof -
  obtain m where m: "blit (db_buf (ps_byte_code s)) pos [v] = Some m"
    "s' = s\<lparr>ps_byte_code := (ps_byte_code s)\<lparr>db_buf := m\<rparr>\<rparr>"
    using assms by (auto simp: patch_u8_def wr_eq_blit bind_Some_iff)
  show ?thesis
    using buf_wf_overwrite [OF m(1)] buf_wf_bytes(1) [of "ps_byte_code s"] m(2)
    by (simp add: moved_def err_def st_ok_def code_def)
qed

section \<open>Ranges\<close>

lemma emit_ranges16_spec:
  "emit_ranges16 s pt i k = Some s' \<Longrightarrow> \<exists>tab. length tab = 4 * k \<and> emits tab s s'"
proof (induction s pt i k rule: emit_ranges16.induct)
  case (1 s pt i)
  then show ?case using emits_refl(3) by (intro exI [of _ "[]"]) auto
next
  case (2 s pt i k)
  then obtain low s1 p s2 where "rd pt i = Some low" "emit_u16 s low = Some s1" "rd pt (i + 1) = Some p"
    and e2: "emit_u16 s1 (if p - 1 = UINT32_MAX - 1 then 0xffff else p - 1) = Some s2"
    and r: "emit_ranges16 s2 pt (i + 2) k = Some s'" by (auto simp: bind_Some_iff Let_def)
  with "2.IH" obtain tab where tab: "length tab = 4 * k" "emits tab s2 s'" by fastforce
  note emits_trans [OF emits_trans [OF emit_u16_spec [OF \<open>emit_u16 s low = Some s1\<close>] emit_u16_spec [OF e2]] tab(2)]
  then show ?case by (intro exI conjI) (simp_all add: tab(1))
qed

lemma emit_ranges32_spec:
  "emit_ranges32 s pt i k = Some s' \<Longrightarrow> \<exists>tab. length tab = 8 * k \<and> emits tab s s'"
proof (induction s pt i k rule: emit_ranges32.induct)
  case (1 s pt i)
  then show ?case using emits_refl(3) by (intro exI [of _ "[]"]) auto
next
  case (2 s pt i k)
  then obtain low s1 p s2 where "rd pt i = Some low" "emit_u32 s low = Some s1" "rd pt (i + 1) = Some p"
    and e2: "emit_u32 s1 (p - 1) = Some s2"
    and r: "emit_ranges32 s2 pt (i + 2) k = Some s'" by (auto simp: bind_Some_iff Let_def)
  with "2.IH" obtain tab where tab: "length tab = 8 * k" "emits tab s2 s'" by fastforce
  note emits_trans [OF emits_trans [OF emit_u32_spec [OF \<open>emit_u32 s low = Some s1\<close>] emit_u32_spec [OF e2]] tab(2)]
  then show ?case by (intro exI conjI) (simp_all add: tab(1))
qed

end
