(* ===== verification/QuantSpec.thy ===== *)
theory QuantSpec
  imports EmitSpec
begin

text \<open>
  The code of a quantified atom. When the atom at the end of the code is a closed fragment, what \<open>emit_quantifier\<close> makes of it is a
  closed fragment in its place, for every kind of quantifier.
\<close>

section \<open>Patches in a gap\<close>

lemma patch_u32_at:
  assumes "patch_u32 s pos v = Some s'"
  shows "moved (\<lambda>x y. \<forall>pre gap r. x = pre @ gap @ r \<longrightarrow> length pre = pos \<longrightarrow> length gap = 4 \<longrightarrow> y = pre @ u32_bytes v @ r) s s'"
  using patch_u32_spec [OF assms] by (auto simp: moved_def)

lemma patch_u8_at:
  assumes "patch_u8 s pos v = Some s'"
  shows "moved (\<lambda>x y. \<forall>pre gap r. x = pre @ gap @ r \<longrightarrow> length pre = pos \<longrightarrow> length gap = 1 \<longrightarrow> y = pre @ [v] @ r) s s'"
  using patch_u8_spec [OF assms] by (auto simp: moved_def)

section \<open>Requantifying\<close>

abbreviation cc :: "REParseState \<Rightarrow> nat" where
  "cc \<equiv> ps_capture_count"

text \<open>The closed fragment of \<open>len\<close> bytes at the end of the code, from \<open>start\<close> on, becomes another one.\<close>

definition requant :: "nat \<Rightarrow> nat \<Rightarrow> REParseState \<Rightarrow> REParseState \<Rightarrow> bool" where
  "requant start len s s' \<longleftrightarrow> cc s' = cc s \<and> (\<not> err s' \<longrightarrow> \<not> err s \<and> (st_ok s \<longrightarrow>
     (\<forall>pre a. code s = pre @ a \<longrightarrow> length pre = start \<longrightarrow> length a = len \<longrightarrow> closed (cc s) a \<longrightarrow>
        st_ok s' \<and> (\<exists>c. code s' = pre @ c \<and> closed (cc s) c))))"

lemma requantI:
  assumes "moved Q s s'"
    and "\<And>pre a. st_ok s \<Longrightarrow> st_ok s' \<Longrightarrow> Q (pre @ a) (code s') \<Longrightarrow> code s = pre @ a \<Longrightarrow> length pre = start \<Longrightarrow> length a = len \<Longrightarrow>
      closed (cc s) a \<Longrightarrow> \<exists>c. code s' = pre @ c \<and> closed (cc s) c"
  shows "requant start len s s'"
  using assms unfolding requant_def moved_def by metis

lemma is_split_op: "is_split (split_op g)"
  by (simp add: is_split_def split_op_def)

text \<open>A distance back in the code.\<close>

lemma sint_back: "n < 2 ^ 31 \<Longrightarrow> sint (of_nat m - of_nat (m + n) :: u32) = - int n"
  using sint_minus_small [of n] by simp

lemma moved_comp: "moved Q s s' \<Longrightarrow> moved R s' s'' \<Longrightarrow> moved (Q OO R) s s''"
  by (erule moved_trans, assumption) auto

definition opened :: "nat \<Rightarrow> nat \<Rightarrow> u8 list \<Rightarrow> u8 list \<Rightarrow> bool" where
  "opened pos len x y \<longleftrightarrow> (\<forall>pre a. x = pre @ a \<longrightarrow> length pre = pos \<longrightarrow> (\<exists>gap. length gap = len \<and> y = pre @ gap @ a))"

definition filled8 :: "nat \<Rightarrow> u8 \<Rightarrow> u8 list \<Rightarrow> u8 list \<Rightarrow> bool" where
  "filled8 pos v x y \<longleftrightarrow>
     (\<forall>pre gap r. x = pre @ gap @ r \<longrightarrow> length pre = pos \<longrightarrow> length gap = 1 \<longrightarrow> y = pre @ [v] @ r)"

definition filled32 :: "nat \<Rightarrow> u32 \<Rightarrow> u8 list \<Rightarrow> u8 list \<Rightarrow> bool" where
  "filled32 pos v x y \<longleftrightarrow>
     (\<forall>pre gap r. x = pre @ gap @ r \<longrightarrow> length pre = pos \<longrightarrow> length gap = 4 \<longrightarrow> y = pre @ u32_bytes v @ r)"

definition jumped :: "REOPCodeEnum \<Rightarrow> u32 \<Rightarrow> u8 list \<Rightarrow> u8 list \<Rightarrow> bool" where
  "jumped opcode v x y \<longleftrightarrow> y = x @ (opc opcode # u32_bytes (v - of_nat (length x + 5)))"

definition wrote :: "u8 list \<Rightarrow> u8 list \<Rightarrow> u8 list \<Rightarrow> bool" where
  "wrote c x y \<longleftrightarrow> y = x @ c"

definition copied :: "nat \<Rightarrow> nat \<Rightarrow> u8 list \<Rightarrow> u8 list \<Rightarrow> bool" where
  "copied offset len x y \<longleftrightarrow> offset + len \<le> length x \<and> y = x @ take len (drop offset x)"

lemma moves:
  "patch_u8 s pos v = Some s' \<Longrightarrow> moved (filled8 pos v) s s'"
  "patch_u32 s pos w = Some s' \<Longrightarrow> moved (filled32 pos w) s s'"
  "re_emit_goto s opcode w = Some (q, s') \<Longrightarrow> moved (jumped opcode w) s s'"
  "re_emit_op s opcode = Some s' \<Longrightarrow> moved (wrote [opc opcode]) s s'"
  "emit_if b s opcode = Some s' \<Longrightarrow> moved (wrote (if b then [opc opcode] else [])) s s'"
  "re_emit_op_u32 s opcode w = Some (q, s') \<Longrightarrow> moved (wrote (opc opcode # u32_bytes w)) s s'"
  "put_self s offset len = Some s' \<Longrightarrow> moved (copied offset len) s s'"
  using patch_u8_at [of s pos v s'] patch_u32_at [of s pos w s'] re_emit_goto_spec [of s opcode w q s']
    re_emit_op_spec [of s opcode s'] emit_if_spec [of b s opcode s'] re_emit_op_u32_spec(1) [of s opcode w q s']
    put_self_spec [of s offset len s']
  by (simp_all add: moved_def filled8_def filled32_def jumped_def wrote_def copied_def)

lemma insert_code_0:
  "insert_code s pos len f = Some (0, s') \<longleftrightarrow>
     (\<exists>b. dbuf_insert (ps_byte_code s) pos len = Some (0, b) \<and> f (s\<lparr>ps_byte_code := b\<rparr>) = Some (0, s'))"
  by (auto simp: insert_code_def bind_Some_iff Let_def re_parse_out_of_memory_def re_parse_error_def split: if_splits)

lemma insert_moved:
  assumes "dbuf_insert (ps_byte_code s) pos len = Some (r, b)" "len < 2 ^ 63"
  shows "moved (opened pos len) s (s\<lparr>ps_byte_code := b\<rparr>)"
proof -
  have "moved (\<lambda>a b. pos \<le> length a \<and> (\<exists>gap. length gap = len \<and> b = take pos a @ gap @ drop pos a)) s (s\<lparr>ps_byte_code := b\<rparr>)"
    using dbuf_insert_D [OF assms(1)] assms(2) buf_wf_bytes(1) [of "ps_byte_code s"]
    by (auto simp: moved_def err_def st_ok_def code_def)
  then show ?thesis by (auto simp: moved_def opened_def)
qed

text \<open>Reading the composed steps off.\<close>

lemma steps:
  "opened (length pre) len (pre @ a) y \<Longrightarrow> \<exists>gap. length gap = len \<and> y = pre @ gap @ a"
  "jumped opcode v x y \<Longrightarrow> y = x @ (opc opcode # u32_bytes (v - of_nat (length x + 5)))"
  "wrote c x y \<Longrightarrow> y = x @ c"
  "copied offset len x y \<Longrightarrow> offset + len \<le> length x \<and> y = x @ take len (drop offset x)"
  by (auto simp: opened_def jumped_def wrote_def copied_def)

lemma filled_at:
  "filled8 pos v (pre @ gap @ r) y \<Longrightarrow> length pre = pos \<Longrightarrow> length gap = 1 \<Longrightarrow> y = pre @ [v] @ r"
  "filled32 pos w (pre @ gap @ r) y \<Longrightarrow> length pre = pos \<Longrightarrow> length gap = 4 \<Longrightarrow> y = pre @ u32_bytes w @ r"
  unfolding filled8_def filled32_def by blast+

lemma insn_step:
  assumes "filled8 pos v (pre @ gap @ r) z" "filled32 (pos + 1) w z y" "length pre = pos" "length gap = 5"
  shows "y = pre @ (v # u32_bytes w) @ r"
proof -
  obtain g gap' where g: "gap = g # gap'" "length gap' = 4" using assms(4) by (cases gap) auto
  have "z = pre @ [v] @ gap' @ r" using filled_at(1) [of pos v pre "[g]" "gap' @ r" z] assms g by simp
  with filled_at(2) [of "pos + 1" w "pre @ [v]" gap' r y] assms g show ?thesis by simp
qed

lemma opened_insn:
  assumes "opened start 5 (pre @ a) x" "filled8 start v x z" "filled32 (start + 1) w z y" "length pre = start"
  shows "y = pre @ (v # u32_bytes w) @ a"
proof -
  obtain gap where "length gap = 5" "x = pre @ gap @ a" using assms(1,4) by (auto simp: opened_def)
  with insn_step [of start v pre gap a z w y] assms(2-4) show ?thesis by simp
qed

lemma split_gap: "length gap = m + n \<Longrightarrow> \<exists>g g'. gap = g @ g' \<and> length g = m \<and> length g' = n"
  by (intro exI [of _ "take m gap"] exI [of _ "drop m gap"]) simp

lemma requant_steps:
  assumes "moved Q s s'"
    and "\<And>pre a y k. Q (pre @ a) y \<Longrightarrow> length pre = start \<Longrightarrow> length a = len \<Longrightarrow> closed k a \<Longrightarrow> length y < 2 ^ 31 \<Longrightarrow>
      \<exists>c. y = pre @ c \<and> closed k c"
  shows "requant start len s s'"
proof (rule requantI [OF assms(1)])
  fix pre a
  assume "st_ok s" "st_ok s'" "Q (pre @ a) (code s')" "code s = pre @ a" "length pre = start" "length a = len" "closed (cc s) a"
  with code_small [of s'] show "\<exists>c. code s' = pre @ c \<and> closed (cc s) c"
    by (intro assms(2) [of pre a]) auto
qed

lemma once_code:
  assumes o: "opened start 5 (pre @ a) x" and f: "filled8 start (opc (split_op g)) x x'" "filled32 (start + 1) (of_nat len) x' y"
    and a: "length pre = start" "length a = len" "closed k a" and y: "length y < 2 ^ 31"
  shows "\<exists>c. y = pre @ c \<and> closed k c"
proof -
  from opened_insn [OF o f a(1)] have y': "y = pre @ (opc (split_op g) # u32_bytes (of_nat len)) @ a" .
  with y a have "closed k ((opc (split_op g) # u32_bytes (of_nat len)) @ a)"
    by (intro closed_optional is_split_op) (simp_all add: sint_of_nat_small)
  with y' show ?thesis by blast
qed

lemma checked_star_code:
  assumes o: "opened start 6 (pre @ a) x1" and f: "filled8 start (opc (split_op g)) x1 x2"
    "filled32 (start + 1) (of_nat (len + 5 + 1)) x2 x3" "filled8 (start + 1 + 4) (opc REOP_push_char_pos) x3 x4"
    and j: "jumped REOP_bne_char_pos (of_nat start) x4 y"
    and a: "length pre = start" "length a = len" "closed k a" and y: "length y < 2 ^ 31"
  shows "\<exists>c. y = pre @ c \<and> closed k c"
proof -
  obtain g0 where "length g0 = 5 + 1" "x1 = pre @ g0 @ a" using o a(1) by (auto simp: opened_def)
  moreover from this(1) obtain gap gap' where "g0 = gap @ gap'" and g: "length gap = 5" "length gap' = 1"
    using split_gap by blast
  ultimately have x1: "x1 = pre @ gap @ gap' @ a" by simp
  define sp where "sp = opc (split_op g) # u32_bytes (of_nat (len + 5 + 1))"
  have "x3 = pre @ sp @ gap' @ a" using insn_step [of start _ pre gap "gap' @ a" x2 _ x3] f g a x1 by (simp add: sp_def)
  then have x4: "x4 = pre @ sp @ [opc REOP_push_char_pos] @ a"
    using filled_at(1) [of "start + 1 + 4" _ "pre @ sp" gap' a x4] f g a by (simp add: sp_def)
  then have y': "y = pre @ sp @ ([opc REOP_push_char_pos] @ a) @
      (opc REOP_bne_char_pos # u32_bytes (of_nat start - of_nat (start + (len + 11))))"
    using j a by (simp add: jumped_def sp_def algebra_simps)
  then have "len + 11 < 2 ^ 31" using y a by (simp add: sp_def)
  then have "closed k (sp @ ([opc REOP_push_char_pos] @ a) @
      (opc REOP_bne_char_pos # u32_bytes (of_nat start - of_nat (start + (len + 11)))))"
    unfolding sp_def using a sint_of_nat_small [of "len + 5 + 1"] sint_back [of "len + 11" start]
    by (intro closed_checked_star is_split_op) simp_all
  with y' show ?thesis by blast
qed

lemma star_code:
  assumes o: "opened start 5 (pre @ a) x1" and f: "filled8 start (opc (split_op g)) x1 x2"
    "filled32 (start + 1) (of_nat (len + 5)) x2 x3"
    and j: "jumped REOP_goto (of_nat start) x3 y"
    and a: "length pre = start" "length a = len" "closed k a" and y: "length y < 2 ^ 31"
  shows "\<exists>c. y = pre @ c \<and> closed k c"
proof -
  define sp where "sp = opc (split_op g) # u32_bytes (of_nat (len + 5))"
  have "x3 = pre @ sp @ a" using opened_insn [OF o f a(1)] by (simp add: sp_def)
  then have y': "y = pre @ sp @ a @ (opc REOP_goto # u32_bytes (of_nat start - of_nat (start + (len + 10))))"
    using j a by (simp add: jumped_def sp_def algebra_simps)
  then have "len + 10 < 2 ^ 31" using y a by (simp add: sp_def)
  then have "closed k (sp @ a @ (opc REOP_goto # u32_bytes (of_nat start - of_nat (start + (len + 10)))))"
    unfolding sp_def using a sint_of_nat_small [of "len + 5"] sint_back [of "len + 10" start]
    by (intro closed_star is_split_op) simp_all
  with y' show ?thesis by blast
qed

lemma counted_code:
  assumes o: "opened start 10 (pre @ a) x1"
    and f: "filled8 start (opc REOP_push_i32) x1 x2" "filled32 (start + 1) (word_of_int qmax) x2 x3"
    and f': "filled8 (start + 5) (opc (split_op g)) x3 x4" "filled32 (start + 6) (of_nat (len + 5)) x4 x5"
    and j: "jumped REOP_loop (of_nat (start + 5)) x5 x6" "wrote [opc REOP_drop] x6 y"
    and a: "length pre = start" "length a = len" "closed k a" and y: "length y < 2 ^ 31"
  shows "\<exists>c. y = pre @ c \<and> closed k c"
proof -
  obtain g0 where "length g0 = 5 + 5" "x1 = pre @ g0 @ a" using o a(1) by (auto simp: opened_def)
  moreover from this(1) obtain gap gap' where "g0 = gap @ gap'" and g: "length gap = 5" "length gap' = 5"
    using split_gap by blast
  ultimately have x1: "x1 = pre @ gap @ gap' @ a" by simp
  define ps where "ps = opc REOP_push_i32 # u32_bytes (word_of_int qmax)"
  define sp where "sp = opc (split_op g) # u32_bytes (of_nat (len + 5))"
  have "x3 = pre @ ps @ gap' @ a" using insn_step [of start _ pre gap "gap' @ a" x2 _ x3] f g a x1 by (simp add: ps_def)
  moreover have six: "start + 6 = start + 5 + 1" by simp
  ultimately have x5: "x5 = pre @ ps @ sp @ a"
    using insn_step [of "start + 5" _ "pre @ ps" gap' a x4 _ x5, folded six] f' g a by (simp add: ps_def sp_def)
  have y': "y = pre @ ps @ (sp @ a @ (opc REOP_loop # u32_bytes (of_nat (start + 5) - of_nat (start + 5 + (len + 10))))) @ [opc REOP_drop]"
    using j a by (simp add: x5 jumped_def wrote_def ps_def sp_def algebra_simps)
  then have "len + 10 < 2 ^ 31" using y a by (simp add: sp_def ps_def)
  then have "closed k (ps @ (sp @ a @ (opc REOP_loop # u32_bytes (of_nat (start + 5) - of_nat (start + 5 + (len + 10))))) @ [opc REOP_drop])"
    unfolding sp_def ps_def using a sint_of_nat_small [of "len + 5"] sint_back [of "len + 10" "start + 5"]
    by (intro closed_counted_star is_split_op) simp_all
  with y' show ?thesis by blast
qed

lemma emit_optional_spec:
  assumes e: "emit_optional s start len qmax g z = Some (0, s')"
  shows "requant start len s s'"
proof -
  consider "qmax = 0" | "qmax = 1" | "qmax = 0x7fffffff" z | "qmax = 0x7fffffff" "\<not> z"
    | "qmax \<noteq> 0" "qmax \<noteq> 1" "qmax \<noteq> 0x7fffffff" by blast
  then show ?thesis
  proof cases
    case 1
    with e have s': "s' = s\<lparr>ps_byte_code := (ps_byte_code s)\<lparr>db_size := start\<rparr>\<rparr>" by (simp add: emit_optional_def)
    have "st_ok s' \<and> code s' = pre" if "st_ok s" "code s = pre @ a" "length pre = start" for pre a
      using that buf_wf_bytes [of "ps_byte_code s"] unfolding s'
      by (auto simp: st_ok_def code_def buf_wf_def dbuf_ok_def dbuf_bytes_def) (metis append_eq_conv_conj take_take min.absorb1 le_add1 length_append)
    with s' show ?thesis by (auto simp: requant_def err_def intro!: exI [of _ "[]"] closed_Nil)
  next
    case 2
    then obtain s1 s2 where m: "moved (opened start 5) s s1" "patch_u8 s1 start (opc (split_op g)) = Some s2"
      "patch_u32 s2 (start + 1) (of_nat len) = Some s'"
      using e insert_moved [of s start 5] by (auto simp: emit_optional_def bind_Some_iff insert_code_0)
    show ?thesis
      by (rule requant_steps [OF moved_comp [OF m(1) moved_comp [OF moves(1) [OF m(2)] moves(2) [OF m(3)]]]], elim relcomppE) (rule once_code)
  next
    case 3
    then obtain s1 s2 s3 s4 q where m: "moved (opened start 6) s s1" "patch_u8 s1 start (opc (split_op g)) = Some s2"
      "patch_u32 s2 (start + 1) (of_nat (len + 5 + 1)) = Some s3" "patch_u8 s3 (start + 1 + 4) (opc REOP_push_char_pos) = Some s4"
      "re_emit_goto s4 REOP_bne_char_pos (of_nat start) = Some (q, s')"
      using e insert_moved [of s start 6] by (auto simp: emit_optional_def bind_Some_iff zero_len_def insert_code_0)
    show ?thesis
      by (rule requant_steps [OF moved_comp [OF m(1) moved_comp [OF moves(1) [OF m(2)] moved_comp [OF moves(2) [OF m(3)] moved_comp [OF moves(1) [OF m(4)] moves(3) [OF m(5)]]]]]], elim relcomppE) (rule checked_star_code)
  next
    case 4
    then obtain s1 s2 s3 q where m: "moved (opened start 5) s s1" "patch_u8 s1 start (opc (split_op g)) = Some s2"
      "patch_u32 s2 (start + 1) (of_nat (len + 5)) = Some s3" "re_emit_goto s3 REOP_goto (of_nat start) = Some (q, s')"
      using e insert_moved [of s start 5] by (auto simp: emit_optional_def bind_Some_iff zero_len_def insert_code_0)
    show ?thesis
      by (rule requant_steps [OF moved_comp [OF m(1) moved_comp [OF moves(1) [OF m(2)] moved_comp [OF moves(2) [OF m(3)] moves(3) [OF m(4)]]]]], elim relcomppE) (rule star_code)
  next
    case 5
    then obtain s1 s2 s3 s4 s5 s6 q where m: "moved (opened start 10) s s1" "patch_u8 s1 start (opc REOP_push_i32) = Some s2"
      "patch_u32 s2 (start + 1) (word_of_int qmax) = Some s3" "patch_u8 s3 (start + 5) (opc (split_op g)) = Some s4"
      "patch_u32 s4 (start + 6) (of_nat (len + 5)) = Some s5" "re_emit_goto s5 REOP_loop (of_nat (start + 5)) = Some (q, s6)"
      "re_emit_op s6 REOP_drop = Some s'"
      using e insert_moved [of s start 10] by (auto simp: emit_optional_def bind_Some_iff insert_code_0)
    show ?thesis
      by (rule requant_steps [OF moved_comp [OF m(1) moved_comp [OF moves(1) [OF m(2)] moved_comp [OF moves(2) [OF m(3)] moved_comp [OF moves(1) [OF m(4)] moved_comp [OF moves(2) [OF m(5)] moved_comp [OF moves(3) [OF m(6)] moves(4) [OF m(7)]]]]]]]], elim relcomppE) (rule counted_code)
  qed
qed

section \<open>Mandatory iterations\<close>

text \<open>The fragment of \<open>len\<close> bytes at \<open>start\<close> is used again at the end of the code.\<close>

definition reuses :: "nat \<Rightarrow> nat \<Rightarrow> REParseState \<Rightarrow> REParseState \<Rightarrow> bool" where
  "reuses start len s s' \<longleftrightarrow> cc s' = cc s \<and> (\<not> err s' \<longrightarrow> \<not> err s \<and> (st_ok s \<longrightarrow> st_ok s' \<and>
     (\<forall>k. start + len \<le> length (code s) \<longrightarrow> closed k (take len (drop start (code s))) \<longrightarrow>
        (\<exists>d. code s' = code s @ d \<and> closed k d))))"

lemma reusesD:
  assumes "reuses start len s s'" "\<not> err s'"
  shows "\<not> err s" "st_ok s \<Longrightarrow> st_ok s'"
    "st_ok s \<Longrightarrow> start + len \<le> length (code s) \<Longrightarrow> closed k (take len (drop start (code s))) \<Longrightarrow>
      \<exists>d. code s' = code s @ d \<and> closed k d"
  using assms by (simp_all add: reuses_def)

lemma reuses_steps:
  assumes "moved Q s s'"
    and "\<And>y k. \<not> err s' \<Longrightarrow> st_ok s \<Longrightarrow> Q (code s) y \<Longrightarrow> start + len \<le> length (code s) \<Longrightarrow> closed k (take len (drop start (code s))) \<Longrightarrow>
      length y < 2 ^ 31 \<Longrightarrow> \<exists>d. y = code s @ d \<and> closed k d"
  shows "reuses start len s s'"
  using assms code_small [of s'] unfolding reuses_def moved_def by metis

lemma star_tail:
  assumes w: "wrote (opc (split_op g) # u32_bytes (of_nat (len + 5))) x x1" "wrote [] x1 x2" "copied start len x2 x3"
    "jumped REOP_goto (of_nat (length x)) x3 y"
    and a: "start + len \<le> length x" "closed k (take len (drop start x))" and y: "length y < 2 ^ 31"
  shows "\<exists>d. y = x @ d \<and> closed k d"
proof -
  define a where "a = take len (drop start x)"
  define sp where "sp = opc (split_op g) # u32_bytes (of_nat (len + 5))"
  have la: "length a = len" using a by (simp add: a_def)
  have x3: "x3 = x @ sp @ a" using w a(1) by (simp add: wrote_def copied_def a_def sp_def)
  have y': "y = x @ sp @ a @ (opc REOP_goto # u32_bytes (of_nat (length x) - of_nat (length x + (len + 10))))"
    using w(4) la by (simp add: x3 jumped_def sp_def algebra_simps)
  then have "len + 10 < 2 ^ 31" using y la by (simp add: sp_def)
  then have "closed k (sp @ a @ (opc REOP_goto # u32_bytes (of_nat (length x) - of_nat (length x + (len + 10)))))"
    unfolding sp_def using a(2) la sint_of_nat_small [of "len + 5"] sint_back [of "len + 10" "length x"]
    by (intro closed_star is_split_op) (simp_all add: a_def)
  with y' show ?thesis by blast
qed

lemma checked_star_tail:
  assumes w: "wrote (opc (split_op g) # u32_bytes (of_nat (len + 5 + 1))) x x1" "wrote [opc REOP_push_char_pos] x1 x2"
    "copied start len x2 x3" "jumped REOP_bne_char_pos (of_nat (length x)) x3 y"
    and a: "start + len \<le> length x" "closed k (take len (drop start x))" and y: "length y < 2 ^ 31"
  shows "\<exists>d. y = x @ d \<and> closed k d"
proof -
  define a where "a = take len (drop start x)"
  define sp where "sp = opc (split_op g) # u32_bytes (of_nat (len + 5 + 1))"
  have la: "length a = len" using a by (simp add: a_def)
  have x3: "x3 = x @ sp @ [opc REOP_push_char_pos] @ a" using w a(1) by (simp add: wrote_def copied_def a_def sp_def)
  have y': "y = x @ sp @ ([opc REOP_push_char_pos] @ a) @
      (opc REOP_bne_char_pos # u32_bytes (of_nat (length x) - of_nat (length x + (len + 11))))"
    using w(4) la by (simp add: x3 jumped_def sp_def algebra_simps)
  then have "len + 11 < 2 ^ 31" using y la by (simp add: sp_def)
  then have "closed k (sp @ ([opc REOP_push_char_pos] @ a) @
      (opc REOP_bne_char_pos # u32_bytes (of_nat (length x) - of_nat (length x + (len + 11)))))"
    unfolding sp_def using a(2) la sint_of_nat_small [of "len + 5 + 1"] sint_back [of "len + 11" "length x"]
    by (intro closed_checked_star is_split_op) (simp_all add: a_def)
  with y' show ?thesis by blast
qed

lemma counted_tail:
  assumes w: "wrote (opc REOP_push_i32 # u32_bytes n) x x1" "wrote (opc (split_op g) # u32_bytes (of_nat (len + 5))) x1 x2"
    "copied start len x2 x3" "jumped REOP_loop (of_nat (length x + 5)) x3 x4" "wrote [opc REOP_drop] x4 y"
    and a: "start + len \<le> length x" "closed k (take len (drop start x))" and y: "length y < 2 ^ 31"
  shows "\<exists>d. y = x @ d \<and> closed k d"
proof -
  define a where "a = take len (drop start x)"
  define ps where "ps = opc REOP_push_i32 # u32_bytes n"
  define sp where "sp = opc (split_op g) # u32_bytes (of_nat (len + 5))"
  have la: "length a = len" using a by (simp add: a_def)
  have x3: "x3 = x @ ps @ sp @ a" using w a(1) by (simp add: wrote_def copied_def a_def sp_def ps_def)
  have y': "y = x @ ps @ (sp @ a @ (opc REOP_loop # u32_bytes (of_nat (length x + 5) - of_nat (length x + 5 + (len + 10))))) @ [opc REOP_drop]"
    using w(4,5) la by (simp add: x3 jumped_def wrote_def sp_def ps_def algebra_simps)
  then have "len + 10 < 2 ^ 31" using y la by (simp add: sp_def ps_def)
  then have "closed k (ps @ (sp @ a @ (opc REOP_loop # u32_bytes (of_nat (length x + 5) - of_nat (length x + 5 + (len + 10))))) @ [opc REOP_drop])"
    unfolding sp_def ps_def using a(2) la sint_of_nat_small [of "len + 5"] sint_back [of "len + 10" "length x + 5"]
    by (intro closed_counted_star is_split_op) (simp_all add: a_def)
  with y' show ?thesis by blast
qed

lemma emit_tail_spec:
  assumes e: "emit_tail s start len qmin qmax g z = Some (0, s')"
  shows "reuses start len s s'"
proof -
  consider "qmax = 0x7fffffff" z | "qmax = 0x7fffffff" "\<not> z" | "qmax \<noteq> 0x7fffffff" "qmax > qmin"
    | "qmax \<noteq> 0x7fffffff" "\<not> qmax > qmin" by blast
  then show ?thesis
  proof cases
    case 1
    then obtain q s1 s2 s3 q' where m: "re_emit_op_u32 s (split_op g) (of_nat (len + 5 + 1)) = Some (q, s1)"
      "re_emit_op s1 REOP_push_char_pos = Some s2" "put_self s2 start len = Some s3"
      "re_emit_goto s3 REOP_bne_char_pos (of_nat (code_size s)) = Some (q', s')"
      using e by (auto simp: emit_tail_def bind_Some_iff zero_len_def emit_if_def Let_def)
    show ?thesis
      by (rule reuses_steps [OF moved_comp [OF moves(6) [OF m(1)] moved_comp [OF moves(4) [OF m(2)]
        moved_comp [OF moves(7) [OF m(3)] moves(3) [OF m(4)]]]]], elim relcomppE)
        (auto simp: code_size_eq intro: checked_star_tail)
  next
    case 2
    then obtain q s1 s3 q' where m: "re_emit_op_u32 s (split_op g) (of_nat (len + 5)) = Some (q, s1)"
      "emit_if False s1 REOP_push_char_pos = Some s1" "put_self s1 start len = Some s3"
      "re_emit_goto s3 REOP_goto (of_nat (code_size s)) = Some (q', s')"
      using e by (auto simp: emit_tail_def bind_Some_iff zero_len_def emit_if_def Let_def)
    show ?thesis
      by (rule reuses_steps [OF moved_comp [OF moves(6) [OF m(1)] moved_comp [OF moves(5) [OF m(2)]
        moved_comp [OF moves(7) [OF m(3)] moves(3) [OF m(4)]]]]], elim relcomppE)
        (auto simp: code_size_eq intro: star_tail)
  next
    case 3
    then obtain q s1 q1 s2 s3 q' s4 where m: "re_emit_op_u32 s REOP_push_i32 (word_of_int (qmax - qmin)) = Some (q, s1)"
      "re_emit_op_u32 s1 (split_op g) (of_nat (len + 5)) = Some (q1, s2)" "put_self s2 start len = Some s3"
      "re_emit_goto s3 REOP_loop (of_nat (code_size s1)) = Some (q', s4)" "re_emit_op s4 REOP_drop = Some s'"
      using e by (auto simp: emit_tail_def bind_Some_iff Let_def)
    note rest = moved_comp [OF moves(6) [OF m(2)] moved_comp [OF moves(7) [OF m(3)]
        moved_comp [OF moves(3) [OF m(4)] moves(4) [OF m(5)]]]]
    have "code_size s1 = length (code s) + 5" if "\<not> err s'" "st_ok s"
      using movedD [OF re_emit_op_u32_spec(1) [OF m(1)]] movedD(1) [OF rest] code_size_eq [of s1] that by simp
    then show ?thesis
      by (intro reuses_steps [OF moved_comp [OF moves(6) [OF m(1)] rest]], elim relcomppE) (auto intro: counted_tail)
  next
    case 4
    then have "s' = s" using e by (auto simp: emit_tail_def)
    then show ?thesis by (auto simp: reuses_def intro!: exI [of _ "[]"] closed_Nil)
  qed
qed

lemma reuses_requant:
  assumes "reuses start len s s'"
  shows "requant start len s s'"
proof -
  have "st_ok s' \<and> (\<exists>c. code s' = pre @ c \<and> closed (cc s) c)"
    if *: "\<not> err s'" "st_ok s" "code s = pre @ a" "length pre = start" "length a = len" "closed (cc s) a" for pre a
  proof -
    have l: "start + len \<le> length (code s)" and c: "closed (cc s) (take len (drop start (code s)))"
      using * by auto
    obtain d where "code s' = pre @ a @ d" "closed (cc s) d"
      using reusesD(3) [OF assms(1) *(1,2) l c] *(3) by auto
    with closed_append [OF *(6)] reusesD(2) [OF assms(1) *(1,2)] show ?thesis by blast
  qed
  then show ?thesis using assms(1) unfolding requant_def reuses_def by blast
qed

lemma repeat_code:
  assumes o: "opened start 5 (pre @ a) x1" and f: "filled8 start (opc REOP_push_i32) x1 x2" "filled32 (start + 1) n x2 x3"
    and j: "jumped REOP_loop (of_nat (start + 5)) x3 x4" "wrote [opc REOP_drop] x4 y"
    and a: "length pre = start" "length a = len" "closed k a" and y: "length y < 2 ^ 31"
  shows "\<exists>c. y = pre @ c \<and> closed k c \<and> start + 5 + len \<le> length y \<and> take len (drop (start + 5) y) = a"
proof -
  define ps where "ps = opc REOP_push_i32 # u32_bytes n"
  have "x3 = pre @ ps @ a" using opened_insn [OF o f a(1)] by (simp add: ps_def)
  then have y': "y = pre @ ps @ (a @ (opc REOP_loop # u32_bytes (of_nat (start + 5) - of_nat (start + 5 + (len + 5))))) @ [opc REOP_drop]"
    using j a by (simp add: jumped_def wrote_def ps_def algebra_simps)
  then have "len + 5 < 2 ^ 31" using y a by (simp add: ps_def)
  then have "closed k (ps @ (a @ (opc REOP_loop # u32_bytes (of_nat (start + 5) - of_nat (start + 5 + (len + 5))))) @ [opc REOP_drop])"
    unfolding ps_def using a sint_back [of "len + 5" "start + 5"] by (intro closed_repeat) simp_all
  with y' a show ?thesis by (auto simp: ps_def)
qed

lemma plus_code:
  assumes j: "jumped (if g then REOP_split_goto_first else REOP_split_next_first) (of_nat start) (pre @ a) y"
    and a: "length pre = start" "length a = len" "closed k a" and y: "length y < 2 ^ 31"
  shows "\<exists>c. y = pre @ c \<and> closed k c"
proof -
  define opcode where "opcode = (if g then REOP_split_goto_first else REOP_split_next_first)"
  have y': "y = pre @ a @ (opc opcode # u32_bytes (of_nat start - of_nat (start + (len + 5))))"
    using j a by (simp add: jumped_def opcode_def algebra_simps)
  moreover from this have "len + 5 < 2 ^ 31" using y a by simp
  then have "closed k (a @ (opc opcode # u32_bytes (of_nat start - of_nat (start + (len + 5)))))"
    using a sint_back [of "len + 5" start] by (intro closed_plus) (simp_all add: is_split_def opcode_def)
  with y' show ?thesis by blast
qed

lemma emit_repeated_spec:
  assumes e: "emit_repeated s start len qmin qmax g z = Some (0, s')"
  shows "requant start len s s'"
proof -
  consider "qmin = 1" "qmax = 0x7fffffff" "\<not> z" | "qmin = 1" "\<not> (qmax = 0x7fffffff \<and> \<not> z)" | "qmin \<noteq> 1" by blast
  then show ?thesis
  proof cases
    case 1
    then obtain q where "re_emit_goto s (if g then REOP_split_goto_first else REOP_split_next_first) (of_nat start) = Some (q, s')"
      using e by (auto simp: emit_repeated_def bind_Some_iff)
    from requant_steps [OF moves(3) [OF this]] plus_code show ?thesis by blast
  next
    case 2
    then have "emit_tail s start len qmin qmax g z = Some (0, s')" using e by (auto simp: emit_repeated_def)
    then show ?thesis by (intro reuses_requant emit_tail_spec)
  next
    case 3
    then obtain s1 s2 s3 q s4 s5 where m: "moved (opened start 5) s s1" "patch_u8 s1 start (opc REOP_push_i32) = Some s2"
      "patch_u32 s2 (start + 1) (word_of_int qmin) = Some s3" "re_emit_goto s3 REOP_loop (of_nat (start + 5)) = Some (q, s4)"
      "re_emit_op s4 REOP_drop = Some s5" and t: "emit_tail s5 (start + 5) len qmin qmax g z = Some (0, s')"
      using e insert_moved [of s start 5] by (auto simp: emit_repeated_def bind_Some_iff insert_code_0)
    note mv = moved_comp [OF m(1) moved_comp [OF moves(1) [OF m(2)] moved_comp [OF moves(2) [OF m(3)]
        moved_comp [OF moves(3) [OF m(4)] moves(4) [OF m(5)]]]]]
    have r: "reuses (start + 5) len s5 s'" using t by (rule emit_tail_spec)
    have "st_ok s' \<and> (\<exists>c. code s' = pre @ c \<and> closed (cc s) c)"
      if *: "\<not> err s'" "st_ok s" "code s = pre @ a" "length pre = start" "length a = len" "closed (cc s) a" for pre a
    proof -
      have e5: "\<not> err s5" using r *(1) by (simp add: reuses_def)
      have w5: "st_ok s5" using movedD(2) [OF mv e5 *(2)] .
      from movedD(3) [OF mv e5 *(2)] * code_small [OF w5]
      have "\<exists>c. code s5 = pre @ c \<and> closed (cc s) c \<and> start + 5 + len \<le> length (code s5) \<and>
          take len (drop (start + 5) (code s5)) = a"
        by (elim relcomppE) (rule repeat_code, simp_all)
      then obtain c where c: "code s5 = pre @ c" "closed (cc s) c" "start + 5 + len \<le> length (code s5)"
        "take len (drop (start + 5) (code s5)) = a" by blast
      have "closed (cc s) (take len (drop (start + 5) (code s5)))" using c(4) *(6) by simp
      then obtain d where "code s' = pre @ c @ d" "closed (cc s) d"
        using reusesD(3) [OF r *(1) w5 c(3)] c(1) by auto
      with closed_append [OF c(2)] reusesD(2) [OF r *(1) w5] show ?thesis by blast
    qed
    moreover have "\<not> err s' \<Longrightarrow> \<not> err s" "cc s' = cc s"
      using r movedD(1,4) [OF mv] by (auto simp: reuses_def)
    ultimately show ?thesis unfolding requant_def by blast
  qed
qed

section \<open>The general case\<close>

lemma reset_code:
  assumes o: "opened start 3 (pre @ a) x1" and f: "filled8 start (opc REOP_save_reset) x1 x2" "filled8 (start + 1) u x2 x3"
    "filled8 (start + 2) v x3 y" and a: "length pre = start"
  shows "y = (pre @ [opc REOP_save_reset, u, v]) @ a"
proof -
  obtain gap where "length gap = 3" "x1 = pre @ gap @ a" using o a(1) by (auto simp: opened_def)
  then obtain g0 g1 g2 where x1: "x1 = pre @ [g0, g1, g2] @ a" by (auto simp: numeral_3_eq_3 length_Suc_conv)
  have "x2 = pre @ [opc REOP_save_reset] @ [g1, g2] @ a" using filled_at(1) [of start _ pre "[g0]" "[g1, g2] @ a" x2] f a x1 by simp
  then have "x3 = pre @ [opc REOP_save_reset, u] @ [g2] @ a"
    using filled_at(1) [of "start + 1" u "pre @ [opc REOP_save_reset]" "[g1]" "[g2] @ a" x3] f a by simp
  then show ?thesis using filled_at(1) [of "start + 2" v "pre @ [opc REOP_save_reset, u]" "[g2]" a y] f a by simp
qed

lemma requant_after:
  assumes m: "moved Q s s1" and r: "requant (start + n) len s1 s'"
    and q: "\<And>pre a y. Q (pre @ a) y \<Longrightarrow> length pre = start \<Longrightarrow> st_ok s \<Longrightarrow>
      \<exists>b. y = (pre @ b) @ a \<and> length b = n \<and> closed (cc s) b"
  shows "requant start len s s'"
proof -
  have "st_ok s' \<and> (\<exists>c. code s' = pre @ c \<and> closed (cc s) c)"
    if *: "\<not> err s'" "st_ok s" "code s = pre @ a" "length pre = start" "length a = len" "closed (cc s) a" for pre a
  proof -
    have e1: "\<not> err s1" and c1: "cc s1 = cc s" using r *(1) movedD(4) [OF m] by (simp_all add: requant_def)
    obtain b where b: "code s1 = (pre @ b) @ a" "length b = n" "closed (cc s) b"
      using q [of pre a "code s1"] movedD(3) [OF m e1 *(2)] * by auto
    then have "st_ok s' \<and> (\<exists>c. code s' = (pre @ b) @ c \<and> closed (cc s) c)"
      using r *(1,4,5,6) movedD(2) [OF m e1 *(2)] unfolding requant_def c1 by (metis length_append)
    with closed_append [OF b(3)] show ?thesis by (metis append.assoc)
  qed
  moreover have "\<not> err s' \<Longrightarrow> \<not> err s" "cc s' = cc s"
    using r movedD(1,4) [OF m] by (auto simp: requant_def)
  ultimately show ?thesis unfolding requant_def by blast
qed

lemma emit_general_spec:
  assumes e: "emit_general s start lcc qmin qmax g z = Some (0, s')"
  shows "requant start (code_size s - start) s s'"
proof -
  define len where "len = code_size s - start"
  consider "qmin = 0" "lcc \<noteq> cc s" | "qmin = 0" "lcc = cc s" | "qmin \<noteq> 0" by blast
  then show ?thesis
  proof cases
    case 1
    then obtain s1 s2 s3 s4 where m: "moved (opened start 3) s s1" "patch_u8 s1 start (opc REOP_save_reset) = Some s2"
      "patch_u8 s2 (start + 1) (of_nat lcc) = Some s3" "patch_u8 s3 (start + 2) (of_nat (cc s3 - 1)) = Some s4"
      and t: "emit_optional s4 (start + 3) len qmax g z = Some (0, s')"
      using e insert_moved [of s start 3] by (auto simp: emit_general_def bind_Some_iff insert_code_0 Let_def len_def)
    have c3: "cc s3 = cc s" using movedD(4) [OF m(1)] movedD(4) [OF moves(1) [OF m(2)]] movedD(4) [OF moves(1) [OF m(3)]] by simp
    note mv = moved_comp [OF m(1) moved_comp [OF moves(1) [OF m(2)] moved_comp [OF moves(1) [OF m(3)] moves(1) [OF m(4)]]]]
    show ?thesis unfolding len_def [symmetric]
    proof (rule requant_after [OF mv emit_optional_spec [OF t]], elim relcomppE)
      fix pre a y x1 x2 x3
      assume "st_ok s" "opened start 3 (pre @ a) x1" "filled8 start (opc REOP_save_reset) x1 x2"
        "filled8 (start + 1) (of_nat lcc) x2 x3" "filled8 (start + 2) (of_nat (cc s3 - 1)) x3 y" "length pre = start"
      moreover have "unat (of_nat (cc s - 1) :: u8) < cc s"
        using \<open>st_ok s\<close> mod_less_eq_dividend [of "cc s - 1" "2 ^ 8"] unfolding unat_of_nat by (auto simp: st_ok_def)
      then have "closed (cc s) [opc REOP_save_reset, of_nat lcc, of_nat (cc s - 1)]" by (rule closed_save_reset)
      ultimately show "\<exists>b. y = (pre @ b) @ a \<and> length b = 3 \<and> closed (cc s) b"
        using reset_code [of start pre a x1 x2 "of_nat lcc" x3 "of_nat (cc s - 1)" y] c3
        by (intro exI [of _ "[opc REOP_save_reset, of_nat lcc, of_nat (cc s - 1)]"]) simp
    qed
  next
    case 2
    then show ?thesis using e emit_optional_spec by (simp add: emit_general_def Let_def)
  next
    case 3
    then show ?thesis using e emit_repeated_spec by (simp add: emit_general_def Let_def)
  qed
qed

section \<open>Simple quantifiers\<close>

lemma simple_quantifier_body:
  assumes "walk a (length a) pos h = Some h'" "\<forall>(p, h) \<in> set (insns a (length a) pos h). rel_ok a k L p h"
    and "simple_quantifier_loop (a @ rest) (length a) pos cnt = Some n" "0 \<le> cnt" "0 < n"
  shows "cnt \<le> n \<and> n \<le> cnt + int (length a - pos) \<and> simple_body (a @ [opc REOP_match]) pos (nat (n - cnt))"
  using assms
proof (induction a "length a" pos h arbitrary: cnt rule: walk.induct)
  case (1 a pos h)
  show ?case
  proof (cases "pos < length a")
    case True
    then obtain opcode len where op: "op_at a pos = Some (opcode, len)"
      and nn: "\<not> (opcode \<in> {REOP_drop, REOP_bne_char_pos} \<and> h = 0 \<or> length a < pos + len)"
      and w: "walk a (length a) (pos + len) (next_height opcode h) = Some h'"
      using "1.prems"(1) by (subst (asm) walk.simps) (auto split: option.splits if_splits)
    have ins: "insns a (length a) pos h = (pos, h) # insns a (length a) (pos + len) (next_height opcode h)"
      using True op by (simp add: insns.simps [of a "length a" pos])
    then have rel: "rel_ok a k L pos h" "\<forall>(p, h) \<in> set (insns a (length a) (pos + len) (next_height opcode h)). rel_ok a k L p h"
      using "1.prems"(2) by auto
    have filled: "range_filled opcode len" using rel(1) op by (auto simp: rel_ok_def insn_ok_def)
    note opa = op_at_append [OF op, of rest] op_at_append [OF op, of "[opc REOP_match]"]
    note IH = "1.hyps" [OF True op refl nn w rel(2)]
    have len: "0 < len" using op_at_pos op by blast
    have sq: "simple_quantifier_loop (a @ rest) (length a) pos cnt =
        (if is_simple_char opcode then simple_quantifier_loop (a @ rest) (length a) (pos + len) (cnt + 1)
         else if is_assertion opcode then simple_quantifier_loop (a @ rest) (length a) (pos + len) cnt else Some (- 1))"
      by (subst simple_quantifier_loop.simps) (simp add: True opa(1) is_assertion_def)
    consider "is_simple_char opcode" | "is_assertion opcode" "\<not> is_simple_char opcode"
      using "1.prems"(3,5) sq by (auto split: if_splits)
    then show ?thesis
    proof cases
      case simple: 1
      then have "simple_quantifier_loop (a @ rest) (length a) (pos + len) (cnt + 1) = Some n" "opcode \<noteq> REOP_match"
        using "1.prems"(3) sq by auto
      with IH [of "cnt + 1"] "1.prems"(4,5) have ih: "cnt + 1 \<le> n" "n \<le> cnt + 1 + int (length a - (pos + len))"
        "simple_body (a @ [opc REOP_match]) (pos + len) (nat (n - (cnt + 1)))" by auto
      have "nat (n - cnt) - 1 = nat (n - (cnt + 1))" "0 < nat (n - cnt)" using ih(1) by auto
      with ih(3) simple filled nn \<open>opcode \<noteq> REOP_match\<close> have "simple_body (a @ [opc REOP_match]) pos (nat (n - cnt))"
        by (subst simple_body.simps) (simp add: opa(2))
      with ih(1,2) nn len show ?thesis by linarith
    next
      case 2
      then have "simple_quantifier_loop (a @ rest) (length a) (pos + len) cnt = Some n" "opcode \<noteq> REOP_match"
        using "1.prems"(3) sq by (auto simp: is_assertion_def)
      with IH [of cnt] "1.prems"(4,5) have ih: "cnt \<le> n" "n \<le> cnt + int (length a - (pos + len))"
        "simple_body (a @ [opc REOP_match]) (pos + len) (nat (n - cnt))" by auto
      with 2 filled nn \<open>opcode \<noteq> REOP_match\<close> have "simple_body (a @ [opc REOP_match]) pos (nat (n - cnt))"
        by (subst simple_body.simps) (simp add: opa(2))
      with ih(1,2) nn len show ?thesis by linarith
    qed
  next
    case False
    then have pos: "pos = length a" using "1.prems"(1) by (subst (asm) walk.simps) (simp split: if_splits)
    have "op_at (a @ [opc REOP_match]) (length a + 0) = Some (REOP_match, 1)"
      using op_at_opc [of REOP_match "[]"] by (simp only: op_at_append2) (simp add: op_sizes)
    moreover have "n = cnt" using "1.prems"(3) pos by (subst (asm) simple_quantifier_loop.simps) simp
    ultimately show ?thesis by (subst simple_body.simps) (simp add: pos range_filled_def)
  qed
qed

lemma simple_gap:
  assumes w: "wrote [opc REOP_match] (pre @ a) x0" "opened start 17 x0 x1" "filled8 start (opc REOP_simple_greedy_quant) x1 x2"
    and a: "length pre = start"
  shows "length x2 = start + 17 + (length a + 1)"
proof -
  obtain g where "length g = 17" and "x1 = pre @ g @ a @ [opc REOP_match]"
    using w(1,2) a by (auto simp: opened_def wrote_def)
  moreover from this(1) obtain h g' where "g = h # g'" by (cases g) auto
  ultimately have "x2 = pre @ [opc REOP_simple_greedy_quant] @ g' @ a @ [opc REOP_match]"
    using filled_at(1) [of start "opc REOP_simple_greedy_quant" pre "[h]" "g' @ a @ [opc REOP_match]" x2] w(3) a by simp
  with \<open>length g = 17\<close> \<open>g = h # g'\<close> a show ?thesis by simp
qed

lemma simple_code:
  assumes w: "wrote [opc REOP_match] (pre @ a) x0" "opened start 17 x0 x1" "filled8 start (opc REOP_simple_greedy_quant) x1 x2"
    "filled32 (start + 1) v x2 x3" "filled32 (start + 5) mn x3 x4" "filled32 (start + 9) mx x4 x5" "filled32 (start + 13) n x5 y"
    and a: "length pre = start"
  shows "y = pre @ (opc REOP_simple_greedy_quant # u32_bytes v @ u32_bytes mn @ u32_bytes mx @ u32_bytes n) @ a @ [opc REOP_match]"
proof -
  define r where "r = a @ [opc REOP_match]"
  have x0: "x0 = pre @ r" using w(1) by (simp add: wrote_def r_def)
  obtain g where "length g = 5 + 12" and x1: "x1 = pre @ g @ r" using w(2) a x0 by (auto simp: opened_def)
  then obtain g0 g1 where g0: "g = g0 @ g1" "length g0 = 5" "length g1 = 4 + 8" using split_gap [of g 5 12] by auto
  obtain g2 g3 where g2: "g1 = g2 @ g3" "length g2 = 4" "length g3 = 4 + 4" using split_gap [OF g0(3)] by auto
  obtain g4 g5 where g4: "g3 = g4 @ g5" "length g4 = 4" "length g5 = 4" using split_gap [OF g2(3)] by auto
  define q where "q = opc REOP_simple_greedy_quant # u32_bytes v"
  have "x3 = pre @ q @ g2 @ g4 @ g5 @ r"
    using insn_step [of start _ pre g0 "g2 @ g4 @ g5 @ r" x2 v x3] w(3,4) a x1 g0 g2 g4 by (simp add: q_def)
  then have "x4 = pre @ q @ u32_bytes mn @ g4 @ g5 @ r"
    using filled_at(2) [of "start + 5" mn "pre @ q" g2 "g4 @ g5 @ r" x4] w(5) a g2 by (simp add: q_def)
  then have "x5 = pre @ q @ u32_bytes mn @ u32_bytes mx @ g5 @ r"
    using filled_at(2) [of "start + 9" mx "pre @ q @ u32_bytes mn" g4 "g5 @ r" x5] w(6) a g4 by (simp add: q_def)
  then have "y = pre @ q @ u32_bytes mn @ u32_bytes mx @ u32_bytes n @ r"
    using filled_at(2) [of "start + 13" n "pre @ q @ u32_bytes mn @ u32_bytes mx" g5 r y] w(7) a g4 by (simp add: q_def)
  then show ?thesis by (simp add: q_def r_def)
qed

lemma buffer_split:
  assumes "st_ok s" "code s = pre @ a"
  shows "\<exists>rest. drop (length pre) (db_buf (ps_byte_code s)) = a @ rest"
proof -
  have "db_buf (ps_byte_code s) = code s @ drop (db_size (ps_byte_code s)) (db_buf (ps_byte_code s))"
    by (simp add: code_def dbuf_bytes_def)
  then show ?thesis using assms(2) by (metis append.assoc append_eq_conv_conj)
qed

lemma emit_simple_quantifier_spec:
  assumes e: "emit_simple_quantifier s start qmin qmax n = Some (0, s')" and n: "0 < n"
    and simple: "re_is_simple_quantifier (drop start (db_buf (ps_byte_code s))) len = Some n"
  shows "requant start len s s'"
proof -
  obtain s0 b s2 s3 s4 s5 where m: "re_emit_op s REOP_match = Some s0" "dbuf_insert (ps_byte_code s0) start 17 = Some (0, b)"
    "patch_u8 (s0\<lparr>ps_byte_code := b\<rparr>) start (opc REOP_simple_greedy_quant) = Some s2"
    "patch_u32 s2 (start + 1) (of_nat (code_size s2 - start - 17)) = Some s3" "patch_u32 s3 (start + 5) (word_of_int qmin) = Some s4"
    "patch_u32 s4 (start + 9) (word_of_int qmax) = Some s5" "patch_u32 s5 (start + 13) (word_of_int n) = Some s'"
    using e by (auto simp: emit_simple_quantifier_def bind_Some_iff insert_code_0)
  have ins: "moved (opened start 17) s0 (s0\<lparr>ps_byte_code := b\<rparr>)" using insert_moved [OF m(2)] by simp
  note rest = moved_comp [OF moves(2) [OF m(4)] moved_comp [OF moves(2) [OF m(5)] moved_comp [OF moves(2) [OF m(6)] moves(2) [OF m(7)]]]]
  note first = moved_comp [OF moves(4) [OF m(1)] moved_comp [OF ins moves(1) [OF m(3)]]]
  show ?thesis
  proof (rule requantI)
    have "code s' = pre @ (opc REOP_simple_greedy_quant #
        u32_bytes (of_nat (length a + 1)) @ u32_bytes (word_of_int qmin) @ u32_bytes (word_of_int qmax) @ u32_bytes (word_of_int n)) @
        a @ [opc REOP_match]"
      if *: "\<not> err s'" "st_ok s" "code s = pre @ a" "length pre = start" for pre a
    proof -
      note e2 = movedD(1) [OF rest *(1)]
      note w2 = movedD(2) [OF first e2 *(2)]
      obtain x0 x1 where x: "wrote [opc REOP_match] (pre @ a) x0" "opened start 17 x0 x1"
        "filled8 start (opc REOP_simple_greedy_quant) x1 (code s2)"
        using movedD(3) [OF first e2 *(2)] *(3) by auto
      have "code_size s2 - start - 17 = length a + 1" using simple_gap [OF x *(4)] code_size_eq [OF w2] by simp
      with movedD(3) [OF rest *(1) w2] show ?thesis by (elim relcomppE) (rule simple_code [OF x _ _ _ _ *(4)], simp_all)
    qed
    then show "moved (\<lambda>x y. \<forall>pre a. x = pre @ a \<longrightarrow> length pre = start \<longrightarrow> y = pre @ (opc REOP_simple_greedy_quant #
        u32_bytes (of_nat (length a + 1)) @ u32_bytes (word_of_int qmin) @ u32_bytes (word_of_int qmax) @ u32_bytes (word_of_int n)) @
        a @ [opc REOP_match]) s s'"
      using moved_comp [OF first rest] unfolding moved_def by blast
  next
    fix pre a
    assume st_ok: "st_ok s" "st_ok s'" and y: "\<forall>pre' a'. pre @ a = pre' @ a' \<longrightarrow> length pre' = start \<longrightarrow>
        code s' = pre' @ (opc REOP_simple_greedy_quant # u32_bytes (of_nat (length a' + 1)) @ u32_bytes (word_of_int qmin) @
        u32_bytes (word_of_int qmax) @ u32_bytes (word_of_int n)) @ a' @ [opc REOP_match]"
      and a: "code s = pre @ a" "length pre = start" "length a = len" "closed (cc s) a"
    obtain rest where "drop start (db_buf (ps_byte_code s)) = a @ rest" using buffer_split [OF st_ok(1) a(1)] a(2) by auto
    with simple n a(3,4) simple_quantifier_body [of a 0 0 0 "cc s" "labs a 0 0" rest 0 n]
    have b: "n \<le> int (length a)" "simple_body (a @ [opc REOP_match]) 0 (nat n)"
      by (auto simp: re_is_simple_quantifier_def closed_def seg_def)
    have "length a < 2 ^ 31 - 1" using code_small [OF st_ok(2)] y a(2) by simp
    then have "closed (cc s) ((opc REOP_simple_greedy_quant # u32_bytes (of_nat (length a + 1)) @ u32_bytes (word_of_int qmin) @
        u32_bytes (word_of_int qmax) @ u32_bytes (of_nat (nat n))) @ a @ [opc REOP_match])"
      using a b sint_of_nat_small [of "length a + 1"] by (intro closed_simple_quantifier) auto
    with y a(2) n show "\<exists>c. code s' = pre @ c \<and> closed (cc s) c" by auto
  qed
qed

lemma emit_quantifier_spec:
  assumes e: "emit_quantifier s start lcc qmin qmax g = Some (0, s')"
  shows "requant start (code_size s - start) s s'"
proof (cases "\<exists>n. g \<and> 0 < qmax \<and> 0 < n \<and>
    re_is_simple_quantifier (drop start (db_buf (ps_byte_code s))) (code_size s - start) = Some n \<and>
    emit_simple_quantifier s start qmin qmax n = Some (0, s')")
  case True
  then show ?thesis using emit_simple_quantifier_spec by blast
next
  case False
  with e obtain z where "emit_general s start lcc qmin qmax g z = Some (0, s')"
    by (auto simp: emit_quantifier_def bind_Some_iff re_parse_out_of_memory_def re_parse_error_def Let_def split: if_splits)
  then show ?thesis by (rule emit_general_spec)
qed

end
