(* ===== verification/RegexpCompile.thy ===== *)
theory RegexpCompile
  imports QuantSpec
begin

text \<open>
  The compiler emits verified code. Every function of the parser appends a closed fragment to the code, from the class atoms to the disjunctions, by
  induction on the nesting; so the bytecode \<open>lre_compile\<close> returns passes \<open>re_code_ok\<close>, and the matcher is safe on it.
\<close>

section \<open>Appending fragments\<close>

definition adds :: "REParseState \<Rightarrow> REParseState \<Rightarrow> bool" where
  "adds s s' \<longleftrightarrow> cc s \<le> cc s' \<and> (\<not> err s' \<longrightarrow> \<not> err s \<and> (st_ok s \<longrightarrow> st_ok s' \<and> (\<exists>c. code s' = code s @ c \<and> closed (cc s') c)))"

definition adds_res :: "REParseState \<Rightarrow> int \<times> REParseState \<Rightarrow> bool" where
  "adds_res s x = (case x of (r, s') \<Rightarrow> r = 0 \<longrightarrow> adds s s')"

lemma addsD:
  assumes "adds s s'"
  shows "cc s \<le> cc s'" "\<not> err s' \<Longrightarrow> \<not> err s" "\<not> err s' \<Longrightarrow> st_ok s \<Longrightarrow> st_ok s'"
    "\<not> err s' \<Longrightarrow> st_ok s \<Longrightarrow> \<exists>c. code s' = code s @ c \<and> closed (cc s') c"
  using assms by (auto simp: adds_def)

lemma adds_refl: "adds s s"
  by (auto simp: adds_def closed_Nil intro!: exI [of _ "[]"])

lemma adds_trans:
  assumes "adds s s'" "adds s' s''"
  shows "adds s s''"
proof -
  have "\<exists>c. code s'' = code s @ c \<and> closed (cc s'') c" if *: "\<not> err s''" "st_ok s"
  proof -
    obtain c d where "code s' = code s @ c" "closed (cc s') c" "code s'' = code s' @ d" "closed (cc s'') d"
      using addsD(4) [OF assms(1)] addsD(4) [OF assms(2)] addsD(2) [OF assms(2)] addsD(3) [OF assms(1)] * by blast
    with closed_append [OF closed_mono [OF _ addsD(1) [OF assms(2)]]] show ?thesis by fastforce
  qed
  with assms show ?thesis by (auto simp: adds_def)
qed

lemma same_facts: "same s s' \<Longrightarrow> code s' = code s" "same s s' \<Longrightarrow> err s' = err s" "same s s' \<Longrightarrow> st_ok s' = st_ok s"
  "same s s' \<Longrightarrow> cc s' = cc s" "same s s' \<Longrightarrow> code_size s' = code_size s"
  by (simp_all add: same_def code_def err_def st_ok_def code_size_def)

lemma adds_same: "same s s' \<Longrightarrow> adds s s'"
  using adds_refl [of s] by (simp add: adds_def same_facts)

lemma adds_emits: "emits c s s' \<Longrightarrow> (st_ok s \<Longrightarrow> closed (cc s) c) \<Longrightarrow> adds s s'"
  by (auto simp: adds_def moved_def)

lemma adds_op:
  "re_emit_op s opcode = Some s' \<Longrightarrow> plain opcode \<Longrightarrow> op_size opcode = 1 \<Longrightarrow> adds s s'"
  "emit_if b s REOP_prev = Some s' \<Longrightarrow> adds s s'"
proof -
  show "re_emit_op s opcode = Some s' \<Longrightarrow> plain opcode \<Longrightarrow> op_size opcode = 1 \<Longrightarrow> adds s s'" for opcode
    by (rule adds_emits [OF re_emit_op_spec]) (auto intro: closed_op)
  from this [of REOP_prev] show "emit_if b s REOP_prev = Some s' \<Longrightarrow> adds s s'"
    by (auto simp: emit_if_def adds_refl plain_def op_sizes split: if_splits)
qed

lemma adds_requant:
  assumes a: "adds s s1" and r: "requant (code_size s) (code_size s1 - code_size s) s1 s'"
  shows "adds s s'"
proof -
  have cc: "cc s' = cc s1" and e: "\<not> err s' \<Longrightarrow> \<not> err s1" using r by (auto simp: requant_def)
  have "st_ok s' \<and> (\<exists>c. code s' = code s @ c \<and> closed (cc s') c)" if *: "\<not> err s'" "st_ok s"
  proof -
    obtain c where c: "code s1 = code s @ c" "closed (cc s1) c" "st_ok s1"
      using addsD(3,4) [OF a e [OF *(1)] *(2)] by blast
    have "length (code s) = code_size s" "length c = code_size s1 - code_size s"
      using c(1) code_size_eq [OF *(2)] code_size_eq [OF c(3)] by auto
    with r c *(1) show ?thesis unfolding requant_def cc by blast
  qed
  with a cc e show ?thesis by (auto simp: adds_def)
qed

section \<open>Atoms\<close>

lemma re_emit_range_adds:
  assumes "even (cr_len cr)"
  shows "post (adds_res s) (re_emit_range s cr)"
proof (rule postI, clarsimp simp: adds_res_def)
  fix s'
  assume e: "re_emit_range s cr = Some (0, s')"
  define len where "len = cr_len cr div 2"
  have len2: "(cr_len cr + 1) div 2 = len" using assms by (auto simp: len_def)
  have small: "len < 65535" using e by (auto simp: re_emit_range_def Let_def len_def re_parse_error_def split: if_splits)
  show "adds s s'"
  proof (cases "len = 0")
    case True
    then obtain pos where "re_emit_op_u32 s REOP_char32 (- 1) = Some (pos, s')"
      using e by (auto simp: re_emit_range_def Let_def len_def bind_Some_iff split: if_splits)
    from adds_emits [OF re_emit_op_u32_spec(1) [OF this]] closed_char(2) show ?thesis by blast
  next
    case False
    define n :: u16 where "n = ucast (of_nat len :: u32)"
    have n: "unat n = len" using small unat_ucast_small [of "of_nat len :: u32", where 'b = 16] by (simp add: n_def unat_of_nat)
    then have n0: "n \<noteq> 0" using False by auto
    consider s1 where "re_emit_op_u16 s REOP_range (of_nat len) = Some s1" "emit_ranges16 s1 (cr_points cr) 0 len = Some s'"
      | s1 where "re_emit_op_u16 s REOP_range32 (of_nat len) = Some s1" "emit_ranges32 s1 (cr_points cr) 0 len = Some s'"
      using e False small unfolding re_emit_range_def Let_def len2 len_def [symmetric]
      by (auto simp: bind_Some_iff split: if_splits)
    then show ?thesis
    proof cases
      case 1
      obtain tab where "length tab = 4 * len" "emits tab s1 s'" using emit_ranges16_spec [OF 1(2)] by blast
      with adds_emits [OF emits_trans [OF re_emit_op_u16_spec [OF 1(1)]]] closed_range [of REOP_range tab n] n n0 show ?thesis
        by (auto simp: n_def)
    next
      case 2
      obtain tab where "length tab = 8 * len" "emits tab s1 s'" using emit_ranges32_spec [OF 2(2)] by blast
      with adds_emits [OF emits_trans [OF re_emit_op_u16_spec [OF 2(1)]]] closed_range [of REOP_range32 tab n] n n0 show ?thesis
        by (auto simp: n_def)
    qed
  qed
qed

text \<open>An atom appends a fragment, and says where it starts.\<close>

definition atom_ok :: "REParseState \<Rightarrow> int \<times> nat \<times> nat option \<times> nat \<times> REParseState \<Rightarrow> bool" where
  "atom_ok s x = (case x of (r, p, start, lcc, s') \<Rightarrow>
     r = 0 \<longrightarrow> adds s s' \<and> (\<forall>st. start = Some st \<longrightarrow> st = code_size s))"

lemma atom_fail [post_intros]: "post (atom_ok s) (atom_error s' m)" "r \<noteq> 0 \<Longrightarrow> post (atom_ok s) (atom_return (r, s'))"
  by (simp_all add: atom_error_def atom_return_def re_parse_error_def Let_def post_def atom_ok_def)

lemma atom_same: "same s s1 \<Longrightarrow> post (atom_ok s1) m \<Longrightarrow> post (atom_ok s) m"
  by (auto simp: post_def atom_ok_def adds_def same_facts)

lemma atom_res: "adds s s' \<Longrightarrow> atom_ok s (0, p, Some (code_size s), lcc, s')" "adds s s' \<Longrightarrow> atom_ok s (0, p, None, lcc, s')"
  by (simp_all add: atom_ok_def)

lemma emit_char_adds:
  assumes "(if c \<le> 0xffff then re_emit_op_u16 s REOP_char c else map_option snd (re_emit_op_u32 s REOP_char32 c)) = Some s'"
  shows "adds s s'"
  using assms adds_emits [OF re_emit_op_u16_spec, of s REOP_char] adds_emits [OF re_emit_op_u32_spec(1), of s REOP_char32]
    closed_char by (auto split: if_splits)

lemma term_char_ok:
  assumes "\<And>x. cr = Some x \<Longrightarrow> even (cr_len x)"
  shows "post (atom_ok s) (term_char s b p c cr)"
proof -
  have r: "adds s1 s2" if "(if c \<ge> CLASS_RANGE_BASE then (case cr of None \<Rightarrow> None | Some cr \<Rightarrow> re_emit_range s1 cr)
        else do {
          c \<leftarrow> (if ps_ignore_case s1 then lre_canonicalize (word_of_int c) (ps_is_utf16 s1) else Some (word_of_int c));
          s \<leftarrow> (if c \<le> 0xffff then re_emit_op_u16 s1 REOP_char c
                else map_option snd (re_emit_op_u32 s1 REOP_char32 c));
          Some (0, s) }) = Some (0, s2)" for s1 s2
    using that assms postD [OF re_emit_range_adds] emit_char_adds [of _ s1 s2]
    by (fastforce simp: bind_Some_iff adds_res_def split: if_splits option.splits)
  show ?thesis
    unfolding term_char_def Let_def
    by (intro post_intros atom_res(1); (auto dest!: r adds_op(2) intro: adds_trans)?)
qed

lemma term_class_atom_ok: "post (atom_ok s) (term_class_atom s b p)"
proof -
  have "same s s' \<and> (\<forall>x. cr = Some x \<longrightarrow> even (cr_len x))" if "get_class_atom s p False = Some (c, cr, p', s')" "\<not> c < 0" for c cr p' s'
    using postD [OF get_class_atom_ev that(1)] that(2) by (simp add: atom_ev_def)
  then show ?thesis
    unfolding term_class_atom_def by (intro post_intros; (blast intro: atom_same [OF _ term_char_ok])?) auto
qed

lemma expect_same: "re_parse_expect s p c = Some (r, p', s') \<Longrightarrow> same s s'"
  unfolding re_parse_expect_def by (auto simp: bind_Some_iff split: prod.splits if_splits dest: same_error)

lemma sub_disjunction_adds:
  assumes pd: "\<And>b s. post (adds_res s) (parse_disj b s)"
    and "sub_disjunction parse_disj b s p = Some (0, p', s')"
  shows "adds s s'"
proof -
  have "parse_disj b (s\<lparr>ps_buf_ptr := p\<rparr>) = Some (0, s')"
    using assms(2) by (auto simp: sub_disjunction_def bind_Some_iff split: if_splits)
  then have "adds (s\<lparr>ps_buf_ptr := p\<rparr>) s'" using postD [OF pd] by (fastforce simp: adds_res_def)
  moreover have "same s (s\<lparr>ps_buf_ptr := p\<rparr>)" by (simp add: same_def)
  ultimately show ?thesis using adds_trans adds_same by blast
qed

lemma term_lookahead_ok:
  assumes pd: "\<And>b s. post (adds_res s) (parse_disj b s)"
  shows "post (atom_ok s) (term_lookahead parse_disj s neg bl p)"
proof (rule postI)
  fix x
  assume t: "term_lookahead parse_disj s neg bl p = Some x"
  define opcode where "opcode = (if neg then REOP_negative_lookahead else REOP_lookahead)"
  show "atom_ok s x"
  proof (cases "fst x = 0")
    case False
    then show ?thesis by (auto simp: atom_ok_def)
  next
    case True
    then obtain pos s1 p1 s2 p2 s3 s4 s' where m: "re_emit_op_u32 s opcode 0 = Some (pos, s1)"
      "sub_disjunction parse_disj bl s1 p = Some (0, p1, s2)" "re_parse_expect s2 p1 0x29 = Some (0, p2, s3)"
      "re_emit_op s3 REOP_match = Some s4" "patch_u32 s4 pos (of_nat (code_size s4) - (of_nat pos + 4)) = Some s'"
      and x: "snd (snd (snd (snd x))) = s'" "\<And>st. fst (snd (snd x)) = Some st \<Longrightarrow> st = code_size s"
      using t by (auto simp: term_lookahead_def opcode_def Let_def bind_Some_iff atom_return_def split: if_splits)
    note e1 = re_emit_op_u32_spec [OF m(1)] and d = sub_disjunction_adds [OF pd m(2)]
      and e4 = moved_comp [OF moves(4) [OF m(4)] moves(2) [OF m(5)]]
    note sm = same_facts [OF expect_same [OF m(3)]]
    have c: "cc s1 = cc s" "cc s' = cc s3" using movedD(4) [OF e1(1)] movedD(4) [OF e4] by auto
    have "st_ok s' \<and> (\<exists>c. code s' = code s @ c \<and> closed (cc s') c)" if *: "\<not> err s'" "st_ok s"
    proof -
      have n: "\<not> err s2" "\<not> err s1" using movedD(1) [OF e4 *(1)] sm addsD(2) [OF d] by auto
      have w: "st_ok s1" "st_ok s3" using movedD(2) [OF e1(1) n(2) *(2)] addsD(3) [OF d n(1)] sm by auto
      obtain c where c2: "code s3 = code s1 @ c" "closed (cc s') c" using addsD(4) [OF d n(1) w(1)] sm c by auto
      define v where "v = (of_nat (code_size s4) - (of_nat pos + 4) :: u32)"
      note w' = movedD(2) [OF e4 *(1) w(2)]
      have s4: "code s4 = code s @ (opc opcode # u32_bytes 0) @ c @ [opc REOP_match]" "st_ok s4"
        using movedD [OF re_emit_op_spec [OF m(4)]] movedD(1) [OF patch_u32_spec [OF m(5)] *(1)] w c2(1) movedD(3) [OF e1(1) n(2) *(2)]
        by simp_all
      have pos: "pos = length (code s) + 1" using e1(2) [OF *(2) n(2)] .
      have v: "v = of_nat (length c + 1)" using code_size_eq [OF s4(2)] s4(1) pos by (simp add: v_def)
      have "filled32 pos v (code s4) (code s')"
        using movedD(3) [OF moves(2) [OF m(5)] *(1) s4(2)] by (simp add: v_def)
      then have s': "code s' = code s @ (opc opcode # u32_bytes v) @ c @ [opc REOP_match]"
        using filled_at(2) [of pos v "code s @ [opc opcode]" "u32_bytes 0" "c @ [opc REOP_match]" "code s'"] s4(1) pos by simp
      have "length c + 1 < 2 ^ 31" using code_small [OF w'] s' by simp
      then have "closed (cc s') ((opc opcode # u32_bytes v) @ c @ [opc REOP_match])"
        using c2(2) sint_of_nat_small [of "length c + 1"] by (intro closed_lookahead) (auto simp: opcode_def v)
      with s' w' show ?thesis by blast
    qed
    moreover have "\<not> err s' \<Longrightarrow> \<not> err s"
      using movedD(1) [OF e4] sm addsD(2) [OF d] movedD(1) [OF e1(1)] by blast
    moreover have "cc s \<le> cc s'" using addsD(1) [OF d] sm c by simp
    ultimately have "adds s s'" by (auto simp: adds_def)
    with x show ?thesis by (cases x) (auto simp: atom_ok_def)
  qed
qed

lemma term_capture_ok:
  assumes pd: "\<And>b s. post (adds_res s) (parse_disj b s)"
  shows "post (atom_ok s) (term_capture parse_disj s bd p)"
proof (rule postI)
  fix x
  assume t: "term_capture parse_disj s bd p = Some x"
  define s0 where "s0 = s\<lparr>ps_capture_count := cc s + 1\<rparr>"
  show "atom_ok s x"
  proof (cases "fst x = 0")
    case False
    then show ?thesis by (auto simp: atom_ok_def)
  next
    case True
    obtain a b s1 p1 s2 s3 p2 s' where m: "re_emit_op_u8 s0 a (of_nat (cc s)) = Some s1"
      "sub_disjunction parse_disj bd s1 p = Some (0, p1, s2)" "re_emit_op_u8 s2 b (of_nat (cc s)) = Some s3"
      "re_parse_expect s3 p1 0x29 = Some (0, p2, s')" and lt: "cc s < CAPTURE_COUNT_MAX"
      and ab: "a \<in> {REOP_save_start, REOP_save_end}" "b \<in> {REOP_save_start, REOP_save_end}"
      and x: "snd (snd (snd (snd x))) = s'" "\<And>st. fst (snd (snd x)) = Some st \<Longrightarrow> st = code_size s"
      using t True that [of "if bd then REOP_save_end else REOP_save_start" _ _ _ "if bd then REOP_save_start else REOP_save_end"]
      by (auto simp: term_capture_def Let_def bind_Some_iff atom_return_def atom_error_def re_parse_error_def s0_def split: if_splits)
    have f0: "code s0 = code s" "err s0 = err s" "cc s0 = cc s + 1" "st_ok s \<Longrightarrow> st_ok s0"
      using lt by (auto simp: s0_def code_def err_def st_ok_def)
    have u: "unat (ucast (of_nat (cc s) :: u32) :: u8) = cc s"
      using lt unat_ucast_small [of "of_nat (cc s) :: u32", where 'b = 8] by (simp add: CAPTURE_COUNT_MAX_def unat_of_nat)
    have a1: "adds s0 s1"
      using adds_emits [OF re_emit_op_u8_spec [OF m(1)]] closed_save [OF ab(1)] u f0(3) by simp
    have a2: "adds s1 s2" using sub_disjunction_adds [OF pd m(2)] .
    have "cc s0 \<le> cc s2" using addsD(1) [OF adds_trans [OF a1 a2]] .
    then have a3: "adds s2 s3"
      using adds_emits [OF re_emit_op_u8_spec [OF m(3)]] closed_save [OF ab(2)] u f0(3) by simp
    have "adds s0 s'" using adds_trans [OF adds_trans [OF a1 a2] adds_trans [OF a3 adds_same [OF expect_same [OF m(4)]]]] .
    then have "adds s s'" using f0 unfolding adds_def by fastforce
    with x show ?thesis by (cases x) (auto simp: atom_ok_def)
  qed
qed

lemma same_updates [simp]:
  "same s (s\<lparr>ps_u := u\<rparr>)" "same s (s\<lparr>ps_group_names := g\<rparr>)" "same s (s\<lparr>ps_buf_ptr := p\<rparr>)"
  "same s (s\<lparr>ps_u := u, ps_group_names := g, ps_has_named_captures := i\<rparr>)"
  "same s (s\<lparr>ps_total_capture_count := i, ps_has_named_captures := j\<rparr>)"
  by (simp_all add: same_def)

lemma term_named_capture_ok:
  assumes pd: "\<And>b s. post (adds_res s) (parse_disj b s)"
  shows "post (atom_ok s) (term_named_capture parse_disj s bd p)"
  unfolding term_named_capture_def Let_def
  by (intro post_intros atom_same [OF _ term_capture_ok [OF pd]]) simp

lemma term_group_ok:
  assumes pd: "\<And>b s. post (adds_res s) (parse_disj b s)"
  shows "post (atom_ok s) (term_group parse_disj s bd p)"
  unfolding term_group_def Let_def
  by (intro post_intros atom_same [OF _ term_capture_ok [OF pd]] term_lookahead_ok [OF pd] term_named_capture_ok [OF pd] atom_res)
    (auto dest: sub_disjunction_adds [OF pd] adds_same [OF expect_same] intro: adds_trans)

lemma term_back_reference_ok: "post (atom_ok s) (term_back_reference s bd p c)"
  unfolding term_back_reference_def Let_def
  by (intro post_intros atom_res adds_emits [OF re_emit_op_u8_spec], assumption) (auto intro: closed_op_u8)

lemma count_captures_same: "re_count_captures s = Some (n, s') \<Longrightarrow> same s s'"
  by (auto simp: re_count_captures_def bind_Some_iff split: if_splits)

lemma has_named_same: "re_has_named_captures s = Some (b, s') \<Longrightarrow> same s s'"
  by (auto simp: re_has_named_captures_def bind_Some_iff dest!: count_captures_same split: if_splits)

lemma term_k_error_ok: "post (atom_ok s) (term_k_error s bd p m)"
  unfolding term_k_error_def
  by (intro post_intros atom_same [OF _ term_class_atom_ok]) (auto dest: has_named_same split: if_splits)

lemma term_k_ok: "post (atom_ok s) (term_k s bd p)"
  unfolding term_k_def Let_def
  by (intro post_intros term_k_error_ok atom_same [OF _ term_k_error_ok] atom_same [OF _ term_back_reference_ok]) simp_all

lemma term_zero_escape_ok: "post (atom_ok s) (term_zero_escape s bd p)"
  unfolding term_zero_escape_def by (intro post_intros term_char_ok) simp_all

lemma term_decimal_escape_ok: "post (atom_ok s) (term_decimal_escape s bd q)"
  unfolding term_decimal_escape_def
  by (intro post_intros atom_same [OF _ term_back_reference_ok] atom_same [OF _ term_char_ok])
    (auto simp: bind_Some_iff dest: count_captures_same split: if_splits)

lemma term_escape_ok: "post (atom_ok s) (term_escape s bd p)"
  unfolding term_escape_def
  by (intro post_intros atom_res term_k_ok term_zero_escape_ok term_decimal_escape_ok term_class_atom_ok)
    (auto dest!: adds_op(1) simp: plain_def op_sizes split: if_splits)

lemma class_steps:
  "class_loop s (cr_init m f) q = Some (0, cr, p, s') \<Longrightarrow> same s s' \<and> even (cr_len cr)"
  "(if b then cr_canonicalize s cr else Some (0, cr)) = Some (0, cr') \<Longrightarrow> even (cr_len cr) \<Longrightarrow> even (cr_len cr')"
  "(if b then cr_invert cr else Some (0, cr)) = Some (0, cr') \<Longrightarrow> even (cr_len cr) \<Longrightarrow> even (cr_len cr')"
  "re_emit_range s cr = Some (0, s') \<Longrightarrow> even (cr_len cr) \<Longrightarrow> adds s s'"
proof -
  show "class_loop s (cr_init m f) q = Some (0, cr, p, s') \<Longrightarrow> same s s' \<and> even (cr_len cr)"
    using postD [OF class_loop_ev [of "cr_init m f" s q]] by (fastforce simp: item_ev_def)
  show "(if b then cr_canonicalize s cr else Some (0, cr)) = Some (0, cr') \<Longrightarrow> even (cr_len cr) \<Longrightarrow> even (cr_len cr')"
    using evD [OF ev_cr_union(1)] by (auto simp: cr_canonicalize_def bind_Some_iff split: if_splits)
  show "(if b then cr_invert cr else Some (0, cr)) = Some (0, cr') \<Longrightarrow> even (cr_len cr) \<Longrightarrow> even (cr_len cr')"
    using evD [OF ev_cr_invert] by (auto split: if_splits)
  show "re_emit_range s cr = Some (0, s') \<Longrightarrow> even (cr_len cr) \<Longrightarrow> adds s s'"
    using postD [OF re_emit_range_adds] by (fastforce simp: adds_res_def)
qed

lemma re_parse_char_class_ok: "post (\<lambda>(r, p', s'). r = 0 \<longrightarrow> adds s s') (re_parse_char_class s p)"
  unfolding re_parse_char_class_def Let_def
proof (intro post_intros, goal_cases)
  case (5 b x r x1 cr x2 p s1 y r1 cr1 z r2 cr2 w r3 s2)
  then have "same s s1" "even (cr_len cr)" "even (cr_len cr1)" "even (cr_len cr2)" "re_emit_range s1 cr2 = Some (0, s2)"
    using class_steps(1) [of s _ _ _ cr p s1] class_steps(2) [of _ s1 cr cr1] class_steps(3) [of _ cr1 cr2] by simp_all
  then have "adds s s2" using class_steps(4) adds_trans adds_same by blast
  then show ?case by simp
qed (auto dest: same_error)

lemma re_parse_char_class_adds: "re_parse_char_class s p = Some (0, p', s') \<Longrightarrow> adds s s'"
  using postD [OF re_parse_char_class_ok] by fastforce

lemma re_parse_atom_ok:
  assumes pd: "\<And>b s. post (adds_res s) (parse_disj b s)"
  shows "post (atom_ok s) (re_parse_atom parse_disj s bd)"
  unfolding re_parse_atom_def Let_def
  by (intro post_intros atom_res term_class_atom_ok term_group_ok [OF pd] term_escape_ok)
    (auto dest!: adds_op(1) adds_op(2) re_parse_char_class_adds intro: adds_trans simp: plain_def op_sizes)

section \<open>Terms, alternatives and disjunctions\<close>

lemma parse_quantifier_same: "post (\<lambda>(r, q, p', s'). same s s') (parse_quantifier s p)"
  unfolding parse_quantifier_def Let_def
  by (intro post_intros) (auto dest: same_error expect_same)

lemma re_parse_term_adds:
  assumes pd: "\<And>b s. post (adds_res s) (parse_disj b s)" and t: "re_parse_term parse_disj s bd = Some (0, s')"
  shows "adds s s'"
proof -
  obtain p start lcc s1 where a: "re_parse_atom parse_disj s bd = Some (0, p, start, lcc, s1)"
    using t by (auto simp: re_parse_term_def bind_Some_iff split: if_splits)
  then consider "s' = s1\<lparr>ps_buf_ptr := p\<rparr>"
    | st p1 s2 where "parse_quantifier s1 p = Some (0, None, p1, s2)" "s' = s2\<lparr>ps_buf_ptr := p1\<rparr>"
    | st mn mx p1 s2 g s3 p2 where "start = Some st" "parse_quantifier s1 p = Some (0, Some (mn, mx), p1, s2)"
      "emit_quantifier s2 st lcc mn mx g = Some (0, s3)" "s' = s3\<lparr>ps_buf_ptr := p2\<rparr>"
    using t by (cases start) (auto simp: re_parse_term_def bind_Some_iff Let_def split: if_splits option.splits)
  note cases = this
  have s1: "adds s s1" "start = Some st \<Longrightarrow> st = code_size s" for st
    using postD [OF re_parse_atom_ok [OF pd] a] by (auto simp: atom_ok_def)
  show ?thesis
  proof (rule cases)
    assume "s' = s1\<lparr>ps_buf_ptr := p\<rparr>"
    with s1(1) adds_same [of s1 s'] show ?thesis by (auto intro: adds_trans)
  next
    fix st p1 s2 assume "parse_quantifier s1 p = Some (0, None, p1, s2)" "s' = s2\<lparr>ps_buf_ptr := p1\<rparr>"
    with postD [OF parse_quantifier_same] have "same s1 s2" "same s2 s'" by fastforce+
    with s1(1) adds_same same_trans show ?thesis by (blast intro: adds_trans)
  next
    fix st mn mx p1 s2 g s3 p2
    assume q: "start = Some st" "parse_quantifier s1 p = Some (0, Some (mn, mx), p1, s2)"
      "emit_quantifier s2 st lcc mn mx g = Some (0, s3)" "s' = s3\<lparr>ps_buf_ptr := p2\<rparr>"
    have "same s1 s2" using postD [OF parse_quantifier_same q(2)] by simp
    then have "adds s s2" using s1(1) adds_same adds_trans by blast
    moreover have "requant (code_size s) (code_size s2 - code_size s) s2 s3"
      using emit_quantifier_spec [OF q(3)] s1(2) [OF q(1)] by simp
    ultimately have "adds s s3" by (rule adds_requant)
    then show ?thesis using adds_trans adds_same [of s3 s'] q(4) by auto
  qed
qed

text \<open>Moving the last term before the others.\<close>

lemma move_list:
  assumes "take (length pre + length a + length b) buf = pre @ a @ b" "blit buf (length pre + length b) (a @ b) = Some m1"
    "slice m1 (length pre + length a + length b) (length b) = Some l" "blit m1 (length pre) l = Some m2"
  shows "take (length pre + length a + length b) m2 = pre @ b @ a"
proof -
  obtain t where t: "buf = pre @ a @ b @ t" using assms(1) by (metis append_take_drop_id append.assoc)
  define h where "h = take (length pre + length b) buf"
  have "length pre + length b \<le> length buf" by (simp add: t)
  then have h: "length h = length pre + length b" "take (length pre) h = pre"
    by (simp add: h_def, simp add: h_def t)
  have m1: "m1 = h @ a @ b @ drop (length pre + length b + length (a @ b)) buf" using assms(2) by (simp add: blit_Some_iff h_def)
  then have "l = b" using assms(3) h(1) by (auto simp: slice_Some_iff)
  moreover have "take (length pre) m1 = pre" "drop (length pre + length b) m1 = a @ b @ drop (length pre + length b + length (a @ b)) buf"
    using m1 h by simp_all
  ultimately show ?thesis using assms(4) by (simp add: blit_Some_iff)
qed

lemma move_term_spec:
  assumes m: "move_term_first s start term_start = Some (0, s')"
  shows "cc s' = cc s" "\<not> err s' \<Longrightarrow> \<not> err s"
    "\<not> err s' \<Longrightarrow> st_ok s \<Longrightarrow> code s = pre @ a @ b \<Longrightarrow> start = length pre \<Longrightarrow> term_start = length (pre @ a) \<Longrightarrow>
       st_ok s' \<and> code s' = pre @ b @ a"
proof -
  define endp where "endp = code_size s"
  define n where "n = endp - term_start"
  obtain buf m1 m2 c l where r: "dbuf_realloc (ps_byte_code s) (size_t (endp + n)) = (0, buf)"
    and c: "slice (db_buf buf) start (endp - start) = Some c" "blit (db_buf buf) (start + n) c = Some m1"
      "slice m1 endp n = Some l" "blit m1 start l = Some m2"
    and s': "s' = s\<lparr>ps_byte_code := buf\<lparr>db_buf := m2\<rparr>\<rparr>"
    using m by (auto simp: move_term_first_def Let_def bind_Some_iff endp_def n_def split: prod.splits if_splits)
  show "cc s' = cc s" by (simp add: s')
  show "\<not> err s' \<Longrightarrow> \<not> err s" using dbuf_realloc_D(1) [OF r] by (simp add: err_def s')
  assume e: "\<not> err s'" and st_ok: "st_ok s" and code: "code s = pre @ a @ b" and st: "start = length pre" "term_start = length (pre @ a)"
  have w: "buf_wf (ps_byte_code s)" and sz: "endp < 2 ^ 31" "endp = length (code s)"
    using st_ok code_size_eq [OF st_ok] code_small [OF st_ok] by (auto simp: st_ok_def endp_def)
  have n: "n = length b" using sz(2) code st by (simp add: n_def)
  have "n \<le> endp" by (simp add: n_def)
  then have n64: "endp + n < 2 ^ 64" using sz(1) by simp
  note g = dbuf_realloc_cases [OF _ n64 r [unfolded size_t_id [OF n64]]]
  have ok: "dbuf_ok (ps_byte_code s)" using w by (simp add: buf_wf_def)
  have bw: "buf_wf buf" using dbuf_realloc_D(2) [OF r] w n64 by simp
  have bb: "take endp (db_buf buf) = pre @ a @ b"
    using g(2,3) [OF ok] code by (simp add: code_def dbuf_bytes_def endp_def code_size_def)
  have len: "endp = length pre + length a + length b" using sz(2) code by simp
  have "take (length (a @ b)) (drop start (take endp (db_buf buf))) = a @ b" using bb st(1) by simp
  then have cc: "c = a @ b" using c(1) len st(1) by (simp add: slice_Some_iff drop_take)
  have "st_ok s'" unfolding s' using bw c(2,4) st_ok length_blit [OF c(2)] length_blit [OF c(4)]
    by (auto simp: st_ok_def buf_wf_def dbuf_ok_def)
  moreover have "take (length pre + length a + length b) m2 = pre @ b @ a"
    using move_list [of pre a b "db_buf buf" m1 l m2] bb c(2-4) len st(1) n cc by simp
  then have "code s' = pre @ b @ a"
    using g(3) [OF ok] len by (simp add: s' code_def dbuf_bytes_def endp_def code_size_def)
  ultimately show "st_ok s' \<and> code s' = pre @ b @ a" by simp
qed

text \<open>The code from \<open>start\<close> on is a closed fragment again, though not an extension of the old one.\<close>

definition grows :: "nat \<Rightarrow> REParseState \<Rightarrow> REParseState \<Rightarrow> bool" where
  "grows start s s' \<longleftrightarrow> cc s \<le> cc s' \<and> (\<not> err s' \<longrightarrow> \<not> err s \<and> (st_ok s \<longrightarrow>
     (\<forall>pre a. code s = pre @ a \<longrightarrow> length pre = start \<longrightarrow> closed (cc s) a \<longrightarrow>
        st_ok s' \<and> (\<exists>b. code s' = pre @ b \<and> closed (cc s') b))))"

lemma growsD:
  assumes "grows start s s'"
  shows "cc s \<le> cc s'" "\<not> err s' \<Longrightarrow> \<not> err s"
    "\<not> err s' \<Longrightarrow> st_ok s \<Longrightarrow> code s = pre @ a \<Longrightarrow> length pre = start \<Longrightarrow> closed (cc s) a \<Longrightarrow>
      st_ok s' \<and> (\<exists>b. code s' = pre @ b \<and> closed (cc s') b)"
  using assms by (auto simp: grows_def)

lemma growsI:
  assumes "cc s \<le> cc s'" "\<not> err s' \<Longrightarrow> \<not> err s"
    "\<And>pre a. \<not> err s' \<Longrightarrow> st_ok s \<Longrightarrow> code s = pre @ a \<Longrightarrow> length pre = start \<Longrightarrow> closed (cc s) a \<Longrightarrow>
      st_ok s' \<and> (\<exists>b. code s' = pre @ b \<and> closed (cc s') b)"
  shows "grows start s s'"
  using assms by (auto simp: grows_def)

lemma grows_refl: "grows start s s"
  by (auto simp: grows_def)

lemma grows_trans: "grows start s s' \<Longrightarrow> grows start s' s'' \<Longrightarrow> grows start s s''"
  by (rule growsI) (meson growsD order_trans)+

lemma grows_adds:
  assumes "adds s s'"
  shows "grows start s s'"
proof (rule growsI)
  fix pre a assume *: "\<not> err s'" "st_ok s" "code s = pre @ a" "closed (cc s) a"
  obtain c where "code s' = code s @ c" "closed (cc s') c" using addsD(4) [OF assms *(1,2)] by blast
  with closed_append [OF closed_mono [OF *(4) addsD(1) [OF assms]]] *(3) addsD(3) [OF assms *(1,2)]
  show "st_ok s' \<and> (\<exists>b. code s' = pre @ b \<and> closed (cc s') b)" by auto
qed (use addsD [OF assms] in auto)

lemma adds_grows:
  assumes "grows (code_size s) s s'"
  shows "adds s s'"
  using growsD [OF assms] growsD(3) [OF assms, of "code s" "[]"] code_size_eq [of s] closed_Nil
  by (auto simp: adds_def)

lemma move_grows:
  assumes a: "adds s s1" and m: "move_term_first s1 start (code_size s) = Some (0, s')"
  shows "grows start s s'"
proof (rule growsI)
  note mv = move_term_spec [OF m]
  show "cc s \<le> cc s'" "\<not> err s' \<Longrightarrow> \<not> err s" using addsD(1,2) [OF a] mv(1,2) by auto
  fix pre c assume *: "\<not> err s'" "st_ok s" "code s = pre @ c" "length pre = start" "closed (cc s) c"
  have e1: "\<not> err s1" using mv(2) *(1) .
  obtain d where d: "code s1 = code s @ d" "closed (cc s1) d" using addsD(4) [OF a e1 *(2)] by blast
  have "st_ok s' \<and> code s' = pre @ d @ c"
    using mv(3) [OF *(1) addsD(3) [OF a e1 *(2)], of pre c d] d * code_size_eq [of s] by simp
  moreover have "closed (cc s') (d @ c)"
    using closed_append [OF d(2) closed_mono [OF *(5) addsD(1) [OF a]]] mv(1) by simp
  ultimately show "st_ok s' \<and> (\<exists>b. code s' = pre @ b \<and> closed (cc s') b)" by blast
qed

lemma alternative_loop_grows:
  assumes "\<And>b s. post (adds_res s) (parse_disj b s)" and "alternative_loop parse_disj bd start s = Some (0, s')"
  shows "grows start s s'"
  using assms
proof (induction parse_disj bd start s rule: alternative_loop.induct)
  case (1 parse_disj bd start s)
  define m where "m = try_ok (re_parse_term parse_disj s bd) (\<lambda>s'.
    if bd then move_term_first s' start (code_size s) else Some (0, s'))"
  note loop = "1.prems"(2) [unfolded alternative_loop.simps [of parse_disj bd start s], folded m_def]
  show ?case
  proof (cases "s' = s")
    case True
    then show ?thesis by (simp add: grows_refl)
  next
    case False
    then obtain b s1 where b: "\<not> ps_buf_ptr s \<ge> ps_buf_end s" "rd (ps_buf s) (ps_buf_ptr s) = Some b" "\<not> (b = 0x7C \<or> b = 0x29)"
      and s1: "m = Some (0, s1)" "\<not> (ps_buf_ptr s1 \<le> ps_buf_ptr s \<or> ps_buf_end s1 \<noteq> ps_buf_end s)"
      and l: "alternative_loop parse_disj bd start s1 = Some (0, s')"
      using loop by (auto split: if_splits option.splits)
    have "grows start s s1"
      using s1(1) re_parse_term_adds [OF "1.prems"(1)] grows_adds move_grows
      by (fastforce simp: m_def split: if_splits)
    moreover have "grows start s1 s'"
      using "1.IH" [OF b s1(1) [unfolded m_def] refl _ s1(2) "1.prems"(1) l] by simp
    ultimately show ?thesis by (rule grows_trans)
  qed
qed

lemma re_parse_alternative_adds:
  assumes "\<And>b s. post (adds_res s) (parse_disj b s)" and "re_parse_alternative parse_disj s bd = Some (0, s')"
  shows "adds s s'"
  using assms by (intro adds_grows alternative_loop_grows) (auto simp: re_parse_alternative_def)

lemma disjunction_step_grows:
  assumes pd: "\<And>b s. post (adds_res s) (parse_disj b s)" and d: "disjunction_step parse_disj bd start s = Some (0, s')"
  shows "grows start s s'"
proof -
  define s0 where "s0 = s\<lparr>ps_buf_ptr := ps_buf_ptr s + 1\<rparr>"
  define len where "len = code_size s0 - start"
  obtain bf s2 s3 pos s4 s5 where m: "dbuf_insert (ps_byte_code s0) start 5 = Some (0, bf)"
    "patch_u8 (s0\<lparr>ps_byte_code := bf\<rparr>) start (opc REOP_split_next_first) = Some s2"
    "patch_u32 s2 (start + 1) (of_nat (len + 5)) = Some s3" "re_emit_op_u32 s3 REOP_goto 0 = Some (pos, s4)"
    "re_parse_alternative parse_disj s4 bd = Some (0, s5)"
    "patch_u32 s5 pos (of_nat (code_size s5) - (of_nat pos + 4)) = Some s'"
    using d by (auto simp: disjunction_step_def Let_def insert_code_0 bind_Some_iff s0_def len_def)
  have ins: "moved (opened start 5) s0 (s0\<lparr>ps_byte_code := bf\<rparr>)" using insert_moved [OF m(1)] by simp
  note first = moved_comp [OF ins moved_comp [OF moves(1) [OF m(2)] moves(2) [OF m(3)]]]
  note op = re_emit_op_u32_spec [OF m(4)] and alt = re_parse_alternative_adds [OF pd m(5)] and last = moves(2) [OF m(6)]
  have sm: "same s s0" by (simp add: s0_def)
  note sf = same_facts [OF sm]
  have c: "cc s3 = cc s" "cc s4 = cc s" "cc s' = cc s5" "cc s \<le> cc s5"
    using movedD(4) [OF first] movedD(4) [OF op(1)] movedD(4) [OF last] addsD(1) [OF alt] sf(4) by auto
  have e: "\<not> err s'  \<Longrightarrow> \<not> err s5" "\<not> err s' \<Longrightarrow> \<not> err s4" "\<not> err s' \<Longrightarrow> \<not> err s3" "\<not> err s' \<Longrightarrow> \<not> err s"
    using movedD(1) [OF last] addsD(2) [OF alt] movedD(1) [OF op(1)] movedD(1) [OF first] sf(2) by blast+
  show ?thesis
  proof (rule growsI)
    show "cc s \<le> cc s'" using c by simp
  next
    fix pre a assume *: "\<not> err s'" "st_ok s" "code s = pre @ a" "length pre = start" "closed (cc s) a"
    have w: "st_ok s0" "st_ok s3" using *(2) sf(3) movedD(2) [OF first e(3) [OF *(1)]] by auto
    have w': "st_ok s4" "st_ok s5" "st_ok s'"
      using movedD(2) [OF op(1) e(2) [OF *(1)] w(2)] addsD(3) [OF alt e(1) [OF *(1)]] movedD(2) [OF last *(1)] by auto
    have len: "len = length a" using code_size_eq [OF w(1)] sf(1) *(3,4) by (simp add: len_def)
    define sp where "sp = opc REOP_split_next_first # u32_bytes (of_nat (len + 5))"
    have c3: "code s3 = pre @ sp @ a"
      using movedD(3) [OF first e(3) [OF *(1)] w(1)] sf(1) *(3,4) unfolding sp_def
      by (elim relcomppE) (rule opened_insn, simp_all)
    have c4: "code s4 = pre @ sp @ a @ (opc REOP_goto # u32_bytes 0)" using movedD(3) [OF op(1) e(2) [OF *(1)] w(2)] c3 by simp
    obtain b where b: "code s5 = code s4 @ b" "closed (cc s5) b" using addsD(4) [OF alt e(1) [OF *(1)] w'(1)] by blast
    have pos: "pos = length (pre @ sp @ a @ [opc REOP_goto])" using op(2) [OF w(2) e(2) [OF *(1)]] c3 by simp
    have v: "of_nat (code_size s5) - (of_nat pos + 4) = (of_nat (length b) :: u32)"
      using code_size_eq [OF w'(2)] b(1) c4 pos by simp
    have c': "code s' = pre @ sp @ a @ (opc REOP_goto # u32_bytes (of_nat (length b))) @ b"
      using filled_at(2) [of pos _ "pre @ sp @ a @ [opc REOP_goto]" "u32_bytes 0" b "code s'"]
        movedD(3) [OF last *(1) w'(2)] b(1) c4 pos v by simp
    have "length a + 5 < 2 ^ 31" "length b < 2 ^ 31" using code_small [OF w'(3)] c' by (auto simp: sp_def)
    then have "closed (cc s') (sp @ a @ (opc REOP_goto # u32_bytes (of_nat (length b))) @ b)"
      unfolding sp_def using b(2) closed_mono [OF *(5), of "cc s'"] c len sint_of_nat_small [of "length a + 5"] sint_of_nat_small [of "length b"]
      by (intro closed_disjunction) auto
    with c' w'(3) show "st_ok s' \<and> (\<exists>b. code s' = pre @ b \<and> closed (cc s') b)" by blast
  qed (use e in auto)
qed

lemma disjunction_loop_grows:
  assumes "\<And>b s. post (adds_res s) (parse_disj b s)" and "disjunction_loop parse_disj bd start s = Some (0, s')"
  shows "grows start s s'"
  using assms
proof (induction parse_disj bd start s rule: disjunction_loop.induct)
  case (1 parse_disj bd start s)
  note loop = "1.prems"(2) [unfolded disjunction_loop.simps [of parse_disj bd start s]]
  show ?case
  proof (cases "s' = s")
    case True
    then show ?thesis by (simp add: grows_refl)
  next
    case False
    then obtain b s1 where b: "rd (ps_buf s) (ps_buf_ptr s) = Some b" "\<not> b \<noteq> 0x7C"
      and s1: "disjunction_step parse_disj bd start s = Some (0, s1)" "\<not> (ps_buf_ptr s1 \<le> ps_buf_ptr s \<or> ps_buf s1 \<noteq> ps_buf s)"
      and l: "disjunction_loop parse_disj bd start s1 = Some (0, s')"
      using loop by (auto split: if_splits option.splits)
    from grows_trans [OF disjunction_step_grows [OF "1.prems"(1) s1(1)] "1.IH" [OF b s1(1) refl _ s1(2) "1.prems"(1) l]]
    show ?thesis by simp
  qed
qed

lemma re_parse_disjunction_ok: "post (adds_res s) (re_parse_disjunction depth bd s)"
proof (induction depth arbitrary: bd s)
  case 0
  then show ?case by (simp add: post_def adds_res_def re_parse_error_def Let_def)
next
  case (Suc depth)
  show ?case
  proof (rule postI, clarsimp simp: adds_res_def)
    fix s' s1
    assume "re_parse_alternative (re_parse_disjunction depth) s bd = Some (0, s1)"
      and "disjunction_loop (re_parse_disjunction depth) bd (code_size s) s1 = Some (0, s')"
    from grows_adds [OF re_parse_alternative_adds [OF Suc this(1)]] disjunction_loop_grows [OF Suc this(2)]
    show "adds s s'" by (intro adds_grows) (rule grows_trans)
  qed
qed

section \<open>The whole pattern\<close>

lemma emits_code:
  "emits c s s' \<Longrightarrow> \<not> err s' \<Longrightarrow> st_ok s \<Longrightarrow> code s' = code s @ c"
  by (simp add: moved_def)

lemma put_header_spec:
  assumes "put_header s = Some s'"
  shows "\<exists>hdr. length hdr = 7 \<and> emits hdr s s'"
proof -
  obtain r1 b1 r2 b2 r3 b3 r4 b4 where b: "dbuf_put (ps_byte_code s) [ucast (ps_re_flags s)] = Some (r1, b1)"
    "dbuf_put b1 [0] = Some (r2, b2)" "dbuf_put b2 [0] = Some (r3, b3)" "dbuf_put b3 (u32_bytes 0) = Some (r4, b4)"
    "s' = s\<lparr>ps_byte_code := b4\<rparr>"
    using assms by (auto simp: put_header_def dbuf_putc_def dbuf_put_u32_def bind_Some_iff)
  have "emits ([ucast (ps_re_flags s)] @ [0] @ [0] @ u32_bytes 0) s s'"
    using emits_put [of s _ r1 b1] emits_put [of "s\<lparr>ps_byte_code := b1\<rparr>" _ r2 b2] emits_put [of "s\<lparr>ps_byte_code := b2\<rparr>" _ r3 b3]
      emits_put [of "s\<lparr>ps_byte_code := b3\<rparr>" _ r4 b4] b
    by (fastforce intro!: emits_trans)
  then show ?thesis by (intro exI [of _ "[ucast (ps_re_flags s)] @ [0] @ [0] @ u32_bytes 0"]) simp
qed

lemma scan_prefix_adds:
  assumes "re_emit_op_u32 s REOP_split_goto_first (1 + 5) = Some (q, s1)" "re_emit_op s1 REOP_any = Some s2"
    "re_emit_op_u32 s2 REOP_goto (- (5 + 1 + 5)) = Some (q', s3)"
  shows "adds s s3"
proof (rule adds_emits)
  show "emits ((opc REOP_split_goto_first # u32_bytes (1 + 5)) @ [opc REOP_any] @ (opc REOP_goto # u32_bytes (- (5 + 1 + 5)))) s s3"
    using assms by (intro emits_trans re_emit_op_u32_spec(1) re_emit_op_spec)
  show "closed (cc s) ((opc REOP_split_goto_first # u32_bytes (1 + 5)) @ [opc REOP_any] @ (opc REOP_goto # u32_bytes (- (5 + 1 + 5))))"
    by (intro closed_star closed_op) (simp_all add: is_split_def plain_def op_sizes)
qed

lemma compile_code_spec:
  assumes c: "compile_code depth s = Some (0, s')" and st_ok: "st_ok s" and nil: "code s = []"
  shows "\<exists>hdr c. \<not> err s' \<and> st_ok s' \<and> length hdr = 7 \<and> closed (cc s') c \<and> code s' = hdr @ c @ [opc REOP_match]"
proof -
  obtain s1 s2 s3 s4 s5 where h: "put_header s = Some s1"
    and p: "s2 = s1 \<or> (\<exists>q sa sb q'. re_emit_op_u32 s1 REOP_split_goto_first (1 + 5) = Some (q, sa) \<and> re_emit_op sa REOP_any = Some sb \<and>
      re_emit_op_u32 sb REOP_goto (- (5 + 1 + 5)) = Some (q', s2))"
    and b: "re_emit_op_u8 s2 REOP_save_start 0 = Some s3" "re_parse_disjunction depth False s3 = Some (0, s4)"
      "re_emit_op_u8 s4 REOP_save_end 0 = Some s5" "re_emit_op s5 REOP_match = Some s'" and e: "\<not> err s'"
    using c by (auto simp: compile_code_def bind_Some_iff err_def dbuf_error_def re_parse_error_def re_parse_out_of_memory_def Let_def
        split: if_splits) blast+
  obtain hdr where hdr: "length hdr = 7" "emits hdr s s1" using put_header_spec [OF h] by blast
  have a2: "adds s1 s2" using p scan_prefix_adds adds_refl by blast
  have save: "st_ok t \<Longrightarrow> opcode \<in> {REOP_save_start, REOP_save_end} \<Longrightarrow> closed (cc t) [opc opcode, ucast (0 :: u32)]" for t opcode
    by (intro closed_save) (auto simp: st_ok_def)
  have a3: "adds s2 s3" by (rule adds_emits [OF re_emit_op_u8_spec [OF b(1)] save]) simp_all
  have a4: "adds s3 s4" using postD [OF re_parse_disjunction_ok b(2)] by (simp add: adds_res_def)
  have a5: "adds s4 s5" by (rule adds_emits [OF re_emit_op_u8_spec [OF b(3)] save]) simp_all
  have a: "adds s1 s5" using adds_trans [OF adds_trans [OF a2 a3] adds_trans [OF a4 a5]] .
  note m = re_emit_op_spec [OF b(4)]
  have e5: "\<not> err s5" "\<not> err s1" using movedD(1) [OF m e] addsD(2) [OF a] by auto
  have w1: "st_ok s1" "code s1 = hdr" using movedD(2,3) [OF hdr(2) e5(2) st_ok] nil by auto
  obtain d where d: "code s5 = hdr @ d" "closed (cc s5) d" "st_ok s5" using addsD(3,4) [OF a e5(1) w1(1)] w1(2) by auto
  then have "code s' = hdr @ d @ [opc REOP_match]" "st_ok s'" "cc s' = cc s5" using movedD(2,3) [OF m e] movedD(4) [OF m] by auto
  with hdr(1) d(2) e show ?thesis by auto
qed

text \<open>The group names, if they fit.\<close>

lemma dbuf_put_any:
  assumes p: "dbuf_put b data = Some (r, b')" and st_ok: "buf_wf b"
  shows "buf_wf b'" "\<exists>t. dbuf_bytes b' = dbuf_bytes b @ t"
proof -
  define need where "need = size_t (db_size b + length data)"
  have n64: "need < 2 ^ 64" by (simp add: need_def size_t_def)
  obtain r1 b1 where g: "(if need > db_allocated_size b then dbuf_realloc b need else (0, b)) = (r1, b1)" by (metis surj_pair)
  have ok: "dbuf_ok b" using st_ok by (simp add: buf_wf_def)
  have b1: "buf_wf b1" "dbuf_bytes b1 = dbuf_bytes b" "db_size b1 = db_size b"
    using g st_ok n64 dbuf_realloc_D(2) [of b need r1 b1] dbuf_realloc_cases(2,3) [OF ok n64, of r1 b1] by (auto split: if_splits)
  show "buf_wf b'" "\<exists>t. dbuf_bytes b' = dbuf_bytes b @ t"
  proof -
    have "buf_wf b' \<and> (\<exists>t. dbuf_bytes b' = dbuf_bytes b @ t)"
    proof (cases "r1 = 0")
      case False
      then have "b' = b1" using p unfolding dbuf_put_def Let_def need_def [symmetric] g by simp
      with b1 show ?thesis by auto
    next
      case True
      then obtain m where m: "blit (db_buf b1) (db_size b1) data = Some m"
        and b': "b' = b1\<lparr>db_buf := m, db_size := size_t (db_size b1 + length data)\<rparr>"
        using p unfolding dbuf_put_def Let_def need_def [symmetric] g by (auto simp: bind_Some_iff)
      have "db_size b1 + length data \<le> db_allocated_size b1" "db_allocated_size b1 < 2 ^ 64"
        using m b1(1) by (auto simp: blit_Some_iff buf_wf_def dbuf_ok_def)
      then have b'2: "b' = b1\<lparr>db_buf := m, db_size := db_size b1 + length data\<rparr>" using b' by simp
      then have "buf_wf b'" using b1(1) dbuf_ok_take_blit [OF _ m] \<open>db_size b1 + length data \<le> _\<close>
        by (auto simp: buf_wf_def)
      moreover have "dbuf_bytes b' = dbuf_bytes b1 @ data"
        using take_blit_end [OF m] by (simp add: b'2 dbuf_bytes_def)
      ultimately show ?thesis using b1(2) by auto
    qed
    then show "buf_wf b'" "\<exists>t. dbuf_bytes b' = dbuf_bytes b @ t" by auto
  qed
qed

lemma code_alloc: "st_ok s \<Longrightarrow> db_buf (ps_byte_code s) = code s @ drop (code_size s) (db_buf (ps_byte_code s))"
  by (simp add: code_def dbuf_bytes_def code_size_def)

lemma patch_err: "patch_u8 s p v = Some s' \<Longrightarrow> err s' = err s" "patch_u32 s p w = Some s' \<Longrightarrow> err s' = err s"
  by (auto simp: patch_u8_def patch_u32_def bind_Some_iff err_def)

lemma patch_header:
  assumes p: "patch_u8 s 1 a = Some s1" "patch_u8 s1 2 b = Some s2" "patch_u32 s2 3 v = Some s3"
    and ok: "\<not> err s" "st_ok s" and c: "code s = hdr @ r" "length hdr = 7"
  shows "\<not> err s3 \<and> st_ok s3 \<and> cc s3 = cc s \<and> code s3 = ([hdr ! 0, a, b] @ u32_bytes v) @ r"
proof -
  have e: "\<not> err s1" "\<not> err s2" "\<not> err s3" using ok(1) patch_err(1) [OF p(1)] patch_err(1) [OF p(2)] patch_err(2) [OF p(3)] by auto
  obtain h0 h1 h2 g where h: "hdr = h0 # h1 # h2 # g" "length g = 4"
    using c(2) by (auto simp: numeral_eq_Suc length_Suc_conv)
  note m = moves(1) [OF p(1)] moves(1) [OF p(2)] moves(2) [OF p(3)]
  have w: "st_ok s1" "st_ok s2" "st_ok s3"
    using movedD(2) [OF m(1) e(1) ok(2)] movedD(2) [OF m(2) e(2)] movedD(2) [OF m(3) e(3)] by auto
  have "code s1 = [h0] @ [a] @ [h2] @ g @ r"
    using filled_at(1) [of 1 a "[h0]" "[h1]" "[h2] @ g @ r" "code s1"] movedD(3) [OF m(1) e(1) ok(2)] c(1) h(1) by simp
  then have "code s2 = [h0, a] @ [b] @ g @ r"
    using filled_at(1) [of 2 b "[h0, a]" "[h2]" "g @ r" "code s2"] movedD(3) [OF m(2) e(2) w(1)] by (simp add: numeral_2_eq_2)
  then have "code s3 = [h0, a, b] @ u32_bytes v @ r"
    using filled_at(2) [of 3 v "[h0, a, b]" g r "code s3"] movedD(3) [OF m(3) e(3) w(2)] h(2) by (simp add: numeral_3_eq_3)
  then show ?thesis using e w h(1) movedD(4) [OF m(1)] movedD(4) [OF m(2)] movedD(4) [OF m(3)] by simp
qed

text \<open>The header of the finished code, and the names behind it.\<close>

lemma finish_code_spec:
  assumes f: "finish_code s ss = Some s'" and ok: "\<not> err s" "st_ok s" and c: "code s = hdr @ r" "length hdr = 7"
  shows "st_ok s' \<and> (\<exists>flags names. code s' =
    ([flags, of_nat (cc s), of_nat ss] @ u32_bytes (of_nat (length r))) @ r @ names)"
proof -
  obtain s1 s2 s3 where p: "patch_u8 s 1 (of_nat (cc s)) = Some s1" "patch_u8 s1 2 (of_nat ss) = Some s2"
    "patch_u32 s2 3 (of_nat (code_size s) - 7) = Some s3"
    and fin: "s' = s3 \<or> (\<exists>names r b flags. dbuf_put (ps_byte_code s3) names = Some (r, b) \<and>
      patch_u8 (s3\<lparr>ps_byte_code := b\<rparr>) 0 flags = Some s')"
    using f by (auto simp: finish_code_def Let_def bind_Some_iff RE_HEADER_CAPTURE_COUNT_def RE_HEADER_STACK_SIZE_def
        RE_HEADER_LEN_def RE_HEADER_FLAGS_def split: if_splits) blast+
  have "of_nat (code_size s) - 7 = (of_nat (length r) :: u32)" using code_size_eq [OF ok(2)] c by simp
  note p3 = patch_header [OF p [unfolded this] ok c]
  define rest where "rest = [of_nat (cc s), of_nat ss] @ u32_bytes (of_nat (length r)) @ r"
  have c3: "code s3 = [hdr ! 0] @ rest" "st_ok s3" using p3 by (auto simp: rest_def)
  consider "s' = s3" | names r b flags where "dbuf_put (ps_byte_code s3) names = Some (r, b)"
    "patch_u8 (s3\<lparr>ps_byte_code := b\<rparr>) 0 flags = Some s'" using fin by blast
  then have "st_ok s' \<and> (\<exists>flags names. code s' = [flags] @ rest @ names)"
  proof cases
    case 1
    with c3 show ?thesis by auto
  next
    case (2 names r b flags)
    let ?s = "s3\<lparr>ps_byte_code := b\<rparr>"
    have "buf_wf (ps_byte_code s3)" using c3(2) by (simp add: st_ok_def)
    note b = dbuf_put_any [OF 2(1) this]
    obtain t where t: "code ?s = ([hdr ! 0] @ rest) @ t" using b(2) c3(1) by (auto simp: code_def)
    obtain m where m: "blit (db_buf b) 0 [flags] = Some m" "s' = s3\<lparr>ps_byte_code := b\<lparr>db_buf := m\<rparr>\<rparr>"
      using 2(2) by (auto simp: patch_u8_def wr_eq_blit bind_Some_iff)
    have "0 + length [flags] \<le> db_size b" using t buf_wf_bytes(1) [OF b(1)] by (auto simp: code_def dest!: arg_cong [of _ _ length])
    with buf_wf_overwrite [OF m(1) b(1)] m(2) t c3(2) show ?thesis by (auto simp: st_ok_def code_def)
  qed
  then show ?thesis by (auto simp: rest_def)
qed

lemma compile_verified:
  assumes "realloc_contract realloc8" "small_blocks realloc8"
    and c: "lre_compile depth realloc8 realloc32 error_msg error_msg_size buf buf_len re_flags = Some (Some bc, m)"
  shows "re_code_ok bc"
proof -
  define s0 where "s0 = init_parse_state realloc8 realloc32 buf buf_len re_flags"
  have init: "st_ok s0" "code s0 = []"
    using assms(1,2) dbuf_init2_ok [OF assms(1), of 0]
    by (auto simp: s0_def init_parse_state_def st_ok_def buf_wf_def dbuf_init2_def code_def dbuf_bytes_def CAPTURE_COUNT_MAX_def)
  obtain s1 ss s2 where s1: "compile_code depth s0 = Some (0, s1)"
    and ss: "compute_stack_size (db_buf (ps_byte_code s1)) (code_size s1) = Some (Some ss)"
    and s2: "finish_code s1 ss = Some s2" "slice (db_buf (ps_byte_code s2)) 0 (code_size s2) = Some bc"
    using c by (auto simp: lre_compile_def s0_def bind_Some_iff Let_def split: if_splits option.splits prod.splits)
  obtain hdr d where ok: "\<not> err s1" "st_ok s1" "length hdr = 7" "closed (cc s1) d" "code s1 = hdr @ d @ [opc REOP_match]"
    using compile_code_spec [OF s1 init] by blast
  define body where "body = d @ [opc REOP_match]"
  obtain flags names where f: "st_ok s2" "code s2 = ([flags, of_nat (cc s1), of_nat ss] @ u32_bytes (of_nat (length body))) @ body @ names"
    using finish_code_spec [OF s2(1) ok(1,2), of hdr body] ok(3,5) by (auto simp: body_def)
  have bc: "bc = code s2" using s2(2) by (auto simp: slice_Some_iff code_def dbuf_bytes_def code_size_def)
  have w: "walk body (length body) 0 0 = Some 0"
    using segD [OF seg_append [OF ok(4) [unfolded closed_def] seg_match [where L = "{}"], of "{}"]] by (simp add: body_def)
  obtain rest where db: "db_buf (ps_byte_code s1) = hdr @ body @ rest" using code_alloc [OF ok(2)] ok(5) by (auto simp: body_def)
  have "stack_size_loop (body @ rest) (length body) 0 0 0 = Some (Some ss)"
    using ss code_size_eq [OF ok(2)] ok(3,5) db by (simp add: compute_stack_size_def RE_HEADER_LEN_def body_def)
  from stack_size_loop_bounds [OF this] insns_prefix [OF w, of rest]
  have h: "ss \<le> 255" "\<forall>(p, h) \<in> set (insns body (length body) 0 0). h \<le> ss" by (auto simp: STACK_SIZE_MAX_def)
  have "cc s1 \<le> 255" using ok(2) by (simp add: st_ok_def CAPTURE_COUNT_MAX_def)
  moreover have "length d + 1 < 2 ^ 32" using code_small [OF ok(2)] ok(5) by simp
  ultimately show ?thesis
    using closed_re_code_ok [OF ok(4) _ h(1), of "[flags, of_nat (cc s1), of_nat ss] @ u32_bytes (of_nat (length body))" names] h(2)
    by (simp add: bc f(2) body_def)
qed

section \<open>Verified code for every pattern\<close>

text \<open>An allocator with a limit, as a small configuration of the engine has it.\<close>

definition limited_realloc :: "nat \<Rightarrow> u8 realloc_fun" where
  "limited_realloc limit opq ptr sz = (if sz \<le> limit then dbuf_default_realloc opq ptr sz else None)"

interpretation limited: realloc_contract "limited_realloc limit"
  by unfold_locales
    (auto simp: limited_realloc_def split: if_splits dest: default_realloc.realloc_length default_realloc.realloc_keeps)

lemma limited_small: "limit < 2 ^ 31 \<Longrightarrow> small_blocks (limited_realloc limit)"
  by (auto simp: small_blocks_def limited_realloc_def split: if_splits dest!: default_realloc.realloc_length)

text \<open>
  C1. The compiler emits verified code. For every pattern, flags and nesting limit, when the allocator of the code buffer honours the contract of
  \<open>realloc\<close> and gives no block of 2 GiB, the bytecode \<open>lre_compile\<close> returns passes the verifier \<open>re_code_ok\<close>: its
  instructions follow each other to the end, every jump reaches an instruction at which the counter stack has the height
  the instruction expects, the counters fit into the stack size of the header, the captures into its capture count, range tables are filled
  and the body of every simple quantifier is a sequence of characters and assertions.
\<close>

theorem lre_compile_verified:
  assumes "realloc_contract realloc8" and "small_blocks realloc8"
    and "lre_compile depth realloc8 realloc32 error_msg error_msg_size buf buf_len re_flags = Some (Some bc, m)"
  shows "re_code_ok bc"
  using assms by (rule compile_verified)

text \<open>The sticky pattern \<open>/(a|b)*/y\<close>.\<close>

theorem lre_compile_verified_witness:
  "lre_compile 2 (limited_realloc 128) cr_default_realloc [0] 1 [0x28, 0x61, 0x7C, 0x62, 0x29, 0x2A, 0] 6 32 =
     Some (Some [32, 2, 1, 39, 0, 0, 0, 11, 0, 13, 1, 1, 9, 26, 0, 0, 0, 25, 11, 1, 9, 8, 0, 0, 0, 1, 97, 0, 7, 3, 0, 0, 0,
       1, 98, 0, 12, 1, 26, 225, 255, 255, 255, 12, 0, 10], [0]) \<and>
   re_code_ok [32, 2, 1, 39, 0, 0, 0, 11, 0, 13, 1, 1, 9, 26, 0, 0, 0, 25, 11, 1, 9, 8, 0, 0, 0, 1, 97, 0, 7, 3, 0, 0, 0,
     1, 98, 0, 12, 1, 26, 225, 255, 255, 255, 12, 0, 10]"
proof -
  have c: "lre_compile 2 (limited_realloc 128) cr_default_realloc [0] 1 [0x28, 0x61, 0x7C, 0x62, 0x29, 0x2A, 0] 6 32 =
     Some (Some [32, 2, 1, 39, 0, 0, 0, 11, 0, 13, 1, 1, 9, 26, 0, 0, 0, 25, 11, 1, 9, 8, 0, 0, 0, 1, 97, 0, 7, 3, 0, 0, 0,
       1, 98, 0, 12, 1, 26, 225, 255, 255, 255, 12, 0, 10], [0])"
    by code_simp
  show ?thesis
    using lre_compile_verified [OF limited.realloc_contract_axioms limited_small c] c by simp
qed

end
