(* ===== verification/ClassMatch.thy ===== *)
theory ClassMatch
  imports RegexpCompile
begin

text \<open>
  A class of the pattern and the range instruction made of it. The binary search of the matcher over the table the compiler emits
  decides membership in the set of the class, for tables with 16-bit bounds, where 0xffff stands for infinity, and with 32-bit bounds.
\<close>

section \<open>Searching a table of intervals\<close>

lemma le_minus_one: "y \<noteq> 0 \<Longrightarrow> x \<le> y - 1 \<longleftrightarrow> x < (y :: u32)"
proof -
  assume y: "y \<noteq> 0"
  then have "unat (y - 1) = unat y - 1" "0 < unat y" by (simp_all add: unat_minus_one unat_gt_0)
  then show ?thesis unfolding word_le_unat word_less_unat by linarith
qed

text \<open>The intervals \<open>lo i\<close> to \<open>up i\<close> are disjoint and in increasing order.\<close>

definition intervals :: "(nat \<Rightarrow> u32) \<Rightarrow> (nat \<Rightarrow> u32) \<Rightarrow> nat \<Rightarrow> bool" where
  "intervals lo up n \<longleftrightarrow> (\<forall>i < n. lo i \<le> up i) \<and> (\<forall>i j. i < j \<longrightarrow> j < n \<longrightarrow> up i < lo j)"

definition stored :: "(u8 list \<Rightarrow> nat \<Rightarrow> u32 option) \<Rightarrow> nat \<Rightarrow> u8 list \<Rightarrow> nat \<Rightarrow> (nat \<Rightarrow> u32) \<Rightarrow> (nat \<Rightarrow> u32) \<Rightarrow> nat \<Rightarrow> bool" where
  "stored get w bc pc lo up n \<longleftrightarrow>
     (\<forall>i < n. get bc (pc + i * (2 * w)) = Some (lo i) \<and> get bc (pc + i * (2 * w) + w) = Some (up i))"

lemma range_search_correct:
  assumes "intervals lo up n" "stored get w bc pc lo up n" "idx_max < n" "lo 0 \<le> c"
  shows "range_search get w bc pc c idx_min idx_max = Some (\<exists>i. idx_min \<le> i \<and> i \<le> idx_max \<and> lo i \<le> c \<and> c \<le> up i)"
  using assms
proof (induction get w bc pc c idx_min idx_max rule: range_search.induct)
  case (1 get w bc pc c a b)
  show ?case
  proof (cases "a \<le> b")
    case True
    define i where "i = (a + b) div 2"
    have i: "a \<le> i" "i \<le> b" "i < n" using True "1.prems"(3) by (auto simp: i_def)
    have g: "get bc (pc + i * (2 * w)) = Some (lo i)" "get bc (pc + i * (2 * w) + w) = Some (up i)"
      using "1.prems"(2) i(3) by (auto simp: stored_def)
    note IH = "1.IH" [OF True i_def g]
    have above: "c < lo i \<Longrightarrow> i < j \<Longrightarrow> j < n \<Longrightarrow> c < lo j" for j
      using "1.prems"(1) i(3) unfolding intervals_def by (meson order.strict_trans order.strict_trans2)
    have below: "up i < c \<Longrightarrow> j < i \<Longrightarrow> up j < c" for j
      using "1.prems"(1) i(3) unfolding intervals_def by (meson order.strict_trans order.strict_trans2)
    show ?thesis
    proof (cases "c < lo i")
      case lt: True
      then have i0: "i \<noteq> 0" using "1.prems"(4) by (metis not_le)
      have "(\<exists>j. a \<le> j \<and> j \<le> i - 1 \<and> lo j \<le> c \<and> c \<le> up j) = (\<exists>j. a \<le> j \<and> j \<le> b \<and> lo j \<le> c \<and> c \<le> up j)"
        using lt above i0 i "1.prems"(3) by (metis One_nat_def Suc_pred' bot_nat_0.not_eq_extremum diff_le_self le_less_trans leD less_Suc_eq_le linorder_neqE_nat order_trans)
      with IH(1) [OF lt i0 "1.prems"(1,2) _ "1.prems"(4)] i "1.prems"(3) lt i0 True g show ?thesis
        by (subst range_search.simps) (simp add: i_def)
    next
      case ge: False
      show ?thesis
      proof (cases "up i < c")
        case gt: True
        have "(\<exists>j. i + 1 \<le> j \<and> j \<le> b \<and> lo j \<le> c \<and> c \<le> up j) = (\<exists>j. a \<le> j \<and> j \<le> b \<and> lo j \<le> c \<and> c \<le> up j)"
          using gt below i by (metis Suc_eq_plus1 Suc_leI leD le_add1 linorder_neqE_nat order_trans)
        with IH(2) [OF ge gt "1.prems"] ge gt True g show ?thesis by (subst range_search.simps) (simp add: i_def)
      next
        case False
        with ge have "lo i \<le> c" "c \<le> up i" by auto
        with i have "\<exists>j. a \<le> j \<and> j \<le> b \<and> lo j \<le> c \<and> c \<le> up j" by blast
        with ge False g True show ?thesis by (subst range_search.simps) (simp add: i_def Let_def)
      qed
    qed
  qed (subst range_search.simps, auto)
qed

lemma intervals_mono:
  assumes "intervals lo up n" "i \<le> j" "j < n"
  shows "lo i \<le> lo j" "up i \<le> up j"
proof -
  have "lo i \<le> up i" "lo j \<le> up j" "i < j \<Longrightarrow> up i < lo j" using assms by (auto simp: intervals_def)
  then have "i < j \<Longrightarrow> lo i \<le> lo j \<and> up i \<le> up j" by (meson order.strict_implies_order order_trans)
  then show "lo i \<le> lo j" "up i \<le> up j" using assms(2) by (cases "i = j"; simp)+
qed

lemma outside_intervals:
  assumes "intervals lo up n" "c < lo 0 \<or> up (n - 1) < c"
  shows "\<not> (\<exists>i < n. lo i \<le> c \<and> c \<le> up i)"
proof
  assume "\<exists>i < n. lo i \<le> c \<and> c \<le> up i"
  then obtain i where i: "i < n" "lo i \<le> c" "c \<le> up i" by blast
  then have "0 \<le> i" "i \<le> n - 1" "n - 1 < n" by auto
  then have "lo 0 \<le> lo i" "up i \<le> up (n - 1)" using intervals_mono [OF assms(1)] i(1) by blast+
  with i have "lo 0 \<le> c" "c \<le> up (n - 1)" by (metis order_trans)+
  with assms(2) show False by (metis not_le)
qed

lemma stored_ends:
  assumes "stored get w bc pc lo up n" "0 < n"
  shows "get bc pc = Some (lo 0)" "get bc (pc + (n - 1) * (2 * w) + w) = Some (up (n - 1))"
  using assms by (auto simp: stored_def dest: spec [of _ 0])

lemma range_test_correct:
  assumes iv: "intervals lo up n" and st: "stored get_u16 2 bc pc lo up n" and n: "0 < n"
  shows "range_test bc pc n c = Some (c \<ge> 0xffff \<and> up (n - 1) = 0xffff \<and> lo 0 \<le> c \<or> (\<exists>i < n. lo i \<le> c \<and> c \<le> up i))"
proof -
  note ends = stored_ends [OF st n]
  have out: "c < lo 0 \<or> up (n - 1) < c \<Longrightarrow> \<not> (\<exists>i < n. lo i \<le> c \<and> c \<le> up i)"
    by (rule outside_intervals [OF iv])
  have "range_search get_u16 2 bc pc c 0 (n - 1) = Some (\<exists>i < n. lo i \<le> c \<and> c \<le> up i)" if "lo 0 \<le> c"
  proof -
    have "i \<le> n - 1 \<longleftrightarrow> i < n" for i using n by auto
    then show ?thesis using range_search_correct [OF iv st _ that, of "n - 1" 0] n by simp
  qed
  then show ?thesis using ends n out by (auto simp: range_test_def not_less)
qed

lemma range32_test_correct:
  assumes iv: "intervals lo up n" and st: "stored get_u32 4 bc pc lo up n" and n: "0 < n"
  shows "range32_test bc pc n c = Some (\<exists>i < n. lo i \<le> c \<and> c \<le> up i)"
proof -
  note ends = stored_ends [OF st n]
  have out: "c < lo 0 \<or> up (n - 1) < c \<Longrightarrow> \<not> (\<exists>i < n. lo i \<le> c \<and> c \<le> up i)"
    by (rule outside_intervals [OF iv])
  have "range_search get_u32 4 bc pc c 0 (n - 1) = Some (\<exists>i < n. lo i \<le> c \<and> c \<le> up i)" if "lo 0 \<le> c"
  proof -
    have "i \<le> n - 1 \<longleftrightarrow> i < n" for i using n by auto
    then show ?thesis using range_search_correct [OF iv st _ that, of "n - 1" 0] n by simp
  qed
  then show ?thesis using ends n out by (auto simp: range32_test_def not_less)
qed

section \<open>The tables\<close>

text \<open>A table of \<open>k\<close> entries of equal length, and what is read from an entry.\<close>

lemma chunk_at:
  assumes "\<And>j. length (f j) = m" and "j < k"
  shows "\<exists>r. concat (map f [0..<k]) = concat (map f [0..<j]) @ f j @ r \<and> length (concat (map f [0..<j])) = j * m"
proof -
  have "[0..<k] = [0..<j] @ j # [Suc j..<k]" using assms(2) by (metis append_self_conv2 le0 less_imp_le_nat upt_add_eq_append upt_conv_Cons le_add_diff_inverse zero_le)
  moreover have "length (concat (map f [0..<j])) = j * m" by (induction j) (simp_all add: assms(1))
  ultimately show ?thesis by (metis concat.simps(2) concat_append list.simps(9) map_append)
qed

definition top16 :: "u32 \<Rightarrow> u32" where
  "top16 p = (if p - 1 = UINT32_MAX - 1 then 0xffff else p - 1)"

definition entry16 :: "u32 list \<Rightarrow> nat \<Rightarrow> u8 list" where
  "entry16 pt i = u16_bytes (ucast (pt ! i)) @ u16_bytes (ucast (top16 (pt ! (i + 1))))"

definition entry32 :: "u32 list \<Rightarrow> nat \<Rightarrow> u8 list" where
  "entry32 pt i = u32_bytes (pt ! i) @ u32_bytes (pt ! (i + 1) - 1)"

lemma upt_Suc_map: "[0..<Suc k] = 0 # map Suc [0..<k]"
  by (simp add: map_Suc_upt upt_conv_Cons)

lemma emit_ranges16_table:
  "emit_ranges16 s pt i k = Some s' \<Longrightarrow> emits (concat (map (\<lambda>j. entry16 pt (i + 2 * j)) [0..<k])) s s'"
proof (induction s pt i k rule: emit_ranges16.induct)
  case (1 s pt i)
  then show ?case using emits_refl(3) by simp
next
  case (2 s pt i k)
  then obtain low s1 p s2 where r: "rd pt i = Some low" "emit_u16 s low = Some s1" "rd pt (i + 1) = Some p"
    and e2: "emit_u16 s1 (if p - 1 = UINT32_MAX - 1 then 0xffff else p - 1) = Some s2"
    and l: "emit_ranges16 s2 pt (i + 2) k = Some s'" by (auto simp: bind_Some_iff Let_def)
  have "emits (entry16 pt i) s s2"
    using emits_trans [OF emit_u16_spec [OF r(2)] emit_u16_spec [OF e2]] r by (simp add: entry16_def top16_def rd_Some_iff)
  from emits_trans [OF this "2.IH" [OF r(1,2) _ _ e2 l]] r show ?case
    by (simp add: upt_Suc_map map_map comp_def del: upt_Suc)
qed

lemma emit_ranges32_table:
  "emit_ranges32 s pt i k = Some s' \<Longrightarrow> emits (concat (map (\<lambda>j. entry32 pt (i + 2 * j)) [0..<k])) s s'"
proof (induction s pt i k rule: emit_ranges32.induct)
  case (1 s pt i)
  then show ?case using emits_refl(3) by simp
next
  case (2 s pt i k)
  then obtain low s1 p s2 where r: "rd pt i = Some low" "emit_u32 s low = Some s1" "rd pt (i + 1) = Some p"
    and e2: "emit_u32 s1 (p - 1) = Some s2"
    and l: "emit_ranges32 s2 pt (i + 2) k = Some s'" by (auto simp: bind_Some_iff Let_def)
  have "emits (entry32 pt i) s s2"
    using emits_trans [OF emit_u32_spec [OF r(2)] emit_u32_spec [OF e2]] r by (simp add: entry32_def rd_Some_iff)
  from emits_trans [OF this "2.IH" [OF r(1,2) _ e2 l]] r show ?case
    by (simp add: upt_Suc_map map_map comp_def del: upt_Suc)
qed

lemma stored16:
  assumes "bc = pre @ concat (map (\<lambda>j. entry16 pt (2 * j)) [0..<k]) @ rest"
  shows "stored get_u16 2 bc (length pre) (\<lambda>j. ucast (ucast (pt ! (2 * j)) :: u16)) (\<lambda>j. ucast (ucast (top16 (pt ! (2 * j + 1))) :: u16)) k"
  unfolding stored_def
proof (intro allI impI)
  fix j assume "j < k"
  moreover have "length (entry16 pt (2 * j)) = 4" for j by (simp add: entry16_def)
  ultimately obtain r where r: "concat (map (\<lambda>j. entry16 pt (2 * j)) [0..<k]) = concat (map (\<lambda>j. entry16 pt (2 * j)) [0..<j]) @ entry16 pt (2 * j) @ r"
    "length (concat (map (\<lambda>j. entry16 pt (2 * j)) [0..<j])) = j * 4"
    using chunk_at [of "\<lambda>j. entry16 pt (2 * j)" 4 j k] by blast
  define h where "h = pre @ concat (map (\<lambda>j. entry16 pt (2 * j)) [0..<j])"
  have bc: "bc = h @ entry16 pt (2 * j) @ r @ rest" "length h = length pre + j * 4" using r assms by (simp_all add: h_def)
  show "get_u16 bc (length pre + j * (2 * 2)) = Some (ucast (ucast (pt ! (2 * j)) :: u16)) \<and>
    get_u16 bc (length pre + j * (2 * 2) + 2) = Some (ucast (ucast (top16 (pt ! (2 * j + 1))) :: u16))"
    using bc(2) unfolding bc(1) by (simp add: get_u16_def slice_def entry16_def)
qed

lemma stored32:
  assumes "bc = pre @ concat (map (\<lambda>j. entry32 pt (2 * j)) [0..<k]) @ rest"
  shows "stored get_u32 4 bc (length pre) (\<lambda>j. pt ! (2 * j)) (\<lambda>j. pt ! (2 * j + 1) - 1) k"
  unfolding stored_def
proof (intro allI impI)
  fix j assume "j < k"
  moreover have "length (entry32 pt (2 * j)) = 8" for j by (simp add: entry32_def)
  ultimately obtain r where r: "concat (map (\<lambda>j. entry32 pt (2 * j)) [0..<k]) = concat (map (\<lambda>j. entry32 pt (2 * j)) [0..<j]) @ entry32 pt (2 * j) @ r"
    "length (concat (map (\<lambda>j. entry32 pt (2 * j)) [0..<j])) = j * 8"
    using chunk_at [of "\<lambda>j. entry32 pt (2 * j)" 8 j k] by blast
  define h where "h = pre @ concat (map (\<lambda>j. entry32 pt (2 * j)) [0..<j])"
  have bc: "bc = h @ entry32 pt (2 * j) @ r @ rest" "length h = length pre + j * 8" using r assms by (simp_all add: h_def)
  show "get_u32 bc (length pre + j * (2 * 4)) = Some (pt ! (2 * j)) \<and>
    get_u32 bc (length pre + j * (2 * 4) + 4) = Some (pt ! (2 * j + 1) - 1)"
    using bc(2) unfolding bc(1) by (simp add: get_u32_def slice_def entry32_def)
qed

section \<open>The points of a class\<close>

lemma points_order:
  assumes "cr_normal pts" "i < j" "j < length pts"
  shows "pts ! i < pts ! j"
  using assms by (auto simp: cr_normal_def sorted_wrt_iff_nth_less)

lemma point_pos:
  assumes "cr_normal pts" "2 * i + 1 < length pts"
  shows "pts ! (2 * i) < pts ! (2 * i + 1)" "pts ! (2 * i + 1) \<noteq> 0"
proof -
  show "pts ! (2 * i) < pts ! (2 * i + 1)" using assms by (intro points_order) auto
  then show "pts ! (2 * i + 1) \<noteq> 0" by auto
qed

lemma points_intervals32:
  assumes n: "cr_normal pts" and l: "length pts = 2 * n"
  shows "intervals (\<lambda>j. pts ! (2 * j)) (\<lambda>j. pts ! (2 * j + 1) - 1) n"
    and "in_points pts c \<longleftrightarrow> (\<exists>i < n. pts ! (2 * i) \<le> c \<and> c \<le> pts ! (2 * i + 1) - 1)"
proof -
  have p: "pts ! (2 * i) < pts ! (2 * i + 1)" "pts ! (2 * i + 1) \<noteq> 0" if "i < n" for i
    using point_pos [OF n, of i] that l by auto
  have gap: "pts ! (2 * i + 1) - 1 < pts ! (2 * j)" if "i < j" "j < n" for i j
  proof -
    have "pts ! (2 * i + 1) < pts ! (2 * j)" using that l by (intro points_order [OF n]) auto
    moreover have "pts ! (2 * i + 1) - 1 < pts ! (2 * i + 1)" using p [of i] le_minus_one that
      by (metis order_less_trans not_less order_refl linorder_not_le)
    ultimately show ?thesis by simp
  qed
  show "intervals (\<lambda>j. pts ! (2 * j)) (\<lambda>j. pts ! (2 * j + 1) - 1) n"
    unfolding intervals_def using p gap le_minus_one by blast
  have "2 * i + 1 < length pts \<longleftrightarrow> i < n" for i using l by auto
  then show "in_points pts c \<longleftrightarrow> (\<exists>i < n. pts ! (2 * i) \<le> c \<and> c \<le> pts ! (2 * i + 1) - 1)"
    using in_points_pairs [OF n, of c] p le_minus_one by metis
qed

lemma u16_value: "x \<le> 0xffff \<Longrightarrow> ucast (ucast x :: u16) = (x :: u32)"
proof -
  assume "x \<le> 0xffff"
  then have "unat x < 2 ^ 16" by (simp add: word_le_nat_alt)
  then have "unat (ucast (ucast x :: u16) :: u32) = unat x"
    by (simp add: unat_ucast_up unat_ucast_small)
  then show ?thesis by (rule word_unat_eq_iff [THEN iffD2])
qed

lemma max32_big: "\<not> UINT32_MAX \<le> 0xffff" "UINT32_MAX \<noteq> 0"
  by (simp_all add: UINT32_MAX_def word_le_nat_alt unsigned_minus_1_eq_mask mask_eq_exp_minus_1)

lemma top16_eq:
  assumes "p \<noteq> 0"
  shows "top16 p = (if p = UINT32_MAX then 0xffff else p - 1)"
  by (simp add: top16_def)

lemma ex_last: "m < n \<Longrightarrow> (\<exists>i < n. L i \<and> (U i \<or> i = m \<and> B \<and> T i)) \<longleftrightarrow> (\<exists>i < n. L i \<and> U i) \<or> L m \<and> B \<and> T (m :: nat)"
  by blast

text \<open>The points of a class whose table has 16-bit values: all of them fit, but for a last one at infinity.\<close>

lemma points_intervals16:
  assumes n: "cr_normal pts" and l: "length pts = 2 * n" "0 < n"
    and small: "\<And>i. i + 1 < 2 * n \<Longrightarrow> pts ! i \<le> 0xffff" and top: "pts ! (2 * n - 1) \<le> 0xffff \<or> pts ! (2 * n - 1) = UINT32_MAX"
  shows "intervals (\<lambda>j. pts ! (2 * j)) (\<lambda>j. top16 (pts ! (2 * j + 1))) n"
    and "\<And>i. i < n \<Longrightarrow> pts ! (2 * i) \<le> 0xffff \<and> top16 (pts ! (2 * i + 1)) \<le> 0xffff"
    and "c \<noteq> UINT32_MAX \<Longrightarrow> (c \<ge> 0xffff \<and> top16 (pts ! (2 * (n - 1) + 1)) = 0xffff \<and> pts ! 0 \<le> c \<or>
           (\<exists>i < n. pts ! (2 * i) \<le> c \<and> c \<le> top16 (pts ! (2 * i + 1)))) \<longleftrightarrow> in_points pts c"
proof -
  note iv = points_intervals32 [OF n l(1)]
  have p: "pts ! (2 * i) < pts ! (2 * i + 1)" "pts ! (2 * i + 1) \<noteq> 0" if "i < n" for i
    using point_pos [OF n, of i] that l by auto
  have lo: "pts ! (2 * i) \<le> 0xffff" if "i < n" for i using small [of "2 * i"] that by simp
  have inner: "top16 (pts ! (2 * i + 1)) = pts ! (2 * i + 1) - 1" if "i + 1 < n" for i
    using small [of "2 * i + 1"] that top16_eq p(2) [of i] by (auto simp: max32_big)
  have last1: "2 * n - 1 = 2 * (n - 1) + 1" using l(2) by simp
  show b: "pts ! (2 * i) \<le> 0xffff \<and> top16 (pts ! (2 * i + 1)) \<le> 0xffff" if "i < n" for i
  proof -
    have "pts ! (2 * i + 1) \<le> 0xffff \<or> pts ! (2 * i + 1) = UINT32_MAX"
      using small [of "2 * i + 1"] top last1 that by (cases "i = n - 1") auto
    then have "top16 (pts ! (2 * i + 1)) \<le> 0xffff"
      using p(2) [OF that] top16_eq le_minus_one by (auto simp: word_le_nat_alt unat_minus_one)
    with lo [OF that] show ?thesis by simp
  qed
  show "intervals (\<lambda>j. pts ! (2 * j)) (\<lambda>j. top16 (pts ! (2 * j + 1))) n"
    unfolding intervals_def
  proof (intro conjI allI impI)
    fix i assume i: "i < n"
    show "pts ! (2 * i) \<le> top16 (pts ! (2 * i + 1))"
      using p [OF i] lo [OF i] top16_eq le_minus_one by auto
  next
    fix i j assume "i < j" "j < n"
    then show "top16 (pts ! (2 * i + 1)) < pts ! (2 * j)" using inner [of i] iv(1) by (auto simp: intervals_def)
  qed
  assume c: "c \<noteq> UINT32_MAX"
  have mem: "pts ! (2 * i) \<le> c \<and> c \<le> pts ! (2 * i + 1) - 1 \<longleftrightarrow>
      pts ! (2 * i) \<le> c \<and> (c \<le> top16 (pts ! (2 * i + 1)) \<or> i = n - 1 \<and> 0xffff \<le> c \<and> top16 (pts ! (2 * i + 1)) = 0xffff)" if "i < n" for i
  proof (cases "pts ! (2 * i + 1) = UINT32_MAX")
    case True
    then have "\<not> 2 * i + 1 + 1 < 2 * n" using small [of "2 * i + 1"] by (metis max32_big(1))
    then have "i = n - 1" using that by simp
    moreover have "c \<le> UINT32_MAX - 1" using c le_minus_one by (metis UINT32_MAX_def word_n1_ge order_le_imp_less_or_eq max32_big word_le_0_iff word_zero_le)
    ultimately show ?thesis using True by (auto simp: top16_def)
  next
    case False
    then have t: "top16 (pts ! (2 * i + 1)) = pts ! (2 * i + 1) - 1" using top16_eq p(2) [OF that] by simp
    have "pts ! (2 * i + 1) \<le> 0xffff" using False small [of "2 * i + 1"] top last1 that by (cases "i = n - 1") auto
    then have "pts ! (2 * i + 1) - 1 \<noteq> 0xffff" using p(2) [OF that] by (auto simp: word_le_nat_alt unat_minus_one)
    with t show ?thesis by auto
  qed
  have z: "pts ! 0 \<le> pts ! (2 * (n - 1))" using intervals_mono(1) [OF iv(1), of 0 "n - 1"] l(2) by simp
  show "(c \<ge> 0xffff \<and> top16 (pts ! (2 * (n - 1) + 1)) = 0xffff \<and> pts ! 0 \<le> c \<or>
      (\<exists>i < n. pts ! (2 * i) \<le> c \<and> c \<le> top16 (pts ! (2 * i + 1)))) \<longleftrightarrow> in_points pts c"
    (is "?inf \<or> ?fin \<longleftrightarrow> _")
  proof -
    have "(\<exists>i < n. pts ! (2 * i) \<le> c \<and> c \<le> pts ! (2 * i + 1) - 1) \<longleftrightarrow>
        (\<exists>i < n. pts ! (2 * i) \<le> c \<and> (c \<le> top16 (pts ! (2 * i + 1)) \<or> i = n - 1 \<and> 0xffff \<le> c \<and> top16 (pts ! (2 * i + 1)) = 0xffff))"
      using mem by blast
    also have "\<dots> \<longleftrightarrow> ?fin \<or> pts ! (2 * (n - 1)) \<le> c \<and> 0xffff \<le> c \<and> top16 (pts ! (2 * (n - 1) + 1)) = 0xffff"
      by (rule ex_last) (use l(2) in simp)
    also have "\<dots> \<longleftrightarrow> ?inf \<or> ?fin"
      using lo [of "n - 1"] l(2) z by auto
    finally show ?thesis unfolding iv(2) by blast
  qed
qed

section \<open>The instruction\<close>

lemma range_ops: "reop (opc REOP_range) = Some (REOP_range, 3)" "reop (opc REOP_range32) = Some (REOP_range32, 3)"
  "reop (opc REOP_char32) = Some (REOP_char32, 5)"
  by code_simp+

lemma exec_range:
  assumes "bc = pre @ opc REOP_range # u16_bytes n @ r" "th_pc th = length pre"
  shows "exec_op bc e th = match_char e (th\<lparr>th_pc := length pre + 3 + 4 * unat n\<rparr>) (range_test bc (length pre + 3) (unat n))"
proof -
  have "rd bc (th_pc th) = Some (opc REOP_range)" "get_u16 bc (th_pc th + 1) = Some (ucast n)"
    unfolding assms using get_u16_append(2) [of pre _ 1] get_u16_Cons by (simp_all add: rd_def nth_append)
  then show ?thesis using assms(2) unfolding exec_op_def by (simp add: range_ops Let_def unat_ucast_up eval_nat_numeral)
qed

lemma exec_range32:
  assumes "bc = pre @ opc REOP_range32 # u16_bytes n @ r" "th_pc th = length pre"
  shows "exec_op bc e th = match_char e (th\<lparr>th_pc := length pre + 3 + 8 * unat n\<rparr>) (range32_test bc (length pre + 3) (unat n))"
proof -
  have "rd bc (th_pc th) = Some (opc REOP_range32)" "get_u16 bc (th_pc th + 1) = Some (ucast n)"
    unfolding assms using get_u16_append(2) [of pre _ 1] get_u16_Cons by (simp_all add: rd_def nth_append)
  then show ?thesis using assms(2) unfolding exec_op_def by (simp add: range_ops Let_def unat_ucast_up eval_nat_numeral)
qed

lemma exec_char32:
  assumes "bc = pre @ opc REOP_char32 # u32_bytes v @ r" "th_pc th = length pre"
  shows "exec_op bc e th = match_char e (th\<lparr>th_pc := length pre + 5\<rparr>) (\<lambda>c. Some (v = c))"
proof -
  have "rd bc (th_pc th) = Some (opc REOP_char32)" "get_u32 bc (th_pc th + 1) = Some v"
    unfolding assms using get_u32_append(2) [of pre _ 1] get_u32_Cons by (simp_all add: rd_def nth_append)
  then show ?thesis using assms(2) unfolding exec_op_def by (simp add: range_ops Let_def add.commute)
qed

lemma table_of_pts:
  assumes "pts = take (2 * len) pt" "2 * len \<le> length pt"
  shows "concat (map (\<lambda>j. entry16 pt (2 * j)) [0..<len]) = concat (map (\<lambda>j. entry16 pts (2 * j)) [0..<len])"
    and "concat (map (\<lambda>j. entry32 pt (2 * j)) [0..<len]) = concat (map (\<lambda>j. entry32 pts (2 * j)) [0..<len])"
  using assms by (auto simp: entry16_def entry32_def intro!: arg_cong [where f = concat] map_cong)

lemma length_tables:
  "length (concat (map (\<lambda>j. entry16 pts (2 * j)) [0..<len])) = 4 * len"
  "length (concat (map (\<lambda>j. entry32 pts (2 * j)) [0..<len])) = 8 * len"
  by (induction len) (simp_all add: entry16_def entry32_def)

lemma range_test_points:
  assumes n: "cr_normal pts" and l: "length pts = 2 * len" "0 < len"
    and small: "\<And>i. i + 1 < 2 * len \<Longrightarrow> pts ! i \<le> 0xffff" and t: "pts ! (2 * len - 1) \<le> 0xffff \<or> pts ! (2 * len - 1) = UINT32_MAX"
    and bc: "bc = pre @ concat (map (\<lambda>j. entry16 pts (2 * j)) [0..<len]) @ rest" and c: "c \<noteq> UINT32_MAX"
  shows "range_test bc (length pre) len c = Some (in_points pts c)"
proof -
  note p = points_intervals16 [OF n l small t]
  have "stored get_u16 2 bc (length pre) (\<lambda>j. pts ! (2 * j)) (\<lambda>j. top16 (pts ! (2 * j + 1))) len"
    using stored16 [OF bc] p(2) u16_value by (simp add: stored_def)
  from range_test_correct [OF p(1) this l(2), of c] p(3) [OF _ c] show ?thesis by simp
qed

lemma range32_test_points:
  assumes n: "cr_normal pts" and l: "length pts = 2 * len" "0 < len"
    and bc: "bc = pre @ concat (map (\<lambda>j. entry32 pts (2 * j)) [0..<len]) @ rest"
  shows "range32_test bc (length pre) len c = Some (in_points pts c)"
  unfolding points_intervals32(2) [OF n l(1)]
  by (rule range32_test_correct [OF points_intervals32(1) [OF n l(1)] stored32 [OF bc] l(2)])

lemma class_code:
  assumes wf: "cr_wf cr" and e: "re_emit_range s cr = Some (0, s')" and ok: "\<not> err s'" "st_ok s" and th: "th_pc th = length (code s)"
  shows "\<exists>t. (\<forall>c. c \<noteq> UINT32_MAX \<longrightarrow> t c = Some (in_points (cr_pts cr) c)) \<and>
     exec_op (code s' @ rest) ctx th = match_char ctx (th\<lparr>th_pc := length (code s')\<rparr>) t"
proof -
  define len pts where "len = cr_len cr div 2" and "pts = cr_pts cr"
  have n: "cr_normal pts" and l: "length pts = 2 * len" and cl: "cr_len cr = 2 * len"
    and pts: "pts = take (2 * len) (cr_points cr)" "2 * len \<le> length (cr_points cr)"
    using wf cr_wf_D [OF wf] by (auto simp: cr_wf_def len_def pts_def length_cr_pts cr_pts_def cr_ok_def)
  have len2: "(2 * len + 1) div 2 = len" by simp
  have small: "len < 65535" using e by (auto simp: re_emit_range_def Let_def cl re_parse_error_def split: if_splits)
  show ?thesis
  proof (cases "len = 0")
    case True
    then obtain pos where "re_emit_op_u32 s REOP_char32 (- 1) = Some (pos, s')"
      using e by (auto simp: re_emit_range_def Let_def cl bind_Some_iff split: if_splits)
    from movedD(3) [OF re_emit_op_u32_spec(1) [OF this] ok] have "code s' = code s @ opc REOP_char32 # u32_bytes (- 1)" .
    then have "exec_op (code s' @ rest) ctx th = match_char ctx (th\<lparr>th_pc := length (code s')\<rparr>) (\<lambda>c. Some (- 1 = c))"
      using exec_char32 [OF _ th] by simp
    moreover have "in_points (cr_pts cr) c = False" for c using True l by (simp add: pts_def [symmetric])
    ultimately show ?thesis by (intro exI conjI) (auto simp: UINT32_MAX_def)
  next
    case False
    define k :: u16 where "k = ucast (of_nat len :: u32)"
    have k: "unat k = len" using small unat_ucast_small [of "of_nat len :: u32", where 'b = 16] by (simp add: k_def unat_of_nat)
    define high where "high = (if pts ! (2 * len - 1) = UINT32_MAX then pts ! (2 * len - 2) else pts ! (2 * len - 1))"
    have rds: "rd (cr_points cr) (2 * len - 1) = Some (pts ! (2 * len - 1))" "rd (cr_points cr) (2 * len - 2) = Some (pts ! (2 * len - 2))"
      using pts False by (auto simp: rd_def)
    consider s1 where "high \<le> 0xffff" "re_emit_op_u16 s REOP_range (of_nat len) = Some s1" "emit_ranges16 s1 (cr_points cr) 0 len = Some s'"
      | s1 where "re_emit_op_u16 s REOP_range32 (of_nat len) = Some s1" "emit_ranges32 s1 (cr_points cr) 0 len = Some s'"
      using e False small rds unfolding re_emit_range_def Let_def cl len2
      by (auto simp: bind_Some_iff high_def split: if_splits)
    then show ?thesis
    proof cases
      case 1
      have c': "code s' @ rest = (code s @ opc REOP_range # u16_bytes k) @ concat (map (\<lambda>j. entry16 pts (2 * j)) [0..<len]) @ rest"
        using movedD(3) [OF emits_trans [OF re_emit_op_u16_spec [OF 1(2)] emit_ranges16_table [OF 1(3)]] ok]
        by (simp add: k_def table_of_pts(1) [OF pts])
      have p: "pts ! i \<le> 0xffff" if "i + 1 < 2 * len" for i
      proof -
        have "pts ! i \<le> pts ! (2 * len - 2)" "pts ! i \<le> pts ! (2 * len - 1)"
          using that l cr_normal_sorted [OF n] by (auto intro!: sorted_nth_mono)
        with 1(1) show ?thesis by (auto simp: high_def split: if_splits intro: order_trans)
      qed
      have t: "pts ! (2 * len - 1) \<le> 0xffff \<or> pts ! (2 * len - 1) = UINT32_MAX" using 1(1) by (auto simp: high_def split: if_splits)
      have "range_test (code s' @ rest) (length (code s) + 3) len c = Some (in_points pts c)" if "c \<noteq> UINT32_MAX" for c
        using range_test_points [OF n l _ p t c' that] False by simp
      moreover have "length (code s') = length (code s) + 3 + 4 * len" using arg_cong [OF c', of length] length_tables(1) by simp
      moreover have "exec_op (code s' @ rest) ctx th = match_char ctx (th\<lparr>th_pc := length (code s) + 3 + 4 * len\<rparr>)
          (range_test (code s' @ rest) (length (code s) + 3) len)"
        using exec_range [OF _ th, of "code s' @ rest" k _ ctx] c' by (simp add: k)
      ultimately show ?thesis by (intro exI conjI) (auto simp: pts_def)
    next
      case 2
      have c': "code s' @ rest = (code s @ opc REOP_range32 # u16_bytes k) @ concat (map (\<lambda>j. entry32 pts (2 * j)) [0..<len]) @ rest"
        using movedD(3) [OF emits_trans [OF re_emit_op_u16_spec [OF 2(1)] emit_ranges32_table [OF 2(2)]] ok]
        by (simp add: k_def table_of_pts(2) [OF pts])
      have "range32_test (code s' @ rest) (length (code s) + 3) len c = Some (in_points pts c)" for c
        using range32_test_points [OF n l _ c'] False by simp
      moreover have "length (code s') = length (code s) + 3 + 8 * len" using arg_cong [OF c', of length] length_tables(2) by simp
      moreover have "exec_op (code s' @ rest) ctx th = match_char ctx (th\<lparr>th_pc := length (code s) + 3 + 8 * len\<rparr>)
          (range32_test (code s' @ rest) (length (code s) + 3) len)"
        using exec_range32 [OF _ th, of "code s' @ rest" k _ ctx] c' by (simp add: k)
      ultimately show ?thesis by (intro exI conjI) (auto simp: pts_def)
    qed
  qed
qed

section \<open>Property\<close>

text \<open>
  C4. A class compiles to an instruction that tests membership. The code emitted for a well-formed set of code points (a table with 16-bit
  bounds, one with 32-bit bounds or, for the empty set, a character that does not exist), placed anywhere in a program and executed on a character of the
  subject, goes on after the instruction and the character if the character, after case folding, is in the set, and fails otherwise.
\<close>

theorem class_code_correct:
  assumes "cr_wf cr" and "re_emit_range s cr = Some (0, s')" and "\<not> err s'" and "st_ok s"
    and "th_pc th = length (code s)" and "th_cptr th < ex_cbuf_end ctx"
    and "GET_CHAR (ex_cbuf_type ctx) (ex_cbuf ctx) (th_cptr th) (ex_cbuf_end ctx) = Some (c, p)"
    and "canonicalize_if ctx c = Some c'" and "c' \<noteq> UINT32_MAX"
  shows "exec_op (code s' @ rest) ctx th =
    (let th' = th\<lparr>th_pc := length (code s'), th_cptr := p\<rparr>
     in Some (if in_points (cr_pts cr) c' then Op_next ctx th' else Op_no_match th'))"
  using class_code [OF assms(1-5), of rest ctx] assms(6-9) by (auto simp: match_char_def Let_def)

lemma class_example:
  "map_option (\<lambda>s'. (code s', err s')) (do {
     s \<leftarrow> re_emit_op_u16 (init_parse_state (limited_realloc 64) cr_default_realloc [0] 0 0) REOP_range 1;
     emit_ranges16 s [97, 100] 0 1 }) = Some ([21, 1, 0, 97, 0, 99, 0], False)"
  by code_simp

text \<open>The class \<open>[a-c]\<close> on the subject \<open>b\<close>.\<close>

theorem class_code_correct_witness:
  "\<exists>s'. re_emit_range (init_parse_state (limited_realloc 64) cr_default_realloc [0] 0 0)
       \<lparr>cr_len = 2, cr_size = 2, cr_points = [97, 100], cr_mem_opaque = 0, cr_realloc_func = cr_default_realloc\<rparr> = Some (0, s') \<and>
     code s' = [21, 1, 0, 97, 0, 99, 0] \<and>
     (\<forall>ctx th. ex_cbuf_type ctx = 0 \<longrightarrow> ex_cbuf ctx = [98] \<longrightarrow> ex_cbuf_end ctx = 1 \<longrightarrow> \<not> ex_ignore_case ctx \<longrightarrow>
        th_pc th = 0 \<longrightarrow> th_cptr th = 0 \<longrightarrow>
        exec_op (code s') ctx th = Some (Op_next ctx (th\<lparr>th_pc := 7, th_cptr := 1\<rparr>)))"
proof -
  let ?s = "init_parse_state (limited_realloc 64) cr_default_realloc [0] 0 0"
  let ?cr = "\<lparr>cr_len = 2, cr_size = 2, cr_points = [97, 100], cr_mem_opaque = 0, cr_realloc_func = cr_default_realloc\<rparr>"
  let ?emit = "do { s \<leftarrow> re_emit_op_u16 ?s REOP_range 1; emit_ranges16 s [97, 100] 0 1 }"
  have "re_emit_range ?s ?cr = map_option (Pair 0) ?emit"
    by (simp add: re_emit_range_def Let_def rd_def UINT32_MAX_def map_conv_bind_option comp_def)
  with class_example obtain s' where s': "re_emit_range ?s ?cr = Some (0, s')" "code s' = [21, 1, 0, 97, 0, 99, 0]" "\<not> err s'" by auto
  have w: "cr_wf ?cr" by (simp add: cr_wf_def cr_ok_def cr_pts_def cr_normal_def cr_default.realloc_contract_axioms)
  have st: "st_ok ?s" "code ?s = []"
    by (auto simp: st_ok_def init_parse_state_def buf_wf_def dbuf_init2_def dbuf_ok_def code_def dbuf_bytes_def CAPTURE_COUNT_MAX_def
        limited.realloc_contract_axioms limited_small)
  show ?thesis
    using class_code_correct [OF w s'(1,3) st(1), of _ _ 98 1 98 "[]"] s'(1,2) st(2)
    by (auto simp: GET_CHAR_def canonicalize_if_def UINT32_MAX_def cr_pts_def Let_def rd_def)
qed

end
