(* ===== verification/Limbs.thy ===== *)
theory Limbs
  imports Cutils
begin

text \<open>
  The store of \<^verbatim>\<open>libbf.c\<close>. Numbers are arrays of 64-bit limbs that the routines overwrite in place, so the model has an
  explicit store: numbered blocks of limbs, and pointers into them. The loops over arrays are instances of \<open>up_loop\<close> and
  \<open>down_loop\<close>, whose body gives the limb to store and the carry for the next turn. The value of an array is \<open>mval\<close>, base \<open>2 ^ 64\<close>, and
  two rules turn an equation for one turn into an equation for the value of the whole array: for carries going up and for
  remainders going down.
\<close>

section \<open>Blocks and pointers\<close>

type_synonym limb = u64
type_synonym heap = "nat \<Rightarrow> limb list"
type_synonym ptr = "nat \<times> nat"

definition p_add :: "ptr \<Rightarrow> nat \<Rightarrow> ptr" where
  "p_add p i = (fst p, snd p + i)"

definition ld :: "heap \<Rightarrow> ptr \<Rightarrow> nat \<Rightarrow> limb option" where
  "ld h p i = rd (h (fst p)) (snd p + i)"

definition st :: "heap \<Rightarrow> ptr \<Rightarrow> nat \<Rightarrow> limb \<Rightarrow> heap option" where
  "st h p i v = map_option (\<lambda>l. h(fst p := l)) (wr (h (fst p)) (snd p + i) v)"

text \<open>\<open>for(i = 0; i < n; i++) res[i] = ...\<close> with a carry, and \<open>for(i = n - 1; i >= 0; i--) res[i] = ...\<close>.\<close>

fun up_loop ::
  "(heap \<Rightarrow> nat \<Rightarrow> 'k \<Rightarrow> (limb \<times> 'k) option) \<Rightarrow> heap \<Rightarrow> ptr \<Rightarrow> nat \<Rightarrow> nat \<Rightarrow> 'k \<Rightarrow> ('k \<times> heap) option" where
  "up_loop body h res i 0 k = Some (k, h)"
| "up_loop body h res i (Suc m) k = do {
     (v, k) \<leftarrow> body h i k;
     h \<leftarrow> st h res i v;
     up_loop body h res (i + 1) m k }"

fun down_loop ::
  "(heap \<Rightarrow> nat \<Rightarrow> 'k \<Rightarrow> (limb \<times> 'k) option) \<Rightarrow> heap \<Rightarrow> ptr \<Rightarrow> nat \<Rightarrow> 'k \<Rightarrow> ('k \<times> heap) option" where
  "down_loop body h res 0 k = Some (k, h)"
| "down_loop body h res (Suc i) k = do {
     (v, k) \<leftarrow> body h i k;
     h \<leftarrow> st h res i v;
     down_loop body h res i k }"

section \<open>Reading and writing arrays\<close>

definition valid :: "heap \<Rightarrow> ptr \<Rightarrow> nat \<Rightarrow> bool" where
  "valid h p n \<longleftrightarrow> snd p + n \<le> length (h (fst p))"

definition lim :: "heap \<Rightarrow> ptr \<Rightarrow> nat \<Rightarrow> limb" where
  "lim h p i = h (fst p) ! (snd p + i)"

definition store1 :: "heap \<Rightarrow> ptr \<Rightarrow> nat \<Rightarrow> limb \<Rightarrow> heap" where
  "store1 h p i v = h(fst p := (h (fst p))[snd p + i := v])"

fun put :: "heap \<Rightarrow> ptr \<Rightarrow> nat \<Rightarrow> limb list \<Rightarrow> heap" where
  "put h p i [] = h"
| "put h p i (z # zs) = put (store1 h p i z) p (i + 1) zs"

lemma ld_valid: "valid h p n \<Longrightarrow> i < n \<Longrightarrow> ld h p i = Some (lim h p i)"
  by (simp add: ld_def valid_def lim_def)

lemma st_valid: "valid h p n \<Longrightarrow> i < n \<Longrightarrow> st h p i v = Some (put h p i [v])"
  by (simp add: st_def wr_def valid_def store1_def)

lemma valid_mono: "valid h p n \<Longrightarrow> m \<le> n \<Longrightarrow> valid h p m"
  by (simp add: valid_def)

lemma store1_simps [simp]:
  "length (store1 h p i v b) = length (h b)" "valid (store1 h p i v) q n \<longleftrightarrow> valid h q n"
  by (auto simp: store1_def valid_def)

lemma nth_store1: "k < length (h b) \<Longrightarrow> store1 h p i v b ! k = (if b = fst p \<and> k = snd p + i then v else h b ! k)"
  by (auto simp: store1_def nth_list_update)

lemma length_put [simp]: "length (put h p i zs b) = length (h b)"
  by (induction zs arbitrary: h i) auto

lemma valid_put [simp]: "valid (put h p i zs) q n \<longleftrightarrow> valid h q n"
  by (simp add: valid_def)

lemma nth_put:
  "k < length (h b) \<Longrightarrow> put h p i zs b ! k =
     (if b = fst p \<and> snd p + i \<le> k \<and> k < snd p + i + length zs then zs ! (k - (snd p + i)) else h b ! k)"
proof (induction zs arbitrary: h i)
  case (Cons z zs)
  then have "k < length (store1 h p i z b)" by simp
  from Cons.IH [of "store1 h p i z", OF this, of "i + 1"] Cons.prems show ?case
    by (auto simp: nth_store1 nth_Cons' Suc_le_eq)
qed auto

lemma put_unique:
  assumes "\<And>b. length (g b) = length (h b)"
    and "\<And>b k. k < length (h b) \<Longrightarrow> g b ! k =
       (if b = fst p \<and> snd p + i \<le> k \<and> k < snd p + i + length zs then zs ! (k - (snd p + i)) else h b ! k)"
  shows "g = put h p i zs"
proof
  fix b
  show "g b = put h p i zs b"
    by (rule nth_equalityI) (simp_all add: assms nth_put)
qed

lemma put_app: "put (put h p i xs) p (i + length xs) ys = put h p i (xs @ ys)"
proof (induction xs arbitrary: h i)
  case (Cons x xs)
  from Cons.IH [of _ "i + 1"] show ?case by simp
qed simp

lemma put_below: "put (put h p (i + 1) zs) p i [v] = put h p i (v # zs)"
  by (rule put_unique) (auto simp: nth_put nth_store1 nth_Cons' Suc_diff_Suc not_less_eq_eq le_antisym)

section \<open>Values\<close>

abbreviation B :: int where
  "B \<equiv> 18446744073709551616"

fun mval :: "limb list \<Rightarrow> int" where
  "mval [] = 0"
| "mval (x # xs) = uint x + B * mval xs"

definition arr :: "heap \<Rightarrow> ptr \<Rightarrow> nat \<Rightarrow> nat \<Rightarrow> limb list" where
  "arr h p i m = map (\<lambda>j. lim h p (i + j)) [0..<m]"

text \<open>The sum of \<open>c i, c (i + 1), ...\<close> weighted with the powers of the base.\<close>

fun weigh :: "(nat \<Rightarrow> int) \<Rightarrow> nat \<Rightarrow> nat \<Rightarrow> int" where
  "weigh c i 0 = 0"
| "weigh c i (Suc m) = c i + B * weigh c (i + 1) m"

lemma arr_0 [simp]: "arr h p i 0 = []"
  by (simp add: arr_def)

lemma arr_Suc: "arr h p i (Suc m) = lim h p i # arr h p (i + 1) m"
  by (simp add: arr_def upt_conv_Cons map_Suc_upt [symmetric] comp_def del: upt_Suc)

lemma length_arr [simp]: "length (arr h p i m) = m"
  by (simp add: arr_def)

lemma weigh_arr: "weigh (\<lambda>j. uint (lim h p j)) i m = mval (arr h p i m)"
  by (induction m arbitrary: i) (simp_all add: arr_Suc)

lemma weigh_add: "weigh (\<lambda>j. c j + d j) i m = weigh c i m + weigh d i m"
  by (induction m arbitrary: i) (simp_all add: algebra_simps)

lemma weigh_diff: "weigh (\<lambda>j. c j - d j) i m = weigh c i m - weigh d i m"
  by (induction m arbitrary: i) (simp_all add: right_diff_distrib)

lemma weigh_minus: "weigh (\<lambda>j. - c j) i m = - weigh c i m"
  by (induction m arbitrary: i) (simp_all add: algebra_simps)

lemma weigh_mult: "weigh (\<lambda>j. c j * b) i m = weigh c i m * b"
  by (induction m arbitrary: i) (simp_all add: algebra_simps)

lemma weigh_Suc_top: "weigh c i (Suc m) = weigh c i m + B ^ m * c (i + m)"
  by (induction m arbitrary: i) (simp_all add: algebra_simps)

lemma mval_append: "mval (xs @ ys) = mval xs + B ^ length xs * mval ys"
  by (induction xs) (simp_all add: algebra_simps)

lemma limb_bounds: "0 \<le> uint (x :: limb)" "uint x < B"
  using uint_lt2p [of x] by simp_all

lemma mval_bounds: "0 \<le> mval xs \<and> mval xs < B ^ length xs"
proof (induction xs)
  case (Cons x xs)
  then have "B * (mval xs + 1) \<le> B * B ^ length xs" by (intro mult_left_mono) auto
  with Cons limb_bounds [of x] show ?case by (simp add: distrib_left)
qed simp

section \<open>Loops\<close>

text \<open>
  Where an operand may lie: in another block, or so that the loop has not yet overwritten what it reads, or apart from the
  result.
\<close>

definition fwd_ok :: "ptr \<Rightarrow> ptr \<Rightarrow> nat \<Rightarrow> bool" where
  "fwd_ok res op n \<longleftrightarrow> fst op \<noteq> fst res \<or> snd res \<le> snd op \<or> snd op + n \<le> snd res"

definition bwd_ok :: "ptr \<Rightarrow> ptr \<Rightarrow> nat \<Rightarrow> bool" where
  "bwd_ok res op n \<longleftrightarrow> fst op \<noteq> fst res \<or> snd op \<le> snd res \<or> snd res + n \<le> snd op"

lemma fwd_ok_refl [simp]: "fwd_ok p p n" and bwd_ok_refl [simp]: "bwd_ok p p n"
  by (simp_all add: fwd_ok_def bwd_ok_def)

lemma ld_fwd:
  assumes "valid h op n" "fwd_ok res op n" "i + length zs < n"
  shows "ld (put h res i zs) op (i + length zs) = Some (lim h op (i + length zs))"
  using assms by (auto simp: ld_def lim_def valid_def fwd_ok_def nth_put)

lemma ld_bwd:
  assumes "valid h op n" "bwd_ok res op n" "i < n" "length zs = n - 1 - i"
  shows "ld (put h res (i + 1) zs) op i = Some (lim h op i)"
  using assms by (auto simp: ld_def lim_def valid_def bwd_ok_def nth_put)

lemma up_loop_value:
  assumes step: "\<And>zs k. length zs < m \<Longrightarrow> P k \<Longrightarrow> \<exists>v k'. body (put h res i zs) (i + length zs) k = Some (v, k') \<and> P k' \<and>
      uint v + B * \<kappa> k' = c (i + length zs) + \<kappa> k"
    and res: "valid h res (i + m)" and k: "P k"
  shows "\<exists>zs k'. up_loop body h res i m k = Some (k', put h res i zs) \<and> length zs = m \<and> P k' \<and>
      mval zs + B ^ m * \<kappa> k' = weigh c i m + \<kappa> k"
  using assms
proof (induction m arbitrary: h i k)
  case (Suc m)
  from Suc.prems(1) [of "[]" k] Suc.prems(3) obtain v k1 where v: "body h i k = Some (v, k1)" "P k1" "uint v + B * \<kappa> k1 = c i + \<kappa> k" by auto
  let ?h = "put h res i [v]"
  have "\<exists>w k'. body (put ?h res (i + 1) zs) (i + 1 + length zs) k = Some (w, k') \<and> P k' \<and> uint w + B * \<kappa> k' = c (i + 1 + length zs) + \<kappa> k"
    if "length zs < m" "P k" for zs k
    using Suc.prems(1) [of "v # zs" k] that by simp
  from Suc.IH [OF this, of k1] Suc.prems(2) v(2) obtain zs k' where
    l: "up_loop body ?h res (i + 1) m k1 = Some (k', put ?h res (i + 1) zs)" "length zs = m" "P k'"
      "mval zs + B ^ m * \<kappa> k' = weigh c (i + 1) m + \<kappa> k1" by auto
  have "mval (v # zs) + B ^ Suc m * \<kappa> k' = weigh c i (Suc m) + \<kappa> k"
    using v(3) arg_cong [OF l(4), of "\<lambda>x. B * x"] by (simp add: algebra_simps)
  with l(1-3) v(1) st_valid [OF Suc.prems(2), of i v] show ?case
    by (intro exI [of _ "v # zs"] exI [of _ k']) simp
qed simp

lemma down_loop_value:
  assumes step: "\<And>zs i k. i < m \<Longrightarrow> length zs = n - 1 - i \<Longrightarrow> P k \<Longrightarrow> \<exists>v k'. body (put h res (i + 1) zs) i k = Some (v, k') \<and> P k' \<and>
      \<kappa> k * B + c i = d * uint v + \<kappa> k'"
    and res: "valid h res n" and m: "m \<le> n" and k: "P k" and zs: "length zs = n - m"
  shows "\<exists>ys k'. down_loop body (put h res m zs) res m k = Some (k', put h res 0 (ys @ zs)) \<and> length ys = m \<and> P k' \<and>
      \<kappa> k * B ^ m + weigh c 0 m = d * mval ys + \<kappa> k'"
  using assms
proof (induction m arbitrary: k zs)
  case (Suc m)
  have "length zs = n - 1 - m" using Suc.prems by simp
  from Suc.prems(1) [OF lessI this Suc.prems(4)] obtain v k1 where
    v: "body (put h res (Suc m) zs) m k = Some (v, k1)" "P k1" "\<kappa> k * B + c m = d * uint v + \<kappa> k1" by auto
  have put: "st (put h res (Suc m) zs) res m v = Some (put h res m (v # zs))"
    using st_valid [of "put h res (Suc m) zs" res n m v] Suc.prems(2,3) put_below [of h res m zs v] by simp
  have "length (v # zs) = n - m" using Suc.prems by simp
  with Suc.IH [OF _ Suc.prems(2) _ v(2), of "v # zs"] Suc.prems(1,3) obtain ys k' where
    l: "down_loop body (put h res m (v # zs)) res m k1 = Some (k', put h res 0 (ys @ v # zs))" "length ys = m" "P k'"
      "\<kappa> k1 * B ^ m + weigh c 0 m = d * mval ys + \<kappa> k'" by fastforce
  have "\<kappa> k * B ^ Suc m + weigh c 0 (Suc m) = d * mval (ys @ [v]) + \<kappa> k'"
    using l(2,4) arg_cong [OF v(3), of "\<lambda>x. x * B ^ m"] unfolding weigh_Suc_top by (simp add: mval_append algebra_simps)
  with l v(1) put show ?case by (intro exI [of _ "ys @ [v]"] exI [of _ k']) simp
qed simp

end
