(* ===== verification/MpArith.thy ===== *)
theory MpArith
  imports Limbs
begin

text \<open>
  The multiple precision arithmetic of \<^verbatim>\<open>libbf.c\<close> on arrays of limbs: addition, subtraction, negation, right shift, multiplication by a limb
  and schoolbook multiplication. Operands may overlap the result in the ways the loops allow (\<open>fwd_ok\<close>, \<open>bwd_ok\<close>). Each routine is specified by an
  equation between the values of the arrays, the carry included, and by the exact store it leaves: the result array and nothing else.
  The counters of \<open>mp_sub\<close> and \<open>mp_neg\<close> are of type \<open>int\<close>; an array of more than \<open>INT_MAX\<close> limbs overflows them, which is undefined
  behaviour (\<open>None\<close>).
\<close>

section \<open>Operations\<close>

type_synonym dlimb = "128 word"

definition FFT_MUL_THRESHOLD :: nat where
  "FFT_MUL_THRESHOLD = 100"

definition INT_MAX :: nat where
  "INT_MAX = 2147483647"

definition limb_mask :: "nat \<Rightarrow> nat \<Rightarrow> limb" where
  "limb_mask start end_bit =
     (let n = end_bit + 1 - start in
      if n = 64 then - 1 else push_bit start (push_bit n 1 - 1))"

fun mp_scan_nz :: "heap \<Rightarrow> ptr \<Rightarrow> nat \<Rightarrow> nat \<Rightarrow> limb option" where
  "mp_scan_nz h tab i 0 = Some 0"
| "mp_scan_nz h tab i (Suc m) = do {
     v \<leftarrow> ld h tab i;
     if v \<noteq> 0 then Some 1 else mp_scan_nz h tab (i + 1) m }"

definition add_body :: "ptr \<Rightarrow> ptr \<Rightarrow> heap \<Rightarrow> nat \<Rightarrow> limb \<Rightarrow> (limb \<times> limb) option" where
  "add_body op1 op2 h i k = do {
     v \<leftarrow> ld h op1 i;
     w \<leftarrow> ld h op2 i;
     let a = v + w; k1 = of_bool (a < v); a = a + k
     in Some (a, of_bool (a < k) OR k1) }"

definition mp_add :: "heap \<Rightarrow> ptr \<Rightarrow> ptr \<Rightarrow> ptr \<Rightarrow> nat \<Rightarrow> limb \<Rightarrow> (limb \<times> heap) option" where
  "mp_add h res op1 op2 n carry =
     up_loop (add_body op1 op2) h res 0 n carry"

fun add_ui_loop :: "heap \<Rightarrow> ptr \<Rightarrow> nat \<Rightarrow> nat \<Rightarrow> limb \<Rightarrow> (limb \<times> heap) option" where
  "add_ui_loop h tab i 0 k = Some (k, h)"
| "add_ui_loop h tab i (Suc m) k =
     (if k = 0 then Some (k, h)
      else do {
        v \<leftarrow> ld h tab i;
        let a = v + k;
        h \<leftarrow> st h tab i a;
        add_ui_loop h tab (i + 1) m (of_bool (a < k)) })"

definition mp_add_ui :: "heap \<Rightarrow> ptr \<Rightarrow> limb \<Rightarrow> nat \<Rightarrow> (limb \<times> heap) option" where
  "mp_add_ui h tab b n = add_ui_loop h tab 0 n b"

definition sub_body :: "ptr \<Rightarrow> ptr \<Rightarrow> heap \<Rightarrow> nat \<Rightarrow> limb \<Rightarrow> (limb \<times> limb) option" where
  "sub_body op1 op2 h i k = do {
     v \<leftarrow> ld h op1 i;
     w \<leftarrow> ld h op2 i;
     let a = v - w; k1 = of_bool (a > v); v = a - k
     in Some (v, of_bool (v > a) OR k1) }"

definition mp_sub :: "heap \<Rightarrow> ptr \<Rightarrow> ptr \<Rightarrow> ptr \<Rightarrow> nat \<Rightarrow> limb \<Rightarrow> (limb \<times> heap) option" where
  "mp_sub h res op1 op2 n carry =
     (if n > INT_MAX then None
      else up_loop (sub_body op1 op2) h res 0 n carry)"

text \<open>The computation of 0 - \<open>op2\<close>.\<close>

definition neg_body :: "ptr \<Rightarrow> heap \<Rightarrow> nat \<Rightarrow> limb \<Rightarrow> (limb \<times> limb) option" where
  "neg_body op2 h i k = do {
     w \<leftarrow> ld h op2 i;
     let v = 0; a = v - w; k1 = of_bool (a > v); v = a - k
     in Some (v, of_bool (v > a) OR k1) }"

definition mp_neg :: "heap \<Rightarrow> ptr \<Rightarrow> ptr \<Rightarrow> nat \<Rightarrow> limb \<Rightarrow> (limb \<times> heap) option" where
  "mp_neg h res op2 n carry =
     (if n > INT_MAX then None
      else up_loop (neg_body op2) h res 0 n carry)"

fun sub_ui_loop :: "heap \<Rightarrow> ptr \<Rightarrow> nat \<Rightarrow> nat \<Rightarrow> limb \<Rightarrow> (limb \<times> heap) option" where
  "sub_ui_loop h tab i 0 k = Some (k, h)"
| "sub_ui_loop h tab i (Suc m) k = do {
     v \<leftarrow> ld h tab i;
     let a = v - k;
     let k = of_bool (a > v);
     h \<leftarrow> st h tab i a;
     if k = 0 then Some (k, h) else sub_ui_loop h tab (i + 1) m k }"

definition mp_sub_ui :: "heap \<Rightarrow> ptr \<Rightarrow> limb \<Rightarrow> nat \<Rightarrow> (limb \<times> heap) option" where
  "mp_sub_ui h tab b n = sub_ui_loop h tab 0 n b"

text \<open>\<open>r = (a + high * B ^ n) >> shift\<close>; returns the remainder.\<close>

definition shr_body :: "ptr \<Rightarrow> nat \<Rightarrow> heap \<Rightarrow> nat \<Rightarrow> limb \<Rightarrow> (limb \<times> limb) option" where
  "shr_body tab shift h i l = do {
     a \<leftarrow> ld h tab i;
     Some (drop_bit shift a OR push_bit (64 - shift) l, a) }"

definition mp_shr :: "heap \<Rightarrow> ptr \<Rightarrow> ptr \<Rightarrow> nat \<Rightarrow> nat \<Rightarrow> limb \<Rightarrow> (limb \<times> heap) option" where
  "mp_shr h tab_r tab n shift high =
     (if \<not> (1 \<le> shift \<and> shift < 64) then None
      else do {
        (l, h) \<leftarrow> down_loop (shr_body tab shift) h tab_r n high;
        Some (l AND (push_bit shift 1 - 1), h) })"

text \<open>\<open>tabr[] = taba[] * b + l\<close>; returns the high carry.\<close>

definition mul1_body :: "ptr \<Rightarrow> limb \<Rightarrow> heap \<Rightarrow> nat \<Rightarrow> limb \<Rightarrow> (limb \<times> limb) option" where
  "mul1_body taba b h i l = do {
     x \<leftarrow> ld h taba i;
     let t = (ucast x :: dlimb) * ucast b + ucast l
     in Some (ucast t, ucast (drop_bit 64 t)) }"

definition mp_mul1 :: "heap \<Rightarrow> ptr \<Rightarrow> ptr \<Rightarrow> nat \<Rightarrow> limb \<Rightarrow> limb \<Rightarrow> (limb \<times> heap) option" where
  "mp_mul1 h tabr taba n b l =
     up_loop (mul1_body taba b) h tabr 0 n l"

text \<open>\<open>tabr[] += taba[] * b\<close>; returns the high word.\<close>

definition add_mul1_body :: "ptr \<Rightarrow> ptr \<Rightarrow> limb \<Rightarrow> heap \<Rightarrow> nat \<Rightarrow> limb \<Rightarrow> (limb \<times> limb) option" where
  "add_mul1_body tabr taba b h i l = do {
     x \<leftarrow> ld h taba i;
     y \<leftarrow> ld h tabr i;
     let t = (ucast x :: dlimb) * ucast b + ucast l + ucast y
     in Some (ucast t, ucast (drop_bit 64 t)) }"

definition mp_add_mul1 :: "heap \<Rightarrow> ptr \<Rightarrow> ptr \<Rightarrow> nat \<Rightarrow> limb \<Rightarrow> (limb \<times> heap) option" where
  "mp_add_mul1 h tabr taba n b =
     up_loop (add_mul1_body tabr taba b) h tabr 0 n 0"

text \<open>\<open>tabr[] -= taba[] * b\<close>; returns the value to subtract from the high word.\<close>

definition sub_mul1_body :: "ptr \<Rightarrow> ptr \<Rightarrow> limb \<Rightarrow> heap \<Rightarrow> nat \<Rightarrow> limb \<Rightarrow> (limb \<times> limb) option" where
  "sub_mul1_body tabr taba b h i l = do {
     y \<leftarrow> ld h tabr i;
     x \<leftarrow> ld h taba i;
     let t = (ucast y :: dlimb) - ucast x * ucast b - ucast l
     in Some (ucast t, ucast (- drop_bit 64 t)) }"

definition mp_sub_mul1 :: "heap \<Rightarrow> ptr \<Rightarrow> ptr \<Rightarrow> nat \<Rightarrow> limb \<Rightarrow> (limb \<times> heap) option" where
  "mp_sub_mul1 h tabr taba n b =
     up_loop (sub_mul1_body tabr taba b) h tabr 0 n 0"

fun mul_basecase_loop :: "heap \<Rightarrow> ptr \<Rightarrow> ptr \<Rightarrow> nat \<Rightarrow> ptr \<Rightarrow> nat \<Rightarrow> nat \<Rightarrow> heap option" where
  "mul_basecase_loop h result op1 op1_size op2 i 0 = Some h"
| "mul_basecase_loop h result op1 op1_size op2 i (Suc m) = do {
     b \<leftarrow> ld h op2 i;
     (r, h) \<leftarrow> mp_add_mul1 h (p_add result i) op1 op1_size b;
     h \<leftarrow> st h result (i + op1_size) r;
     mul_basecase_loop h result op1 op1_size op2 (i + 1) m }"

definition mp_mul_basecase :: "heap \<Rightarrow> ptr \<Rightarrow> ptr \<Rightarrow> nat \<Rightarrow> ptr \<Rightarrow> nat \<Rightarrow> heap option" where
  "mp_mul_basecase h result op1 op1_size op2 op2_size = do {
     b \<leftarrow> ld h op2 0;
     (r, h) \<leftarrow> mp_mul1 h result op1 op1_size b 0;
     h \<leftarrow> st h result op1_size r;
     mul_basecase_loop h result op1 op1_size op2 1 (op2_size - 1) }"

text \<open>Large factors are left to \<open>fft_mul\<close>, a parameter.\<close>

type_synonym fft_fun = "heap \<Rightarrow> ptr \<Rightarrow> ptr \<Rightarrow> nat \<Rightarrow> ptr \<Rightarrow> nat \<Rightarrow> (int \<times> heap) option"

definition mp_mul :: "fft_fun \<Rightarrow> heap \<Rightarrow> ptr \<Rightarrow> ptr \<Rightarrow> nat \<Rightarrow> ptr \<Rightarrow> nat \<Rightarrow> (int \<times> heap) option" where
  "mp_mul fft_mul h result op1 op1_size op2 op2_size =
     (if min op1_size op2_size \<ge> FFT_MUL_THRESHOLD then do {
        (r, h) \<leftarrow> fft_mul h result op1 op1_size op2 op2_size;
        Some (if r \<noteq> 0 then - 1 else 0, h) }
      else do {
        h \<leftarrow> mp_mul_basecase h result op1 op1_size op2 op2_size;
        Some (0, h) })"

fun mp_cmp :: "heap \<Rightarrow> ptr \<Rightarrow> ptr \<Rightarrow> nat \<Rightarrow> int option" where
  "mp_cmp h taba tabb 0 = Some 0"
| "mp_cmp h taba tabb (Suc i) = do {
     a \<leftarrow> ld h taba i;
     b \<leftarrow> ld h tabb i;
     if a \<noteq> b then Some (if a < b then - 1 else 1) else mp_cmp h taba tabb i }"

section \<open>One limb\<close>

lemma limb_add: "uint (x + y :: limb) = (if uint x + uint y < B then uint x + uint y else uint x + uint y - B)"
  by (simp add: uint_plus_if_size word_size)

lemma limb_sub: "uint (x - y :: limb) = (if uint y \<le> uint x then uint x - uint y else uint x - uint y + B)"
  by (simp add: uint_sub_if_size word_size)

lemma limb_bool [simp]: "uint (of_bool b :: limb) = of_bool b" "of_bool a OR of_bool b = (of_bool (a \<or> b) :: limb)"
  by (cases a; cases b; simp)+

lemma add_step_int:
  fixes x y c :: int
  assumes "0 \<le> x" "x < B" "0 \<le> y" "y < B" "0 \<le> c" "c \<le> 1"
    and "s = (if x + y < B then x + y else x + y - B)" and "t = (if s + c < B then s + c else s + c - B)"
  shows "t + B * (if t < c \<or> s < x then 1 else 0) = x + y + c"
  using assms by (auto split: if_splits)

lemma sub_step_int:
  fixes x y c :: int
  assumes "0 \<le> x" "x < B" "0 \<le> y" "y < B" "0 \<le> c" "c \<le> 1"
    and "s = (if y \<le> x then x - y else x - y + B)" and "t = (if c \<le> s then s - c else s - c + B)"
  shows "t - B * (if s < t \<or> x < s then 1 else 0) = x - y - c"
  using assms by (auto split: if_splits)

lemma add_step:
  fixes v w k :: limb
  assumes "uint k \<le> 1"
  shows "uint (v + w + k) + B * of_bool (v + w + k < k \<or> v + w < v) = uint v + uint w + uint k"
  unfolding word_less_def of_bool_def
  by (rule add_step_int [OF limb_bounds limb_bounds _ assms limb_add limb_add]) simp

lemma add1_step:
  fixes v k :: limb
  shows "uint (v + k) + B * of_bool (v + k < k) = uint v + uint k"
  using limb_bounds [of v] limb_bounds [of k] by (auto simp: limb_add word_less_def)

lemma sub_step:
  fixes v w k :: limb
  assumes "uint k \<le> 1"
  shows "uint (v - w - k) - B * of_bool (v - w < v - w - k \<or> v < v - w) = uint v - uint w - uint k"
  unfolding word_less_def of_bool_def
  by (rule sub_step_int [OF limb_bounds limb_bounds _ assms limb_sub limb_sub]) simp

lemma sub1_step:
  fixes v k :: limb
  shows "uint (v - k) - B * of_bool (v < v - k) = uint v - uint k"
  using limb_bounds [of v] limb_bounds [of k] by (auto simp: limb_sub word_less_def)

text \<open>The double limb of a product.\<close>

lemma uint_ucast_dlimb [simp]: "uint (ucast (x :: limb) :: dlimb) = uint x"
  using limb_bounds [of x] by (simp add: unsigned_ucast_eq take_bit_int_eq_self_iff)

lemma dlimb_value: "uint (word_of_int t :: dlimb) = t mod (B * B)"
  by (simp add: unsigned_of_int take_bit_eq_mod)

lemma dlimb_low: "uint (ucast (t :: dlimb) :: limb) = uint t mod B"
  by (simp add: unsigned_ucast_eq take_bit_eq_mod)

lemma uint_high: "uint (drop_bit 64 t :: dlimb) = uint t div B"
  by (simp add: drop_bit_eq_div uint_div_distrib)

lemma dlimb_high: "uint (ucast (drop_bit 64 t :: dlimb) :: limb) = uint t div B"
proof -
  have "uint t < B * B" using uint_lt2p [of t] by simp
  then have "uint t div B < B" by (simp add: div_less_iff_less_mult)
  moreover have "0 \<le> uint t div B" by (simp add: pos_imp_zdiv_nonneg_iff)
  ultimately show ?thesis unfolding dlimb_low uint_high by (rule mod_pos_pos_trivial [rotated])
qed

lemma dlimb_neg_high: "uint (ucast (- drop_bit 64 t :: dlimb) :: limb) = (- (uint t div B)) mod B"
proof -
  have "- drop_bit 64 t = (word_of_int (- (uint t div B)) :: dlimb)"
    unfolding uint_high [symmetric] by simp
  then have "uint (- drop_bit 64 t) = (- (uint t div B)) mod (B * B)" by (simp only: dlimb_value)
  then show ?thesis unfolding dlimb_low by (simp only: mod_mult_self1 mod_mod_cancel dvd_triv_left)
qed

lemma mul_step:
  fixes x b l y :: limb and t :: dlimb
  assumes "t = ucast x * ucast b + ucast l + ucast y"
  shows "uint (ucast t :: limb) + B * uint (ucast (drop_bit 64 t) :: limb) = uint x * uint b + uint l + uint y"
proof -
  let ?s = "uint x * uint b + uint l + uint y"
  have "uint x * uint b \<le> (B - 1) * (B - 1)"
    using limb_bounds [of x] limb_bounds [of b] by (intro mult_mono) auto
  then have "0 \<le> ?s" "?s < B * B" using limb_bounds [of l] limb_bounds [of y] by simp_all
  moreover have "t = word_of_int ?s" using assms by (simp add: word_of_int_hom_syms)
  ultimately have "uint t = ?s" using dlimb_value [of ?s] by (simp only: mod_pos_pos_trivial)
  then show ?thesis using dlimb_high [of t] dlimb_low [of t] by simp
qed

lemma sub_mul_step:
  fixes x b l y :: limb and t :: dlimb
  assumes "t = ucast y - ucast x * ucast b - ucast l"
  shows "uint (ucast t :: limb) - B * uint (ucast (- drop_bit 64 t) :: limb) = uint y - uint x * uint b - uint l"
proof -
  define p s where "p = uint x * uint b" and "s = uint y - p - uint l"
  have "p \<le> (B - 1) * (B - 1)"
    using limb_bounds [of x] limb_bounds [of b] unfolding p_def by (intro mult_mono) auto
  then have p: "0 \<le> p" "p \<le> 340282366920938463426481119284349108225" by (simp_all add: p_def)
  have s1: "- 340282366920938463444927863358058659840 \<le> s" using p limb_bounds [of y] limb_bounds [of l] unfolding s_def by linarith
  have s2: "s < B" using p limb_bounds [of y] limb_bounds [of l] unfolding s_def by linarith
  have "t = word_of_int s" using assms by (simp add: s_def p_def)
  then have t: "uint t = s mod (B * B)" by (simp only: dlimb_value)
  have low: "uint t mod B = s mod B" unfolding t by (simp only: mod_mod_cancel dvd_triv_left)
  have "s = uint t + B * (B * (s div (B * B)))" unfolding t using mod_mult_div_eq [of s "B * B"] by simp
  then have "s div B = (uint t + B * (B * (s div (B * B)))) div B" by (rule arg_cong)
  then have e: "s div B = uint t div B + B * (s div (B * B))" by simp
  have "(- (uint t div B)) mod B = (- (uint t div B) + B * (- (s div (B * B)))) mod B" by (simp only: mod_mult_self2)
  then have "(- (uint t div B)) mod B = (- (s div B)) mod B" unfolding e by (simp add: algebra_simps)
  also have "\<dots> = - (s div B)"
    using zdiv_mono1 [OF s1, of B] zdiv_mono1 [of s "B - 1" B] s2 by (intro mod_pos_pos_trivial) simp_all
  finally have "(- (uint t div B)) mod B = - (s div B)" .
  with dlimb_neg_high [of t] have "uint (ucast (- drop_bit 64 t) :: limb) = - (s div B)" by (rule trans)
  moreover have "uint (ucast t :: limb) = s mod B" using dlimb_low [of t] low by (rule trans)
  ultimately show ?thesis using mult_div_mod_eq [of B s] by (simp only: s_def p_def)
qed

section \<open>Specifications\<close>

text \<open>
  The result array \<open>res[0..n-1]\<close> of an operation that leaves store \<open>h'\<close> has value \<open>x\<close>, and nothing else has changed.
\<close>

definition wrote :: "heap \<Rightarrow> ptr \<Rightarrow> nat \<Rightarrow> int \<Rightarrow> heap \<Rightarrow> bool" where
  "wrote h res n x h' \<longleftrightarrow> (\<exists>zs. length zs = n \<and> mval zs = x \<and> h' = put h res 0 zs)"

lemma up_loop_wrote:
  assumes step: "\<And>zs k. length zs < m \<Longrightarrow> P k \<Longrightarrow> \<exists>v k'. body (put h res 0 zs) (length zs) k = Some (v, k') \<and> P k' \<and>
      uint v + B * \<kappa> k' = c (length zs) + \<kappa> k"
    and res: "valid h res m" and k: "P k"
  shows "\<exists>k' h'. up_loop body h res 0 m k = Some (k', h') \<and> P k' \<and> wrote h res m (weigh c 0 m + \<kappa> k - B ^ m * \<kappa> k') h'"
proof -
  obtain zs k' where "up_loop body h res 0 m k = Some (k', put h res 0 zs)" "length zs = m" "P k'"
    "mval zs + B ^ m * \<kappa> k' = weigh c 0 m + \<kappa> k"
    using up_loop_value [of m P body h res 0 \<kappa> c k] assms by auto
  moreover from this(4) have "mval zs = weigh c 0 m + \<kappa> k - B ^ m * \<kappa> k'" by linarith
  ultimately show ?thesis unfolding wrote_def by blast
qed

lemma ld_fwd0:
  "valid h op n \<Longrightarrow> fwd_ok res op n \<Longrightarrow> length zs < n \<Longrightarrow> ld (put h res 0 zs) op (length zs) = Some (lim h op (length zs))"
  using ld_fwd [of h op n res 0 zs] by simp

abbreviation num :: "heap \<Rightarrow> ptr \<Rightarrow> nat \<Rightarrow> int" where
  "num h p n \<equiv> mval (arr h p 0 n)"

lemma mp_add_spec:
  assumes "valid h res n" "valid h op1 n" "valid h op2 n" "fwd_ok res op1 n" "fwd_ok res op2 n" "uint carry \<le> 1"
  shows "\<exists>k h'. mp_add h res op1 op2 n carry = Some (k, h') \<and> uint k \<le> 1 \<and>
    wrote h res n (num h op1 n + num h op2 n + uint carry - B ^ n * uint k) h'"
  using up_loop_wrote [of n "\<lambda>k. uint k \<le> 1" "add_body op1 op2" h res uint "\<lambda>j. uint (lim h op1 j) + uint (lim h op2 j)" carry] assms
  unfolding mp_add_def by (simp add: add_body_def ld_fwd0 Let_def add_step weigh_add weigh_arr del: of_bool_or_iff)

lemma mp_sub_spec:
  assumes "valid h res n" "valid h op1 n" "valid h op2 n" "fwd_ok res op1 n" "fwd_ok res op2 n" "uint carry \<le> 1" "n \<le> INT_MAX"
  shows "\<exists>k h'. mp_sub h res op1 op2 n carry = Some (k, h') \<and> uint k \<le> 1 \<and>
    wrote h res n (num h op1 n - num h op2 n - uint carry + B ^ n * uint k) h'"
  using up_loop_wrote [of n "\<lambda>k. uint k \<le> 1" "sub_body op1 op2" h res "\<lambda>k. - uint k" "\<lambda>j. uint (lim h op1 j) - uint (lim h op2 j)" carry] assms
  unfolding mp_sub_def by (simp add: sub_body_def ld_fwd0 Let_def sub_step weigh_diff weigh_arr del: of_bool_or_iff)

lemma mp_neg_spec:
  assumes "valid h res n" "valid h op2 n" "fwd_ok res op2 n" "uint carry \<le> 1" "n \<le> INT_MAX"
  shows "\<exists>k h'. mp_neg h res op2 n carry = Some (k, h') \<and> uint k \<le> 1 \<and>
    wrote h res n (- num h op2 n - uint carry + B ^ n * uint k) h'"
  using up_loop_wrote [of n "\<lambda>k. uint k \<le> 1" "neg_body op2" h res "\<lambda>k. - uint k" "\<lambda>j. - uint (lim h op2 j)" carry] assms sub_step [of _ 0]
  unfolding mp_neg_def by (simp add: neg_body_def ld_fwd0 Let_def weigh_minus weigh_arr)

lemma mp_mul1_spec:
  assumes "valid h tabr n" "valid h taba n" "fwd_ok tabr taba n"
  shows "\<exists>k h'. mp_mul1 h tabr taba n b l = Some (k, h') \<and> wrote h tabr n (num h taba n * uint b + uint l - B ^ n * uint k) h'"
  using up_loop_wrote [of n "\<lambda>k. True" "mul1_body taba b" h tabr uint "\<lambda>j. uint (lim h taba j) * uint b" l] assms mul_step [where y = 0, OF refl]
  unfolding mp_mul1_def by (simp add: mul1_body_def ld_fwd0 Let_def weigh_mult weigh_arr)

lemma mp_add_mul1_spec:
  assumes "valid h tabr n" "valid h taba n" "fwd_ok tabr taba n"
  shows "\<exists>k h'. mp_add_mul1 h tabr taba n b = Some (k, h') \<and>
    wrote h tabr n (num h tabr n + num h taba n * uint b - B ^ n * uint k) h'"
  using up_loop_wrote [of n "\<lambda>k. True" "add_mul1_body tabr taba b" h tabr uint "\<lambda>j. uint (lim h tabr j) + uint (lim h taba j) * uint b" 0] assms mul_step [OF refl]
  unfolding mp_add_mul1_def by (simp add: add_mul1_body_def ld_fwd0 Let_def weigh_mult weigh_arr weigh_add)

lemma mp_sub_mul1_spec:
  assumes "valid h tabr n" "valid h taba n" "fwd_ok tabr taba n"
  shows "\<exists>k h'. mp_sub_mul1 h tabr taba n b = Some (k, h') \<and>
    wrote h tabr n (num h tabr n - num h taba n * uint b + B ^ n * uint k) h'"
  using up_loop_wrote [of n "\<lambda>k. True" "sub_mul1_body tabr taba b" h tabr "\<lambda>k. - uint k" "\<lambda>j. uint (lim h tabr j) - uint (lim h taba j) * uint b" 0] assms sub_mul_step [OF refl]
  unfolding mp_sub_mul1_def by (simp add: sub_mul1_body_def ld_fwd0 Let_def weigh_mult weigh_arr weigh_diff)

section \<open>Arrays in a changed store\<close>

definition apart :: "ptr \<Rightarrow> nat \<Rightarrow> ptr \<Rightarrow> nat \<Rightarrow> bool" where
  "apart p n q m \<longleftrightarrow> fst p \<noteq> fst q \<or> snd p + n \<le> snd q \<or> snd q + m \<le> snd p"

lemma apart_sym: "apart p n q m \<longleftrightarrow> apart q m p n"
  by (auto simp: apart_def)

lemma apart_mono: "apart p n q m \<Longrightarrow> i + n' \<le> n \<Longrightarrow> m' \<le> m \<Longrightarrow> apart (p_add p i) n' q m'"
  by (auto simp: apart_def p_add_def)

lemma apart_sub: "apart p n q m \<Longrightarrow> n' \<le> n \<Longrightarrow> m' \<le> m \<Longrightarrow> apart p n' q m'"
  by (auto simp: apart_def)

lemma apart_fwd: "apart p n q n \<Longrightarrow> fwd_ok p q n"
  by (auto simp: apart_def fwd_ok_def)

lemma p_add_0 [simp]: "p_add p 0 = p"
  by (simp add: p_add_def)

lemma put_p_add: "put h (p_add p i) j zs = put h p (i + j) zs"
  by (induction zs arbitrary: h j) (simp_all add: p_add_def store1_def add.assoc)

lemma lim_p_add: "lim h (p_add p i) j = lim h p (i + j)"
  by (simp add: lim_def p_add_def add.assoc)

lemma arr_p_add: "arr h (p_add p i) j m = arr h p (i + j) m"
  by (simp add: arr_def lim_p_add add.assoc)

lemma valid_p_add: "valid h (p_add p i) n \<longleftrightarrow> valid h p (i + n)"
  by (simp add: valid_def p_add_def add.assoc)

lemma arr_put_apart: "apart p (i + length zs) q (j + n) \<Longrightarrow> valid h q (j + n) \<Longrightarrow> arr (put h p i zs) q j n = arr h q j n"
  by (auto simp: arr_def lim_def nth_put apart_def valid_def)

lemma lim_put_apart: "apart p (i + length zs) q n \<Longrightarrow> valid h q n \<Longrightarrow> k < n \<Longrightarrow> lim (put h p i zs) q k = lim h q k"
  by (auto simp: lim_def nth_put apart_def valid_def)

lemma arr_put_same: "valid h p (length zs) \<Longrightarrow> i + n = length zs \<Longrightarrow> arr (put h p 0 zs) p i n = drop i zs"
  by (rule nth_equalityI) (auto simp: arr_def lim_def nth_put valid_def)

lemma put_arr: "put h p i (arr h p i m) = h"
  by (rule put_unique [symmetric]) (auto simp: arr_def lim_def)

lemma put_over: "i + length ws = length zs \<Longrightarrow> put (put h p 0 zs) p i ws = put h p 0 (take i zs @ ws)"
  by (rule put_unique) (auto simp: nth_put nth_append)

section \<open>Single limbs, shifts, products and comparison\<close>

lemma arr_store1: "arr (store1 h p i v) p (i + 1) m = arr h p (i + 1) m"
  by (auto simp: arr_def lim_def store1_def)

lemma add_ui_loop_spec:
  "valid h tab (i + m) \<Longrightarrow> \<exists>k' zs. add_ui_loop h tab i m k = Some (k', put h tab i zs) \<and> length zs = m \<and>
     mval zs + B ^ m * uint k' = mval (arr h tab i m) + uint k"
proof (induction m arbitrary: h i k)
  case (Suc m)
  show ?case
  proof (cases "k = 0")
    case True
    then show ?thesis by (intro exI [of _ 0] exI [of _ "arr h tab i (Suc m)"]) (simp add: put_arr del: put.simps)
  next
    case False
    let ?a = "lim h tab i + k"
    let ?h = "store1 h tab i ?a"
    have "valid ?h tab (i + 1 + m)" using Suc.prems by simp
    from Suc.IH [OF this, of "of_bool (?a < k)"] obtain k' zs where
      l: "add_ui_loop ?h tab (i + 1) m (of_bool (?a < k)) = Some (k', put ?h tab (i + 1) zs)" "length zs = m"
      "mval zs + B ^ m * uint k' = mval (arr h tab (i + 1) m) + of_bool (?a < k)" unfolding arr_store1 by auto
    have "mval (?a # zs) + B ^ Suc m * uint k' = mval (arr h tab i (Suc m)) + uint k"
      using add1_step [of "lim h tab i" k] arg_cong [OF l(3), of "\<lambda>x. B * x"] by (simp add: arr_Suc algebra_simps)
    with l False ld_valid [OF Suc.prems, of i] st_valid [OF Suc.prems, of i ?a] show ?thesis
      by (intro exI [of _ k'] exI [of _ "?a # zs"]) simp
  qed
qed simp

lemma mp_add_ui_spec:
  assumes "valid h tab n"
  shows "\<exists>k h'. mp_add_ui h tab b n = Some (k, h') \<and> wrote h tab n (num h tab n + uint b - B ^ n * uint k) h'"
proof -
  obtain k zs where "add_ui_loop h tab 0 n b = Some (k, put h tab 0 zs)" "length zs = n" "mval zs + B ^ n * uint k = num h tab n + uint b"
    using add_ui_loop_spec [of h tab 0 n b] assms by auto
  moreover from this(3) have "mval zs = num h tab n + uint b - B ^ n * uint k" by linarith
  ultimately show ?thesis unfolding mp_add_ui_def wrote_def by blast
qed

lemma sub_ui_loop_spec:
  "valid h tab (i + m) \<Longrightarrow> \<exists>k' zs. sub_ui_loop h tab i m k = Some (k', put h tab i zs) \<and> length zs = m \<and>
     mval zs - B ^ m * uint k' = mval (arr h tab i m) - uint k"
proof (induction m arbitrary: h i k)
  case (Suc m)
  let ?a = "lim h tab i - k"
  let ?h = "store1 h tab i ?a"
  let ?k = "of_bool (?a > lim h tab i) :: limb"
  note acc = ld_valid [OF Suc.prems, of i] st_valid [OF Suc.prems, of i ?a]
  show ?case
  proof (cases "?k = 0")
    case True
    then have "mval (?a # arr h tab (i + 1) m) = mval (arr h tab i (Suc m)) - uint k"
      using sub1_step [of "lim h tab i" k] by (simp add: arr_Suc)
    moreover have "put ?h tab (i + 1) (arr h tab (i + 1) m) = ?h" using put_arr [of ?h tab "i + 1" m] by (simp only: arr_store1)
    ultimately show ?thesis using acc True
      by (intro exI [of _ 0] exI [of _ "?a # arr h tab (i + 1) m"]) simp
  next
    case False
    have "valid ?h tab (i + 1 + m)" using Suc.prems by simp
    from Suc.IH [OF this, of ?k] obtain k' zs where
      l: "sub_ui_loop ?h tab (i + 1) m ?k = Some (k', put ?h tab (i + 1) zs)" "length zs = m"
      "mval zs - B ^ m * uint k' = mval (arr h tab (i + 1) m) - of_bool (?a > lim h tab i)" unfolding arr_store1 by auto
    have "mval (?a # zs) - B ^ Suc m * uint k' = mval (arr h tab i (Suc m)) - uint k"
      using sub1_step [of "lim h tab i" k] arg_cong [OF l(3), of "\<lambda>x. B * x"] by (simp add: arr_Suc algebra_simps)
    with l False acc show ?thesis by (intro exI [of _ k'] exI [of _ "?a # zs"]) simp
  qed
qed simp

lemma mp_sub_ui_spec:
  assumes "valid h tab n"
  shows "\<exists>k h'. mp_sub_ui h tab b n = Some (k, h') \<and> wrote h tab n (num h tab n - uint b + B ^ n * uint k) h'"
proof -
  obtain k zs where "sub_ui_loop h tab 0 n b = Some (k, put h tab 0 zs)" "length zs = n" "mval zs - B ^ n * uint k = num h tab n - uint b"
    using sub_ui_loop_spec [of h tab 0 n b] assms by auto
  moreover from this(3) have "mval zs = num h tab n - uint b + B ^ n * uint k" by linarith
  ultimately show ?thesis unfolding mp_sub_ui_def wrote_def by blast
qed

lemma pow_split: "s \<le> 64 \<Longrightarrow> (2 :: int) ^ s * 2 ^ (64 - s) = B"
proof -
  assume "s \<le> 64"
  then have "(2 :: int) ^ s * 2 ^ (64 - s) = 2 ^ 64" by (simp flip: power_add)
  then show ?thesis by simp
qed

lemma shr_step:
  fixes a l :: limb
  assumes "1 \<le> s" "s < 64"
  shows "(uint l mod 2 ^ s) * B + uint a = 2 ^ s * uint (drop_bit s a OR push_bit (64 - s) l) + uint a mod 2 ^ s"
proof -
  have "uint (drop_bit s a OR push_bit (64 - s) l) = uint (drop_bit s a) + uint (push_bit (64 - s) l)"
    unfolding uint_or
    by (rule disjunctive_add [symmetric]) (use assms in \<open>auto simp: bit_simps dest: bit_imp_le_length\<close>)
  moreover have "uint (drop_bit s a) = uint a div 2 ^ s"
    using limb_bounds [of a] by (simp only: unsigned_drop_bit_eq) (simp add: drop_bit_eq_div take_bit_eq_mod)
  moreover have "uint (push_bit (64 - s) l) = 2 ^ (64 - s) * uint l mod (2 ^ (64 - s) * 2 ^ s)"
    using pow_split [of s] assms by (simp only: unsigned_push_bit_eq) (simp add: push_bit_eq_mult take_bit_eq_mod mult.commute)
  then have "uint (push_bit (64 - s) l) = 2 ^ (64 - s) * (uint l mod 2 ^ s)" by (simp only: mult_mod_right)
  ultimately have "uint (drop_bit s a OR push_bit (64 - s) l) = uint a div 2 ^ s + 2 ^ (64 - s) * (uint l mod 2 ^ s)" by simp
  then have "2 ^ s * uint (drop_bit s a OR push_bit (64 - s) l) =
      2 ^ s * (uint a div 2 ^ s) + (2 ^ s * 2 ^ (64 - s)) * (uint l mod 2 ^ s)" by (simp add: distrib_left)
  then show ?thesis using pow_split [of s] assms mult_div_mod_eq [of "2 ^ s" "uint a"] by simp
qed

lemma low_bits: "uint (l AND (push_bit s 1 - 1) :: limb) = uint l mod 2 ^ s"
proof -
  have "l AND (push_bit s 1 - 1) = take_bit s l" by (simp add: take_bit_eq_mask mask_eq_exp_minus_1 push_bit_of_1)
  moreover have "uint (take_bit s l) = take_bit s (uint l)" by (rule unsigned_take_bit_eq)
  moreover have "take_bit s (uint l) = uint l mod 2 ^ s" by (rule take_bit_eq_mod)
  ultimately show ?thesis by (simp only:)
qed

lemma mp_shr_spec:
  assumes "valid h tab_r n" "valid h tab n" "bwd_ok tab_r tab n" "1 \<le> s" "s < 64"
  shows "\<exists>r h' q. mp_shr h tab_r tab n s high = Some (r, h') \<and> wrote h tab_r n q h' \<and>
    (uint high mod 2 ^ s) * B ^ n + num h tab n = 2 ^ s * q + uint r \<and> uint r < 2 ^ s"
proof -
  have "\<exists>v k'. shr_body tab s (put h tab_r (i + 1) zs) i k = Some (v, k') \<and> True \<and>
      uint k mod 2 ^ s * B + uint (lim h tab i) = 2 ^ s * uint v + uint k' mod 2 ^ s"
    if "i < n" "length zs = n - 1 - i" for zs i k
    using that shr_step [OF assms(4,5), of k "lim h tab i"] ld_bwd [OF assms(2,3) that] by (simp add: shr_body_def)
  from down_loop_value [of n n "\<lambda>k. True" "shr_body tab s" h tab_r "\<lambda>k. uint k mod 2 ^ s" "\<lambda>i. uint (lim h tab i)" "2 ^ s" high "[]"] this assms(1)
  obtain ys k' where l: "down_loop (shr_body tab s) h tab_r n high = Some (k', put h tab_r 0 ys)" "length ys = n"
      "uint high mod 2 ^ s * B ^ n + num h tab n = 2 ^ s * mval ys + uint k' mod 2 ^ s" by (auto simp: weigh_arr)
  show ?thesis
    using l assms(4,5) low_bits [of k' s] by (intro exI [of _ "k' AND (push_bit s 1 - 1)"] exI [of _ "put h tab_r 0 ys"] exI [of _ "mval ys"])
      (auto simp: mp_shr_def wrote_def)
qed

lemma mp_cmp_spec:
  "valid h p n \<Longrightarrow> valid h q n \<Longrightarrow> mp_cmp h p q n = Some (sgn (num h p n - num h q n))"
proof (induction n)
  case (Suc n)
  have top: "num h r (Suc n) = num h r n + B ^ n * uint (lim h r n)" for r
    using weigh_Suc_top [of "\<lambda>j. uint (lim h r j)" 0 n] by (simp add: weigh_arr)
  have b: "0 \<le> num h r n" "num h r n < B ^ n" for r using mval_bounds [of "arr h r 0 n"] by simp_all
  have less: "num h r (Suc n) < num h t (Suc n)" if "lim h r n < lim h t n" for r t
  proof -
    from that have "uint (lim h r n) + 1 \<le> uint (lim h t n)" by (simp add: word_less_def)
    then have "B ^ n * (uint (lim h r n) + 1) \<le> B ^ n * uint (lim h t n)" by (intro mult_left_mono) auto
    then show ?thesis using b(2) [of r] b(1) [of t] unfolding top by (simp add: distrib_left)
  qed
  have rd: "ld h p n = Some (lim h p n)" "ld h q n = Some (lim h q n)" using Suc.prems by (simp_all add: ld_valid)
  consider "lim h p n < lim h q n" | "lim h q n < lim h p n" | "lim h p n = lim h q n" by (metis not_less_iff_gr_or_eq)
  then show ?case
  proof cases
    case 1
    with less [OF 1] rd show ?thesis by auto
  next
    case 2
    with less [OF 2] rd show ?thesis by auto
  next
    case 3
    with rd Suc valid_mono [OF Suc.prems(1), of n] valid_mono [OF Suc.prems(2), of n] show ?thesis by (simp add: top)
  qed
qed simp

lemma mp_scan_nz_spec: "valid h p (i + n) \<Longrightarrow> mp_scan_nz h p i n = Some (of_bool (mval (arr h p i n) \<noteq> 0))"
proof (induction n arbitrary: i)
  case (Suc n)
  have pos: "0 < uint (lim h p i) + B * mval (arr h p (i + 1) n)" if "lim h p i \<noteq> 0"
  proof -
    have "0 < uint (lim h p i)" using that by (simp add: uint_0_iff order_less_le)
    then show ?thesis using mval_bounds [of "arr h p (i + 1) n"] by (intro add_pos_nonneg) simp_all
  qed
  from Suc.IH [of "i + 1"] Suc.prems ld_valid [OF Suc.prems, of i] pos show ?case
    by (cases "lim h p i = 0") (auto simp: arr_Suc)
qed simp

lemma mul_loop_spec:
  assumes "valid h result (n + i + m)" "valid h op1 n" "valid h op2 (i + m)"
    and "apart result (n + i + m) op1 n" "apart result (n + i + m) op2 (i + m)"
    and "length zs = n + i" "mval zs = num h op1 n * num h op2 i"
  shows "\<exists>h'. mul_basecase_loop (put h result 0 zs) result op1 n op2 i m = Some h' \<and>
    wrote h result (n + i + m) (num h op1 n * num h op2 (i + m)) h'"
  using assms
proof (induction m arbitrary: i zs)
  case 0
  then show ?case unfolding wrote_def by auto
next
  case (Suc m)
  let ?h = "put h result 0 zs"
  let ?b = "lim h op2 i"
  have b: "ld ?h op2 i = Some ?b"
    using ld_valid [of ?h op2 "i + Suc m" i] lim_put_apart [of result 0 zs op2 "i + Suc m" h i] Suc.prems(3,6)
      apart_sub [OF Suc.prems(5), of "n + i" "i + Suc m"] by simp
  have o: "num ?h op1 n = num h op1 n" using arr_put_apart [of result 0 zs op1 0 n h] Suc.prems(2,6)
      apart_sub [OF Suc.prems(4), of "n + i" n] by simp
  have r: "num ?h (p_add result i) n = mval (drop i zs)"
    using arr_put_same [of h result zs i n] Suc.prems(6) valid_mono [OF Suc.prems(1), of "length zs"] by (simp add: arr_p_add)
  have "valid ?h (p_add result i) n" "valid ?h op1 n" "fwd_ok (p_add result i) op1 n"
    using Suc.prems by (auto simp: valid_p_add valid_def apart_def fwd_ok_def p_add_def)
  from mp_add_mul1_spec [OF this, of ?b] obtain k ws where
    l: "mp_add_mul1 ?h (p_add result i) op1 n ?b = Some (k, put ?h (p_add result i) 0 ws)" "length ws = n"
      "mval ws = mval (drop i zs) + num h op1 n * uint ?b - B ^ n * uint k"
    unfolding wrote_def o r by auto
  have p1: "put ?h (p_add result i) 0 ws = put h result 0 (take i zs @ ws)"
    using put_over [of i ws zs h result] l(2) Suc.prems(6) by (simp add: put_p_add)
  have p2: "st (put h result 0 (take i zs @ ws)) result (i + n) k = Some (put h result 0 (take i zs @ ws @ [k]))"
    using st_valid [of "put h result 0 (take i zs @ ws)" result "n + i + Suc m" "i + n" k] Suc.prems(1,6) l(2)
      put_app [of h result 0 "take i zs @ ws" "[k]"] by simp
  have "mval (take i zs @ ws @ [k]) = mval (take i zs) + B ^ i * (mval (drop i zs) + num h op1 n * uint ?b)"
    using l(2,3) Suc.prems(6) by (simp add: mval_append algebra_simps)
  also have "\<dots> = mval (take i zs @ drop i zs) + B ^ i * (num h op1 n * uint ?b)"
    unfolding mval_append using Suc.prems(6) by (simp add: algebra_simps)
  also have "\<dots> = num h op1 n * num h op2 (Suc i)"
    using weigh_Suc_top [of "\<lambda>j. uint (lim h op2 j)" 0 i] Suc.prems(7) by (simp add: weigh_arr algebra_simps)
  finally have v: "mval (take i zs @ ws @ [k]) = num h op1 n * num h op2 (Suc i)" .
  with Suc.IH [of "Suc i" "take i zs @ ws @ [k]"] Suc.prems l(2) obtain h' where
    "mul_basecase_loop (put h result 0 (take i zs @ ws @ [k])) result op1 n op2 (Suc i) m = Some h'"
    "wrote h result (n + Suc i + m) (num h op1 n * num h op2 (Suc i + m)) h'" by auto
  then show ?case using b l(1) p1 p2 by simp
qed

lemma mp_mul_basecase_spec:
  assumes "valid h result (n + m)" "valid h op1 n" "valid h op2 m" "apart result (n + m) op1 n" "apart result (n + m) op2 m" "0 < m"
  shows "\<exists>h'. mp_mul_basecase h result op1 n op2 m = Some h' \<and> wrote h result (n + m) (num h op1 n * num h op2 m) h'"
proof -
  have b: "ld h op2 0 = Some (lim h op2 0)" using ld_valid [OF assms(3), of 0] assms(6) by simp
  have "valid h result n" "fwd_ok result op1 n" using assms by (auto simp: valid_def apart_def fwd_ok_def)
  from mp_mul1_spec [OF this(1) assms(2) this(2), of "lim h op2 0" 0] obtain k ws where
    l: "mp_mul1 h result op1 n (lim h op2 0) 0 = Some (k, put h result 0 ws)" "length ws = n"
      "mval ws = num h op1 n * uint (lim h op2 0) - B ^ n * uint k" unfolding wrote_def by auto
  have "st (put h result 0 ws) result n k = Some (put h result 0 (ws @ [k]))"
    using st_valid [of "put h result 0 ws" result "n + m" n k] assms(1,6) l(2) put_app [of h result 0 ws "[k]"] by simp
  moreover have "mval (ws @ [k]) = num h op1 n * num h op2 1" using l(2,3) by (simp add: mval_append arr_Suc)
  ultimately show ?thesis
    using mul_loop_spec [of h result n 1 "m - 1" op1 op2 "ws @ [k]"] assms b l(1,2) by (simp add: mp_mul_basecase_def)
qed

lemma mval_inj: "length xs = length ys \<Longrightarrow> mval xs = mval ys \<Longrightarrow> xs = ys"
proof (induction xs ys rule: list_induct2)
  case (Cons x xs y ys)
  have "uint z = mval (z # zs) mod B" for z zs
    unfolding mval.simps mod_mult_self2 using limb_bounds [of z] by (rule mod_pos_pos_trivial [symmetric])
  from this [of x xs] this [of y ys] Cons.prems have "uint x = uint y" by (simp only:)
  with Cons show ?case by (simp add: word_uint_eq_iff)
qed simp

section \<open>Properties\<close>

text \<open>
  C16. The product of two big numbers below the threshold of the FFT multiplication: \<open>mp_mul\<close> returns 0 and the result array, apart
  from the factors, holds the product of their values; nothing else changes.
\<close>

theorem mp_mul_correct:
  assumes "valid h result (n1 + n2)" and "valid h op1 n1" and "valid h op2 n2"
    and "apart result (n1 + n2) op1 n1" and "apart result (n1 + n2) op2 n2" and "0 < n2" and "min n1 n2 < FFT_MUL_THRESHOLD"
  shows "\<exists>zs. mp_mul fft_mul h result op1 n1 op2 n2 = Some (0, put h result 0 zs) \<and> length zs = n1 + n2 \<and>
    mval zs = num h op1 n1 * num h op2 n2"
proof -
  have "(FFT_MUL_THRESHOLD \<le> min n1 n2) = False" using assms(7) by auto
  with mp_mul_basecase_spec [OF assms(1-6)] show ?thesis unfolding mp_mul_def wrote_def by (simp only: if_False) auto
qed

theorem mp_mul_correct_witness:
  "\<exists>zs. mp_mul (\<lambda>_ _ _ _ _ _. None) ((\<lambda>_. [])(0 := [5, 6], 1 := [7], 2 := [0, 0, 0])) (2, 0) (0, 0) 2 (1, 0) 1 =
     Some (0, put ((\<lambda>_. [])(0 := [5, 6], 1 := [7], 2 := [0, 0, 0])) (2, 0) 0 zs) \<and> length zs = 3 \<and> mval zs = mval [5, 6] * mval [7]"
proof -
  let ?h = "(\<lambda>_. [])(0 := [5, 6], 1 := [7], 2 := [0, 0, 0]) :: heap"
  have n: "arr ?h (0, 0) 0 2 = [5, 6]" "arr ?h (1, 0) 0 1 = [7]" by (simp_all add: arr_def lim_def upt_rec)
  have "\<exists>zs. mp_mul (\<lambda>_ _ _ _ _ _. None) ?h (2, 0) (0, 0) 2 (1, 0) 1 = Some (0, put ?h (2, 0) 0 zs) \<and> length zs = 2 + 1 \<and>
      mval zs = num ?h (0, 0) 2 * num ?h (1, 0) 1"
    by (rule mp_mul_correct) (simp_all add: valid_def apart_def FFT_MUL_THRESHOLD_def)
  then show ?thesis unfolding n by (simp only: numeral_plus_one semiring_norm)
qed

text \<open>
  C17. Addition and subtraction in place undo each other: adding an array to another one and subtracting it again restores the store, and the
  borrow is the carry, for every length an \<open>int\<close> can count and every content.
\<close>

theorem mp_add_sub_cancel:
  assumes "valid h p n" and "valid h q n" and "apart p n q n" and "n \<le> INT_MAX"
  shows "\<exists>k h'. mp_add h p p q n 0 = Some (k, h') \<and> mp_sub h' p p q n 0 = Some (k, h)"
proof -
  have f: "fwd_ok p q n" using assms(3) by (rule apart_fwd)
  from mp_add_spec [OF assms(1,1,2) _ f, of 0] obtain k zs where
    a: "mp_add h p p q n 0 = Some (k, put h p 0 zs)" "length zs = n" "mval zs = num h p n + num h q n - B ^ n * uint k"
    by (auto simp: wrote_def)
  let ?h = "put h p 0 zs"
  have pq: "arr ?h p 0 n = zs" "arr ?h q 0 n = arr h q 0 n"
    using arr_put_same [of h p zs 0 n] arr_put_apart [of p 0 zs q 0 n h] assms a(2) by simp_all
  from mp_sub_spec [of ?h p n p q 0] assms f pq obtain k' ys where
    s: "mp_sub ?h p p q n 0 = Some (k', put ?h p 0 ys)" "length ys = n" "mval ys = mval zs - num h q n + B ^ n * uint k'"
    by (auto simp: wrote_def)
  have eq: "mval ys = num h p n + B ^ n * (uint k' - uint k)" using a(3) s(3) by (simp add: algebra_simps)
  have "\<bar>B ^ n * (uint k' - uint k)\<bar> < B ^ n"
    using eq mval_bounds [of ys] mval_bounds [of "arr h p 0 n"] unfolding s(2) length_arr abs_less_iff by linarith
  then have "B ^ n * \<bar>uint k' - uint k\<bar> < B ^ n * 1" by (simp add: abs_mult)
  then have "\<bar>uint k' - uint k\<bar> < 1" by (simp only: mult_less_cancel_left_pos zero_less_power zero_less_numeral)
  then have k: "k' = k" by (simp add: word_uint_eq_iff)
  then have "ys = arr h p 0 n" using eq s(2) by (intro mval_inj) simp_all
  then have "put ?h p 0 ys = h"
    using put_over [of 0 ys zs h p] a(2) s(2) put_arr [of h p 0 n] by simp
  with a(1) s(1) k show ?thesis by simp
qed

theorem mp_add_sub_cancel_witness:
  "\<exists>k h'. mp_add ((\<lambda>_. [])(0 := [5, - 1], 1 := [7, 9])) (0, 0) (0, 0) (1, 0) 2 0 = Some (k, h') \<and>
     mp_sub h' (0, 0) (0, 0) (1, 0) 2 0 = Some (k, (\<lambda>_. [])(0 := [5, - 1], 1 := [7, 9]))"
  by (rule mp_add_sub_cancel) (simp_all add: valid_def apart_def INT_MAX_def)

end
