(* ===== verification/MpDiv.thy ===== *)
theory MpDiv
  imports MpArith
begin

text \<open>
  The division of \<^verbatim>\<open>libbf.c\<close>: division of two limbs by a normalized limb with a precomputed inverse (\<open>udiv1norm\<close>), of an array by a limb
  (\<open>mp_div1norm\<close>) and the schoolbook division of two arrays (\<open>mp_divnorm\<close>) below the threshold of the subquadratic routine, which is
  a parameter of the model. The correction loop of a quotient digit has no bound in the source; \<open>partial_function\<close> makes
  running forever the value \<open>None\<close>, and the theorems show that it is not reached.
\<close>

section \<open>Operations\<close>

definition UDIV1NORM_THRESHOLD :: nat where
  "UDIV1NORM_THRESHOLD = 3"

definition DIVNORM_LARGE_THRESHOLD :: nat where
  "DIVNORM_LARGE_THRESHOLD = 50"

text \<open>\<open>((dlimb_t)a1 << LIMB_BITS) | a0\<close>.\<close>

definition dl :: "limb \<Rightarrow> limb \<Rightarrow> dlimb" where
  "dl a1 a0 = push_bit 64 (ucast a1) OR ucast a0"

definition udiv1norm_init :: "limb \<Rightarrow> limb" where
  "udiv1norm_init d = (let a1 = - d - 1; a0 = - 1 in ucast (dl a1 a0 div ucast d))"

definition udiv1norm :: "limb \<Rightarrow> limb \<Rightarrow> limb \<Rightarrow> limb \<Rightarrow> limb \<times> limb" where
  "udiv1norm a1 a0 d d_inv =
     (let n1m = (if bit a0 63 then - 1 else 0);
          n_adj = a0 + (n1m AND d);
          a = (ucast d_inv :: dlimb) * ucast (a1 - n1m) + ucast n_adj;
          q = ucast (drop_bit 64 a) + a1;
          a = dl a1 a0 - ucast q * ucast d - ucast d;
          ah = ucast (drop_bit 64 a);
          q = q + (1 + ah);
          r = ucast a + (ah AND d)
      in (q, r))"

definition div1_inv_body :: "ptr \<Rightarrow> limb \<Rightarrow> limb \<Rightarrow> heap \<Rightarrow> nat \<Rightarrow> limb \<Rightarrow> (limb \<times> limb) option" where
  "div1_inv_body taba b b_inv h i r = do {
     a \<leftarrow> ld h taba i;
     Some (udiv1norm r a b b_inv) }"

definition div1_body :: "ptr \<Rightarrow> limb \<Rightarrow> heap \<Rightarrow> nat \<Rightarrow> limb \<Rightarrow> (limb \<times> limb) option" where
  "div1_body taba b h i r = do {
     a \<leftarrow> ld h taba i;
     if b = 0 then None
     else let a1 = dl r a in Some (ucast (a1 div ucast b), ucast (a1 mod ucast b)) }"

definition mp_div1norm :: "heap \<Rightarrow> ptr \<Rightarrow> ptr \<Rightarrow> nat \<Rightarrow> limb \<Rightarrow> limb \<Rightarrow> (limb \<times> heap) option" where
  "mp_div1norm h tabr taba n b r =
     (if n \<ge> UDIV1NORM_THRESHOLD then down_loop (div1_inv_body taba b (udiv1norm_init b)) h tabr n r
      else down_loop (div1_body taba b) h tabr n r)"

text \<open>The first digit of the quotient: 1 if the top of \<open>taba\<close> is at least \<open>tabb\<close>.\<close>

fun first_digit :: "heap \<Rightarrow> ptr \<Rightarrow> ptr \<Rightarrow> nat \<Rightarrow> limb option" where
  "first_digit h taba_n tabb 0 = Some 1"
| "first_digit h taba_n tabb (Suc j) = do {
     a \<leftarrow> ld h taba_n j;
     b \<leftarrow> ld h tabb j;
     if a \<noteq> b then Some (if a < b then 0 else 1) else first_digit h taba_n tabb j }"

text \<open>The correction of a digit that is too large.\<close>

partial_function (option) addback_loop :: "heap \<Rightarrow> ptr \<Rightarrow> nat \<Rightarrow> ptr \<Rightarrow> nat \<Rightarrow> limb \<Rightarrow> (limb \<times> heap) option" where
  "addback_loop h taba i tabb nb q = do {
     (c, h) \<leftarrow> mp_add h (p_add taba i) (p_add taba i) tabb nb 0;
     if c \<noteq> 0 then do {
       v \<leftarrow> ld h taba (i + nb);
       h \<leftarrow> st h taba (i + nb) (v + 1);
       if v + 1 = 0 then Some (q - 1, h) else addback_loop h taba i tabb nb (q - 1) }
     else addback_loop h taba i tabb nb (q - 1) }"

definition digit_estimate :: "heap \<Rightarrow> ptr \<Rightarrow> nat \<Rightarrow> nat \<Rightarrow> limb \<Rightarrow> limb \<Rightarrow> limb option" where
  "digit_estimate h taba i nb b1 b1_inv = do {
     a1 \<leftarrow> ld h taba (i + nb);
     if a1 \<ge> b1 then Some (- 1)
     else do {
       a0 \<leftarrow> ld h taba (i + nb - 1);
       Some (if b1_inv \<noteq> 0 then fst (udiv1norm a1 a0 b1 b1_inv) else ucast (dl a1 a0 div ucast b1)) } }"

fun divnorm_loop :: "heap \<Rightarrow> ptr \<Rightarrow> ptr \<Rightarrow> ptr \<Rightarrow> nat \<Rightarrow> limb \<Rightarrow> limb \<Rightarrow> nat \<Rightarrow> heap option" where
  "divnorm_loop h tabq taba tabb nb b1 b1_inv 0 = Some h"
| "divnorm_loop h tabq taba tabb nb b1 b1_inv (Suc i) = do {
     q \<leftarrow> digit_estimate h taba i nb b1 b1_inv;
     (r, h) \<leftarrow> mp_sub_mul1 h (p_add taba i) tabb nb q;
     v \<leftarrow> ld h taba (i + nb);
     let a = v - r;
     h \<leftarrow> st h taba (i + nb) a;
     (q, h) \<leftarrow> (if a > v then addback_loop h taba i tabb nb q else Some (q, h));
     h \<leftarrow> st h tabq i q;
     divnorm_loop h tabq taba tabb nb b1 b1_inv i }"

type_synonym divnorm_fun = "heap \<Rightarrow> ptr \<Rightarrow> ptr \<Rightarrow> nat \<Rightarrow> ptr \<Rightarrow> nat \<Rightarrow> (int \<times> heap) option"

definition mp_divnorm :: "divnorm_fun \<Rightarrow> heap \<Rightarrow> ptr \<Rightarrow> ptr \<Rightarrow> nat \<Rightarrow> ptr \<Rightarrow> nat \<Rightarrow> (int \<times> heap) option" where
  "mp_divnorm mp_divnorm_large h tabq taba na tabb nb = (if nb = 0 then None else do {
     b1 \<leftarrow> ld h tabb (nb - 1);
     if nb = 1 then do {
       (r, h) \<leftarrow> mp_div1norm h tabq taba na b1 0;
       h \<leftarrow> st h taba 0 r;
       Some (0, h) }
     else let n = na - nb in
       if min n nb \<ge> DIVNORM_LARGE_THRESHOLD then mp_divnorm_large h tabq taba na tabb nb
       else do {
         let b1_inv = (if n \<ge> UDIV1NORM_THRESHOLD then udiv1norm_init b1 else 0);
         q \<leftarrow> first_digit h (p_add taba n) tabb nb;
         h \<leftarrow> st h tabq n q;
         h \<leftarrow> (if q \<noteq> 0 then map_option snd (mp_sub h (p_add taba n) (p_add taba n) tabb nb 0) else Some h);
         h \<leftarrow> divnorm_loop h tabq taba tabb nb b1 b1_inv n;
         Some (0, h) } })"

section \<open>Two limbs by one\<close>

text \<open>The arithmetic of the quotient estimate: \<open>m\<close> is the inverse, \<open>t\<close> the top bit of the low limb.\<close>

lemma inverse_estimate:
  fixes d m n1 n0 e t q :: int
  assumes inv: "(B + m) * d = B * B - e" "1 \<le> e" "e \<le> d" and d: "B \<le> 2 * d" "d < B"
    and n: "0 \<le> n1" "n1 < d" "0 \<le> n0" "n0 < B" and t: "t = (if B \<le> 2 * n0 then 1 else 0)"
    and q: "q = (n1 * B + m * (n1 + t) + n0 + t * (d - B)) div B"
  shows "0 \<le> n1 * B + n0 - q * d" "n1 * B + n0 - q * d < 2 * d"
proof -
  define Q where "Q = n1 * B + m * (n1 + t) + n0 + t * (d - B)"
  have md: "m * d = B * B - e - B * d" using inv(1) by (simp add: algebra_simps)
  have "d * Q = n1 * B * d + (m * d) * (n1 + t) + n0 * d + t * (d - B) * d"
    unfolding Q_def by (simp add: algebra_simps)
  then have dQ: "(n1 * B + n0) * B - d * Q = n1 * e + n0 * (B - d) - t * ((B - d) * (B - d) - e)"
    unfolding md by (simp add: algebra_simps)
  have qB: "B * q = Q - Q mod B" unfolding q Q_def [symmetric] using mult_div_mod_eq [of B Q] by linarith
  have mod: "0 \<le> Q mod B" "Q mod B \<le> B - 1" using pos_mod_bound [of B Q] by simp_all
  have BR: "B * (n1 * B + n0 - q * d) = ((n1 * B + n0) * B - d * Q) + d * (Q mod B)"
  proof -
    have "B * (n1 * B + n0 - q * d) = (n1 * B + n0) * B - d * (B * q)" by (simp add: algebra_simps)
    then show ?thesis unfolding qB by (simp add: algebra_simps)
  qed
  have dm: "0 \<le> d * (Q mod B)" "d * (Q mod B) \<le> d * (B - 1)"
    using mod d by (auto intro!: mult_nonneg_nonneg mult_left_mono)
  have ne: "0 \<le> n1 * e" "n1 * e \<le> (d - 1) * d" using n inv by (auto intro!: mult_nonneg_nonneg mult_mono)
  have low: "0 \<le> n0 * (B - d) - t * ((B - d) * (B - d) - e)"
  proof (cases "t = 1")
    case True
    then have "B - d \<le> n0" using t d by (auto split: if_splits)
    then have "(B - d) * (B - d) \<le> n0 * (B - d)" using d by (intro mult_right_mono) auto
    with True inv show ?thesis by simp
  qed (use t n d in \<open>auto intro!: mult_nonneg_nonneg split: if_splits\<close>)
  have "0 \<le> B * (n1 * B + n0 - q * d)" unfolding BR dQ using low dm(1) ne(1) by linarith
  then show "0 \<le> n1 * B + n0 - q * d" by (simp add: zero_le_mult_iff)
  have "n1 * e + n0 * (B - d) - t * ((B - d) * (B - d) - e) + d * (B - 1) < B * (2 * d)"
  proof (cases "t = 1")
    case True
    have "n0 * (B - d) \<le> (B - 1) * (B - d)" using n d by (intro mult_right_mono) auto
    then have "n1 * e + n0 * (B - d) - ((B - d) * (B - d) - e) + d * (B - 1) \<le>
        (d - 1) * d + (B - 1) * (B - d) - (B - d) * (B - d) + d + d * (B - 1)" using ne(2) inv(3) by linarith
    also have "\<dots> = B * (2 * d) - B" by (simp add: algebra_simps)
    finally show ?thesis using True by simp
  next
    case False
    then have "n0 \<le> d" "t = 0" using t d by (auto split: if_splits)
    then have "n0 * (B - d) \<le> d * (B - d)" using d by (intro mult_right_mono) auto
    then have "n1 * e + n0 * (B - d) + d * (B - 1) \<le> (d - 1) * d + d * (B - d) + d * (B - 1)" using ne(2) by linarith
    also have "\<dots> = B * (2 * d) - 2 * d" by (simp add: algebra_simps)
    finally show ?thesis using \<open>t = 0\<close> d n by simp
  qed
  then have "B * (n1 * B + n0 - q * d) < B * (2 * d)" unfolding BR dQ using dm(2) by linarith
  then show "n1 * B + n0 - q * d < 2 * d" by simp
qed

lemma uint_dl: "uint (dl a1 a0) = uint a1 * B + uint a0"
proof -
  have "uint (dl a1 a0) = uint (push_bit 64 (ucast a1) :: dlimb) + uint a0"
    unfolding dl_def uint_or uint_ucast_dlimb
    by (rule disjunctive_add [symmetric]) (auto simp: bit_simps dest: bit_imp_le_length)
  moreover have "uint (push_bit 64 (ucast a1) :: dlimb) = uint a1 * B"
    using limb_bounds [of a1] by (simp only: unsigned_push_bit_eq) (simp add: push_bit_eq_mult take_bit_eq_mod)
  ultimately show ?thesis by simp
qed

lemma quot_small:
  fixes a1 a0 d :: int
  assumes "0 \<le> a1" "a1 < d" "0 \<le> a0" "a0 < B"
  shows "0 \<le> (a1 * B + a0) div d" "(a1 * B + a0) div d < B"
proof -
  show "0 \<le> (a1 * B + a0) div d" using assms by (simp add: pos_imp_zdiv_nonneg_iff)
  have "(a1 + 1) * B \<le> d * B" using assms by (intro mult_right_mono) auto
  then have "a1 * B + a0 < B * d" using assms by (simp add: algebra_simps)
  moreover have "0 < d" using assms by simp
  then have "0 \<le> (a1 * B + a0) mod d" by simp
  ultimately have "d * ((a1 * B + a0) div d) < B * d" using mult_div_mod_eq [of d "a1 * B + a0"] by linarith
  then have "d * ((a1 * B + a0) div d) < d * B" by (simp add: mult.commute)
  then show "(a1 * B + a0) div d < B" using assms by (simp add: mult_less_cancel_left_pos)
qed

lemma dl_div:
  fixes a1 a0 d :: limb
  assumes "uint a1 < uint d"
  shows "uint (ucast (dl a1 a0 div ucast d) :: limb) = (uint a1 * B + uint a0) div uint d"
    and "uint (ucast (dl a1 a0 mod ucast d) :: limb) = (uint a1 * B + uint a0) mod uint d"
proof -
  have "uint (dl a1 a0 div ucast d) = (uint a1 * B + uint a0) div uint d" by (simp add: uint_div_distrib uint_dl)
  moreover note quot_small [OF limb_bounds(1) assms limb_bounds(1) limb_bounds(2), of a0]
  ultimately show "uint (ucast (dl a1 a0 div ucast d) :: limb) = (uint a1 * B + uint a0) div uint d"
    unfolding dlimb_low by simp
  have "uint (dl a1 a0 mod ucast d) = (uint a1 * B + uint a0) mod uint d" by (simp add: uint_mod_distrib uint_dl)
  moreover have d: "0 < uint d" using assms limb_bounds(1) [of a1] by (rule le_less_trans [rotated])
  moreover have "0 \<le> (uint a1 * B + uint a0) mod uint d" using d by (rule pos_mod_sign)
  moreover have "(uint a1 * B + uint a0) mod uint d < B"
    using pos_mod_bound [OF d] limb_bounds(2) [of d] by (rule less_trans)
  ultimately show "uint (ucast (dl a1 a0 mod ucast d) :: limb) = (uint a1 * B + uint a0) mod uint d"
    unfolding dlimb_low by simp
qed

lemma udiv1norm_init_spec:
  assumes "B \<le> 2 * uint d"
  shows "\<exists>e. (B + uint (udiv1norm_init d)) * uint d = B * B - e \<and> 1 \<le> e \<and> e \<le> uint d"
proof -
  define u where "u = uint d"
  have u: "u < B" "0 < u" using limb_bounds [of d] assms by (auto simp: u_def)
  have "uint (- d - 1) = uint ((- 1) - d)" by (metis diff_conv_add_uminus add.commute)
  also have "\<dots> = B - 1 - u" using u(1) limb_sub [of "- 1" d] by (simp add: u_def unsigned_minus_1_eq_mask mask_eq_exp_minus_1)
  finally have a1: "uint (- d - 1) = B - 1 - u" .
  have a0: "uint (- 1 :: limb) = B - 1" by (simp add: unsigned_minus_1_eq_mask mask_eq_exp_minus_1)
  have "uint (- d - 1) < uint d" using a1 assms by (simp add: u_def)
  from dl_div(1) [OF this, of "- 1"] have m: "uint (udiv1norm_init d) = ((B - 1 - u) * B + (B - 1)) div u"
    unfolding a1 a0 udiv1norm_init_def Let_def u_def .
  have "((B - 1 - u) * B + (B - 1)) div u * u = B * B - 1 - B * u - (B * B - 1 - B * u) mod u"
    using div_mult_mod_eq [of "B * B - 1 - B * u" u] by (simp add: algebra_simps)
  then have "(B + uint (udiv1norm_init d)) * u = B * B - (1 + (B * B - 1 - B * u) mod u)" unfolding m by (simp add: algebra_simps)
  moreover have "(B * B - 1 - B * u) mod u < u" "0 \<le> (B * B - 1 - B * u) mod u" using u(2) by simp_all
  ultimately show ?thesis unfolding u_def by (intro exI [of _ "1 + (B * B - 1 - B * uint d) mod uint d"]) simp
qed

lemma top_bit: "bit (a :: limb) 63 \<longleftrightarrow> B \<le> 2 * uint a"
proof -
  have "bit a 63 \<longleftrightarrow> bit (uint a) 63" by (simp add: bit_uint_iff)
  then have "bit a 63 \<longleftrightarrow> odd (uint a div 2 ^ 63)" by (simp only: bit_iff_odd [of "uint a"])
  moreover have "uint a div 2 ^ 63 = 0 \<or> uint a div 2 ^ 63 = 1"
    using limb_bounds [of a] zdiv_mono1 [of "uint a" "B - 1" "2 ^ 63"] zdiv_mono1 [of 0 "uint a" "2 ^ 63"] by simp linarith
  moreover have "uint a = 2 ^ 63 * (uint a div 2 ^ 63) + uint a mod 2 ^ 63" "0 \<le> uint a mod 2 ^ 63" "uint a mod 2 ^ 63 < 2 ^ 63" by simp_all
  ultimately show ?thesis by auto
qed

lemma limb_of_int: "uint (word_of_int x :: limb) = x mod B"
  by (simp add: unsigned_of_int take_bit_eq_mod)

lemma udiv1norm_spec:
  assumes d: "B \<le> 2 * uint d" and a1: "uint a1 < uint d" and r: "udiv1norm a1 a0 d (udiv1norm_init d) = (q, r)"
  shows "uint a1 * B + uint a0 = uint d * uint q + uint r" "uint r < uint d"
proof -
  define m t where "m = uint (udiv1norm_init d)" and "t = (if B \<le> 2 * uint a0 then 1 else 0 :: int)"
  define n1m :: limb where "n1m = (if bit a0 63 then - 1 else 0)"
  define adj where "adj = a0 + (n1m AND d)"
  define Q where "Q = uint a1 * B + m * (uint a1 + t) + uint a0 + t * (uint d - B)"
  define q1 where "q1 = Q div B"
  define X where "X = uint a1 * B + uint a0 - q1 * uint d - uint d"
  obtain e where e: "(B + m) * uint d = B * B - e" "1 \<le> e" "e \<le> uint d" using udiv1norm_init_spec [OF d] unfolding m_def by blast
  have X: "- uint d \<le> X" "X < uint d"
    using inverse_estimate [OF e d limb_bounds(2) limb_bounds(1) a1 limb_bounds t_def q1_def [unfolded Q_def]]
    unfolding X_def by linarith+
  have adj: "uint adj = uint a0 + t * (uint d - B)"
    using top_bit [of a0] limb_add [of a0 d] d by (auto simp: adj_def n1m_def t_def)
  have n1: "uint (a1 - n1m) = uint a1 + t"
    using top_bit [of a0] limb_add [of a1 1] a1 limb_bounds(2) [of d] by (auto simp: n1m_def t_def)
  define a where "a = (ucast (udiv1norm_init d) :: dlimb) * ucast (a1 - n1m) + ucast adj"
  have "uint (ucast a :: limb) + B * uint (ucast (drop_bit 64 a) :: limb) = m * (uint a1 + t) + uint adj"
    using mul_step [of a "udiv1norm_init d" "a1 - n1m" adj 0] by (simp add: a_def m_def n1)
  then have "q1 = (uint (ucast a :: limb) + B * (uint (ucast (drop_bit 64 a) :: limb) + uint a1)) div B"
    unfolding q1_def Q_def adj by (simp add: algebra_simps)
  moreover have "uint (ucast a :: limb) div B = 0" using limb_bounds [of "ucast a :: limb"] by (intro div_pos_pos_trivial)
  moreover have "(x + B * y) div B = y + x div B" for x y by (rule div_mult_self2) simp
  ultimately have q1: "q1 = uint (ucast (drop_bit 64 a) :: limb) + uint a1" by (simp only: add_0_right)
  have q1B: "q1 < B" if "uint a1 * B + uint a0 = q1 * uint d + y" "0 \<le> y" for q1 y
  proof -
    have "q1 * uint d \<le> uint a1 * B + uint a0" using that by simp
    then have "q1 * uint d div uint d \<le> (uint a1 * B + uint a0) div uint d" using d by (intro zdiv_mono1) auto
    then show ?thesis using quot_small(2) [OF limb_bounds(1) a1 limb_bounds, of a0] d by simp
  qed
  define qh where "qh = ucast (drop_bit 64 a) + a1"
  have "q1 < B" by (rule q1B [of _ "X + uint d"]) (use X in \<open>simp_all add: X_def\<close>)
  then have qh: "uint qh = q1" using limb_add [of "ucast (drop_bit 64 a)" a1] q1 by (simp add: qh_def)
  define z where "z = dl a1 a0 - ucast qh * ucast d - ucast d"
  have "z = word_of_int (uint z)" by simp
  have "dl a1 a0 = word_of_int (uint a1 * B + uint a0)" using uint_dl [of a1 a0] by (metis word_of_int_uint)
  then have z: "z = word_of_int X" unfolding z_def X_def qh [symmetric] by simp
  have zl: "(ucast z :: limb) = word_of_int X"
    by (rule word_uint_eqI) (simp only: z dlimb_low dlimb_value limb_of_int mod_mod_cancel dvd_triv_left)
  have res: "q = qh + (1 + ucast (drop_bit 64 z))" "r = ucast z + (ucast (drop_bit 64 z) AND d)"
    using r unfolding udiv1norm_def Let_def n1m_def [symmetric] adj_def [symmetric] a_def [symmetric] qh_def [symmetric] z_def [symmetric] by simp_all
  show "uint a1 * B + uint a0 = uint d * uint q + uint r" "uint r < uint d"
  proof (atomize (full), cases "0 \<le> X")
    case True
    then have "uint z = X" using X limb_bounds [of d] by (simp only: z dlimb_value; simp)
    then have "uint (ucast (drop_bit 64 z) :: limb) = 0" using X True limb_bounds [of d] by (simp only: dlimb_high; simp)
    then have "ucast (drop_bit 64 z) = (0 :: limb)" by (simp add: uint_0_iff)
    moreover have "uint (ucast z :: limb) = X" using X True limb_bounds [of d] by (simp only: zl limb_of_int; simp)
    moreover have "q1 + 1 < B" by (rule q1B [of _ X]) (use True in \<open>simp_all add: X_def algebra_simps\<close>)
    then have "uint (qh + 1) = q1 + 1" using limb_add [of qh 1] qh by simp
    ultimately show "uint a1 * B + uint a0 = uint d * uint q + uint r \<and> uint r < uint d"
      using X by (simp add: res X_def algebra_simps)
  next
    case False
    have "uint z = X + B * B" using X False limb_bounds [of d] mod_add_self2 [of X "B * B"] mod_pos_pos_trivial [of "X + B * B" "B * B"]
      by (simp only: z dlimb_value; simp)
    then have "uint z = (X + B) + B * (B - 1)" by simp
    then have "uint z div B = (B - 1) + (X + B) div B" by (simp only: div_mult_self2 [of B])
    moreover have "(X + B) div B = 0" using X False limb_bounds [of d] by (intro div_pos_pos_trivial) auto
    ultimately have "uint (ucast (drop_bit 64 z) :: limb) = B - 1" by (simp only: dlimb_high; simp)
    then have "ucast (drop_bit 64 z) = (- 1 :: limb)"
      by (intro word_uint_eqI) (simp add: unsigned_minus_1_eq_mask mask_eq_exp_minus_1)
    moreover have "uint (word_of_int (X + uint d) :: limb) = X + uint d" using X False limb_bounds [of d] by (simp only: limb_of_int; simp)
    then have "uint (ucast z + d) = X + uint d" by (simp add: zl)
    ultimately show "uint a1 * B + uint a0 = uint d * uint q + uint r \<and> uint r < uint d"
      using X False qh by (simp add: res X_def algebra_simps)
  qed
qed

section \<open>An array by a limb\<close>

lemma mp_div1norm_spec:
  assumes v: "valid h tabr n" "valid h taba n" and bwd: "bwd_ok tabr taba n" and b: "B \<le> 2 * uint b" and r: "uint r < uint b"
  shows "\<exists>r' h' q. mp_div1norm h tabr taba n b r = Some (r', h') \<and> wrote h tabr n q h' \<and>
    uint r * B ^ n + num h taba n = uint b * q + uint r' \<and> uint r' < uint b"
proof -
  have b0: "b \<noteq> 0" using b by auto
  have spec: "\<exists>r' h' q. down_loop body h tabr n r = Some (r', h') \<and> wrote h tabr n q h' \<and>
      uint r * B ^ n + num h taba n = uint b * q + uint r' \<and> uint r' < uint b"
    if step: "\<And>i zs k. i < n \<Longrightarrow> length zs = n - 1 - i \<Longrightarrow> uint k < uint b \<Longrightarrow>
      \<exists>w k'. body (put h tabr (i + 1) zs) i k = Some (w, k') \<and> uint k' < uint b \<and> uint k * B + uint (lim h taba i) = uint b * uint w + uint k'" for body
  proof -
    from down_loop_value [of n n "\<lambda>k. uint k < uint b" body h tabr uint "\<lambda>i. uint (lim h taba i)" "uint b" r "[]"] step v r
    obtain ys k' where l: "down_loop body h tabr n r = Some (k', put h tabr 0 ys)" "length ys = n" "uint k' < uint b"
        "uint r * B ^ n + num h taba n = uint b * mval ys + uint k'" by (auto simp: weigh_arr)
    then show ?thesis
      by (intro exI [of _ k'] exI [of _ "put h tabr 0 ys"] exI [of _ "mval ys"]) (auto simp: wrote_def)
  qed
  show ?thesis
  proof (cases "n \<ge> UDIV1NORM_THRESHOLD")
    case True
    have "\<exists>w k'. div1_inv_body taba b (udiv1norm_init b) (put h tabr (i + 1) zs) i k = Some (w, k') \<and> uint k' < uint b \<and>
        uint k * B + uint (lim h taba i) = uint b * uint w + uint k'" if "i < n" "length zs = n - 1 - i" "uint k < uint b" for i zs k
    proof -
      obtain w k' where "udiv1norm k (lim h taba i) b (udiv1norm_init b) = (w, k')" by fastforce
      with udiv1norm_spec [OF b that(3) this] ld_bwd [OF v(2) bwd that(1,2)] show ?thesis by (simp add: div1_inv_body_def)
    qed
    from spec [of "div1_inv_body taba b (udiv1norm_init b)", OF this] True show ?thesis by (simp add: mp_div1norm_def)
  next
    case False
    have "\<exists>w k'. div1_body taba b (put h tabr (i + 1) zs) i k = Some (w, k') \<and> uint k' < uint b \<and>
        uint k * B + uint (lim h taba i) = uint b * uint w + uint k'" if "i < n" "length zs = n - 1 - i" "uint k < uint b" for i zs k
      using ld_bwd [OF v(2) bwd that(1,2)] b0 b dl_div [OF that(3), of "lim h taba i"] by (simp add: div1_body_def Let_def)
    from spec [of "div1_body taba b", OF this] False show ?thesis by (simp add: mp_div1norm_def)
  qed
qed

section \<open>Cells that change\<close>

definition cells :: "ptr \<Rightarrow> nat \<Rightarrow> nat \<Rightarrow> (nat \<times> nat) set" where
  "cells p i n = {(b, k). b = fst p \<and> snd p + i \<le> k \<and> k < snd p + i + n}"

definition frame :: "(nat \<times> nat) set \<Rightarrow> heap \<Rightarrow> heap \<Rightarrow> bool" where
  "frame S h h' \<longleftrightarrow> (\<forall>b. length (h' b) = length (h b)) \<and> (\<forall>b k. k < length (h b) \<longrightarrow> (b, k) \<notin> S \<longrightarrow> h' b ! k = h b ! k)"

lemma frame_refl: "frame S h h"
  by (simp add: frame_def)

lemma frame_trans: "frame S h g \<Longrightarrow> frame T g f \<Longrightarrow> frame (S \<union> T) h f"
  by (simp add: frame_def)

lemma frame_mono: "frame S h g \<Longrightarrow> S \<subseteq> T \<Longrightarrow> frame T h g"
  by (auto simp: frame_def)

lemma frame_put: "frame (cells p i (length zs)) h (put h p i zs)"
  by (auto simp: frame_def cells_def nth_put)

lemma frame_valid: "frame S h g \<Longrightarrow> valid g p n \<longleftrightarrow> valid h p n"
  by (simp add: frame_def valid_def)

lemma frame_arr: "frame S h g \<Longrightarrow> cells p i n \<inter> S = {} \<Longrightarrow> valid h p (i + n) \<Longrightarrow> arr g p i n = arr h p i n"
proof -
  assume f: "frame S h g" and d: "cells p i n \<inter> S = {}" and v: "valid h p (i + n)"
  have "lim g p (i + x) = lim h p (i + x)" if "x < n" for x
  proof -
    have "(fst p, snd p + (i + x)) \<in> cells p i n" using that by (simp add: cells_def)
    then have "(fst p, snd p + (i + x)) \<notin> S" using d by blast
    moreover have "snd p + (i + x) < length (h (fst p))" using v that by (simp add: valid_def)
    ultimately show ?thesis using f by (simp add: frame_def lim_def)
  qed
  then show ?thesis by (simp add: arr_def)
qed

lemma cells_apart: "apart p n q m \<Longrightarrow> i + k \<le> n \<Longrightarrow> j + l \<le> m \<Longrightarrow> cells p i k \<inter> cells q j l = {}"
  by (auto simp: cells_def apart_def)

lemma cells_other: "i + k \<le> j \<or> j + l \<le> i \<Longrightarrow> cells p i k \<inter> cells p j l = {}"
  by (auto simp: cells_def)

lemma cells_p_add: "cells (p_add p i) j n = cells p (i + j) n"
  by (auto simp: cells_def p_add_def)

lemma cells_sub: "j \<le> i \<Longrightarrow> i + n \<le> j + m \<Longrightarrow> cells p i n \<subseteq> cells p j m"
  by (auto simp: cells_def)

lemma lim_arr: "lim h p i = hd (arr h p i 1)"
  by (simp add: arr_Suc)

lemma arr_append: "arr h p i (n + m) = arr h p i n @ arr h p (i + n) m"
  by (induction n arbitrary: i) (simp_all add: arr_Suc)

lemma wrote_frame:
  assumes "wrote h p n x h'" "valid h p n"
  shows "num h' p n = x" "frame (cells p 0 n) h h'"
proof -
  obtain zs where zs: "length zs = n" "mval zs = x" "h' = put h p 0 zs" using assms(1) by (auto simp: wrote_def)
  then show "frame (cells p 0 n) h h'" using frame_put by blast
  show "num h' p n = x" using arr_put_same [of h p zs 0 n] zs assms(2) by simp
qed

lemma st_frame:
  assumes "valid h p n" "i < n"
  shows "\<exists>h'. st h p i v = Some h' \<and> frame (cells p i 1) h h' \<and> lim h' p i = v"
  using st_valid [OF assms, of v] frame_put [of p i "[v]" h] assms
  by (auto simp: lim_def valid_def nth_put simp del: put.simps)

lemma lim_frame: "frame S h g \<Longrightarrow> cells p i 1 \<inter> S = {} \<Longrightarrow> valid h p n \<Longrightarrow> i < n \<Longrightarrow> lim g p i = lim h p i"
  unfolding lim_arr using frame_arr [of S h g p i 1] valid_mono [of h p n "i + 1"] by simp

section \<open>A digit of the quotient\<close>

lemma first_digit_cmp: "first_digit h p q n = map_option (\<lambda>c. if c < 0 then 0 else 1) (mp_cmp h p q n)"
proof (induction n)
  case (Suc n)
  then show ?case by (cases "ld h p n"; cases "ld h q n") simp_all
qed simp

lemma mval_top: "mval (arr h p i (n + 1)) = mval (arr h p i n) + B ^ n * uint (lim h p (i + n))"
  unfolding arr_append by (simp add: mval_append arr_Suc)

lemma limb_inc:
  fixes x :: limb
  shows "x + 1 = 0 \<Longrightarrow> uint x = B - 1" "x + 1 \<noteq> 0 \<Longrightarrow> uint (x + 1) = uint x + 1"
proof -
  show "uint x = B - 1" if "x + 1 = 0"
  proof -
    have "x = - 1" using that by (simp add: eq_neg_iff_add_eq_0)
    then show ?thesis by (simp add: unsigned_minus_1_eq_mask mask_eq_exp_minus_1)
  qed
  show "uint (x + 1) = uint x + 1" if nz: "x + 1 \<noteq> 0"
  proof (rule ccontr)
    assume "uint (x + 1) \<noteq> uint x + 1"
    then have "\<not> uint x + 1 < B" "uint (x + 1) = uint x + 1 - B" using limb_add [of x 1] by (auto split: if_splits)
    then have "uint (x + 1) = 0" using limb_bounds(2) [of x] by simp
    with nz show False by (simp add: uint_0_iff)
  qed
qed

lemma addback_spec:
  assumes "valid g taba (i + nb + 1)" "valid g tabb nb" "apart taba (i + nb + 1) tabb nb"
    and "0 < num g tabb nb" "X < 0" "mval (arr g taba i (nb + 1)) = X + B ^ (nb + 1)" "0 \<le> X + uint q * num g tabb nb"
  shows "\<exists>q' g'. addback_loop g taba i tabb nb q = Some (q', g') \<and> frame (cells taba i (nb + 1)) g g' \<and>
    mval (arr g' taba i (nb + 1)) < num g tabb nb \<and>
    mval (arr g' taba i (nb + 1)) + uint q' * num g tabb nb = X + uint q * num g tabb nb"
  using assms
proof (induction "nat (- X)" arbitrary: g q X rule: less_induct)
  case less
  define bv low top where "bv = num g tabb nb" and "low = mval (arr g taba i nb)" and "top = lim g taba (i + nb)"
  note v = less.prems(1,2) and ap = less.prems(3) and X = less.prems(5,7)
  have bv: "0 < bv" using less.prems(4) by (simp add: bv_def)
  have val: "low + B ^ nb * uint top = X + B ^ (nb + 1)" using less.prems(6) unfolding mval_top by (simp add: low_def top_def)
  have "valid g (p_add taba i) nb" "fwd_ok (p_add taba i) tabb nb"
    using v ap by (auto simp: valid_p_add valid_def apart_def fwd_ok_def p_add_def)
  from mp_add_spec [OF this(1) this(1) v(2) _ this(2), of 0] obtain c g1 where
    add: "mp_add g (p_add taba i) (p_add taba i) tabb nb 0 = Some (c, g1)" "uint c \<le> 1"
      "wrote g (p_add taba i) nb (low + bv - B ^ nb * uint c) g1"
    by (auto simp: arr_p_add low_def bv_def)
  from wrote_frame [OF add(3) \<open>valid g (p_add taba i) nb\<close>] have low1: "mval (arr g1 taba i nb) = low + bv - B ^ nb * uint c"
    and f1: "frame (cells taba i nb) g g1" by (simp_all add: arr_p_add cells_p_add)
  have top1: "lim g1 taba (i + nb) = top"
    using lim_frame [OF f1 cells_other v(1)] by (simp add: top_def)
  have q0: "uint (q - 1) = uint q - 1"
  proof -
    have "uint q \<noteq> 0" using X by auto
    then show ?thesis using limb_sub [of q 1] limb_bounds [of q] by simp
  qed
  have fin: "?case" if l: "addback_loop g1' taba i tabb nb (q - 1) = addback_loop g taba i tabb nb q" 
    and fr: "frame (cells taba i (nb + 1)) g g1'" and vv: "mval (arr g1' taba i (nb + 1)) = X + bv + B ^ (nb + 1)" for g1'
  proof -
    have b': "num g1' tabb nb = bv"
      using frame_arr [OF fr, of tabb 0 nb] cells_apart [OF ap, of i "nb + 1" 0 nb] v(2) by (simp add: bv_def Int_commute)
    have neg: "X + bv < 0" using mval_bounds [of "arr g1' taba i (nb + 1)"] vv by simp
    have "\<exists>q' g'. addback_loop g1' taba i tabb nb (q - 1) = Some (q', g') \<and> frame (cells taba i (nb + 1)) g1' g' \<and>
        mval (arr g' taba i (nb + 1)) < num g1' tabb nb \<and>
        mval (arr g' taba i (nb + 1)) + uint q' * num g1' tabb nb = X + uint q * num g tabb nb"
      using less.hyps [of "X + bv" g1' "q - 1"] v ap bv neg vv X b' q0 frame_valid [OF fr]
      by (simp add: algebra_simps bv_def)
    then obtain q' g' where r: "addback_loop g1' taba i tabb nb (q - 1) = Some (q', g')" "frame (cells taba i (nb + 1)) g1' g'"
        "mval (arr g' taba i (nb + 1)) < bv" "mval (arr g' taba i (nb + 1)) + uint q' * bv = X + uint q * bv"
      unfolding b' bv_def by blast
    moreover have "frame (cells taba i (nb + 1)) g g'" using frame_trans [OF fr r(2)] by simp
    ultimately show ?thesis unfolding l [symmetric] bv_def by blast
  qed
  have v1: "valid g1 taba (i + nb + 1)" using v frame_valid [OF f1] by simp
  show ?case
  proof (cases "c = 0")
    case True
    then have "addback_loop g taba i tabb nb q = addback_loop g1 taba i tabb nb (q - 1)"
      using add(1) by (subst addback_loop.simps) simp
    moreover have "mval (arr g1 taba i (nb + 1)) = X + bv + B ^ (nb + 1)" using True low1 top1 val unfolding mval_top by simp
    ultimately show ?thesis using frame_mono [OF f1 cells_sub [of i i nb "nb + 1"]] by (intro fin) auto
  next
    case False
    then have "uint c \<noteq> 0" by (simp add: uint_0_iff)
    then have c1: "uint c = 1" using add(2) limb_bounds(1) [of c] by linarith
    obtain g2 where g2: "st g1 taba (i + nb) (top + 1) = Some g2" "frame (cells taba (i + nb) 1) g1 g2" "lim g2 taba (i + nb) = top + 1"
      using st_frame [OF v1, of "i + nb"] by auto
    have fr: "frame (cells taba i (nb + 1)) g g2"
      using frame_mono [OF frame_trans [OF f1 g2(2)]] cells_sub [of i i nb "nb + 1" taba] cells_sub [of i "i + nb" 1 "nb + 1" taba] by simp
    have low2: "mval (arr g2 taba i nb) = low + bv - B ^ nb"
      using frame_arr [OF g2(2) cells_other] valid_mono [OF v1, of "i + nb"] low1 c1 by simp
    have ld: "ld g1 taba (i + nb) = Some top" using ld_valid [OF v1, of "i + nb"] top1 by simp
    show ?thesis
    proof (cases "top + 1 = 0")
      case True
      then have l: "addback_loop g taba i tabb nb q = Some (q - 1, g2)"
        using add(1) False ld g2(1) by (subst addback_loop.simps) simp
      have "uint top = B - 1" using True by (rule limb_inc(1))
      then have "mval (arr g2 taba i (nb + 1)) = X + bv"
        using low2 g2(3) True val unfolding mval_top by (simp add: algebra_simps)
      moreover have "X + bv + uint (q - 1) * bv = X + uint q * bv" unfolding q0 by (simp add: algebra_simps)
      ultimately show ?thesis using l fr X(1) unfolding bv_def [symmetric]
        by (intro exI [of _ "q - 1"] exI [of _ g2]) simp
    next
      case nz: False
      then have "addback_loop g taba i tabb nb q = addback_loop g2 taba i tabb nb (q - 1)"
        using add(1) False ld g2(1) by (subst addback_loop.simps) simp
      moreover have "uint (top + 1) = uint top + 1" using nz by (rule limb_inc(2))
      then have "mval (arr g2 taba i (nb + 1)) = X + bv + B ^ (nb + 1)"
        using low2 g2(3) val unfolding mval_top by (simp add: algebra_simps)
      ultimately show ?thesis using fr by (intro fin) auto
    qed
  qed
qed

lemma digit_estimate_spec:
  assumes v: "valid g taba (i + nb + 1)" "valid g tabb nb" and nb: "0 < nb" and b1: "b1 = lim g tabb (nb - 1)" "B \<le> 2 * uint b1"
    and inv: "b1_inv = 0 \<or> b1_inv = udiv1norm_init b1"
    and U: "mval (arr g taba i (nb + 1)) < B * num g tabb nb"
  shows "\<exists>q. digit_estimate g taba i nb b1 b1_inv = Some q \<and> mval (arr g taba i (nb + 1)) < (uint q + 1) * num g tabb nb"
proof -
  define a1 a0 where "a1 = lim g taba (i + nb)" and "a0 = lim g taba (i + nb - 1)"
  obtain m where m: "nb = Suc m" using nb by (cases nb) auto
  have lds: "ld g taba (i + nb) = Some a1" "ld g taba (i + nb - 1) = Some a0"
    using v(1) ld_valid [of g taba "i + nb + 1"] by (simp_all add: a1_def a0_def)
  show ?thesis
  proof (cases "a1 \<ge> b1")
    case True
    moreover have "uint (- 1 :: limb) + 1 = B" by (simp add: unsigned_minus_1_eq_mask mask_eq_exp_minus_1)
    ultimately show ?thesis using lds U unfolding digit_estimate_def by (intro exI [of _ "- 1"]) simp
  next
    case False
    then have lt: "uint a1 < uint b1" by (simp add: word_less_def not_le)
    define N where "N = uint a1 * B + uint a0"
    define q where "q = (if b1_inv \<noteq> 0 then fst (udiv1norm a1 a0 b1 b1_inv) else ucast (dl a1 a0 div ucast b1))"
    have q: "N < (uint q + 1) * uint b1"
    proof (cases "b1_inv = 0")
      case True
      then have e: "uint q = N div uint b1" using dl_div(1) [OF lt, of a0] by (simp add: q_def N_def)
      have "0 < uint b1" using b1(2) by simp
      from pos_mod_bound [OF this, of N] mult_div_mod_eq [of "uint b1" N]
      have "N < uint b1 * (N div uint b1) + uint b1" by linarith
      then show ?thesis unfolding e by (simp add: distrib_left mult.commute)
    next
      case False
      then have "udiv1norm a1 a0 b1 (udiv1norm_init b1) = (q, snd (udiv1norm a1 a0 b1 (udiv1norm_init b1)))"
        using inv by (simp add: q_def)
      from udiv1norm_spec [OF b1(2) lt this] show ?thesis by (simp add: N_def algebra_simps)
    qed
    have "arr g taba i (nb + 1) = arr g taba i m @ arr g taba (i + m) 2" using arr_append [of g taba i m 2] m by simp
    moreover have "mval (arr g taba (i + m) 2) = N" using m by (simp add: N_def a1_def a0_def arr_Suc eval_nat_numeral)
    ultimately have "mval (arr g taba i (nb + 1)) = mval (arr g taba i m) + B ^ m * N" by (simp add: mval_append)
    also have "\<dots> < B ^ m * (N + 1)" using mval_bounds [of "arr g taba i m"] by (simp add: distrib_left)
    also have "\<dots> \<le> B ^ m * ((uint q + 1) * uint b1)" using q by (intro mult_left_mono) auto
    also have "\<dots> \<le> (uint q + 1) * (num g tabb m + B ^ m * uint b1)"
      using mval_bounds [of "arr g tabb 0 m"] limb_bounds [of q] by (simp add: algebra_simps)
    also have "\<dots> = (uint q + 1) * num g tabb nb" using mval_top [of g tabb 0 m] m b1(1) by simp
    finally show ?thesis using lds False unfolding digit_estimate_def q_def [symmetric] by (intro exI [of _ q]) (simp add: q_def)
  qed
qed

section \<open>The quotient\<close>

lemma divnorm_loop_spec:
  assumes "valid g tabq (n + 1)" "valid g taba (n + nb)" "valid g tabb nb" "0 < nb" "i \<le> n"
    and "apart taba (n + nb) tabb nb" "apart tabq (n + 1) tabb nb" "apart tabq (n + 1) taba (n + nb)"
    and "b1 = lim g tabb (nb - 1)" "B \<le> 2 * uint b1" "b1_inv = 0 \<or> b1_inv = udiv1norm_init b1"
    and "mval (arr g taba i nb) < num g tabb nb"
  shows "\<exists>g'. divnorm_loop g tabq taba tabb nb b1 b1_inv i = Some g' \<and> frame (cells taba 0 (i + nb) \<union> cells tabq 0 i) g g' \<and>
    num g taba (i + nb) = num g' tabq i * num g tabb nb + num g' taba nb \<and> num g' taba nb < num g tabb nb"
  using assms
proof (induction i arbitrary: g)
  case 0
  then show ?case by (simp add: frame_refl)
next
  case (Suc i)
  define bv U where "bv = num g tabb nb" and "U = mval (arr g taba i (nb + 1))"
  note v = Suc.prems(1-3) and ap = Suc.prems(6-8) and b1 = Suc.prems(9,10)
  have i: "i < n" using Suc.prems(5) by simp
  have v1: "valid g taba (i + nb + 1)" using valid_mono [OF v(2)] i by simp
  have ap1: "apart taba (i + nb + 1) tabb nb" using ap(1) i by (auto simp: apart_def)
  have bv0: "0 \<le> bv" using mval_bounds by (simp add: bv_def)
  have U: "U < B * bv"
  proof -
    have "U = uint (lim g taba i) + B * mval (arr g taba (i + 1) nb)" by (simp add: U_def arr_Suc)
    moreover have "B * (mval (arr g taba (i + 1) nb) + 1) \<le> B * bv" using Suc.prems(12) by (simp add: bv_def)
    ultimately show ?thesis using limb_bounds [of "lim g taba i"] by simp
  qed
  from digit_estimate_spec [OF v1 v(3) Suc.prems(4) b1 Suc.prems(11)] U obtain q where
    q: "digit_estimate g taba i nb b1 b1_inv = Some q" "U < (uint q + 1) * bv" by (auto simp: U_def bv_def)
  have va: "valid g (p_add taba i) nb" "fwd_ok (p_add taba i) tabb nb"
    using v1 v(3) ap1 by (auto simp: valid_p_add valid_def apart_def fwd_ok_def p_add_def)
  from mp_sub_mul1_spec [OF va(1) v(3) va(2), of q] obtain r g1 where
    sm: "mp_sub_mul1 g (p_add taba i) tabb nb q = Some (r, g1)"
      "wrote g (p_add taba i) nb (mval (arr g taba i nb) - bv * uint q + B ^ nb * uint r) g1" by (auto simp: arr_p_add bv_def)
  from wrote_frame [OF sm(2) va(1)] have g1: "mval (arr g1 taba i nb) = mval (arr g taba i nb) - bv * uint q + B ^ nb * uint r"
    "frame (cells taba i nb) g g1" by (simp_all add: arr_p_add cells_p_add)
  define w where "w = lim g taba (i + nb)"
  have w1: "lim g1 taba (i + nb) = w" using lim_frame [OF g1(2) cells_other v1] by (simp add: w_def)
  have vg1: "valid g1 taba (i + nb + 1)" using v1 frame_valid [OF g1(2)] by simp
  then have ldw: "ld g1 taba (i + nb) = Some w" using ld_valid [OF vg1, of "i + nb"] w1 by simp
  obtain g2 where g2: "st g1 taba (i + nb) (w - r) = Some g2" "frame (cells taba (i + nb) 1) g1 g2" "lim g2 taba (i + nb) = w - r"
    using st_frame [OF vg1, of "i + nb" "w - r"] by auto
  have f2: "frame (cells taba i (nb + 1)) g g2"
    using frame_mono [OF frame_trans [OF g1(2) g2(2)]] cells_sub [of i i nb "nb + 1" taba] cells_sub [of i "i + nb" 1 "nb + 1" taba] by simp
  have low2: "mval (arr g2 taba i nb) = mval (arr g1 taba i nb)"
    using frame_arr [OF g2(2) cells_other] valid_mono [OF vg1, of "i + nb"] by simp
  define X where "X = U - uint q * bv"
  have val2: "mval (arr g2 taba i (nb + 1)) = X + B ^ (nb + 1) * of_bool (w < w - r)"
    using arg_cong [OF sub1_step [of w r], of "\<lambda>x. B ^ nb * x"] unfolding mval_top low2 g1(1) g2(3) X_def U_def w_def [symmetric] by (simp add: algebra_simps)
  have vg2: "valid g2 taba (i + nb + 1)" "valid g2 tabb nb" "valid g2 tabq (n + 1)" using v v1 frame_valid [OF f2] by simp_all
  have b2: "arr g2 tabb 0 nb = arr g tabb 0 nb"
    using frame_arr [OF f2, of tabb 0 nb] cells_apart [OF ap1, of i "nb + 1" 0 nb] v(3) by (simp add: Int_commute)
  have U0: "0 \<le> U" using mval_bounds by (simp add: U_def)
  have bpos: "0 < bv" using U U0 by simp
  have "\<exists>q' g3. (if w - r > w then addback_loop g2 taba i tabb nb q else Some (q, g2)) = Some (q', g3) \<and>
      frame (cells taba i (nb + 1)) g g3 \<and> mval (arr g3 taba i (nb + 1)) < bv \<and> mval (arr g3 taba i (nb + 1)) + uint q' * bv = U"
  proof (cases "w - r > w")
    case True
    then have "mval (arr g2 taba i (nb + 1)) = X + B ^ (nb + 1)" using val2 by simp
    moreover from this have "X < 0" using mval_bounds [of "arr g2 taba i (nb + 1)"] by simp
    ultimately obtain q' g3 where "addback_loop g2 taba i tabb nb q = Some (q', g3)" "frame (cells taba i (nb + 1)) g2 g3"
        "mval (arr g3 taba i (nb + 1)) < bv" "mval (arr g3 taba i (nb + 1)) + uint q' * bv = X + uint q * bv"
      using addback_spec [OF vg2(1,2) ap1, of X q] bpos U0 b2 by (auto simp: bv_def X_def)
    with True frame_trans [OF f2 this(2)] show ?thesis by (simp add: X_def)
  next
    case False
    then have "mval (arr g2 taba i (nb + 1)) = X" using val2 by simp
    moreover have "X < bv" using q(2) by (simp add: X_def algebra_simps)
    ultimately show ?thesis using False f2 by (simp add: X_def)
  qed
  then obtain q' g3 where g3: "(if w - r > w then addback_loop g2 taba i tabb nb q else Some (q, g2)) = Some (q', g3)"
      "frame (cells taba i (nb + 1)) g g3" "mval (arr g3 taba i (nb + 1)) < bv" "mval (arr g3 taba i (nb + 1)) + uint q' * bv = U" by blast
  obtain g4 where g4: "st g3 tabq i q' = Some g4" "frame (cells tabq i 1) g3 g4" "lim g4 tabq i = q'"
    using st_frame [of g3 tabq "n + 1" i q'] v(1) frame_valid [OF g3(2)] i by auto
  note f4 = frame_trans [OF g3(2) g4(2)]
  have vg4: "valid g4 p k \<longleftrightarrow> valid g p k" for p k using frame_valid [OF f4] .
  have qa: "cells taba j k \<inter> cells tabq j' k' = {}" if "j + k \<le> n + nb" "j' + k' \<le> n + 1" for j k j' k'
    using cells_apart [OF ap(3) that(2,1)] by (simp add: Int_commute)
  have b4: "arr g4 tabb 0 nb = arr g tabb 0 nb"
    using frame_arr [OF f4, of tabb 0 nb] cells_apart [OF ap1, of i "nb + 1" 0 nb] cells_apart [OF ap(2), of i 1 0 nb] v(3) i
    by (simp add: Int_commute Int_Un_distrib)
  then have b4': "lim g4 tabb (nb - 1) = b1"
    using b1(1) Suc.prems(4) by (simp add: arr_def list_eq_iff_nth_eq)
  have a4: "arr g4 taba i (nb + 1) = arr g3 taba i (nb + 1)"
    using frame_arr [OF g4(2), of taba i "nb + 1"] qa [of i "nb + 1" i 1] i v1 frame_valid [OF g3(2)] by simp
  have low4: "arr g4 taba 0 i = arr g taba 0 i"
    using frame_arr [OF f4, of taba 0 i] qa [of 0 i i 1] cells_other [of 0 i i "nb + 1" taba] i valid_mono [OF v(2), of i]
    by (simp add: Int_Un_distrib)
  have top4: "mval (arr g4 taba i nb) = mval (arr g3 taba i (nb + 1))"
  proof -
    have "mval (arr g3 taba i (nb + 1)) = mval (arr g4 taba i nb) + B ^ nb * uint (lim g4 taba (i + nb))"
      unfolding a4 [symmetric] by (rule mval_top)
    moreover have "bv < B ^ nb" using mval_bounds [of "arr g tabb 0 nb"] by (simp add: bv_def)
    ultimately have "B ^ nb * uint (lim g4 taba (i + nb)) < B ^ nb * 1" using g3(3) mval_bounds [of "arr g4 taba i nb"] by linarith
    then have "uint (lim g4 taba (i + nb)) < 1" by (simp only: mult_less_cancel_left_pos zero_less_power zero_less_numeral)
    then have "uint (lim g4 taba (i + nb)) = 0" using limb_bounds(1) [of "lim g4 taba (i + nb)"] by linarith
    then show ?thesis using \<open>mval (arr g3 taba i (nb + 1)) = _\<close> by simp
  qed
  from Suc.IH [of g4] Suc.prems i vg4 b4 b4' g3(3) top4 obtain g' where
    g': "divnorm_loop g4 tabq taba tabb nb b1 b1_inv i = Some g'" "frame (cells taba 0 (i + nb) \<union> cells tabq 0 i) g4 g'"
      "num g4 taba (i + nb) = num g' tabq i * bv + num g' taba nb" "num g' taba nb < bv" by (auto simp: bv_def)
  have "frame (cells taba 0 (Suc i + nb) \<union> cells tabq 0 (Suc i)) g g'"
    by (rule frame_mono [OF frame_trans [OF f4 g'(2)]])
      (use cells_sub [of 0 i "nb + 1" "Suc i + nb" taba] cells_sub [of 0 i 1 "Suc i" tabq] cells_sub [of 0 0 "i + nb" "Suc i + nb" taba]
         cells_sub [of 0 0 i "Suc i" tabq] in \<open>simp, blast\<close>)
  moreover have "lim g' tabq i = q'"
    using lim_frame [OF g'(2), of tabq i "n + 1"] g4(3) v(1) vg4 i qa [of 0 "i + nb" i 1] cells_other [of i 1 0 i tabq]
    by (auto simp: Int_Un_distrib Int_commute)
  then have "num g' tabq (Suc i) = num g' tabq i + B ^ i * uint q'" using mval_top [of g' tabq 0 i] by simp
  moreover have "num g taba (Suc i + nb) = num g taba i + B ^ i * U"
    using arr_append [of g taba 0 i "nb + 1"] by (simp add: mval_append U_def add.commute)
  moreover have "num g4 taba (i + nb) = num g taba i + B ^ i * (U - uint q' * bv)"
    using arr_append [of g4 taba 0 i nb] low4 top4 g3(4) by (simp add: mval_append)
  ultimately have "num g taba (Suc i + nb) = num g' tabq (Suc i) * bv + num g' taba nb"
    using g'(3) by (simp add: algebra_simps)
  with \<open>frame _ g g'\<close> g'(1,4) q(1) sm(1) ldw g2(1) g3(1) g4(1) show ?case by (simp add: bv_def Let_def)
qed

lemma divided:
  fixes a b q r :: int
  assumes "a = q * b + r" "0 \<le> r" "r < b"
  shows "q = a div b" "r = a mod b"
  using assms by (simp_all add: int_div_pos_eq [of a b q r] int_mod_pos_eq [of a b q r] mult.commute)

lemma first_step:
  assumes v: "valid h tabq (n + 1)" "valid h taba (n + nb)" "valid h tabb nb" and nb: "0 < nb" "nb \<le> INT_MAX"
    and ap: "apart taba (n + nb) tabb nb" "apart tabq (n + 1) tabb nb" "apart tabq (n + 1) taba (n + nb)"
    and b1: "B \<le> 2 * uint (lim h tabb (nb - 1))"
  shows "\<exists>q h1 h2. first_digit h (p_add taba n) tabb nb = Some q \<and> st h tabq n q = Some h1 \<and>
    (if q \<noteq> 0 then map_option snd (mp_sub h1 (p_add taba n) (p_add taba n) tabb nb 0) else Some h1) = Some h2 \<and>
    frame (cells taba n nb \<union> cells tabq n 1) h h2 \<and> lim h2 tabq n = q \<and>
    mval (arr h2 taba n nb) = mval (arr h taba n nb) - uint q * num h tabb nb \<and> mval (arr h2 taba n nb) < num h tabb nb"
proof -
  define bv A where "bv = num h tabb nb" and "A = mval (arr h taba n nb)"
  define q :: limb where "q = (if A < bv then 0 else 1)"
  have va: "valid h (p_add taba n) nb" using v(2) by (simp add: valid_p_add)
  have fd: "first_digit h (p_add taba n) tabb nb = Some q"
    using mp_cmp_spec [OF va v(3)] by (simp add: first_digit_cmp q_def A_def bv_def arr_p_add sgn_if)
  obtain h1 where h1: "st h tabq n q = Some h1" "frame (cells tabq n 1) h h1" "lim h1 tabq n = q"
    using st_frame [OF v(1), of n q] by auto
  have a1: "arr h1 taba n nb = arr h taba n nb"
    using frame_arr [OF h1(2), of taba n nb] cells_apart [OF ap(3), of n 1 n nb] v(2) by (simp add: Int_commute)
  have b: "arr h1 tabb 0 nb = arr h tabb 0 nb"
    using frame_arr [OF h1(2), of tabb 0 nb] cells_apart [OF ap(2), of n 1 0 nb] v(3) by (simp add: Int_commute)
  obtain m where m: "nb = Suc m" using nb by (cases nb) auto
  have "B ^ m * B \<le> B ^ m * (2 * uint (lim h tabb m))" using b1 m by (intro mult_left_mono) simp_all
  moreover have "bv = num h tabb m + B ^ m * uint (lim h tabb m)" using mval_top [of h tabb 0 m] m by (simp add: bv_def)
  ultimately have "B ^ m * B \<le> 2 * bv" using mval_bounds [of "arr h tabb 0 m"] by linarith
  then have big: "B ^ nb \<le> 2 * bv" using m by (simp add: mult.commute)
  have A: "0 \<le> A" "A < B ^ nb" using mval_bounds [of "arr h taba n nb"] by (simp_all add: A_def)
  show ?thesis
  proof (cases "A < bv")
    case True
    then have q0: "q = 0" by (simp add: q_def)
    have "frame (cells taba n nb \<union> cells tabq n 1) h h1" using h1(2) by (rule frame_mono) simp
    with True q0 fd h1 a1 show ?thesis by (intro exI [of _ q] exI [of _ h1]) (simp add: A_def [symmetric] bv_def [symmetric])
  next
    case False
    then have q1: "q = 1" by (simp add: q_def)
    have vs: "valid h1 (p_add taba n) nb" "valid h1 tabb nb" "fwd_ok (p_add taba n) tabb nb"
      using va v(3) ap(1) frame_valid [OF h1(2)] by (auto simp: apart_def fwd_ok_def p_add_def)
    from mp_sub_spec [OF vs(1) vs(1,2) _ vs(3) _ nb(2), of 0] obtain k h2 where
      sb: "mp_sub h1 (p_add taba n) (p_add taba n) tabb nb 0 = Some (k, h2)" "uint k \<le> 1"
        "wrote h1 (p_add taba n) nb (A - bv + B ^ nb * uint k) h2" by (auto simp: arr_p_add a1 b A_def bv_def)
    from wrote_frame [OF sb(3) vs(1)] have w: "mval (arr h2 taba n nb) = A - bv + B ^ nb * uint k" "frame (cells taba n nb) h1 h2"
      by (simp_all add: arr_p_add cells_p_add)
    have "B ^ nb * uint k < B ^ nb * 1" using w(1) mval_bounds [of "arr h2 taba n nb"] False by (simp only: length_arr) linarith
    then have "uint k < 1" by (simp only: mult_less_cancel_left_pos zero_less_power zero_less_numeral)
    then have "uint k = 0" using limb_bounds(1) [of k] by linarith
    then have r: "mval (arr h2 taba n nb) = A - bv" using w(1) by simp
    have "lim h2 tabq n = q"
      using lim_frame [OF w(2), of tabq n "n + 1"] cells_apart [OF ap(3), of n 1 n nb] v(1) h1(3) frame_valid [OF h1(2)] by simp
    moreover have "frame (cells taba n nb \<union> cells tabq n 1) h h2" using frame_trans [OF h1(2) w(2)] by (simp add: Un_commute)
    ultimately show ?thesis using q1 fd h1(1) sb(1) r A big False
      by (intro exI [of _ q] exI [of _ h1] exI [of _ h2]) (simp add: A_def [symmetric] bv_def [symmetric])
  qed
qed

lemma divnorm_spec:
  assumes v: "valid h tabq (na - nb + 1)" "valid h taba na" "valid h tabb nb" and nb: "0 < nb" "nb \<le> na" "nb \<le> INT_MAX"
    and ap: "apart taba na tabb nb" "apart tabq (na - nb + 1) tabb nb" "apart tabq (na - nb + 1) taba na"
    and b1: "B \<le> 2 * uint (lim h tabb (nb - 1))" and small: "min (na - nb) nb < DIVNORM_LARGE_THRESHOLD"
  shows "\<exists>h'. mp_divnorm large h tabq taba na tabb nb = Some (0, h') \<and>
    frame (cells taba 0 na \<union> cells tabq 0 (na - nb + 1)) h h' \<and>
    num h taba na = num h' tabq (na - nb + 1) * num h tabb nb + num h' taba nb \<and> num h' taba nb < num h tabb nb"
proof (cases "nb = 1")
  case True
  let ?b = "lim h tabb 0"
  have ldb: "ld h tabb 0 = Some ?b" using ld_valid [OF v(3), of 0] True by simp
  have v1: "valid h tabq na" "bwd_ok tabq taba na" and b: "B \<le> 2 * uint ?b" "uint (0 :: limb) < uint ?b"
    using v(1) nb True ap(3) b1 by (auto simp: apart_def bwd_ok_def)
  from mp_div1norm_spec [OF v1(1) v(2) v1(2) b] obtain r h1 q where
    d: "mp_div1norm h tabq taba na ?b 0 = Some (r, h1)" "wrote h tabq na q h1" "num h taba na = uint ?b * q + uint r" "uint r < uint ?b" by auto
  note w = wrote_frame [OF d(2) v1(1)]
  obtain h2 where h2: "st h1 taba 0 r = Some h2" "frame (cells taba 0 1) h1 h2" "lim h2 taba 0 = r"
    using st_frame [of h1 taba na 0 r] v(2) frame_valid [OF w(2)] nb by auto
  have "arr h2 tabq 0 na = arr h1 tabq 0 na"
    using frame_arr [OF h2(2), of tabq 0 na] cells_apart [OF ap(3), of 0 na 0 1] v1(1) frame_valid [OF w(2)] True nb by simp
  then have "num h2 tabq na = q" using w(1) by simp
  moreover have "frame (cells taba 0 na \<union> cells tabq 0 na) h h2"
    using frame_mono [OF frame_trans [OF w(2) h2(2)], of "cells taba 0 na \<union> cells tabq 0 na"] cells_sub [of 0 0 1 na taba] nb by auto
  ultimately show ?thesis using ldb d(1,3,4) h2(1,3) True nb unfolding mp_divnorm_def
    by (auto simp: arr_Suc mult.commute)
next
  case False
  define n where "n = na - nb"
  have na: "na = n + nb" using nb by (simp add: n_def)
  let ?b = "lim h tabb (nb - 1)"
  define inv where "inv = (if n \<ge> UDIV1NORM_THRESHOLD then udiv1norm_init ?b else 0)"
  have ldb: "ld h tabb (nb - 1) = Some ?b" using ld_valid [OF v(3), of "nb - 1"] nb by simp
  have v': "valid h tabq (n + 1)" "valid h taba (n + nb)" "valid h tabb nb" using v na by simp_all
  have ap': "apart taba (n + nb) tabb nb" "apart tabq (n + 1) tabb nb" "apart tabq (n + 1) taba (n + nb)" using ap na by simp_all
  from first_step [OF v'(1,2,3) nb(1,3) ap' b1] obtain q h1 h2 where
    f: "first_digit h (p_add taba n) tabb nb = Some q" "st h tabq n q = Some h1"
      "(if q \<noteq> 0 then map_option snd (mp_sub h1 (p_add taba n) (p_add taba n) tabb nb 0) else Some h1) = Some h2"
      "frame (cells taba n nb \<union> cells tabq n 1) h h2" "lim h2 tabq n = q"
      "mval (arr h2 taba n nb) = mval (arr h taba n nb) - uint q * num h tabb nb" "mval (arr h2 taba n nb) < num h tabb nb" by blast
  have b2: "arr h2 tabb 0 nb = arr h tabb 0 nb"
    using frame_arr [OF f(4), of tabb 0 nb] cells_apart [OF ap'(1), of n nb 0 nb] cells_apart [OF ap'(2), of n 1 0 nb] v(3)
    by (simp add: Int_commute Int_Un_distrib)
  then have b2': "lim h2 tabb (nb - 1) = ?b" using nb(1) by (simp add: arr_def list_eq_iff_nth_eq)
  have low: "arr h2 taba 0 n = arr h taba 0 n"
    using frame_arr [OF f(4), of taba 0 n] cells_other [of 0 n n nb taba] cells_apart [OF ap'(3), of n 1 0 n] valid_mono [OF v'(2), of n]
    by (simp add: Int_commute Int_Un_distrib)
  have "inv = 0 \<or> inv = udiv1norm_init ?b" by (simp add: inv_def)
  with divnorm_loop_spec [of h2 tabq n taba nb tabb n ?b inv] v' nb(1) ap' b1 b2 b2' f(7) frame_valid [OF f(4)]
  obtain h3 where l: "divnorm_loop h2 tabq taba tabb nb ?b inv n = Some h3" "frame (cells taba 0 (n + nb) \<union> cells tabq 0 n) h2 h3"
      "num h2 taba (n + nb) = num h3 tabq n * num h tabb nb + num h3 taba nb" "num h3 taba nb < num h tabb nb" by auto
  have "frame (cells taba 0 na \<union> cells tabq 0 (n + 1)) h h3"
    by (rule frame_mono [OF frame_trans [OF f(4) l(2)]])
      (use cells_sub [of 0 n nb na taba] cells_sub [of 0 n 1 "n + 1" tabq] cells_sub [of 0 0 n "n + 1" tabq] na in \<open>simp, blast\<close>)
  moreover have "lim h3 tabq n = q"
    using lim_frame [OF l(2), of tabq n "n + 1"] f(5) v'(1) frame_valid [OF f(4)] cells_apart [OF ap'(3), of n 1 0 "n + nb"] cells_other [of n 1 0 n tabq]
    by (simp add: Int_Un_distrib)
  then have "num h3 tabq (n + 1) = num h3 tabq n + B ^ n * uint q" using mval_top [of h3 tabq 0 n] by simp
  moreover have "num h taba (n + nb) = num h taba n + B ^ n * mval (arr h taba n nb)"
    "num h2 taba (n + nb) = num h taba n + B ^ n * (mval (arr h taba n nb) - uint q * num h tabb nb)"
    using arr_append [of h taba 0 n nb] arr_append [of h2 taba 0 n nb] low f(6) by (simp_all add: mval_append)
  ultimately have "num h taba na = num h3 tabq (n + 1) * num h tabb nb + num h3 taba nb" using l(3) na by (simp add: algebra_simps)
  moreover have "mp_divnorm large h tabq taba na tabb nb = Some (0, h3)"
  proof -
    have "(DIVNORM_LARGE_THRESHOLD \<le> min n nb) = False" "(nb = 0) = False" "(nb = 1) = False"
      using small False nb(1) unfolding n_def by auto
    then show ?thesis unfolding mp_divnorm_def Let_def n_def [symmetric]
      by (simp only: ldb f(1-3) l(1) bind.simps if_False inv_def [symmetric])
  qed
  ultimately show ?thesis using \<open>frame _ h h3\<close> l(4) unfolding n_def by blast
qed

section \<open>Properties\<close>

text \<open>
  C14. Division of big numbers. For a normalized divisor and operands below the threshold of the subquadratic algorithm, in arrays that do
  not overlap, the schoolbook division returns 0 and leaves in \<open>tabq\<close> the quotient and in the first \<open>nb\<close> limbs of \<open>taba\<close> the
  remainder of the numbers the arrays held; no other cell changes. In particular the correction of every digit ends.
\<close>

theorem mp_divnorm_correct:
  assumes "valid h tabq (na - nb + 1)" and "valid h taba na" and "valid h tabb nb" and "0 < nb" and "nb \<le> na" and "nb \<le> INT_MAX"
    and "apart taba na tabb nb" and "apart tabq (na - nb + 1) tabb nb" and "apart tabq (na - nb + 1) taba na"
    and "2 ^ 64 \<le> 2 * uint (lim h tabb (nb - 1))" and "min (na - nb) nb < DIVNORM_LARGE_THRESHOLD"
  shows "\<exists>h'. mp_divnorm mp_divnorm_large h tabq taba na tabb nb = Some (0, h') \<and>
    num h' tabq (na - nb + 1) = num h taba na div num h tabb nb \<and>
    num h' taba nb = num h taba na mod num h tabb nb \<and>
    frame (cells taba 0 na \<union> cells tabq 0 (na - nb + 1)) h h'"
proof -
  have "B \<le> 2 * uint (lim h tabb (nb - 1))" using assms(10) by simp
  from divnorm_spec [OF assms(1-9) this assms(11), of mp_divnorm_large] obtain h' where
    d: "mp_divnorm mp_divnorm_large h tabq taba na tabb nb = Some (0, h')"
      "frame (cells taba 0 na \<union> cells tabq 0 (na - nb + 1)) h h'"
      "num h taba na = num h' tabq (na - nb + 1) * num h tabb nb + num h' taba nb" "num h' taba nb < num h tabb nb" by blast
  have "0 \<le> num h' taba nb" using mval_bounds by blast
  from divided [OF d(3) this d(4)] d(1,2) show ?thesis by blast
qed

text \<open>Three limbs by two: the quotient has the digits 5 and 1.\<close>

theorem mp_divnorm_correct_witness:
  "\<exists>h'. mp_divnorm (\<lambda>_ _ _ _ _ _. None) ((\<lambda>_. [])(0 := [7, 3, 0x8000000000000001], 1 := [9, 0x8000000000000000], 2 := [0, 0])) (2, 0) (0, 0) 3 (1, 0) 2 =
     Some (0, h') \<and>
   num h' (2, 0) 2 = mval [7, 3, 0x8000000000000001] div mval [9, 0x8000000000000000] \<and>
   num h' (0, 0) 2 = mval [7, 3, 0x8000000000000001] mod mval [9, 0x8000000000000000]"
proof -
  let ?h = "(\<lambda>_. [])(0 := [7, 3, 0x8000000000000001], 1 := [9, 0x8000000000000000], 2 := [0, 0]) :: heap"
  have n: "arr ?h (0, 0) 0 3 = [7, 3, 0x8000000000000001]" "arr ?h (1, 0) 0 2 = [9, 0x8000000000000000]"
    by (simp_all add: arr_def lim_def upt_rec)
  have "\<exists>h'. mp_divnorm (\<lambda>_ _ _ _ _ _. None) ?h (2, 0) (0, 0) 3 (1, 0) 2 = Some (0, h') \<and>
      num h' (2, 0) (3 - 2 + 1) = num ?h (0, 0) 3 div num ?h (1, 0) 2 \<and> num h' (0, 0) 2 = num ?h (0, 0) 3 mod num ?h (1, 0) 2 \<and>
      frame (cells (0, 0) 0 3 \<union> cells (2, 0) 0 (3 - 2 + 1)) ?h h'"
    by (rule mp_divnorm_correct) (simp_all add: valid_def apart_def INT_MAX_def lim_def DIVNORM_LARGE_THRESHOLD_def)
  moreover have "3 - 2 + 1 = (2 :: nat)" by simp
  ultimately show ?thesis unfolding n by (simp only:) blast
qed

text \<open>
  C15. Division of two limbs by a normalized limb with a multiplication by the precomputed inverse is exact: the result is the quotient and
  the remainder, whatever the operands, as long as the quotient fits.
\<close>

theorem udiv1norm_exact:
  assumes "2 ^ 63 \<le> uint d" and "uint a1 < uint d"
  shows "map_prod uint uint (udiv1norm a1 a0 d (udiv1norm_init d)) =
    ((uint a1 * 2 ^ 64 + uint a0) div uint d, (uint a1 * 2 ^ 64 + uint a0) mod uint d)"
proof -
  obtain q r where r: "udiv1norm a1 a0 d (udiv1norm_init d) = (q, r)" by fastforce
  have d: "B \<le> 2 * uint d" using assms(1) by simp
  from udiv1norm_spec [OF d assms(2) r] have "uint a1 * B + uint a0 = uint q * uint d + uint r" "uint r < uint d"
    by (simp_all add: mult.commute)
  from divided [OF this(1) limb_bounds(1) this(2)] r show ?thesis by simp
qed

theorem udiv1norm_exact_witness:
  "map_prod uint uint (udiv1norm 5 7 0x8000000000000003 (udiv1norm_init 0x8000000000000003)) =
    ((5 * 2 ^ 64 + 7) div 0x8000000000000003, (5 * 2 ^ 64 + 7) mod 0x8000000000000003)"
  using udiv1norm_exact [of "0x8000000000000003" 5 7] by simp

end
