(* ===== verification/LinkedList.thy ===== *)
theory LinkedList
  imports Prelude
begin

text \<open>
  The circular doubly linked lists of \<^verbatim>\<open>list.h\<close>, at the level of their pointers: a node has a \<open>prev\<close> and a \<open>next\<close> field, \<open>None\<close> when it is \<open>NULL\<close>,
  and following \<open>NULL\<close> is \<open>None\<close>. \<open>dll\<close> says which sequence a head stands for; the operations refine those on sequences.
\<close>

section \<open>Operations\<close>

record 'n links =
  prev_of :: "'n \<Rightarrow> 'n option"
  next_of :: "'n \<Rightarrow> 'n option"

definition init_list_head :: "'n \<Rightarrow> 'n links \<Rightarrow> 'n links" where
  "init_list_head head l = l\<lparr>prev_of := (prev_of l)(head := Some head), next_of := (next_of l)(head := Some head)\<rparr>"

definition list_add_between :: "'n \<Rightarrow> 'n \<Rightarrow> 'n \<Rightarrow> 'n links \<Rightarrow> 'n links" where
  "list_add_between el prev nxt l =
     (let l = l\<lparr>next_of := (next_of l)(prev := Some el)\<rparr>;
          l = l\<lparr>prev_of := (prev_of l)(el := Some prev)\<rparr>;
          l = l\<lparr>next_of := (next_of l)(el := Some nxt)\<rparr>
      in l\<lparr>prev_of := (prev_of l)(nxt := Some el)\<rparr>)"

definition list_add :: "'n \<Rightarrow> 'n \<Rightarrow> 'n links \<Rightarrow> 'n links option" where
  "list_add el head l = do {
     n \<leftarrow> next_of l head;
     Some (list_add_between el head n l) }"

definition list_add_tail :: "'n \<Rightarrow> 'n \<Rightarrow> 'n links \<Rightarrow> 'n links option" where
  "list_add_tail el head l = do {
     p \<leftarrow> prev_of l head;
     Some (list_add_between el p head l) }"

definition list_del :: "'n \<Rightarrow> 'n links \<Rightarrow> 'n links option" where
  "list_del el l = do {
     prev \<leftarrow> prev_of l el;
     nxt \<leftarrow> next_of l el;
     let l = l\<lparr>next_of := (next_of l)(prev := Some nxt)\<rparr>;
     let l = l\<lparr>prev_of := (prev_of l)(nxt := Some prev)\<rparr>;
     let l = l\<lparr>prev_of := (prev_of l)(el := None)\<rparr>;
     Some (l\<lparr>next_of := (next_of l)(el := None)\<rparr>) }"

definition list_empty :: "'n \<Rightarrow> 'n links \<Rightarrow> bool" where
  "list_empty el l \<longleftrightarrow> next_of l el = Some el"

section \<open>The sequence of a list\<close>

fun linked :: "'n links \<Rightarrow> 'n \<Rightarrow> 'n list \<Rightarrow> 'n \<Rightarrow> bool" where
  "linked l a [] b \<longleftrightarrow> next_of l a = Some b \<and> prev_of l b = Some a"
| "linked l a (x # xs) b \<longleftrightarrow> next_of l a = Some x \<and> prev_of l x = Some a \<and> linked l x xs b"

definition dll :: "'n links \<Rightarrow> 'n \<Rightarrow> 'n list \<Rightarrow> bool" where
  "dll l h xs \<longleftrightarrow> distinct (h # xs) \<and> linked l h xs h"

lemma linked_append: "linked l a (xs @ x # ys) b \<longleftrightarrow> linked l a xs x \<and> linked l x ys b"
  by (induction xs arbitrary: a) auto

lemma linked_cong:
  assumes "\<And>y. y \<in> set (a # xs) \<Longrightarrow> next_of l' y = next_of l y" "\<And>y. y \<in> set (xs @ [b]) \<Longrightarrow> prev_of l' y = prev_of l y"
  shows "linked l' a xs b \<longleftrightarrow> linked l a xs b"
  using assms by (induction xs arbitrary: a) auto

lemma linked_ends: "linked l a xs b \<Longrightarrow> next_of l a = Some (hd (xs @ [b])) \<and> prev_of l b = Some (last (a # xs))"
proof (induction xs arbitrary: a)
  case (Cons x xs)
  then show ?case using Cons.IH [of x] by auto
qed simp

lemma dll_next: "dll l h (xs @ x # ys) \<Longrightarrow> next_of l x = Some (hd (ys @ [h]))"
  by (auto simp: dll_def linked_append dest: linked_ends)

lemma dll_first: "dll l h xs \<Longrightarrow> next_of l h = Some (hd (xs @ [h]))"
  by (auto simp: dll_def dest: linked_ends)

lemma dll_init: "dll (init_list_head h l) h []"
  by (simp add: dll_def init_list_head_def)

lemma dll_empty: "dll l h xs \<Longrightarrow> list_empty h l \<longleftrightarrow> xs = []"
  by (cases xs) (auto simp: dll_def list_empty_def)

lemma dll_init_other: "dll l k ys \<Longrightarrow> h \<notin> set (k # ys) \<Longrightarrow> dll (init_list_head h l) k ys"
proof -
  assume "dll l k ys" "h \<notin> set (k # ys)"
  moreover from this(2) have "linked (init_list_head h l) k ys k \<longleftrightarrow> linked l k ys k"
    by (intro linked_cong) (auto simp: init_list_head_def)
  ultimately show ?thesis by (simp add: dll_def)
qed

lemma dll_del:
  assumes d: "dll l h (xs @ x # ys)"
  shows "\<exists>l'. list_del x l = Some l' \<and> dll l' h (xs @ ys) \<and> next_of l' x = None \<and> prev_of l' x = None \<and>
    (\<forall>k zs. dll l k zs \<longrightarrow> set (k # zs) \<inter> set (h # xs @ x # ys) = {} \<longrightarrow> dll l' k zs)"
proof -
  have dist: "distinct (h # xs @ x # ys)" and l1: "linked l h xs x" and l2: "linked l x ys h"
    using d by (auto simp: dll_def linked_append)
  define p n where "p = last (h # xs)" and "n = hd (ys @ [h])"
  have pn: "prev_of l x = Some p" "next_of l x = Some n" using linked_ends [OF l1] linked_ends [OF l2] by (simp_all add: p_def n_def)
  define l' where "l' = l\<lparr>next_of := (next_of l)(p := Some n, x := None), prev_of := (prev_of l)(n := Some p, x := None)\<rparr>"
  have del: "list_del x l = Some l'" using pn by (simp add: list_del_def l'_def)
  have px: "p \<noteq> x" "n \<noteq> x" and pin: "p \<in> set (h # xs)" and nin: "n \<in> set (ys @ [h])"
    using dist unfolding p_def n_def by (auto simp: hd_append split: if_splits dest: last_in_set hd_in_set)
  have "linked l' h (xs @ ys) h"
  proof (cases xs rule: rev_cases)
    case Nil
    then have p: "p = h" by (simp add: p_def)
    show ?thesis
    proof (cases ys)
      case Nil
      with \<open>xs = []\<close> p px show ?thesis by (simp add: n_def l'_def)
    next
      case (Cons y zs)
      then have "linked l' y zs h \<longleftrightarrow> linked l y zs h"
        using dist p px by (intro linked_cong) (auto simp: l'_def n_def)
      with Cons \<open>xs = []\<close> p px l2 show ?thesis by (auto simp: l'_def n_def)
    qed
  next
    case (snoc us u)
    then have u: "p = u" by (simp add: p_def)
    have a: "linked l' h us u" using l1 snoc dist u px nin
      by (subst linked_cong [of h us l' l u]) (auto simp: l'_def linked_append)
    have "linked l' u ys h"
    proof (cases ys)
      case Nil
      with u px show ?thesis by (simp add: n_def l'_def)
    next
      case (Cons y zs)
      then have "linked l' y zs h \<longleftrightarrow> linked l y zs h"
        using dist u snoc px by (intro linked_cong) (auto simp: l'_def n_def)
      with Cons u px l2 show ?thesis by (auto simp: l'_def n_def)
    qed
    with a snoc show ?thesis by (simp add: linked_append)
  qed
  moreover have "dll l' k zs" if "dll l k zs" "set (k # zs) \<inter> set (h # xs @ x # ys) = {}" for k zs
  proof -
    have "linked l' k zs k \<longleftrightarrow> linked l k zs k"
      using that(2) pin nin by (intro linked_cong) (auto simp: l'_def)
    with that(1) show ?thesis by (simp add: dll_def)
  qed
  ultimately show ?thesis using del dist by (intro exI [of _ l']) (auto simp: dll_def l'_def)
qed

lemma dll_add_tail:
  assumes d: "dll l h xs" and x: "x \<notin> set (h # xs)"
  shows "\<exists>l'. list_add_tail x h l = Some l' \<and> dll l' h (xs @ [x]) \<and>
    (\<forall>k zs. dll l k zs \<longrightarrow> set (k # zs) \<inter> set (h # xs @ [x]) = {} \<longrightarrow> dll l' k zs)"
proof -
  define p where "p = last (h # xs)"
  have lk: "linked l h xs h" and dist: "distinct (h # xs)" using d by (auto simp: dll_def)
  have p: "prev_of l h = Some p" using linked_ends [OF lk] by (simp add: p_def)
  define l' where "l' = l\<lparr>next_of := (next_of l)(p := Some x, x := Some h), prev_of := (prev_of l)(x := Some p, h := Some x)\<rparr>"
  have add: "list_add_tail x h l = Some l'" using p by (simp add: list_add_tail_def list_add_between_def l'_def)
  have pin: "p \<in> set (h # xs)" unfolding p_def by (rule last_in_set) simp
  have "linked l' h (xs @ [x]) h"
  proof (cases xs rule: rev_cases)
    case Nil
    with x show ?thesis by (auto simp: l'_def p_def)
  next
    case (snoc us u)
    then have u: "p = u" by (simp add: p_def)
    have "linked l' h us u" using lk snoc dist x u
      by (subst linked_cong [of h us l' l u]) (auto simp: l'_def linked_append)
    with snoc u x dist show ?thesis by (auto simp: linked_append l'_def)
  qed
  moreover have "dll l' k zs" if "dll l k zs" "set (k # zs) \<inter> set (h # xs @ [x]) = {}" for k zs
  proof -
    have "linked l' k zs k \<longleftrightarrow> linked l k zs k" using that(2) pin by (intro linked_cong) (auto simp: l'_def)
    with that(1) show ?thesis by (simp add: dll_def)
  qed
  ultimately show ?thesis using add dist x by (intro exI [of _ l']) (auto simp: dll_def)
qed

lemma dll_add:
  assumes d: "dll l h xs" and x: "x \<notin> set (h # xs)"
  shows "\<exists>l'. list_add x h l = Some l' \<and> dll l' h (x # xs) \<and>
    (\<forall>k zs. dll l k zs \<longrightarrow> set (k # zs) \<inter> set (h # x # xs) = {} \<longrightarrow> dll l' k zs)"
proof -
  define n where "n = hd (xs @ [h])"
  have lk: "linked l h xs h" and dist: "distinct (h # xs)" using d by (auto simp: dll_def)
  have n: "next_of l h = Some n" using linked_ends [OF lk] by (simp add: n_def)
  define l' where "l' = l\<lparr>next_of := (next_of l)(h := Some x, x := Some n), prev_of := (prev_of l)(x := Some h, n := Some x)\<rparr>"
  have add: "list_add x h l = Some l'" using n by (simp add: list_add_def list_add_between_def l'_def)
  have nin: "n \<in> set (xs @ [h])" unfolding n_def by (rule hd_in_set) simp
  have nx: "n \<noteq> x" using nin x by auto
  have "linked l' h (x # xs) h"
  proof (cases xs)
    case Nil
    with x show ?thesis by (auto simp: l'_def n_def)
  next
    case (Cons y ys)
    then have "linked l' y ys h \<longleftrightarrow> linked l y ys h" using dist x by (intro linked_cong) (auto simp: l'_def n_def)
    with Cons lk x dist nx show ?thesis by (auto simp: l'_def n_def)
  qed
  moreover have "dll l' k zs" if "dll l k zs" "set (k # zs) \<inter> set (h # x # xs) = {}" for k zs
  proof -
    have "linked l' k zs k \<longleftrightarrow> linked l k zs k" using that(2) nin by (intro linked_cong) (auto simp: l'_def)
    with that(1) show ?thesis by (simp add: dll_def)
  qed
  ultimately show ?thesis using add dist x by (intro exI [of _ l']) (auto simp: dll_def)
qed

section \<open>Moving elements between lists\<close>

text \<open>
  What the clients of the lists rely on: deletion and insertion at the end act on the sequence of one list and leave the sequences of the lists they share no
  node with.
\<close>

locale intrusive_lists =
  fixes del :: "'n \<Rightarrow> 'l \<Rightarrow> 'l option" and add_tail :: "'n \<Rightarrow> 'n \<Rightarrow> 'l \<Rightarrow> 'l option" and rep :: "'l \<Rightarrow> 'n \<Rightarrow> 'n list \<Rightarrow> bool"
  assumes rep_distinct: "rep l h xs \<Longrightarrow> distinct (h # xs)"
    and del_law: "rep l h (xs @ x # ys) \<Longrightarrow> \<exists>l'. del x l = Some l' \<and> rep l' h (xs @ ys) \<and>
      (\<forall>k zs. rep l k zs \<longrightarrow> set (k # zs) \<inter> set (h # xs @ x # ys) = {} \<longrightarrow> rep l' k zs)"
    and add_law: "rep l h xs \<Longrightarrow> x \<notin> set (h # xs) \<Longrightarrow> \<exists>l'. add_tail x h l = Some l' \<and> rep l' h (xs @ [x]) \<and>
      (\<forall>k zs. rep l k zs \<longrightarrow> set (k # zs) \<inter> set (h # xs @ [x]) = {} \<longrightarrow> rep l' k zs)"
begin

lemma move:
  assumes d: "rep l h (xs @ x # ys)" and k: "rep l k zs" and dis: "set (k # zs) \<inter> set (h # xs @ x # ys) = {}"
  shows "\<exists>l1 l2. del x l = Some l1 \<and> add_tail x k l1 = Some l2 \<and> rep l2 h (xs @ ys) \<and> rep l2 k (zs @ [x])"
proof -
  from del_law [OF d] dis k obtain l1 where l1: "del x l = Some l1" "rep l1 h (xs @ ys)" "rep l1 k zs" by blast
  have "x \<notin> set (k # zs)" using dis by auto
  from add_law [OF l1(3) this] obtain l2 where l2: "add_tail x k l1 = Some l2" "rep l2 k (zs @ [x])"
    and fr: "\<And>j us. rep l1 j us \<Longrightarrow> set (j # us) \<inter> set (k # zs @ [x]) = {} \<Longrightarrow> rep l2 j us" by blast
  have "set (h # xs @ ys) \<inter> set (k # zs @ [x]) = {}" using dis rep_distinct [OF d] by auto
  with fr [OF l1(2)] l1(1) l2 show ?thesis by blast
qed

end

interpretation lnk: intrusive_lists list_del list_add_tail dll
proof unfold_locales
  show "dll l h xs \<Longrightarrow> distinct (h # xs)" for l :: "'a links" and h xs by (simp add: dll_def)
  show "dll l h (xs @ x # ys) \<Longrightarrow> \<exists>l'. list_del x l = Some l' \<and> dll l' h (xs @ ys) \<and>
      (\<forall>k zs. dll l k zs \<longrightarrow> set (k # zs) \<inter> set (h # xs @ x # ys) = {} \<longrightarrow> dll l' k zs)" for l :: "'a links" and h xs x ys
    using dll_del [of l h xs x ys] by blast
qed (rule dll_add_tail)

section \<open>Property\<close>

text \<open>
  C9. The linked lists implement sequences. If a head stands for the sequence \<open>xs\<close>, \<open>list_empty\<close> tells whether it is empty; \<open>list_add\<close> and
  \<open>list_add_tail\<close> put a node that is not in it before and after the sequence; \<open>list_del\<close> removes a node, whose pointers become \<open>NULL\<close>; none of them follows a
  \<open>NULL\<close> pointer, and a list that shares no node with the one changed keeps its sequence.
\<close>

theorem list_refines_sequence:
  assumes "dll l h xs"
  shows "(list_empty h l \<longleftrightarrow> xs = []) \<and>
    (x \<notin> set (h # xs) \<longrightarrow> (\<exists>l'. list_add x h l = Some l' \<and> dll l' h (x # xs) \<and>
       (\<forall>k zs. dll l k zs \<longrightarrow> set (k # zs) \<inter> set (h # x # xs) = {} \<longrightarrow> dll l' k zs))) \<and>
    (x \<notin> set (h # xs) \<longrightarrow> (\<exists>l'. list_add_tail x h l = Some l' \<and> dll l' h (xs @ [x]) \<and>
       (\<forall>k zs. dll l k zs \<longrightarrow> set (k # zs) \<inter> set (h # xs @ [x]) = {} \<longrightarrow> dll l' k zs))) \<and>
    (x \<in> set xs \<longrightarrow> (\<exists>l'. list_del x l = Some l' \<and> dll l' h (remove1 x xs) \<and> next_of l' x = None \<and> prev_of l' x = None \<and>
       (\<forall>k zs. dll l k zs \<longrightarrow> set (k # zs) \<inter> set (h # xs) = {} \<longrightarrow> dll l' k zs)))"
proof (intro conjI impI)
  show "list_empty h l \<longleftrightarrow> xs = []" using assms by (rule dll_empty)
  assume "x \<in> set xs"
  then obtain ys zs where xs: "xs = ys @ x # zs" "x \<notin> set ys" by (meson split_list_first)
  then have "remove1 x xs = ys @ zs" by (simp add: remove1_append)
  then show "\<exists>l'. list_del x l = Some l' \<and> dll l' h (remove1 x xs) \<and> next_of l' x = None \<and> prev_of l' x = None \<and>
       (\<forall>k zs. dll l k zs \<longrightarrow> set (k # zs) \<inter> set (h # xs) = {} \<longrightarrow> dll l' k zs)"
    using dll_del [of l h ys x zs] assms xs(1) by simp
qed (rule dll_add [OF assms] dll_add_tail [OF assms], assumption)+

text \<open>The list \<open>1, 2\<close> with head 0.\<close>

theorem list_refines_sequence_witness:
  "\<exists>l'. list_del 1 \<lparr>prev_of = [0 \<mapsto> 2, 1 \<mapsto> 0, 2 \<mapsto> 1], next_of = [0 \<mapsto> 1, 1 \<mapsto> 2, 2 \<mapsto> 0]\<rparr> = Some l' \<and> dll l' 0 [2 :: nat]"
proof -
  have "dll \<lparr>prev_of = [0 \<mapsto> 2, 1 \<mapsto> 0, 2 \<mapsto> 1], next_of = [0 \<mapsto> 1, 1 \<mapsto> 2, 2 \<mapsto> 0]\<rparr> 0 [1, 2 :: nat]" by (simp add: dll_def)
  from list_refines_sequence [OF this, of 1] show ?thesis by auto
qed

end
