(* ===== verification/GcMark.thy ===== *)
theory GcMark
  imports LinkedList "HOL-Library.Multiset"
begin

text \<open>
  The cycle collector of \<^verbatim>\<open>quickjs.c\<close>: headers and references of the objects seen by the collector, \<open>mark_children\<close>, and the passes
  \<open>gc_decref\<close> and \<open>gc_scan\<close> that separate the objects kept from the garbage. Both lists of the run time are linked lists whose elements the passes move
  while they iterate over them, so the loops follow the pointers of \<open>LinkedList\<close>. The theorems show that on a consistent heap no assertion fails, the loops
  end, every reference count is restored, and the garbage list holds exactly the objects that no object with a reference from outside can reach.
\<close>

section \<open>Objects and references\<close>

type_synonym obj = nat

text \<open>A value: a reference counted object or function bytecode, or anything else.\<close>

datatype JSValue = JS_GC_VALUE obj | JS_OTHER_VALUE

text \<open>A property slot by the flags of its shape entry; a deleted one has no atom.\<close>

datatype JSProperty =
    PROP_DELETED
  | PROP_NORMAL JSValue
  | PROP_GETSET "obj option" "obj option"
  | PROP_VARREF bool obj
  | PROP_AUTOINIT obj

text \<open>\<open>JSModuleDef\<close>: the variable references of the local exports, and the four values.\<close>

record JSModuleDef =
  md_export_entries :: "obj option list"
  md_module_ns :: JSValue
  md_func_obj :: JSValue
  md_eval_exception :: JSValue
  md_meta_obj :: JSValue

text \<open>The values of \<open>JSAsyncFunctionState\<close> the collector sees; \<open>as_stack\<close> is \<open>None\<close> while the function runs.\<close>

record JSAsyncFunctionState =
  as_cur_func :: JSValue
  as_this_val :: JSValue
  as_stack :: "JSValue list option"

record JSContext =
  cx_loaded_modules :: "JSModuleDef list"
  cx_global_obj :: JSValue
  cx_global_var_obj :: JSValue
  cx_throw_type_error :: JSValue
  cx_eval_obj :: JSValue
  cx_array_proto_values :: JSValue
  cx_native_error_proto :: "JSValue list"
  cx_class_proto :: "JSValue list"
  cx_iterator_proto :: JSValue
  cx_async_iterator_proto :: JSValue
  cx_promise_ctor :: JSValue
  cx_array_ctor :: JSValue
  cx_regexp_ctor :: JSValue
  cx_function_ctor :: JSValue
  cx_function_proto :: JSValue
  cx_array_shape :: "obj option"

text \<open>The object behind a header, by \<open>gc_obj_type\<close>.\<close>

datatype gc_object =
    JS_OBJECT obj "JSProperty list" nat
  | FUNCTION_BYTECODE "JSValue list" "obj option"
  | SHAPE "obj option"
  | VAR_REF bool JSValue
  | ASYNC_FUNCTION bool JSAsyncFunctionState JSValue JSValue
  | JS_CONTEXT JSContext

definition JS_CLASS_OBJECT :: nat where
  "JS_CLASS_OBJECT = 1"

section \<open>Children\<close>

text \<open>
  The marking functions call \<open>mark_func\<close> on one reference after the other and do nothing else; here they give the references in that order.
  The marking function of a class is registered by whoever creates the class: \<open>gc_mark\<close> is a parameter.
\<close>

definition JS_MarkValue :: "JSValue \<Rightarrow> obj list" where
  "JS_MarkValue v = (case v of JS_GC_VALUE p \<Rightarrow> [p] | JS_OTHER_VALUE \<Rightarrow> [])"

definition mark_ptr :: "obj option \<Rightarrow> obj list" where
  "mark_ptr p = (case p of None \<Rightarrow> [] | Some q \<Rightarrow> [q])"

definition js_mark_module_def :: "JSModuleDef \<Rightarrow> obj list" where
  "js_mark_module_def m = concat (map mark_ptr (md_export_entries m)) @ JS_MarkValue (md_module_ns m) @
     JS_MarkValue (md_func_obj m) @ JS_MarkValue (md_eval_exception m) @ JS_MarkValue (md_meta_obj m)"

definition async_func_mark :: "JSAsyncFunctionState \<Rightarrow> obj list" where
  "async_func_mark s = JS_MarkValue (as_cur_func s) @ JS_MarkValue (as_this_val s) @
     (case as_stack s of None \<Rightarrow> [] | Some st \<Rightarrow> concat (map JS_MarkValue st))"

definition JS_MarkContext :: "JSContext \<Rightarrow> obj list" where
  "JS_MarkContext ctx =
     concat (map js_mark_module_def (cx_loaded_modules ctx)) @
     JS_MarkValue (cx_global_obj ctx) @ JS_MarkValue (cx_global_var_obj ctx) @
     JS_MarkValue (cx_throw_type_error ctx) @ JS_MarkValue (cx_eval_obj ctx) @
     JS_MarkValue (cx_array_proto_values ctx) @
     concat (map JS_MarkValue (cx_native_error_proto ctx)) @
     concat (map JS_MarkValue (cx_class_proto ctx)) @
     JS_MarkValue (cx_iterator_proto ctx) @ JS_MarkValue (cx_async_iterator_proto ctx) @
     JS_MarkValue (cx_promise_ctor ctx) @ JS_MarkValue (cx_array_ctor ctx) @ JS_MarkValue (cx_regexp_ctor ctx) @
     JS_MarkValue (cx_function_ctor ctx) @ JS_MarkValue (cx_function_proto ctx) @
     mark_ptr (cx_array_shape ctx)"

definition mark_property :: "JSProperty \<Rightarrow> obj list" where
  "mark_property pr = (case pr of
       PROP_DELETED \<Rightarrow> []
     | PROP_NORMAL v \<Rightarrow> JS_MarkValue v
     | PROP_GETSET getter setter \<Rightarrow> mark_ptr getter @ mark_ptr setter
     | PROP_VARREF is_detached var_ref \<Rightarrow> if is_detached then [var_ref] else []
     | PROP_AUTOINIT realm \<Rightarrow> [realm])"

text \<open>\<open>None\<close> is the failed assertion on a variable reference that is not detached.\<close>

definition children_of :: "(nat \<Rightarrow> (obj \<Rightarrow> obj list) option) \<Rightarrow> obj \<Rightarrow> gc_object \<Rightarrow> obj list option" where
  "children_of gc_mark p gp = (case gp of
       JS_OBJECT sh props class_id \<Rightarrow>
         Some ([sh] @ concat (map mark_property props) @
           (if class_id \<noteq> JS_CLASS_OBJECT then (case gc_mark class_id of None \<Rightarrow> [] | Some f \<Rightarrow> f p) else []))
     | FUNCTION_BYTECODE cpool realm \<Rightarrow> Some (concat (map JS_MarkValue cpool) @ mark_ptr realm)
     | VAR_REF is_detached v \<Rightarrow> if is_detached then Some (JS_MarkValue v) else None
     | ASYNC_FUNCTION is_active st r0 r1 \<Rightarrow>
         Some ((if is_active then async_func_mark st else []) @ JS_MarkValue r0 @ JS_MarkValue r1)
     | SHAPE proto \<Rightarrow> Some (mark_ptr proto)
     | JS_CONTEXT ctx \<Rightarrow> Some (JS_MarkContext ctx))"

section \<open>The passes\<close>

text \<open>The heads of the two lists in \<open>JSRuntime\<close>, and the \<open>link\<close> field of an object.\<close>

datatype gc_node = gc_obj_list | tmp_obj_list | Link obj

text \<open>The fields of the headers and the lists; \<open>gs_object\<close> is what the passes do not change.\<close>

record gc_state =
  gs_links :: "gc_node links"
  gs_ref_count :: "obj \<Rightarrow> int"
  gs_mark :: "obj \<Rightarrow> nat"

record gc_heap =
  gh_object :: "obj \<Rightarrow> gc_object"
  gh_gc_mark :: "nat \<Rightarrow> (obj \<Rightarrow> obj list) option"

definition move_to :: "gc_node \<Rightarrow> obj \<Rightarrow> gc_state \<Rightarrow> gc_state option" where
  "move_to head p s = do {
     l \<leftarrow> list_del (Link p) (gs_links s);
     l \<leftarrow> list_add_tail (Link p) head l;
     Some (s\<lparr>gs_links := l\<rparr>) }"

fun mark_list :: "(obj \<Rightarrow> gc_state \<Rightarrow> gc_state option) \<Rightarrow> obj list \<Rightarrow> gc_state \<Rightarrow> gc_state option" where
  "mark_list mark_func [] s = Some s"
| "mark_list mark_func (c # cs) s = do {
     s \<leftarrow> mark_func c s;
     mark_list mark_func cs s }"

definition mark_children :: "gc_heap \<Rightarrow> obj \<Rightarrow> (obj \<Rightarrow> gc_state \<Rightarrow> gc_state option) \<Rightarrow> gc_state \<Rightarrow> gc_state option" where
  "mark_children hp p mark_func s = do {
     cs \<leftarrow> children_of (gh_gc_mark hp) p (gh_object hp p);
     mark_list mark_func cs s }"

definition gc_decref_child :: "obj \<Rightarrow> gc_state \<Rightarrow> gc_state option" where
  "gc_decref_child p s =
     (if \<not> gs_ref_count s p > 0 then None
      else let s = s\<lparr>gs_ref_count := (gs_ref_count s)(p := gs_ref_count s p - 1)\<rparr>
        in if gs_ref_count s p = 0 \<and> gs_mark s p = 1 then move_to tmp_obj_list p s else Some s)"

partial_function (option) gc_decref_loop :: "gc_heap \<Rightarrow> gc_node \<Rightarrow> gc_node \<Rightarrow> gc_state \<Rightarrow> gc_state option" where
  "gc_decref_loop hp el el1 s =
     (if el = gc_obj_list then Some s
      else case el of
        Link p \<Rightarrow> do {
          s \<leftarrow> (if gs_mark s p \<noteq> 0 then None else mark_children hp p gc_decref_child s);
          let s = s\<lparr>gs_mark := (gs_mark s)(p := 1)\<rparr>;
          s \<leftarrow> (if gs_ref_count s p = 0 then move_to tmp_obj_list p s else Some s);
          el2 \<leftarrow> next_of (gs_links s) el1;
          gc_decref_loop hp el1 el2 s }
      | _ \<Rightarrow> None)"

definition gc_decref :: "gc_heap \<Rightarrow> gc_state \<Rightarrow> gc_state option" where
  "gc_decref hp s = do {
     let s = s\<lparr>gs_links := init_list_head tmp_obj_list (gs_links s)\<rparr>;
     el \<leftarrow> next_of (gs_links s) gc_obj_list;
     el1 \<leftarrow> next_of (gs_links s) el;
     gc_decref_loop hp el el1 s }"

definition gc_scan_incref_child :: "obj \<Rightarrow> gc_state \<Rightarrow> gc_state option" where
  "gc_scan_incref_child p s =
     (let s = s\<lparr>gs_ref_count := (gs_ref_count s)(p := gs_ref_count s p + 1)\<rparr>
      in if gs_ref_count s p = 1 then do {
           s \<leftarrow> move_to gc_obj_list p s;
           Some (s\<lparr>gs_mark := (gs_mark s)(p := 0)\<rparr>) }
         else Some s)"

definition gc_scan_incref_child2 :: "obj \<Rightarrow> gc_state \<Rightarrow> gc_state option" where
  "gc_scan_incref_child2 p s = Some (s\<lparr>gs_ref_count := (gs_ref_count s)(p := gs_ref_count s p + 1)\<rparr>)"

partial_function (option) gc_scan_loop :: "gc_heap \<Rightarrow> gc_node \<Rightarrow> gc_state \<Rightarrow> gc_state option" where
  "gc_scan_loop hp el s =
     (if el = gc_obj_list then Some s
      else case el of
        Link p \<Rightarrow> do {
          s \<leftarrow> (if \<not> gs_ref_count s p > 0 then None
               else mark_children hp p gc_scan_incref_child (s\<lparr>gs_mark := (gs_mark s)(p := 0)\<rparr>));
          el \<leftarrow> next_of (gs_links s) el;
          gc_scan_loop hp el s }
      | _ \<Rightarrow> None)"

partial_function (option) gc_restore_loop :: "gc_heap \<Rightarrow> gc_node \<Rightarrow> gc_state \<Rightarrow> gc_state option" where
  "gc_restore_loop hp el s =
     (if el = tmp_obj_list then Some s
      else case el of
        Link p \<Rightarrow> do {
          s \<leftarrow> mark_children hp p gc_scan_incref_child2 s;
          el \<leftarrow> next_of (gs_links s) el;
          gc_restore_loop hp el s }
      | _ \<Rightarrow> None)"

definition gc_scan :: "gc_heap \<Rightarrow> gc_state \<Rightarrow> gc_state option" where
  "gc_scan hp s = do {
     el \<leftarrow> next_of (gs_links s) gc_obj_list;
     s \<leftarrow> gc_scan_loop hp el s;
     el \<leftarrow> next_of (gs_links s) tmp_obj_list;
     gc_restore_loop hp el s }"

definition add_gc_object :: "obj \<Rightarrow> gc_state \<Rightarrow> gc_state option" where
  "add_gc_object h s = do {
     let s = s\<lparr>gs_mark := (gs_mark s)(h := 0)\<rparr>;
     l \<leftarrow> list_add_tail (Link h) gc_obj_list (gs_links s);
     Some (s\<lparr>gs_links := l\<rparr>) }"

definition remove_gc_object :: "obj \<Rightarrow> gc_state \<Rightarrow> gc_state option" where
  "remove_gc_object h s = do {
     l \<leftarrow> list_del (Link h) (gs_links s);
     Some (s\<lparr>gs_links := l\<rparr>) }"

section \<open>The two lists\<close>

definition lists :: "gc_state \<Rightarrow> obj list \<Rightarrow> obj list \<Rightarrow> bool" where
  "lists s gs ts \<longleftrightarrow> dll (gs_links s) gc_obj_list (map Link gs) \<and> dll (gs_links s) tmp_obj_list (map Link ts) \<and> set gs \<inter> set ts = {}"

lemma lists_distinct: "lists s gs ts \<Longrightarrow> distinct (gs @ ts)"
  by (auto simp: lists_def dll_def distinct_map)

lemma lists_upd [simp]: "lists (s\<lparr>gs_ref_count := r\<rparr>) gs ts = lists s gs ts" "lists (s\<lparr>gs_mark := m\<rparr>) gs ts = lists s gs ts"
  by (simp_all add: lists_def)

lemma moved:
  assumes d: "dll l h (map Link xs @ Link p # map Link ys)" and k: "dll l k (map Link ts)" and hk: "h \<notin> range Link" "k \<notin> range Link" "h \<noteq> k"
    and dis: "(set xs \<union> {p} \<union> set ys) \<inter> set ts = {}"
  shows "\<exists>l1 l2. list_del (Link p) l = Some l1 \<and> list_add_tail (Link p) k l1 = Some l2 \<and>
    dll l2 h (map Link (xs @ ys)) \<and> dll l2 k (map Link (ts @ [p]))"
proof -
  have "set (k # map Link ts) \<inter> set (h # map Link xs @ Link p # map Link ys) = {}" using hk dis by auto
  from lnk.move [OF d k this] show ?thesis by simp
qed

lemma move_to_tmp:
  assumes "lists s (xs @ p # ys) ts"
  shows "\<exists>l. move_to tmp_obj_list p s = Some (s\<lparr>gs_links := l\<rparr>) \<and> lists (s\<lparr>gs_links := l\<rparr>) (xs @ ys) (ts @ [p])"
proof -
  have "dll (gs_links s) gc_obj_list (map Link xs @ Link p # map Link ys)" "dll (gs_links s) tmp_obj_list (map Link ts)"
    "(set xs \<union> {p} \<union> set ys) \<inter> set ts = {}" "distinct (xs @ p # ys)"
    using assms lists_distinct [OF assms] by (auto simp: lists_def)
  then show ?thesis using moved [of "gs_links s" gc_obj_list xs p ys tmp_obj_list ts] by (auto simp: move_to_def lists_def image_iff)
qed

lemma move_to_gc:
  assumes "lists s gs (xs @ p # ys)"
  shows "\<exists>l. move_to gc_obj_list p s = Some (s\<lparr>gs_links := l\<rparr>) \<and> lists (s\<lparr>gs_links := l\<rparr>) (gs @ [p]) (xs @ ys)"
proof -
  have "dll (gs_links s) tmp_obj_list (map Link xs @ Link p # map Link ys)" "dll (gs_links s) gc_obj_list (map Link gs)"
    "(set xs \<union> {p} \<union> set ys) \<inter> set gs = {}" "distinct (xs @ p # ys)"
    using assms lists_distinct [OF assms] by (auto simp: lists_def)
  then show ?thesis using moved [of "gs_links s" tmp_obj_list xs p ys gc_obj_list gs] by (auto simp: move_to_def lists_def image_iff)
qed

text \<open>The position after \<open>us\<close> elements are left, and the pointer that follows it.\<close>

definition at_gc :: "obj list \<Rightarrow> gc_node" where
  "at_gc us = hd (map Link us @ [gc_obj_list])"

definition at_tmp :: "obj list \<Rightarrow> gc_node" where
  "at_tmp us = hd (map Link us @ [tmp_obj_list])"

lemma at_simps [simp]: "at_gc [] = gc_obj_list" "at_gc (u # us) = Link u" "at_tmp [] = tmp_obj_list" "at_tmp (u # us) = Link u"
  by (simp_all add: at_gc_def at_tmp_def)

lemma lists_next:
  assumes "lists s gs ts"
  shows "next_of (gs_links s) gc_obj_list = Some (at_gc gs)" "next_of (gs_links s) tmp_obj_list = Some (at_tmp ts)"
    and "gs = ks @ p # us \<Longrightarrow> next_of (gs_links s) (Link p) = Some (at_gc us)"
    and "ts = ks @ p # us \<Longrightarrow> next_of (gs_links s) (Link p) = Some (at_tmp us)"
  using assms dll_first [of "gs_links s" gc_obj_list "map Link gs"] dll_first [of "gs_links s" tmp_obj_list "map Link ts"]
    dll_next [of "gs_links s" gc_obj_list "map Link ks" "Link p" "map Link us"] dll_next [of "gs_links s" tmp_obj_list "map Link ks" "Link p" "map Link us"]
  by (auto simp: lists_def at_gc_def at_tmp_def)

lemma lists_next_any: "lists s (ks @ us) ts \<Longrightarrow> \<exists>n. next_of (gs_links s) (at_gc us) = Some n \<and> (\<forall>u us'. us = u # us' \<longrightarrow> n = at_gc us')"
  using lists_next [of s "ks @ us" ts] by (cases us) auto

section \<open>References\<close>

definition kids :: "gc_heap \<Rightarrow> obj \<Rightarrow> obj list" where
  "kids hp p = (case children_of (gh_gc_mark hp) p (gh_object hp p) of None \<Rightarrow> [] | Some cs \<Rightarrow> cs)"

definition refs :: "gc_heap \<Rightarrow> obj list \<Rightarrow> obj multiset" where
  "refs hp ps = mset (concat (map (kids hp) ps))"

lemma refs_simps [simp]: "refs hp [] = {#}" "refs hp (p # ps) = mset (kids hp p) + refs hp ps" "refs hp (ps @ qs) = refs hp ps + refs hp qs"
  by (simp_all add: refs_def)

lemma refs_remove: "p \<in> set ps \<Longrightarrow> refs hp ps = mset (kids hp p) + refs hp (remove1 p ps)"
  by (induction ps) (auto simp: ac_simps)

text \<open>Objects whose references are objects of the same set, and for which marking fails no assertion.\<close>

definition heap_ok :: "gc_heap \<Rightarrow> obj set \<Rightarrow> bool" where
  "heap_ok hp V \<longleftrightarrow> (\<forall>p \<in> V. children_of (gh_gc_mark hp) p (gh_object hp p) = Some (kids hp p) \<and> set (kids hp p) \<subseteq> V)"

lemma mark_children_kids: "heap_ok hp V \<Longrightarrow> p \<in> V \<Longrightarrow> mark_children hp p f s = mark_list f (kids hp p) s"
  by (simp add: heap_ok_def mark_children_def)

section \<open>The first pass\<close>

definition dec_inv :: "(obj \<Rightarrow> int) \<Rightarrow> obj set \<Rightarrow> obj multiset \<Rightarrow> gc_state \<Rightarrow> obj list \<Rightarrow> obj list \<Rightarrow> bool" where
  "dec_inv rc D R s gs ts \<longleftrightarrow> lists s gs ts \<and> (\<forall>x. gs_ref_count s x = rc x - int (count R x)) \<and>
     (\<forall>x \<in> set gs \<union> set ts. gs_mark s x = of_bool (x \<in> D) \<and> (x \<in> set ts \<longleftrightarrow> x \<in> D \<and> gs_ref_count s x = 0))"

lemma decref_child_inv:
  assumes inv: "dec_inv rc D R s (ks @ us) ts" and D: "set ks \<subseteq> D" "set us \<inter> D = {}"
    and c: "c \<in> set ks \<union> set us \<union> set ts" "int (count R c) < rc c"
  shows "\<exists>s' ks' ts'. gc_decref_child c s = Some s' \<and> dec_inv rc D (add_mset c R) s' (ks' @ us) ts' \<and> set ks' \<subseteq> D \<and>
    set ks' \<union> set ts' = set ks \<union> set ts"
proof -
  let ?s = "s\<lparr>gs_ref_count := (gs_ref_count s)(c := gs_ref_count s c - 1)\<rparr>"
  have ref: "gs_ref_count s c = rc c - int (count R c)" and pos: "gs_ref_count s c > 0" using inv c by (auto simp: dec_inv_def)
  have refs: "gs_ref_count s x = rc x - int (count R x)" for x using inv by (simp add: dec_inv_def)
  have at: "gs_mark s x = of_bool (x \<in> D)" "x \<in> set ts \<longleftrightarrow> x \<in> D \<and> gs_ref_count s x = 0" if "x \<in> set (ks @ us) \<union> set ts" for x
    using inv that unfolding dec_inv_def by blast+
  have cV: "c \<in> set (ks @ us) \<union> set ts" using c(1) by simp
  have notin: "c \<notin> set ts" using at(2) [OF cV] pos by simp
  show ?thesis
  proof (cases "gs_ref_count s c = 1 \<and> c \<in> D")
    case True
    then have "c \<in> set ks" using D c(1) notin by auto
    then obtain xs ys where ks: "ks = xs @ c # ys" by (meson split_list)
    have "lists ?s (xs @ c # (ys @ us)) ts" using inv ks by (simp add: dec_inv_def)
    from move_to_tmp [OF this] obtain l where
      m: "move_to tmp_obj_list c ?s = Some (?s\<lparr>gs_links := l\<rparr>)" "lists (?s\<lparr>gs_links := l\<rparr>) (xs @ ys @ us) (ts @ [c])" by blast
    have "gc_decref_child c s = Some (?s\<lparr>gs_links := l\<rparr>)" using True m(1) at(1) [OF cV] by (simp add: gc_decref_child_def)
    moreover have "dec_inv rc D (add_mset c R) (?s\<lparr>gs_links := l\<rparr>) ((xs @ ys) @ us) (ts @ [c])"
      unfolding dec_inv_def
    proof (intro conjI ballI allI)
      fix x assume "x \<in> set ((xs @ ys) @ us) \<union> set (ts @ [c])"
      then have x: "x \<in> set (ks @ us) \<union> set ts" using ks by auto
      show "gs_mark (?s\<lparr>gs_links := l\<rparr>) x = of_bool (x \<in> D)" using at(1) [OF x] by simp
      show "x \<in> set (ts @ [c]) \<longleftrightarrow> x \<in> D \<and> gs_ref_count (?s\<lparr>gs_links := l\<rparr>) x = 0" using at(2) [OF x] True by auto
    qed (use m(2) refs in simp_all)
    ultimately show ?thesis using ks D by (intro exI [of _ "?s\<lparr>gs_links := l\<rparr>"] exI [of _ "xs @ ys"] exI [of _ "ts @ [c]"]) auto
  next
    case False
    have "gc_decref_child c s = Some ?s" using False pos at(1) [OF cV] by (auto simp: gc_decref_child_def)
    moreover have "dec_inv rc D (add_mset c R) ?s (ks @ us) ts"
      unfolding dec_inv_def
    proof (intro conjI ballI allI)
      fix x assume x: "x \<in> set (ks @ us) \<union> set ts"
      show "gs_mark ?s x = of_bool (x \<in> D)" using at(1) [OF x] by simp
      show "x \<in> set ts \<longleftrightarrow> x \<in> D \<and> gs_ref_count ?s x = 0" using at(2) [OF x] False notin by auto
    qed (use inv refs in \<open>simp_all add: dec_inv_def\<close>)
    ultimately show ?thesis using D by blast
  qed
qed

lemma mark_list_decref:
  assumes "dec_inv rc D R s (ks @ us) ts" "set ks \<subseteq> D" "set us \<inter> D = {}" "set cs \<subseteq> set ks \<union> set us \<union> set ts"
    and "\<And>x. x \<in> set cs \<Longrightarrow> int (count (R + mset cs) x) \<le> rc x"
  shows "\<exists>s' ks' ts'. mark_list gc_decref_child cs s = Some s' \<and> dec_inv rc D (R + mset cs) s' (ks' @ us) ts' \<and> set ks' \<subseteq> D \<and>
    set ks' \<union> set ts' = set ks \<union> set ts"
  using assms
proof (induction cs arbitrary: R s ks ts)
  case Nil
  then show ?case by auto
next
  case (Cons c cs)
  have "int (count (R + mset (c # cs)) c) \<le> rc c" using Cons.prems(5) [of c] by simp
  then have "int (count R c) < rc c" by simp
  with decref_child_inv [OF Cons.prems(1-3), of c] Cons.prems(4) obtain s1 ks1 ts1 where
    1: "gc_decref_child c s = Some s1" "dec_inv rc D (add_mset c R) s1 (ks1 @ us) ts1" "set ks1 \<subseteq> D" "set ks1 \<union> set ts1 = set ks \<union> set ts" by auto
  have "set cs \<subseteq> set ks1 \<union> set us \<union> set ts1" using Cons.prems(4) 1(4) by auto
  from Cons.IH [OF 1(2,3) Cons.prems(3) this] Cons.prems(5) 1 show ?case by auto
qed

lemma dec_inv_finish:
  assumes inv: "dec_inv rc D R s (ks @ p # us) ts" and p: "p \<notin> D"
  shows "\<exists>s' ks' ts'. (let s = s\<lparr>gs_mark := (gs_mark s)(p := 1)\<rparr> in if gs_ref_count s p = 0 then move_to tmp_obj_list p s else Some s) = Some s' \<and>
    dec_inv rc (insert p D) R s' (ks' @ us) ts' \<and> set ks' \<union> set ts' = insert p (set ks \<union> set ts) \<and> set ks' \<subseteq> insert p (set ks)"
proof -
  let ?s = "s\<lparr>gs_mark := (gs_mark s)(p := 1)\<rparr>"
  have l: "lists ?s (ks @ p # us) ts" using inv by (simp add: dec_inv_def)
  have pts: "p \<notin> set ts" using lists_distinct [OF l] by simp
  have at: "gs_mark s x = of_bool (x \<in> D)" "x \<in> set ts \<longleftrightarrow> x \<in> D \<and> gs_ref_count s x = 0" if "x \<in> set (ks @ p # us) \<union> set ts" for x
    using inv that unfolding dec_inv_def by blast+
  have ref: "gs_ref_count s x = rc x - int (count R x)" for x using inv by (simp add: dec_inv_def)
  show ?thesis
  proof (cases "gs_ref_count s p = 0")
    case True
    from move_to_tmp [OF l] obtain l' where m: "move_to tmp_obj_list p ?s = Some (?s\<lparr>gs_links := l'\<rparr>)"
      "lists (?s\<lparr>gs_links := l'\<rparr>) (ks @ us) (ts @ [p])" by blast
    have "dec_inv rc (insert p D) R (?s\<lparr>gs_links := l'\<rparr>) (ks @ us) (ts @ [p])"
      unfolding dec_inv_def
    proof (intro conjI ballI allI)
      fix x assume "x \<in> set (ks @ us) \<union> set (ts @ [p])"
      then have x: "x \<in> set (ks @ p # us) \<union> set ts" by auto
      show "gs_mark (?s\<lparr>gs_links := l'\<rparr>) x = of_bool (x \<in> insert p D)" using at(1) [OF x] by simp
      show "x \<in> set (ts @ [p]) \<longleftrightarrow> x \<in> insert p D \<and> gs_ref_count (?s\<lparr>gs_links := l'\<rparr>) x = 0" using at(2) [OF x] True by auto
    qed (use m(2) ref in simp_all)
    with True m(1) show ?thesis by (intro exI [of _ "?s\<lparr>gs_links := l'\<rparr>"] exI [of _ ks] exI [of _ "ts @ [p]"]) auto
  next
    case False
    have "dec_inv rc (insert p D) R ?s (ks @ p # us) ts"
      unfolding dec_inv_def
    proof (intro conjI ballI allI)
      fix x assume x: "x \<in> set (ks @ p # us) \<union> set ts"
      show "gs_mark ?s x = of_bool (x \<in> insert p D)" using at(1) [OF x] by simp
      show "x \<in> set ts \<longleftrightarrow> x \<in> insert p D \<and> gs_ref_count ?s x = 0" using at(2) [OF x] False pts by auto
    qed (use l ref in simp_all)
    with False show ?thesis by (intro exI [of _ ?s] exI [of _ "ks @ [p]"] exI [of _ ts]) auto
  qed
qed

lemma gc_decref_loop_spec:
  assumes "dec_inv rc D R s (ks @ us) ts" "set ks \<subseteq> D" "set us \<inter> D = {}" "set ks \<union> set us \<union> set ts = V" "heap_ok hp V"
    and "\<And>x. x \<in> V \<Longrightarrow> int (count (R + refs hp us) x) \<le> rc x" "next_of (gs_links s) (at_gc us) = Some el1"
  shows "\<exists>s' gs' ts'. gc_decref_loop hp (at_gc us) el1 s = Some s' \<and> dec_inv rc (D \<union> set us) (R + refs hp us) s' gs' ts' \<and> set gs' \<union> set ts' = V"
  using assms
proof (induction us arbitrary: D R s ks ts el1)
  case Nil
  then show ?case by (subst gc_decref_loop.simps) auto
next
  case (Cons p us)
  note inv = Cons.prems(1) and D = Cons.prems(2,3)
  have pV: "p \<in> V" using Cons.prems(4) by auto
  then have ch: "mark_children hp p f t = mark_list f (kids hp p) t" "set (kids hp p) \<subseteq> V" for f t
    using mark_children_kids [OF Cons.prems(5)] Cons.prems(5) by (auto simp: heap_ok_def)
  have "gs_mark s p = 0" using inv D(2) by (simp add: dec_inv_def)
  moreover have "int (count (R + mset (kids hp p)) x) \<le> rc x" if "x \<in> set (kids hp p)" for x
    using Cons.prems(6) [of x] that ch(2) by auto
  with mark_list_decref [OF inv D, of "kids hp p"] ch(2) Cons.prems(4) obtain s1 ks1 ts1 where
    1: "mark_list gc_decref_child (kids hp p) s = Some s1" "dec_inv rc D (R + mset (kids hp p)) s1 (ks1 @ p # us) ts1" "set ks1 \<subseteq> D"
      "set ks1 \<union> set ts1 = set ks \<union> set ts" by auto
  from dec_inv_finish [OF 1(2)] D(2) obtain s2 ks2 ts2 where
    2: "(let s = s1\<lparr>gs_mark := (gs_mark s1)(p := 1)\<rparr> in if gs_ref_count s p = 0 then move_to tmp_obj_list p s else Some s) = Some s2"
      "dec_inv rc (insert p D) (R + mset (kids hp p)) s2 (ks2 @ us) ts2" "set ks2 \<union> set ts2 = insert p (set ks1 \<union> set ts1)" "set ks2 \<subseteq> insert p (set ks1)" by auto
  have el1: "el1 = at_gc us" using lists_next(3) [of s "ks @ p # us" ts ks p us] inv Cons.prems(7) by (simp add: dec_inv_def)
  obtain n where n: "next_of (gs_links s2) (at_gc us) = Some n" using lists_next_any 2(2) unfolding dec_inv_def by blast
  have "p \<notin> set us" using inv lists_distinct by (fastforce simp: dec_inv_def)
  then have b: "set us \<inter> insert p D = {}" using D(2) by auto
  have a: "set ks2 \<subseteq> insert p D" using 2(4) 1(3) by blast
  have c: "set ks2 \<union> set us \<union> set ts2 = V" using 2(3) 1(4) Cons.prems(4) by auto
  have d: "int (count (R + mset (kids hp p) + refs hp us) x) \<le> rc x" if "x \<in> V" for x
    using Cons.prems(6) [OF that] by (simp add: add.assoc)
  note Cons.IH [OF 2(2) a b c Cons.prems(5) d n]
  moreover have "gc_decref_loop hp (at_gc (p # us)) el1 s = gc_decref_loop hp (at_gc us) n s2"
    using \<open>gs_mark s p = 0\<close> ch(1) 1(1) 2(1) n el1 by (subst gc_decref_loop.simps) (simp add: Let_def)
  ultimately show ?case by (simp add: ac_simps)
qed

lemma gc_decref_spec:
  assumes l: "dll (gs_links s) gc_obj_list (map Link gs)" and hp: "heap_ok hp (set gs)" and m: "\<And>x. x \<in> set gs \<Longrightarrow> gs_mark s x = 0"
    and rc: "\<And>x. x \<in> set gs \<Longrightarrow> int (count (refs hp gs) x) \<le> gs_ref_count s x"
  shows "\<exists>s' gs' ts'. gc_decref hp s = Some s' \<and> dec_inv (gs_ref_count s) (set gs) (refs hp gs) s' gs' ts' \<and> set gs' \<union> set ts' = set gs"
proof -
  let ?s = "s\<lparr>gs_links := init_list_head tmp_obj_list (gs_links s)\<rparr>"
  have "lists ?s gs []" using l dll_init_other [OF l, of tmp_obj_list] dll_init [of tmp_obj_list "gs_links s"] by (auto simp: lists_def)
  then have inv: "dec_inv (gs_ref_count s) {} {#} ?s ([] @ gs) []" using m by (simp add: dec_inv_def)
  obtain n where n: "next_of (gs_links ?s) gc_obj_list = Some (at_gc gs)" "next_of (gs_links ?s) (at_gc gs) = Some n"
    using lists_next(1) [OF \<open>lists ?s gs []\<close>] lists_next_any [of ?s "[]" gs "[]"] \<open>lists ?s gs []\<close> by auto
  have "\<exists>s' gs' ts'. gc_decref_loop hp (at_gc gs) n ?s = Some s' \<and> dec_inv (gs_ref_count s) ({} \<union> set gs) ({#} + refs hp gs) s' gs' ts' \<and> set gs' \<union> set ts' = set gs"
    by (rule gc_decref_loop_spec [OF inv]) (use hp rc n in simp_all)
  then show ?thesis using n by (simp add: gc_decref_def Let_def)
qed

section \<open>The second pass\<close>

definition scan_inv :: "(obj \<Rightarrow> int) \<Rightarrow> obj multiset \<Rightarrow> gc_state \<Rightarrow> obj list \<Rightarrow> obj list \<Rightarrow> bool" where
  "scan_inv rc R s gs ts \<longleftrightarrow> lists s gs ts \<and> (\<forall>x. gs_ref_count s x = rc x - int (count R x)) \<and>
     (\<forall>x \<in> set gs \<union> set ts. x \<in> set ts \<longleftrightarrow> gs_ref_count s x = 0)"

lemma scan_inv_mark [simp]: "scan_inv rc R (s\<lparr>gs_mark := m\<rparr>) gs ts = scan_inv rc R s gs ts"
  by (simp add: scan_inv_def)

lemma incref_child_inv:
  assumes inv: "scan_inv rc (add_mset c R) s gs ts" and c: "c \<in> set gs \<union> set ts" "int (count R c) < rc c"
  shows "\<exists>s' ws ts'. gc_scan_incref_child c s = Some s' \<and> scan_inv rc R s' (gs @ ws) ts' \<and>
    mset ts = mset ts' + mset ws \<and> set ws \<subseteq> {c} \<and> c \<notin> set ts' \<and>
    (\<forall>x. gs_mark s x = 0 \<longrightarrow> gs_mark s' x = 0)"
proof -
  let ?s = "s\<lparr>gs_ref_count := (gs_ref_count s)(c := gs_ref_count s c + 1)\<rparr>"
  have refs: "gs_ref_count s x = rc x - int (count (add_mset c R) x)" for x using inv by (simp add: scan_inv_def)
  have at: "x \<in> set ts \<longleftrightarrow> gs_ref_count s x = 0" if "x \<in> set gs \<union> set ts" for x using inv that unfolding scan_inv_def by blast
  have nn: "gs_ref_count s c \<ge> 0" using refs [of c] c(2) by simp
  have l: "lists ?s gs ts" using inv by (simp add: scan_inv_def)
  show ?thesis
  proof (cases "gs_ref_count s c = 0")
    case True
    then have "c \<in> set ts" using at c(1) by blast
    then obtain xs ys where ts: "ts = xs @ c # ys" by (meson split_list)
    from move_to_gc [OF l [unfolded ts]] obtain l' where
      m: "move_to gc_obj_list c ?s = Some (?s\<lparr>gs_links := l'\<rparr>)" "lists (?s\<lparr>gs_links := l'\<rparr>) (gs @ [c]) (xs @ ys)" by blast
    let ?t = "?s\<lparr>gs_links := l', gs_mark := (gs_mark s)(c := 0)\<rparr>"
    have "gc_scan_incref_child c s = Some ?t" using True m(1) by (simp add: gc_scan_incref_child_def)
    moreover have c': "c \<notin> set (xs @ ys)" using lists_distinct [OF m(2)] by auto
    moreover have "scan_inv rc R ?t (gs @ [c]) (xs @ ys)"
      unfolding scan_inv_def
    proof (intro conjI ballI allI)
      fix x assume "x \<in> set (gs @ [c]) \<union> set (xs @ ys)"
      then have x: "x \<in> set gs \<union> set ts" using c(1) ts by auto
      show "x \<in> set (xs @ ys) \<longleftrightarrow> gs_ref_count ?t x = 0" using at [OF x] ts True c' by auto
    qed (use m(2) refs in \<open>simp_all add: lists_def\<close>)
    ultimately show ?thesis using ts by (intro exI [of _ ?t] exI [of _ "[c]"] exI [of _ "xs @ ys"]) simp
  next
    case False
    then have "gc_scan_incref_child c s = Some ?s" using nn by (simp add: gc_scan_incref_child_def)
    moreover have c': "c \<notin> set ts" using at [OF c(1)] False by simp
    moreover have "scan_inv rc R ?s gs ts"
      unfolding scan_inv_def
    proof (intro conjI ballI allI)
      fix x assume x: "x \<in> set gs \<union> set ts"
      show "x \<in> set ts \<longleftrightarrow> gs_ref_count ?s x = 0" using at [OF x] False nn c' by auto
    qed (use l refs in simp_all)
    ultimately show ?thesis by (intro exI [of _ ?s] exI [of _ "[]"] exI [of _ ts]) simp
  qed
qed

lemma mark_list_incref:
  assumes "scan_inv rc (R + mset cs) s gs ts" "set cs \<subseteq> set gs \<union> set ts" "\<And>x. x \<in> set cs \<Longrightarrow> int (count (R + mset cs) x) \<le> rc x"
  shows "\<exists>s' ws ts'. mark_list gc_scan_incref_child cs s = Some s' \<and> scan_inv rc R s' (gs @ ws) ts' \<and>
    mset ts = mset ts' + mset ws \<and> set ws \<subseteq> set cs \<and> set cs \<inter> set ts' = {} \<and>
    (\<forall>x. gs_mark s x = 0 \<longrightarrow> gs_mark s' x = 0)"
  using assms
proof (induction cs arbitrary: s gs ts)
  case Nil
  then show ?case by (intro exI [of _ s] exI [of _ "[]"] exI [of _ ts]) simp
next
  case (Cons c cs)
  have "int (count (R + mset (c # cs)) c) \<le> rc c" using Cons.prems(3) [of c] by simp
  then have lt: "int (count (R + mset cs) c) < rc c" by simp
  have inv: "scan_inv rc (add_mset c (R + mset cs)) s gs ts" using Cons.prems(1) by simp
  from incref_child_inv [OF inv _ lt] Cons.prems(2) obtain s1 ws1 ts1 where
    1: "gc_scan_incref_child c s = Some s1" "scan_inv rc (R + mset cs) s1 (gs @ ws1) ts1" "mset ts = mset ts1 + mset ws1"
      "set ws1 \<subseteq> {c}" "c \<notin> set ts1" "\<And>x. gs_mark s x = 0 \<Longrightarrow> gs_mark s1 x = 0" by auto
  have sub: "set ts = set ts1 \<union> set ws1" using 1(3) by (metis set_mset_mset set_mset_union)
  have "set cs \<subseteq> set (gs @ ws1) \<union> set ts1" using Cons.prems(2) sub by auto
  moreover have "int (count (R + mset cs) x) \<le> rc x" if "x \<in> set cs" for x using Cons.prems(3) [of x] that by (simp split: if_splits)
  ultimately obtain s2 ws2 ts2 where
    2: "mark_list gc_scan_incref_child cs s1 = Some s2" "scan_inv rc R s2 ((gs @ ws1) @ ws2) ts2" "mset ts1 = mset ts2 + mset ws2"
      "set ws2 \<subseteq> set cs" "set cs \<inter> set ts2 = {}" "\<And>x. gs_mark s1 x = 0 \<Longrightarrow> gs_mark s2 x = 0"
    using Cons.IH [OF 1(2)] by blast
  have "set ts2 \<subseteq> set ts1" using 2(3) by (metis set_mset_mset set_mset_union Un_upper1)
  then show ?case using 1 2 by (intro exI [of _ s2] exI [of _ "ws1 @ ws2"] exI [of _ ts2]) auto
qed

lemma refs_mset: "mset ts = mset us \<Longrightarrow> refs hp ts = refs hp us"
proof -
  have "refs hp ps = sum_mset (image_mset (\<lambda>p. mset (kids hp p)) (mset ps))" for ps by (induction ps) simp_all
  then show "mset ts = mset us \<Longrightarrow> refs hp ts = refs hp us" by simp
qed

definition closed_in :: "gc_heap \<Rightarrow> obj set \<Rightarrow> obj set \<Rightarrow> bool" where
  "closed_in hp P Q \<longleftrightarrow> (\<forall>p \<in> P. set (kids hp p) \<subseteq> Q)"

lemma gc_scan_loop_spec:
  assumes "scan_inv rc (refs hp us + refs hp ts) s (ks @ us) ts" "set ks \<union> set us \<union> set ts = V" "heap_ok hp V"
    and "\<And>x. x \<in> V \<Longrightarrow> int (count (refs hp us + refs hp ts) x) \<le> rc x"
    and "\<And>x. x \<in> set ks \<Longrightarrow> gs_mark s x = 0" "closed_in hp (set ks) (set (ks @ us))" "set (ks @ us) \<subseteq> Q" "closed_in hp Q Q"
  shows "\<exists>s' gs' ts'. gc_scan_loop hp (at_gc us) s = Some s' \<and> scan_inv rc (refs hp ts') s' gs' ts' \<and> set gs' \<union> set ts' = V \<and>
    set (ks @ us) \<subseteq> set gs' \<and> set gs' \<subseteq> Q \<and> closed_in hp (set gs') (set gs') \<and> (\<forall>x \<in> set gs'. gs_mark s' x = 0) \<and>
    (\<forall>x \<in> V. int (count (refs hp ts') x) \<le> rc x)"
  using assms
proof (induction "length us + length ts" arbitrary: ks us ts s)
  case 0
  moreover have "gc_scan_loop hp (at_gc []) s = Some s" by (subst gc_scan_loop.simps) simp
  ultimately show ?case by (intro exI [of _ s] exI [of _ ks] exI [of _ "[]"]) auto
next
  case (Suc k)
  note inv = Suc.prems(1) and V = Suc.prems(2)
  show ?case
  proof (cases us)
    case Nil
    then show ?thesis using Suc.prems by (subst gc_scan_loop.simps) auto
  next
    case (Cons p us')
    have pV: "p \<in> V" "p \<in> set (ks @ us)" "p \<in> Q" using V Cons Suc.prems(7) by auto
    have ch: "mark_children hp p f t = mark_list f (kids hp p) t" "set (kids hp p) \<subseteq> V" for f t
      using mark_children_kids [OF Suc.prems(3)] Suc.prems(3) pV(1) by (auto simp: heap_ok_def)
    define R where "R = refs hp us' + refs hp ts"
    let ?s = "s\<lparr>gs_mark := (gs_mark s)(p := 0)\<rparr>"
    have "refs hp us + refs hp ts = R + mset (kids hp p)" using Cons by (simp add: R_def ac_simps)
    then have inv1: "scan_inv rc (R + mset (kids hp p)) ?s (ks @ us) ts" using inv by simp
    have "p \<notin> set ts" using inv Cons lists_distinct by (fastforce simp: scan_inv_def)
    have Rle: "int (count (R + mset (kids hp p)) x) \<le> rc x" if "x \<in> V" for x
      using Suc.prems(4) [OF that] Cons by (simp add: R_def ac_simps)
    then have "0 \<le> gs_ref_count s p" using inv1 pV(1) by (simp add: scan_inv_def)
    moreover have "gs_ref_count s p \<noteq> 0" using inv pV(2) \<open>p \<notin> set ts\<close> unfolding scan_inv_def by blast
    ultimately have pos: "gs_ref_count s p > 0" by simp
    have "set (kids hp p) \<subseteq> set (ks @ us) \<union> set ts" using ch(2) V by auto
    from mark_list_incref [OF inv1 this] Rle ch(2) obtain s1 ws ts1 where
      1: "mark_list gc_scan_incref_child (kids hp p) ?s = Some s1" "scan_inv rc R s1 ((ks @ us) @ ws) ts1" "mset ts = mset ts1 + mset ws"
        "set ws \<subseteq> set (kids hp p)" "set (kids hp p) \<inter> set ts1 = {}" "\<And>x. gs_mark ?s x = 0 \<Longrightarrow> gs_mark s1 x = 0" by blast
    have R: "R = refs hp (us' @ ws) + refs hp ts1" using refs_mset [of ts "ws @ ts1" hp] 1(3) by (simp add: R_def ac_simps)
    have ts: "set ts = set ts1 \<union> set ws" using 1(3) by (metis set_mset_mset set_mset_union)
    have gs: "(ks @ us) @ ws = (ks @ [p]) @ (us' @ ws)" using Cons by simp
    have V': "set (ks @ [p]) \<union> set (us' @ ws) \<union> set ts1 = V" using V ts Cons by auto
    have le: "int (count (refs hp (us' @ ws) + refs hp ts1) x) \<le> rc x" if "x \<in> V" for x
      using Rle [OF that] unfolding R [symmetric] by simp
    have mk: "gs_mark s1 x = 0" if "x \<in> set (ks @ [p])" for x using 1(6) [of x] Suc.prems(5) [of x] that by auto
    have kp: "set (kids hp p) \<subseteq> set ((ks @ [p]) @ us' @ ws)" using ch(2) 1(5) V' by fastforce
    then have cl: "closed_in hp (set (ks @ [p])) (set ((ks @ [p]) @ us' @ ws))"
      using Suc.prems(6) Cons by (auto simp: closed_in_def)
    have q: "set ((ks @ [p]) @ us' @ ws) \<subseteq> Q" using Suc.prems(7,8) Cons 1(4) pV(3) by (auto simp: closed_in_def)
    have len: "k = length (us' @ ws) + length ts1" using Suc.hyps(2) Cons arg_cong [OF 1(3), of size] by simp
    have inv2: "scan_inv rc (refs hp (us' @ ws) + refs hp ts1) s1 ((ks @ [p]) @ us' @ ws) ts1" using 1(2) unfolding R gs by simp
    from Suc.hyps(1) [OF len inv2 V' Suc.prems(3) le mk cl q Suc.prems(8)] obtain s' gs' ts' where
      l: "gc_scan_loop hp (at_gc (us' @ ws)) s1 = Some s'" "scan_inv rc (refs hp ts') s' gs' ts'" "set gs' \<union> set ts' = V"
      "set ((ks @ [p]) @ us' @ ws) \<subseteq> set gs'" "set gs' \<subseteq> Q" "closed_in hp (set gs') (set gs')" "\<forall>x \<in> set gs'. gs_mark s' x = 0"
      "\<forall>x \<in> V. int (count (refs hp ts') x) \<le> rc x" by blast
    have nx: "next_of (gs_links s1) (Link p) = Some (at_gc (us' @ ws))"
      using lists_next(3) [of s1 "(ks @ us) @ ws" ts1 ks p "us' @ ws"] 1(2) Cons by (simp add: scan_inv_def)
    have "gc_scan_loop hp (at_gc us) s = Some s'"
      using pos ch(1) 1(1) nx l(1) Cons by (subst gc_scan_loop.simps) simp
    moreover have "set (ks @ us) \<subseteq> set gs'" using l(4) Cons by auto
    ultimately show ?thesis using l(2,3,5-8) by blast
  qed
qed

lemma mark_list_incref2:
  "mark_list gc_scan_incref_child2 cs s = Some (s\<lparr>gs_ref_count := \<lambda>x. gs_ref_count s x + int (count (mset cs) x)\<rparr>)"
proof (induction cs arbitrary: s)
  case (Cons c cs)
  have "gc_scan_incref_child2 c s = Some (s\<lparr>gs_ref_count := (gs_ref_count s)(c := gs_ref_count s c + 1)\<rparr>)" by (simp add: gc_scan_incref_child2_def)
  then show ?case by (auto simp: Cons.IH fun_eq_iff intro!: arg_cong [where f = "\<lambda>r. s\<lparr>gs_ref_count := r\<rparr>"])
qed simp

lemma gc_restore_loop_spec:
  assumes "lists s gs (ks @ us)" "heap_ok hp V" "set us \<subseteq> V"
  shows "gc_restore_loop hp (at_tmp us) s = Some (s\<lparr>gs_ref_count := \<lambda>x. gs_ref_count s x + int (count (refs hp us) x)\<rparr>)"
  using assms
proof (induction us arbitrary: s ks)
  case Nil
  then show ?case by (subst gc_restore_loop.simps) simp
next
  case (Cons p us)
  let ?s = "s\<lparr>gs_ref_count := \<lambda>x. gs_ref_count s x + int (count (mset (kids hp p)) x)\<rparr>"
  have "mark_children hp p gc_scan_incref_child2 s = Some ?s"
    using mark_children_kids [OF Cons.prems(2)] Cons.prems(3) mark_list_incref2 by simp
  moreover have "next_of (gs_links ?s) (Link p) = Some (at_tmp us)"
    using lists_next(4) [OF Cons.prems(1), of ks p us] by simp
  ultimately show ?case using Cons.IH [of ?s "ks @ [p]"] Cons.prems
    by (subst gc_restore_loop.simps) (simp add: add.assoc)
qed

section \<open>Properties\<close>

text \<open>References between objects; a root has a reference from outside the objects.\<close>

definition points_to :: "gc_heap \<Rightarrow> (obj \<times> obj) set" where
  "points_to hp = {(p, c). c \<in> set (kids hp p)}"

definition gc_roots :: "gc_heap \<Rightarrow> gc_state \<Rightarrow> obj list \<Rightarrow> obj set" where
  "gc_roots hp s gs = {x \<in> set gs. int (count (refs hp gs) x) < gs_ref_count s x}"

text \<open>
  A consistent heap: the list holds the objects \<open>gs\<close>, all references between them are to objects of the list, no mark is set and every reference
  count covers at least the references from the objects of the list.
\<close>

definition gc_consistent :: "gc_heap \<Rightarrow> gc_state \<Rightarrow> obj list \<Rightarrow> bool" where
  "gc_consistent hp s gs \<longleftrightarrow> dll (gs_links s) gc_obj_list (map Link gs) \<and> heap_ok hp (set gs) \<and>
     (\<forall>x \<in> set gs. gs_mark s x = 0 \<and> int (count (refs hp gs) x) \<le> gs_ref_count s x)"

lemma gc_passes:
  assumes ok: "gc_consistent hp s gs"
  shows "\<exists>s1 s' live garbage. gc_decref hp s = Some s1 \<and> gc_scan hp s1 = Some s' \<and>
    lists s' live garbage \<and> set live \<union> set garbage = set gs \<and>
    set live = (points_to hp)\<^sup>* `` gc_roots hp s gs \<and>
    gs_ref_count s' = gs_ref_count s \<and> (\<forall>x \<in> set live. gs_mark s' x = 0)"
proof -
  define rc Q where "rc = gs_ref_count s" and "Q = (points_to hp)\<^sup>* `` gc_roots hp s gs"
  note hp = ok [unfolded gc_consistent_def, THEN conjunct2, THEN conjunct1]
  from gc_decref_spec [of s gs hp] ok obtain s1 gs1 ts1 where
    1: "gc_decref hp s = Some s1" "dec_inv rc (set gs) (refs hp gs) s1 gs1 ts1" "set gs1 \<union> set ts1 = set gs" by (auto simp: gc_consistent_def rc_def)
  have ref1: "gs_ref_count s1 x = rc x - int (count (refs hp gs) x)" for x using 1(2) by (simp add: dec_inv_def)
  have split: "x \<in> set ts1 \<longleftrightarrow> gs_ref_count s1 x = 0" if "x \<in> set gs" for x using 1(2,3) that by (auto simp: dec_inv_def)
  have le: "int (count (refs hp gs) x) \<le> rc x" if "x \<in> set gs" for x using ok that by (simp add: gc_consistent_def rc_def)
  have l1: "lists s1 gs1 ts1" using 1(2) by (simp add: dec_inv_def)
  have "distinct gs" using ok by (auto simp: gc_consistent_def dll_def distinct_map)
  then have "mset gs = mset (gs1 @ ts1)" using lists_distinct [OF l1] 1(3) by (intro set_eq_iff_mset_eq_distinct [THEN iffD1]) auto
  then have R: "refs hp gs = refs hp gs1 + refs hp ts1" using refs_mset [of gs "gs1 @ ts1" hp] by simp
  have roots: "set gs1 = gc_roots hp s gs"
  proof -
    have "x \<in> set gs1 \<longleftrightarrow> x \<in> set gs \<and> x \<notin> set ts1" for x using 1(3) lists_distinct [OF l1] by auto
    moreover have "x \<notin> set ts1 \<longleftrightarrow> int (count (refs hp gs) x) < rc x" if "x \<in> set gs" for x
      using split [OF that] ref1 [of x] le [OF that] by auto
    ultimately show ?thesis by (auto simp: gc_roots_def rc_def)
  qed
  have inv: "scan_inv rc (refs hp gs1 + refs hp ts1) s1 ([] @ gs1) ts1"
    using l1 ref1 split 1(3) by (auto simp: scan_inv_def R)
  have Qc: "closed_in hp Q Q" by (auto simp: closed_in_def Q_def points_to_def intro: rtrancl_into_rtrancl)
  have "set ([] @ gs1) \<subseteq> Q" using roots by (auto simp: Q_def)
  from gc_scan_loop_spec [OF inv _ hp _ _ _ this Qc] 1(3) le R obtain s2 gs2 ts2 where
    2: "gc_scan_loop hp (at_gc gs1) s1 = Some s2" "scan_inv rc (refs hp ts2) s2 gs2 ts2" "set gs2 \<union> set ts2 = set gs"
      "set gs1 \<subseteq> set gs2" "set gs2 \<subseteq> Q" "closed_in hp (set gs2) (set gs2)" "\<forall>x \<in> set gs2. gs_mark s2 x = 0"
    by (auto simp: closed_in_def)
  have l2: "lists s2 gs2 ([] @ ts2)" using 2(2) by (simp add: scan_inv_def)
  let ?s = "s2\<lparr>gs_ref_count := \<lambda>x. gs_ref_count s2 x + int (count (refs hp ts2) x)\<rparr>"
  have "gc_restore_loop hp (at_tmp ts2) s2 = Some ?s" using gc_restore_loop_spec [OF l2 hp] 2(3) by auto
  then have scan: "gc_scan hp s1 = Some ?s" using lists_next(1) [OF l1] lists_next(2) [OF l2] 2(1) by (simp add: gc_scan_def)
  have "Q \<subseteq> set gs2"
  proof
    fix x assume "x \<in> Q"
    then obtain r where r: "r \<in> gc_roots hp s gs" "(r, x) \<in> (points_to hp)\<^sup>*" by (auto simp: Q_def)
    from r(2) show "x \<in> set gs2"
      by (induction rule: rtrancl_induct) (use r(1) roots 2(4,6) in \<open>auto simp: closed_in_def points_to_def\<close>)
  qed
  with 2(5) have "set gs2 = Q" by simp
  moreover have "gs_ref_count ?s = gs_ref_count s" using 2(2) by (auto simp: scan_inv_def rc_def fun_eq_iff)
  ultimately show ?thesis using 1(1) scan l2 2(3,7) unfolding Q_def
    by (intro exI [of _ s1] exI [of _ ?s] exI [of _ gs2] exI [of _ ts2]) auto
qed

text \<open>
  C8. The collector finds exactly the garbage. On a consistent heap the two passes end without a failed assertion and without following a \<open>NULL\<close> link.
  Then \<open>gc_obj_list\<close> holds the objects that can be reached, over the references \<open>mark_children\<close> visits, from an object with a reference from outside, with their
  marks reset for the next collection; \<open>tmp_obj_list\<close>, whose objects are freed next, holds all the others; and every reference count has its old value.
\<close>

theorem gc_finds_garbage:
  assumes "gc_consistent hp s gs"
  shows "\<exists>s1 s' live garbage. gc_decref hp s = Some s1 \<and> gc_scan hp s1 = Some s' \<and>
    dll (gs_links s') gc_obj_list (map Link live) \<and> dll (gs_links s') tmp_obj_list (map Link garbage) \<and>
    set live = (points_to hp)\<^sup>* `` gc_roots hp s gs \<and>
    set garbage = set gs - (points_to hp)\<^sup>* `` gc_roots hp s gs \<and>
    gs_ref_count s' = gs_ref_count s \<and> (\<forall>x \<in> set live. gs_mark s' x = 0)"
proof -
  from gc_passes [OF assms] obtain s1 s' live garbage where
    g: "gc_decref hp s = Some s1" "gc_scan hp s1 = Some s'" "lists s' live garbage" "set live \<union> set garbage = set gs"
      "set live = (points_to hp)\<^sup>* `` gc_roots hp s gs" "gs_ref_count s' = gs_ref_count s" "\<forall>x \<in> set live. gs_mark s' x = 0" by blast
  have "set garbage = set gs - set live" using g(3,4) by (auto simp: lists_def)
  with g show ?thesis unfolding lists_def by blast
qed

text \<open>Two objects that refer to each other, an object with a reference from outside, and the shape of all three.\<close>

theorem gc_finds_garbage_witness:
  "\<exists>hp s gs. gc_consistent hp s gs \<and> gs = [0, 1, 2, 3] \<and> gc_roots hp s gs = {3} \<and>
     (\<exists>s1 s' live garbage. gc_decref hp s = Some s1 \<and> gc_scan hp s1 = Some s' \<and>
        dll (gs_links s') gc_obj_list (map Link live) \<and> dll (gs_links s') tmp_obj_list (map Link garbage) \<and>
        set garbage = {0, 1, 2, 3} - (points_to hp)\<^sup>* `` {3})"
proof -
  let ?hp = "\<lparr>gh_object = (\<lambda>_. SHAPE None)(1 := JS_OBJECT 0 [PROP_NORMAL (JS_GC_VALUE 2)] 1, 2 := JS_OBJECT 0 [PROP_NORMAL (JS_GC_VALUE 1)] 1,
      3 := JS_OBJECT 0 [PROP_DELETED] 1), gh_gc_mark = (\<lambda>_. None)\<rparr>"
  let ?l = "\<lparr>prev_of = [gc_obj_list \<mapsto> Link 3, Link 0 \<mapsto> gc_obj_list, Link 1 \<mapsto> Link 0, Link 2 \<mapsto> Link 1, Link 3 \<mapsto> Link 2],
      next_of = [gc_obj_list \<mapsto> Link 0, Link 0 \<mapsto> Link 1, Link 1 \<mapsto> Link 2, Link 2 \<mapsto> Link 3, Link 3 \<mapsto> gc_obj_list]\<rparr>"
  let ?s = "\<lparr>gs_links = ?l, gs_ref_count = (\<lambda>_. 1)(0 := 3), gs_mark = (\<lambda>_. 0)\<rparr>"
  have k: "kids ?hp 0 = []" "kids ?hp 1 = [0, 2]" "kids ?hp 2 = [0, 1]" "kids ?hp 3 = [0]"
    by (simp_all add: kids_def children_of_def mark_property_def JS_MarkValue_def mark_ptr_def JS_CLASS_OBJECT_def)
  have r: "refs ?hp [0, 1, 2, 3] = {#0, 2, 0, 1, 0#}"
    unfolding refs_simps k by simp
  have "heap_ok ?hp (set [0, 1, 2, 3])"
    by (auto simp add: heap_ok_def kids_def children_of_def mark_property_def JS_MarkValue_def mark_ptr_def JS_CLASS_OBJECT_def)
  then have c: "gc_consistent ?hp ?s [0, 1, 2, 3]" unfolding gc_consistent_def r by (simp add: dll_def)
  have roots: "gc_roots ?hp ?s [0, 1, 2, 3] = {3}" unfolding gc_roots_def r by auto
  from gc_finds_garbage [OF c] have e: "\<exists>s1 s' live garbage. gc_decref ?hp ?s = Some s1 \<and> gc_scan ?hp s1 = Some s' \<and>
        dll (gs_links s') gc_obj_list (map Link live) \<and> dll (gs_links s') tmp_obj_list (map Link garbage) \<and>
        set garbage = {0, 1, 2, 3} - (points_to ?hp)\<^sup>* `` {3}" unfolding roots list.set by blast
  show ?thesis by (rule exI [of _ ?hp], rule exI [of _ ?s], rule exI [of _ "[0, 1, 2, 3]"]) (rule conjI [OF c conjI [OF refl conjI [OF roots e]]])
qed

end
