(* ===== verification/QSort.thy ===== *)
theory QSort
  imports Cutils
begin

text \<open>
  The sort of \<^verbatim>\<open>cutils.c\<close>: a quick sort with a stack of its own, insertion sort for short segments and heap sort when the depth limit is
  reached. The array is a list of elements; a pointer into it is the index of an element, so that an offset of \<open>size\<close> bytes is 1, and
  an access outside the array is \<open>None\<close>. The exchange functions work on bytes, and swap two elements of an array of byte sequences
  of the same size. The comparison is a parameter, like the function pointer of the source. The size of an element is positive; with size 0 the source returns at once.

  For any comparison, consistent or not, the sort ends, never leaves the array or its stack of 50 segments, and permutes the elements. The locale
  \<open>comparator\<close> is the contract of a comparison function; it is interpreted on the comparisons of typed arrays in \<^verbatim>\<open>quickjs.c\<close>, and makes the result sorted.
\<close>

section \<open>Exchanging bytes\<close>

text \<open>One turn of the loops: \<open>w\<close> bytes at \<open>ap\<close> and \<open>bp\<close>, read before they are written.\<close>

definition exchange_unit :: "nat \<Rightarrow> u8 list \<Rightarrow> nat \<Rightarrow> nat \<Rightarrow> u8 list option" where
  "exchange_unit w b ap bp = do {
     t \<leftarrow> slice b ap w;
     u \<leftarrow> slice b bp w;
     b \<leftarrow> blit b ap u;
     blit b bp t }"

fun exchange_units :: "nat \<Rightarrow> nat \<Rightarrow> u8 list \<Rightarrow> nat \<Rightarrow> nat \<Rightarrow> u8 list option" where
  "exchange_units w 0 b ap bp = Some b"
| "exchange_units w (Suc n) b ap bp = do {
     b \<leftarrow> exchange_unit w b ap bp;
     exchange_units w n b (ap + w) (bp + w) }"

type_synonym exchange_f = "u8 list \<Rightarrow> nat \<Rightarrow> nat \<Rightarrow> nat \<Rightarrow> u8 list option"

definition exchange_bytes :: exchange_f where
  "exchange_bytes b ap bp sz = exchange_units 1 sz b ap bp"

definition exchange_one_byte :: exchange_f where
  "exchange_one_byte b ap bp sz = exchange_unit 1 b ap bp"

definition exchange_int16s :: exchange_f where
  "exchange_int16s b ap bp sz = exchange_units 2 (sz div 2) b ap bp"

definition exchange_one_int16 :: exchange_f where
  "exchange_one_int16 b ap bp sz = exchange_unit 2 b ap bp"

definition exchange_int32s :: exchange_f where
  "exchange_int32s b ap bp sz = exchange_units 4 (sz div 4) b ap bp"

definition exchange_one_int32 :: exchange_f where
  "exchange_one_int32 b ap bp sz = exchange_unit 4 b ap bp"

definition exchange_int64s :: exchange_f where
  "exchange_int64s b ap bp sz = exchange_units 8 (sz div 8) b ap bp"

definition exchange_one_int64 :: exchange_f where
  "exchange_one_int64 b ap bp sz = exchange_unit 8 b ap bp"

definition exchange_int128s :: exchange_f where
  "exchange_int128s b ap bp sz = exchange_units 16 (sz div 16) b ap bp"

definition exchange_one_int128 :: exchange_f where
  "exchange_one_int128 b ap bp sz = exchange_unit 16 b ap bp"

text \<open>\<open>base\<close> is the address of the array.\<close>

definition exchange_func :: "nat \<Rightarrow> nat \<Rightarrow> exchange_f" where
  "exchange_func base sz =
     (let k = (base OR sz) AND 15 in
      if k = 0 then (if sz = 16 then exchange_one_int128 else exchange_int128s)
      else if k = 8 then (if sz = 8 then exchange_one_int64 else exchange_int64s)
      else if k \<in> {4, 12} then (if sz = 4 then exchange_one_int32 else exchange_int32s)
      else if k \<in> {2, 6, 10, 14} then (if sz = 2 then exchange_one_int16 else exchange_int16s)
      else (if sz = 1 then exchange_one_byte else exchange_bytes))"

section \<open>Heap sort\<close>

type_synonym 'a cmp_f = "'a \<Rightarrow> 'a \<Rightarrow> int"

definition swap :: "'a list \<Rightarrow> nat \<Rightarrow> nat \<Rightarrow> 'a list option" where
  "swap xs a b = do { x \<leftarrow> rd xs a; y \<leftarrow> rd xs b; Some (xs[a := y, b := x]) }"

definition cmp_at :: "'a cmp_f \<Rightarrow> 'a list \<Rightarrow> nat \<Rightarrow> nat \<Rightarrow> int option" where
  "cmp_at cmp xs a b = do { x \<leftarrow> rd xs a; y \<leftarrow> rd xs b; Some (cmp x y) }"

definition larger_child :: "'a cmp_f \<Rightarrow> 'a list \<Rightarrow> nat \<Rightarrow> nat \<Rightarrow> nat \<Rightarrow> nat option" where
  "larger_child cmp xs basep c n =
     (if c < n - 1 then do { d \<leftarrow> cmp_at cmp xs (basep + c) (basep + c + 1); Some (if d \<le> 0 then c + 1 else c) }
      else Some c)"

lemma larger_child_bound: "larger_child cmp xs basep c n = Some c' \<Longrightarrow> c < n \<Longrightarrow> c \<le> c' \<and> c' < n"
  by (auto simp: larger_child_def bind_Some_iff split: if_splits)

function sift_down :: "'a cmp_f \<Rightarrow> 'a list \<Rightarrow> nat \<Rightarrow> nat \<Rightarrow> nat \<Rightarrow> 'a list option" where
  "sift_down cmp xs basep r n =
     (let c = r * 2 + 1 in
      if c < n then
        case larger_child cmp xs basep c n of
          None \<Rightarrow> None
        | Some c \<Rightarrow> do {
            d \<leftarrow> cmp_at cmp xs (basep + r) (basep + c);
            if d > 0 then Some xs
            else do {
              xs \<leftarrow> swap xs (basep + r) (basep + c);
              sift_down cmp xs basep c n } }
      else Some xs)"
  by pat_completeness auto
termination
  by (relation "measure (\<lambda>(cmp, xs, b, r, n). n - r)") (auto dest: larger_child_bound)

declare sift_down.simps [simp del]

fun heapify :: "'a cmp_f \<Rightarrow> 'a list \<Rightarrow> nat \<Rightarrow> nat \<Rightarrow> nat \<Rightarrow> 'a list option" where
  "heapify cmp xs basep 0 n = Some xs"
| "heapify cmp xs basep (Suc i) n = do { xs \<leftarrow> sift_down cmp xs basep i n; heapify cmp xs basep i n }"

fun heap_extract :: "'a cmp_f \<Rightarrow> 'a list \<Rightarrow> nat \<Rightarrow> nat \<Rightarrow> 'a list option" where
  "heap_extract cmp xs basep 0 = Some xs"
| "heap_extract cmp xs basep (Suc i) = do {
     xs \<leftarrow> swap xs basep (basep + Suc i);
     xs \<leftarrow> sift_down cmp xs basep 0 (Suc i);
     heap_extract cmp xs basep i }"

definition heapsortx :: "'a cmp_f \<Rightarrow> 'a list \<Rightarrow> nat \<Rightarrow> nat \<Rightarrow> 'a list option" where
  "heapsortx cmp xs basep nmemb =
     (if nmemb > 1 then do {
        xs \<leftarrow> heapify cmp xs basep (nmemb div 2) nmemb;
        heap_extract cmp xs basep (nmemb - 1) }
      else Some xs)"

section \<open>Quick sort\<close>

definition med3 :: "'a cmp_f \<Rightarrow> 'a list \<Rightarrow> nat \<Rightarrow> nat \<Rightarrow> nat \<Rightarrow> nat option" where
  "med3 cmp xs a b c = do {
     ab \<leftarrow> cmp_at cmp xs a b;
     bc \<leftarrow> cmp_at cmp xs b c;
     ac \<leftarrow> cmp_at cmp xs a c;
     Some (if ab < 0 then (if bc < 0 then b else if ac < 0 then c else a)
           else (if bc > 0 then b else if ac < 0 then a else c)) }"

text \<open>The pointers and counters of the partition; \<open>pt_i\<close>, \<open>pt_lt\<close> and \<open>pt_gt\<close> count the elements before \<open>pt_pi\<close>, \<open>pt_plt\<close> and \<open>pt_pgt\<close>.\<close>

record part =
  pt_i :: nat
  pt_lt :: nat
  pt_gt :: nat
  pt_pi :: nat
  pt_plt :: nat
  pt_pj :: nat
  pt_pgt :: nat

function part_up :: "'a cmp_f \<Rightarrow> nat \<Rightarrow> 'a list \<Rightarrow> part \<Rightarrow> ('a list \<times> part) option" where
  "part_up cmp ptr xs s =
     (if pt_pi s < pt_pj s then
        case cmp_at cmp xs ptr (pt_pi s) of
          None \<Rightarrow> None
        | Some c \<Rightarrow>
            if c \<ge> 0 then
              if c = 0 then
                case swap xs (pt_plt s) (pt_pi s) of
                  None \<Rightarrow> None
                | Some xs \<Rightarrow> part_up cmp ptr xs (s\<lparr>pt_lt := pt_lt s + 1, pt_plt := pt_plt s + 1, pt_i := pt_i s + 1, pt_pi := pt_pi s + 1\<rparr>)
              else part_up cmp ptr xs (s\<lparr>pt_i := pt_i s + 1, pt_pi := pt_pi s + 1\<rparr>)
            else Some (xs, s)
      else Some (xs, s))"
  by pat_completeness auto
termination
  by (relation "measure (\<lambda>(cmp, ptr, xs, s). pt_pj s - pt_pi s)") auto

declare part_up.simps [simp del]

text \<open>\<open>pj -= size\<close> comes first in the condition of the second loop.\<close>

function part_down :: "'a cmp_f \<Rightarrow> nat \<Rightarrow> 'a list \<Rightarrow> part \<Rightarrow> ('a list \<times> part) option" where
  "part_down cmp ptr xs s =
     (if pt_pj s = 0 then None
      else
        let s = s\<lparr>pt_pj := pt_pj s - 1\<rparr> in
        if pt_pi s < pt_pj s then
          case cmp_at cmp xs ptr (pt_pj s) of
            None \<Rightarrow> None
          | Some c \<Rightarrow>
              if c \<le> 0 then
                if c = 0 then
                  if pt_gt s = 0 \<or> pt_pgt s = 0 then None
                  else
                    let s = s\<lparr>pt_gt := pt_gt s - 1, pt_pgt := pt_pgt s - 1\<rparr> in
                    case swap xs (pt_pgt s) (pt_pj s) of
                      None \<Rightarrow> None
                    | Some xs \<Rightarrow> part_down cmp ptr xs s
                else part_down cmp ptr xs s
              else Some (xs, s)
        else Some (xs, s))"
  by pat_completeness auto
termination
  by (relation "measure (\<lambda>(cmp, ptr, xs, s). pt_pj s)") auto

declare part_down.simps [simp del]

partial_function (option) part_loop :: "'a cmp_f \<Rightarrow> nat \<Rightarrow> 'a list \<Rightarrow> part \<Rightarrow> ('a list \<times> part) option" where
  "part_loop cmp ptr xs s = do {
     (xs, s) \<leftarrow> part_up cmp ptr xs s;
     (xs, s) \<leftarrow> part_down cmp ptr xs s;
     if pt_pi s \<ge> pt_pj s then Some (xs, s)
     else do {
       xs \<leftarrow> swap xs (pt_pi s) (pt_pj s);
       part_loop cmp ptr xs (s\<lparr>pt_i := pt_i s + 1, pt_pi := pt_pi s + 1\<rparr>) } }"

text \<open>\<open>swap_block\<close> of \<open>span\<close> elements.\<close>

fun swap_block :: "'a list \<Rightarrow> nat \<Rightarrow> nat \<Rightarrow> nat \<Rightarrow> 'a list option" where
  "swap_block xs a b 0 = Some xs"
| "swap_block xs a b (Suc n) = do { xs \<leftarrow> swap xs a b; swap_block xs (a + 1) (b + 1) n }"

definition ptr_diff :: "nat \<Rightarrow> nat \<Rightarrow> nat option" where
  "ptr_diff p q = (if q \<le> p then Some (p - q) else None)"

text \<open>The body of the inner loop up to the choice of the next segment: the array, \<open>lt\<close>, \<open>gt\<close> and \<open>pgt\<close>.\<close>

definition partition_segment :: "'a cmp_f \<Rightarrow> 'a list \<Rightarrow> nat \<Rightarrow> nat \<Rightarrow> ('a list \<times> nat \<times> nat \<times> nat) option" where
  "partition_segment cmp xs ptr nmemb = do {
     let m4 = nmemb div 4;
     m \<leftarrow> med3 cmp xs (ptr + m4) (ptr + 2 * m4) (ptr + 3 * m4);
     xs \<leftarrow> swap xs ptr m;
     let top = ptr + nmemb;
     (xs, s) \<leftarrow> part_loop cmp ptr xs \<lparr>pt_i = 1, pt_lt = 1, pt_gt = nmemb, pt_pi = ptr + 1, pt_plt = ptr + 1, pt_pj = top, pt_pgt = top\<rparr>;
     span \<leftarrow> ptr_diff (pt_plt s) ptr;
     span2 \<leftarrow> ptr_diff (pt_pi s) (pt_plt s);
     lt \<leftarrow> ptr_diff (pt_i s) (pt_lt s);
     let span = (if span > span2 then span2 else span);
     xs \<leftarrow> swap_block xs ptr (pt_pi s - span) span;
     span \<leftarrow> ptr_diff top (pt_pgt s);
     span2 \<leftarrow> ptr_diff (pt_pgt s) (pt_pi s);
     pgt \<leftarrow> ptr_diff top span2;
     d \<leftarrow> ptr_diff (pt_gt s) (pt_i s);
     gt \<leftarrow> ptr_diff nmemb d;
     let span = (if span > span2 then span2 else span);
     xs \<leftarrow> swap_block xs (pt_pi s) (top - span) span;
     Some (xs, lt, gt, pgt) }"

fun insert_loop :: "'a cmp_f \<Rightarrow> 'a list \<Rightarrow> nat \<Rightarrow> nat \<Rightarrow> 'a list option" where
  "insert_loop cmp xs ptr 0 = Some xs"
| "insert_loop cmp xs ptr (Suc pj) =
     (if Suc pj > ptr then do {
        d \<leftarrow> cmp_at cmp xs pj (Suc pj);
        if d > 0 then do { xs \<leftarrow> swap xs (Suc pj) pj; insert_loop cmp xs ptr pj }
        else Some xs }
      else Some xs)"

text \<open>The insertion sort from \<open>pi\<close> on, with \<open>k\<close> elements left up to \<open>top\<close>.\<close>

fun insertion_loop :: "'a cmp_f \<Rightarrow> 'a list \<Rightarrow> nat \<Rightarrow> nat \<Rightarrow> nat \<Rightarrow> 'a list option" where
  "insertion_loop cmp xs ptr pi 0 = Some xs"
| "insertion_loop cmp xs ptr pi (Suc k) = do {
     xs \<leftarrow> insert_loop cmp xs ptr pi;
     insertion_loop cmp xs ptr (pi + 1) k }"

text \<open>An entry of the stack: \<open>base\<close>, \<open>count\<close>, \<open>depth\<close>. The stack has room for 50.\<close>

type_synonym segment = "nat \<times> nat \<times> nat"

definition push_segment :: "segment list \<Rightarrow> segment \<Rightarrow> segment list option" where
  "push_segment stack s = (if length stack < 50 then Some (s # stack) else None)"

text \<open>The inner loop: the array, the stack, and the short segment left for the insertion sort.\<close>

partial_function (option) split_loop ::
  "'a cmp_f \<Rightarrow> 'a list \<Rightarrow> segment list \<Rightarrow> nat \<Rightarrow> nat \<Rightarrow> nat \<Rightarrow> ('a list \<times> segment list \<times> nat \<times> nat) option" where
  "split_loop cmp xs stack ptr nmemb depth =
     (if nmemb > 6 then
        if depth + 1 > 50 then do { xs \<leftarrow> heapsortx cmp xs ptr nmemb; Some (xs, stack, ptr, 0) }
        else do {
          (xs, lt, gt, pgt) \<leftarrow> partition_segment cmp xs ptr nmemb;
          rest \<leftarrow> ptr_diff nmemb gt;
          if lt > rest then do {
            stack \<leftarrow> push_segment stack (ptr, lt, depth + 1);
            split_loop cmp xs stack pgt rest (depth + 1) }
          else do {
            stack \<leftarrow> push_segment stack (pgt, rest, depth + 1);
            split_loop cmp xs stack ptr lt (depth + 1) } }
      else Some (xs, stack, ptr, nmemb))"

partial_function (option) sort_loop :: "'a cmp_f \<Rightarrow> 'a list \<Rightarrow> segment list \<Rightarrow> 'a list option" where
  "sort_loop cmp xs stack =
     (case stack of
        [] \<Rightarrow> Some xs
      | (ptr, nmemb, depth) # stack \<Rightarrow> do {
          (xs, stack, ptr, nmemb) \<leftarrow> split_loop cmp xs stack ptr nmemb depth;
          xs \<leftarrow> insertion_loop cmp xs ptr (ptr + 1) (nmemb - 1);
          sort_loop cmp xs stack })"

definition rqsort :: "'a cmp_f \<Rightarrow> 'a list \<Rightarrow> nat \<Rightarrow> nat \<Rightarrow> 'a list option" where
  "rqsort cmp xs base nmemb =
     (if nmemb < 2 then Some xs else do { stack \<leftarrow> push_segment [] (base, nmemb, 0); sort_loop cmp xs stack })"

section \<open>Comparisons of typed arrays\<close>

definition js_TA_cmp_int8 :: "u8 cmp_f" where
  "js_TA_cmp_int8 a b = sint a - sint b"

definition js_TA_cmp_uint8 :: "u8 cmp_f" where
  "js_TA_cmp_uint8 a b = uint a - uint b"

definition js_TA_cmp_int16 :: "u16 cmp_f" where
  "js_TA_cmp_int16 a b = sint a - sint b"

definition js_TA_cmp_uint16 :: "u16 cmp_f" where
  "js_TA_cmp_uint16 a b = uint a - uint b"

definition js_TA_cmp_int32 :: "u32 cmp_f" where
  "js_TA_cmp_int32 x y = of_bool (y <s x) - of_bool (x <s y)"

definition js_TA_cmp_uint32 :: "u32 cmp_f" where
  "js_TA_cmp_uint32 x y = of_bool (y < x) - of_bool (y > x)"

definition js_TA_cmp_int64 :: "u64 cmp_f" where
  "js_TA_cmp_int64 x y = of_bool (y <s x) - of_bool (x <s y)"

definition js_TA_cmp_uint64 :: "u64 cmp_f" where
  "js_TA_cmp_uint64 x y = of_bool (y < x) - of_bool (y > x)"

section \<open>Permuting a segment\<close>

text \<open>The elements from \<open>p\<close> up to \<open>q\<close> are permuted, the others stay.\<close>

definition seg_perm :: "nat \<Rightarrow> nat \<Rightarrow> 'a list \<Rightarrow> 'a list \<Rightarrow> bool" where
  "seg_perm p q xs ys \<longleftrightarrow> length ys = length xs \<and> mset ys = mset xs \<and>
     (\<forall>k < length xs. \<not> (p \<le> k \<and> k < q) \<longrightarrow> ys ! k = xs ! k) \<and>
     (\<forall>k < length xs. p \<le> k \<longrightarrow> k < q \<longrightarrow> (\<exists>m < length xs. p \<le> m \<and> m < q \<and> ys ! k = xs ! m))"

lemma seg_permI:
  assumes "length ys = length xs" "mset ys = mset xs"
    "\<And>k. k < length xs \<Longrightarrow> \<not> (p \<le> k \<and> k < q) \<Longrightarrow> ys ! k = xs ! k"
    "\<And>k. k < length xs \<Longrightarrow> p \<le> k \<Longrightarrow> k < q \<Longrightarrow> \<exists>m < length xs. p \<le> m \<and> m < q \<and> ys ! k = xs ! m"
  shows "seg_perm p q xs ys"
  using assms by (simp add: seg_perm_def)

lemma seg_perm_refl [simp]: "seg_perm p q xs xs"
  by (auto simp: seg_perm_def)

lemma seg_perm_trans: "seg_perm p q xs ys \<Longrightarrow> seg_perm p q ys zs \<Longrightarrow> seg_perm p q xs zs"
  unfolding seg_perm_def by (metis (no_types, lifting))

lemma seg_perm_mono:
  assumes s: "seg_perm p q xs ys" and b: "p' \<le> p" "q \<le> q'"
  shows "seg_perm p' q' xs ys"
proof (rule seg_permI)
  fix k assume k: "k < length xs" "p' \<le> k" "k < q'"
  show "\<exists>m < length xs. p' \<le> m \<and> m < q' \<and> ys ! k = xs ! m"
  proof (cases "p \<le> k \<and> k < q")
    case True
    then obtain m where "m < length xs" "p \<le> m" "m < q" "ys ! k = xs ! m" using s k by (auto simp: seg_perm_def)
    with b show ?thesis by (intro exI [of _ m]) auto
  qed (use s k in \<open>auto simp: seg_perm_def\<close>)
qed (use s b in \<open>auto simp: seg_perm_def\<close>)

lemma seg_perm_length: "seg_perm p q xs ys \<Longrightarrow> length ys = length xs"
  by (simp add: seg_perm_def)

lemma seg_perm_in: "seg_perm p q xs ys \<Longrightarrow> p \<le> k \<Longrightarrow> k < q \<Longrightarrow> q \<le> length xs \<Longrightarrow> \<exists>m. p \<le> m \<and> m < q \<and> ys ! k = xs ! m"
  unfolding seg_perm_def by (meson less_le_trans)

lemma seg_perm_out: "seg_perm p q xs ys \<Longrightarrow> k < length xs \<Longrightarrow> k < p \<or> q \<le> k \<Longrightarrow> ys ! k = xs ! k"
  unfolding seg_perm_def by (meson not_le)

lemma swap_ok:
  assumes "p \<le> a" "a < q" "p \<le> b" "b < q" "q \<le> length xs"
  shows "swap xs a b = Some (xs[a := xs ! b, b := xs ! a]) \<and> seg_perm p q xs (xs[a := xs ! b, b := xs ! a])"
proof
  show "swap xs a b = Some (xs[a := xs ! b, b := xs ! a])" using assms by (simp add: swap_def)
  show "seg_perm p q xs (xs[a := xs ! b, b := xs ! a])"
  proof (rule seg_permI)
    show "mset (xs[a := xs ! b, b := xs ! a]) = mset xs" using assms by (simp add: mset_swap)
    fix k assume "k < length xs" "p \<le> k" "k < q"
    then show "\<exists>m < length xs. p \<le> m \<and> m < q \<and> xs[a := xs ! b, b := xs ! a] ! k = xs ! m"
      using assms by (intro exI [of _ "if k = b then a else if k = a then b else k"]) (auto simp: nth_list_update)
  qed (use assms in \<open>auto simp: nth_list_update\<close>)
qed

lemma cmp_at_ok: "a < length xs \<Longrightarrow> b < length xs \<Longrightarrow> cmp_at cmp xs a b = Some (cmp (xs ! a) (xs ! b))"
  by (simp add: cmp_at_def)

section \<open>Partition\<close>

text \<open>
  During the partition the elements equal to the pivot are at both ends, the smaller ones before \<open>pi\<close> and the larger ones from \<open>pj\<close> on.
\<close>

definition part_inv :: "'a cmp_f \<Rightarrow> nat \<Rightarrow> nat \<Rightarrow> 'a \<Rightarrow> 'a list \<Rightarrow> part \<Rightarrow> bool" where
  "part_inv cmp ptr n v xs s \<longleftrightarrow>
     pt_pi s = ptr + pt_i s \<and> pt_plt s = ptr + pt_lt s \<and> pt_pgt s = ptr + pt_gt s \<and>
     1 \<le> pt_lt s \<and> pt_lt s \<le> pt_i s \<and> pt_pi s \<le> pt_pgt s \<and> pt_gt s \<le> n \<and> ptr + n \<le> length xs \<and> xs ! ptr = v \<and>
     (\<forall>k. ptr < k \<longrightarrow> k < pt_plt s \<longrightarrow> cmp v (xs ! k) = 0) \<and>
     (\<forall>k. pt_plt s \<le> k \<longrightarrow> k < pt_pi s \<longrightarrow> cmp v (xs ! k) > 0) \<and>
     (\<forall>k. pt_pgt s \<le> k \<longrightarrow> k < ptr + n \<longrightarrow> cmp v (xs ! k) = 0)"

definition above :: "'a cmp_f \<Rightarrow> 'a \<Rightarrow> 'a list \<Rightarrow> part \<Rightarrow> bool" where
  "above cmp v xs s \<longleftrightarrow> (\<forall>k. pt_pj s \<le> k \<longrightarrow> k < pt_pgt s \<longrightarrow> cmp v (xs ! k) < 0)"

lemma part_up_ok:
  assumes "part_inv cmp ptr n v xs s" "above cmp v xs s" "pt_pi s \<le> pt_pj s" "pt_pj s \<le> pt_pgt s"
  shows "\<exists>ys t. part_up cmp ptr xs s = Some (ys, t) \<and> seg_perm ptr (ptr + n) xs ys \<and> part_inv cmp ptr n v ys t \<and> above cmp v ys t \<and>
    pt_pj t = pt_pj s \<and> pt_pgt t = pt_pgt s \<and> pt_pi s \<le> pt_pi t \<and> pt_pi t \<le> pt_pj t \<and> (pt_pi t < pt_pj t \<longrightarrow> cmp v (ys ! pt_pi t) < 0)"
  using assms
proof (induction "pt_pj s - pt_pi s" arbitrary: xs s rule: less_induct)
  case less
  note inv = less.prems(1) [unfolded part_inv_def]
  show ?case
  proof (cases "pt_pi s < pt_pj s")
    case False
    then show ?thesis using less.prems by (simp add: part_up.simps [of cmp ptr xs s])
  next
    case True
    have c: "cmp_at cmp xs ptr (pt_pi s) = Some (cmp v (xs ! pt_pi s))" using cmp_at_ok [of ptr xs "pt_pi s" cmp] inv True less.prems(4) by auto
    consider "cmp v (xs ! pt_pi s) < 0" | "cmp v (xs ! pt_pi s) > 0" | "cmp v (xs ! pt_pi s) = 0" by linarith
    then show ?thesis
    proof cases
      case 1
      then show ?thesis using less.prems c by (simp add: part_up.simps [of cmp ptr xs s])
    next
      case 2
      let ?t = "s\<lparr>pt_i := pt_i s + 1, pt_pi := pt_pi s + 1\<rparr>"
      have "part_inv cmp ptr n v xs ?t" using inv 2 True less.prems(4) by (auto simp: part_inv_def less_Suc_eq)
      moreover have "above cmp v xs ?t" using less.prems(2) by (simp add: above_def)
      ultimately obtain ys t where "part_up cmp ptr xs ?t = Some (ys, t)" "seg_perm ptr (ptr + n) xs ys" "part_inv cmp ptr n v ys t" "above cmp v ys t"
        "pt_pj t = pt_pj s" "pt_pgt t = pt_pgt s" "pt_pi s + 1 \<le> pt_pi t" "pt_pi t \<le> pt_pj t" "pt_pi t < pt_pj t \<longrightarrow> cmp v (ys ! pt_pi t) < 0"
        using less.hyps [of ?t xs] less.prems(3,4) True diff_less_mono2 [of "pt_pi s" "pt_pi s + 1" "pt_pj s"] by auto
      with 2 c True show ?thesis by (auto simp: part_up.simps [of cmp ptr xs s])
    next
      case 3
      let ?ys = "xs[pt_plt s := xs ! pt_pi s, pt_pi s := xs ! pt_plt s]"
      let ?t = "s\<lparr>pt_lt := pt_lt s + 1, pt_plt := pt_plt s + 1, pt_i := pt_i s + 1, pt_pi := pt_pi s + 1\<rparr>"
      have sw: "swap xs (pt_plt s) (pt_pi s) = Some ?ys \<and> seg_perm ptr (ptr + n) xs ?ys"
        using inv True less.prems(4) by (intro swap_ok) auto
      have "part_inv cmp ptr n v ?ys ?t" using inv 3 True less.prems(4) by (auto simp: part_inv_def less_Suc_eq nth_list_update)
      moreover have "above cmp v ?ys ?t" using less.prems(2,4) True inv by (auto simp: above_def nth_list_update)
      ultimately obtain ys t where "part_up cmp ptr ?ys ?t = Some (ys, t)" "seg_perm ptr (ptr + n) ?ys ys" "part_inv cmp ptr n v ys t" "above cmp v ys t"
        "pt_pj t = pt_pj s" "pt_pgt t = pt_pgt s" "pt_pi s + 1 \<le> pt_pi t" "pt_pi t \<le> pt_pj t" "pt_pi t < pt_pj t \<longrightarrow> cmp v (ys ! pt_pi t) < 0"
        using less.hyps [of ?t ?ys] less.prems(3,4) True diff_less_mono2 [of "pt_pi s" "pt_pi s + 1" "pt_pj s"] by auto
      with sw 3 c True show ?thesis using seg_perm_trans by (fastforce simp: part_up.simps [of cmp ptr xs s])
    qed
  qed
qed

lemma part_down_ok:
  assumes "part_inv cmp ptr n v xs s" "above cmp v xs s" "pt_pi s \<le> pt_pj s" "pt_pj s \<le> pt_pgt s" "pt_pi s < pt_pj s \<longrightarrow> cmp v (xs ! pt_pi s) < 0"
  shows "\<exists>ys t. part_down cmp ptr xs s = Some (ys, t) \<and> seg_perm ptr (ptr + n) xs ys \<and> part_inv cmp ptr n v ys t \<and>
    pt_pi t = pt_pi s \<and> pt_pj t < pt_pj s \<and>
    (if pt_pi t < pt_pj t then above cmp v ys (t\<lparr>pt_pj := pt_pj t + 1\<rparr>) \<and> pt_pj t < pt_pgt t \<and> cmp v (ys ! pt_pi t) < 0 \<and> cmp v (ys ! pt_pj t) > 0
     else above cmp v ys (t\<lparr>pt_pj := pt_pi t\<rparr>))"
  using assms
proof (induction "pt_pj s" arbitrary: xs s rule: less_induct)
  case less
  note inv = less.prems(1) [unfolded part_inv_def]
  let ?s = "s\<lparr>pt_pj := pt_pj s - 1\<rparr>"
  have pos: "pt_pj s \<noteq> 0" using inv less.prems(3) by auto
  show ?case
  proof (cases "pt_pi s < pt_pj s - 1")
    case False
    have a: "above cmp v xs (?s\<lparr>pt_pj := pt_pi s\<rparr>)"
    proof (cases "pt_pi s < pt_pj s")
      case True
      then have j: "pt_pj s = pt_pi s + 1" using False by simp
      have "cmp v (xs ! k) < 0" if "pt_pi s \<le> k" "k < pt_pgt s" for k
        using that True less.prems(2,5) by (cases "k = pt_pi s") (auto simp: above_def j)
      then show ?thesis by (simp add: above_def)
    qed (use less.prems(2,3) in \<open>auto simp: above_def\<close>)
    have "part_inv cmp ptr n v xs ?s" using less.prems(1) by (simp add: part_inv_def)
    then show ?thesis using False pos a by (auto simp: part_down.simps [of cmp ptr xs s] above_def)
  next
    case True
    have c: "cmp_at cmp xs ptr (pt_pj s - 1) = Some (cmp v (xs ! (pt_pj s - 1)))"
      using cmp_at_ok [of ptr xs "pt_pj s - 1" cmp] inv True less.prems(4) by auto
    have pis: "cmp v (xs ! pt_pi s) < 0" using less.prems(5) True by simp
    consider "cmp v (xs ! (pt_pj s - 1)) > 0" | "cmp v (xs ! (pt_pj s - 1)) < 0" | "cmp v (xs ! (pt_pj s - 1)) = 0" by linarith
    then show ?thesis
    proof cases
      case 1
      have "part_inv cmp ptr n v xs ?s" using less.prems(1) by (simp add: part_inv_def)
      then show ?thesis using less.prems(2,4) 1 True pos c pis by (auto simp: part_down.simps [of cmp ptr xs s] above_def)
    next
      case 2
      have i: "part_inv cmp ptr n v xs ?s" using less.prems(1) by (simp add: part_inv_def)
      have a: "above cmp v xs ?s" unfolding above_def
      proof (intro allI impI)
        fix k assume "pt_pj ?s \<le> k" "k < pt_pgt ?s"
        then show "cmp v (xs ! k) < 0" using less.prems(2) 2 by (cases "k = pt_pj s - 1") (auto simp: above_def)
      qed
      have pre: "pt_pj ?s < pt_pj s" "pt_pi ?s \<le> pt_pj ?s" "pt_pj ?s \<le> pt_pgt ?s" "pt_pi ?s < pt_pj ?s \<longrightarrow> cmp v (xs ! pt_pi ?s) < 0"
        using True less.prems(4) pos pis by auto
      from less.hyps [OF pre(1) i a pre(2-4)] obtain ys t where "part_down cmp ptr xs ?s = Some (ys, t)" "seg_perm ptr (ptr + n) xs ys" "part_inv cmp ptr n v ys t"
        "pt_pi t = pt_pi ?s" "pt_pj t < pt_pj ?s"
        "if pt_pi t < pt_pj t then above cmp v ys (t\<lparr>pt_pj := pt_pj t + 1\<rparr>) \<and> pt_pj t < pt_pgt t \<and> cmp v (ys ! pt_pi t) < 0 \<and> cmp v (ys ! pt_pj t) > 0
          else above cmp v ys (t\<lparr>pt_pj := pt_pi t\<rparr>)" by blast
      moreover have "part_down cmp ptr xs s = part_down cmp ptr xs ?s" using 2 True pos c by (subst part_down.simps) (simp add: Let_def)
      ultimately show ?thesis by (intro exI [of _ ys] exI [of _ t]) (auto split: if_splits)
    next
      case 3
      let ?t = "?s\<lparr>pt_gt := pt_gt s - 1, pt_pgt := pt_pgt s - 1\<rparr>"
      let ?ys = "xs[pt_pgt s - 1 := xs ! (pt_pj s - 1), pt_pj s - 1 := xs ! (pt_pgt s - 1)]"
      have gt: "pt_gt s \<noteq> 0" "pt_pgt s \<noteq> 0" "pt_pj s - 1 \<le> pt_pgt s - 1" "ptr < pt_pi s" using inv True less.prems(4) by auto
      have sw: "swap xs (pt_pgt s - 1) (pt_pj s - 1) = Some ?ys \<and> seg_perm ptr (ptr + n) xs ?ys"
        using inv True less.prems(4) gt by (intro swap_ok) auto
      have nth: "?ys ! k = (if k = pt_pj s - 1 then xs ! (pt_pgt s - 1) else if k = pt_pgt s - 1 then xs ! (pt_pj s - 1) else xs ! k)" for k
        using inv less.prems(4) gt by (auto simp: nth_list_update)
      have i: "part_inv cmp ptr n v ?ys ?t" unfolding part_inv_def
      proof (intro conjI allI impI)
        fix k assume "pt_pgt ?t \<le> k" "k < ptr + n"
        then show "cmp v (?ys ! k) = 0" using 3 inv gt unfolding nth by (cases "k = pt_pgt s - 1") auto
      qed (use inv gt True less.prems(4) nth in auto)
      have a: "above cmp v ?ys ?t" unfolding above_def
      proof (intro allI impI)
        fix k assume k: "pt_pj ?t \<le> k" "k < pt_pgt ?t"
        then show "cmp v (?ys ! k) < 0" using less.prems(2) unfolding nth by (cases "k = pt_pj s - 1") (auto simp: above_def)
      qed
      have "cmp v (?ys ! pt_pi s) < 0" unfolding nth using pis True gt by auto
      then have pre: "pt_pj ?t < pt_pj s" "pt_pi ?t \<le> pt_pj ?t" "pt_pj ?t \<le> pt_pgt ?t" "pt_pi ?t < pt_pj ?t \<longrightarrow> cmp v (?ys ! pt_pi ?t) < 0"
        using True less.prems(4) pos gt by auto
      from less.hyps [OF pre(1) i a pre(2-4)] obtain ys t where "part_down cmp ptr ?ys ?t = Some (ys, t)" "seg_perm ptr (ptr + n) ?ys ys" "part_inv cmp ptr n v ys t"
        "pt_pi t = pt_pi ?t" "pt_pj t < pt_pj ?t"
        "if pt_pi t < pt_pj t then above cmp v ys (t\<lparr>pt_pj := pt_pj t + 1\<rparr>) \<and> pt_pj t < pt_pgt t \<and> cmp v (ys ! pt_pi t) < 0 \<and> cmp v (ys ! pt_pj t) > 0
          else above cmp v ys (t\<lparr>pt_pj := pt_pi t\<rparr>)" by blast
      moreover have "part_down cmp ptr xs s = part_down cmp ptr ?ys ?t"
        using 3 True pos c gt sw by (subst part_down.simps) (simp add: Let_def)
      moreover note sw
      ultimately show ?thesis by (intro exI [of _ ys] exI [of _ t]) (auto intro: seg_perm_trans split: if_splits)
    qed
  qed
qed

lemma part_loop_ok:
  assumes "part_inv cmp ptr n v xs s" "above cmp v xs s" "pt_pi s \<le> pt_pj s" "pt_pj s \<le> pt_pgt s"
  shows "\<exists>ys t. part_loop cmp ptr xs s = Some (ys, t) \<and> seg_perm ptr (ptr + n) xs ys \<and> part_inv cmp ptr n v ys t \<and>
    above cmp v ys (t\<lparr>pt_pj := pt_pi t\<rparr>)"
  using assms
proof (induction "pt_pj s" arbitrary: xs s rule: less_induct)
  case less
  from part_up_ok [OF less.prems] obtain ys t where up: "part_up cmp ptr xs s = Some (ys, t)" "seg_perm ptr (ptr + n) xs ys"
    "part_inv cmp ptr n v ys t" "above cmp v ys t" "pt_pj t = pt_pj s" "pt_pgt t = pt_pgt s" "pt_pi t \<le> pt_pj t"
    "pt_pi t < pt_pj t \<longrightarrow> cmp v (ys ! pt_pi t) < 0" by blast
  have le: "pt_pj t \<le> pt_pgt t" using up(5,6) less.prems(4) by simp
  from part_down_ok [OF up(3,4,7) le up(8)] obtain zs u where dn: "part_down cmp ptr ys t = Some (zs, u)" "seg_perm ptr (ptr + n) ys zs"
    "part_inv cmp ptr n v zs u" "pt_pj u < pt_pj t"
    and alt: "if pt_pi u < pt_pj u then above cmp v zs (u\<lparr>pt_pj := pt_pj u + 1\<rparr>) \<and> pt_pj u < pt_pgt u \<and> cmp v (zs ! pt_pi u) < 0 \<and> cmp v (zs ! pt_pj u) > 0
     else above cmp v zs (u\<lparr>pt_pj := pt_pi u\<rparr>)" by blast
  have perm: "seg_perm ptr (ptr + n) xs zs" using up(2) dn(2) by (rule seg_perm_trans)
  show ?case
  proof (cases "pt_pi u < pt_pj u")
    case False
    then show ?thesis using up(1) dn alt perm by (auto simp: part_loop.simps [of cmp ptr xs s])
  next
    case True
    note inv = dn(3) [unfolded part_inv_def]
    let ?us = "zs[pt_pi u := zs ! pt_pj u, pt_pj u := zs ! pt_pi u]" and ?u = "u\<lparr>pt_i := pt_i u + 1, pt_pi := pt_pi u + 1\<rparr>"
    have a: "above cmp v zs (u\<lparr>pt_pj := pt_pj u + 1\<rparr>)" "pt_pj u < pt_pgt u" "cmp v (zs ! pt_pi u) < 0" "cmp v (zs ! pt_pj u) > 0"
      using alt True by auto
    have sw: "swap zs (pt_pi u) (pt_pj u) = Some ?us \<and> seg_perm ptr (ptr + n) zs ?us" using inv True a(2) by (intro swap_ok) auto
    have len: "pt_pi u < length zs" "pt_pj u < length zs" using inv a(2) True by auto
    have "part_inv cmp ptr n v ?us ?u" using inv True a len by (auto simp: part_inv_def less_Suc_eq nth_list_update)
    moreover have "above cmp v ?us ?u" unfolding above_def
    proof (intro allI impI)
      fix k assume "pt_pj ?u \<le> k" "k < pt_pgt ?u"
      then show "cmp v (?us ! k) < 0" using a(1,3) len True by (cases "k = pt_pj u") (auto simp: above_def)
    qed
    ultimately obtain ws w where "part_loop cmp ptr ?us ?u = Some (ws, w)" "seg_perm ptr (ptr + n) ?us ws" "part_inv cmp ptr n v ws w"
      "above cmp v ws (w\<lparr>pt_pj := pt_pi w\<rparr>)"
      using less.hyps [of ?u ?us] True a(2) dn(4) up(5) by auto
    moreover have "part_loop cmp ptr xs s = part_loop cmp ptr ?us ?u" using up(1) dn(1) True sw by (simp add: part_loop.simps [of cmp ptr xs s])
    ultimately show ?thesis using perm sw by (auto intro: seg_perm_trans)
  qed
qed

lemma swap_block_ok:
  assumes "p \<le> a" "a + n \<le> b" "b + n \<le> q" "q \<le> length xs"
  shows "\<exists>ys. swap_block xs a b n = Some ys \<and> seg_perm p q xs ys \<and>
    (\<forall>k. ys ! k = (if a \<le> k \<and> k < a + n then xs ! (b + (k - a)) else if b \<le> k \<and> k < b + n then xs ! (a + (k - b)) else xs ! k))"
  using assms
proof (induction n arbitrary: xs a b)
  case (Suc n)
  let ?ys = "xs[a := xs ! b, b := xs ! a]"
  have sw: "swap xs a b = Some ?ys \<and> seg_perm p q xs ?ys" using Suc.prems by (intro swap_ok) auto
  obtain ys where ys: "swap_block ?ys (a + 1) (b + 1) n = Some ys" "seg_perm p q ?ys ys"
    "\<And>k. ys ! k = (if a + 1 \<le> k \<and> k < a + 1 + n then ?ys ! (b + 1 + (k - (a + 1))) else if b + 1 \<le> k \<and> k < b + 1 + n then ?ys ! (a + 1 + (k - (b + 1))) else ?ys ! k)"
    using Suc.IH [of "a + 1" "b + 1" ?ys] Suc.prems by auto
  have "ys ! k = (if a \<le> k \<and> k < a + Suc n then xs ! (b + (k - a)) else if b \<le> k \<and> k < b + Suc n then xs ! (a + (k - b)) else xs ! k)" for k
  proof -
    consider "k = a" | "k = b" | "a < k" "k < a + Suc n" | "b < k" "k < b + Suc n"
      | "\<not> (a \<le> k \<and> k < a + Suc n)" "\<not> (b \<le> k \<and> k < b + Suc n)" by linarith
    then show ?thesis
    proof cases
      case 3
      then have "b + 1 + (k - (a + 1)) = b + (k - a)" "b < b + (k - a)" by auto
      with 3 Suc.prems show ?thesis unfolding ys(3) by auto
    next
      case 4
      then have "a + 1 + (k - (b + 1)) = a + (k - b)" "a < a + (k - b)" "a + (k - b) < b" using Suc.prems by auto
      with 4 Suc.prems show ?thesis unfolding ys(3) by auto
    qed (use Suc.prems in \<open>auto simp: ys(3) nth_list_update\<close>)
  qed
  with sw ys(1,2) show ?case by (auto intro: seg_perm_trans)
qed auto

text \<open>Swapping the shorter of two adjacent blocks with the end of the other exchanges their classes.\<close>

lemma swap_block_classes:
  assumes b: "p \<le> a" "a + (L + M) \<le> q" "q \<le> length xs"
    and P: "\<And>k. a \<le> k \<Longrightarrow> k < a + L \<Longrightarrow> P (xs ! k)" and Q: "\<And>k. a + L \<le> k \<Longrightarrow> k < a + (L + M) \<Longrightarrow> Q (xs ! k)"
  shows "\<exists>ys. swap_block xs a (a + (L + M) - min L M) (min L M) = Some ys \<and> seg_perm p q xs ys \<and>
    (\<forall>k. a \<le> k \<longrightarrow> k < a + M \<longrightarrow> Q (ys ! k)) \<and> (\<forall>k. a + M \<le> k \<longrightarrow> k < a + (L + M) \<longrightarrow> P (ys ! k)) \<and>
    (\<forall>k. k < a \<or> a + (L + M) \<le> k \<longrightarrow> ys ! k = xs ! k)"
proof -
  define s where "s = min L M"
  define c where "c = a + (L + M) - s"
  have s: "s = L \<and> L \<le> M \<and> c = a + M \<or> s = M \<and> M < L \<and> c = a + L" by (auto simp: s_def c_def min_def)
  have "a + s \<le> c" "c + s \<le> q" using s b by auto
  from swap_block_ok [OF b(1) this b(3)] obtain ys where ys: "swap_block xs a c s = Some ys" "seg_perm p q xs ys"
    "\<And>k. ys ! k = (if a \<le> k \<and> k < a + s then xs ! (c + (k - a)) else if c \<le> k \<and> k < c + s then xs ! (a + (k - c)) else xs ! k)" by blast
  have "Q (ys ! k)" if "a \<le> k" "k < a + M" for k
    using s that unfolding ys(3) by (elim disjE conjE) (auto intro!: Q)
  moreover have "P (ys ! k)" if "a + M \<le> k" "k < a + (L + M)" for k
    using s that unfolding ys(3) by (elim disjE conjE) (auto intro!: P)
  moreover have "ys ! k = xs ! k" if "k < a \<or> a + (L + M) \<le> k" for k
    using s that unfolding ys(3) by (elim disjE conjE) auto
  ultimately show ?thesis using ys(1,2) unfolding s_def c_def by blast
qed

text \<open>The classes of elements relative to the pivot.\<close>

definition is_pivot :: "'a cmp_f \<Rightarrow> 'a \<Rightarrow> 'a \<Rightarrow> bool" where
  "is_pivot cmp v x \<longleftrightarrow> x = v \<or> cmp v x = 0"

lemma partition_segment_ok:
  assumes n: "6 < n" and fit: "ptr + n \<le> length xs"
  shows "\<exists>ys lt gt v. partition_segment cmp xs ptr n = Some (ys, lt, gt, ptr + gt) \<and> seg_perm ptr (ptr + n) xs ys \<and> lt < gt \<and> gt \<le> n \<and>
    (\<forall>k. ptr \<le> k \<longrightarrow> k < ptr + lt \<longrightarrow> cmp v (ys ! k) > 0) \<and> (\<forall>k. ptr + lt \<le> k \<longrightarrow> k < ptr + gt \<longrightarrow> is_pivot cmp v (ys ! k)) \<and>
    (\<forall>k. ptr + gt \<le> k \<longrightarrow> k < ptr + n \<longrightarrow> cmp v (ys ! k) < 0)"
proof -
  define m4 where "m4 = n div 4"
  have m4: "3 * m4 < n" using n by (simp add: m4_def)
  have med: "\<exists>m. med3 cmp xs (ptr + m4) (ptr + 2 * m4) (ptr + 3 * m4) = Some m \<and> ptr \<le> m \<and> m < ptr + n"
    using m4 fit by (auto simp: med3_def cmp_at_ok)
  then obtain m where m: "med3 cmp xs (ptr + m4) (ptr + 2 * m4) (ptr + 3 * m4) = Some m" "ptr \<le> m" "m < ptr + n" by blast
  let ?x1 = "xs[ptr := xs ! m, m := xs ! ptr]"
  let ?s0 = "\<lparr>pt_i = 1, pt_lt = 1, pt_gt = n, pt_pi = ptr + 1, pt_plt = ptr + 1, pt_pj = ptr + n, pt_pgt = ptr + n\<rparr>"
  have sw: "swap xs ptr m = Some ?x1 \<and> seg_perm ptr (ptr + n) xs ?x1" using m n fit by (intro swap_ok) auto
  define v where "v = ?x1 ! ptr"
  have "part_inv cmp ptr n v ?x1 ?s0" "above cmp v ?x1 ?s0" using n fit by (auto simp: part_inv_def above_def v_def)
  from part_loop_ok [OF this] n obtain x2 t where pl: "part_loop cmp ptr ?x1 ?s0 = Some (x2, t)" "seg_perm ptr (ptr + n) ?x1 x2"
    "part_inv cmp ptr n v x2 t" "above cmp v x2 (t\<lparr>pt_pj := pt_pi t\<rparr>)" by auto
  note inv = pl(3) [unfolded part_inv_def]
  define L M G E where "L = pt_lt t" and "M = pt_i t - pt_lt t" and "G = pt_gt t - pt_i t" and "E = n - pt_gt t"
  have t: "pt_lt t = L" "pt_i t = L + M" "pt_gt t = L + M + G" "n = L + M + G + E" "pt_plt t = ptr + L" "pt_pi t = ptr + (L + M)" "pt_pgt t = ptr + (L + M + G)" "1 \<le> L"
    using inv by (auto simp: L_def M_def G_def E_def)
  have cl1: "is_pivot cmp v (x2 ! k)" if "ptr \<le> k" "k < ptr + L" for k
  proof (cases "k = ptr")
    case False
    then have "cmp v (x2 ! k) = 0" using inv that t(5) by auto
    then show ?thesis by (simp add: is_pivot_def)
  qed (use inv in \<open>simp add: is_pivot_def\<close>)
  have cl2: "cmp v (x2 ! k) > 0" if "ptr + L \<le> k" "k < ptr + (L + M)" for k using inv that t(5,6) by auto
  have cl3: "cmp v (x2 ! k) < 0" if "ptr + (L + M) \<le> k" "k < ptr + (L + M + G)" for k using pl(4) that t(6,7) by (auto simp: above_def)
  have cl4: "is_pivot cmp v (x2 ! k)" if "ptr + (L + M + G) \<le> k" "k < ptr + n" for k
  proof -
    have "cmp v (x2 ! k) = 0" using inv that t(7) by auto
    then show ?thesis by (simp add: is_pivot_def)
  qed
  have fit2: "ptr + n \<le> length x2" using fit seg_perm_length [OF pl(2)] by simp
  have "ptr \<le> ptr" "ptr + (L + M) \<le> ptr + n" using t(4) by auto
  from swap_block_classes [of ptr ptr L M "ptr + n" x2 "is_pivot cmp v" "\<lambda>x. cmp v x > 0", OF this fit2 cl1 cl2] obtain x3 where
    x3: "swap_block x2 ptr (ptr + (L + M) - min L M) (min L M) = Some x3" "seg_perm ptr (ptr + n) x2 x3"
      "\<And>k. ptr \<le> k \<Longrightarrow> k < ptr + M \<Longrightarrow> cmp v (x3 ! k) > 0" "\<And>k. ptr + M \<le> k \<Longrightarrow> k < ptr + (L + M) \<Longrightarrow> is_pivot cmp v (x3 ! k)"
      "\<And>k. ptr + (L + M) \<le> k \<Longrightarrow> x3 ! k = x2 ! k" by blast
  have fit3: "ptr + n \<le> length x3" using fit2 seg_perm_length [OF x3(2)] by simp
  define a where "a = ptr + (L + M)"
  have e: "a + (G + E) = ptr + n" using t(4) by (simp add: a_def)
  have g: "cmp v (x3 ! k) < 0" if "a \<le> k" "k < a + G" for k using that cl3 [of k] x3(5) [of k] by (simp add: a_def)
  have h: "is_pivot cmp v (x3 ! k)" if "a + G \<le> k" "k < a + (G + E)" for k using that cl4 [of k] x3(5) [of k] t(4) by (simp add: a_def)
  have "ptr \<le> a" "a + (G + E) \<le> ptr + n" using e by (auto simp: a_def)
  from swap_block_classes [of ptr a G E "ptr + n" x3 "\<lambda>x. cmp v x < 0" "is_pivot cmp v", OF this fit3 g h] obtain x4 where
    x4: "swap_block x3 a (a + (G + E) - min G E) (min G E) = Some x4" "seg_perm ptr (ptr + n) x3 x4"
      "\<And>k. a \<le> k \<Longrightarrow> k < a + E \<Longrightarrow> is_pivot cmp v (x4 ! k)" "\<And>k. a + E \<le> k \<Longrightarrow> k < a + (G + E) \<Longrightarrow> cmp v (x4 ! k) < 0"
      "\<And>k. k < a \<Longrightarrow> x4 ! k = x3 ! k" by blast
  have c4: "cmp v (x4 ! k) > 0" if "ptr \<le> k" "k < ptr + M" for k using that x3(3) [of k] x4(5) [of k] by (simp add: a_def)
  have c5: "is_pivot cmp v (x4 ! k)" if "ptr + M \<le> k" "k < ptr + (L + M + E)" for k
    using that x3(4) [of k] x4(3) [of k] x4(5) [of k] by (cases "k < a") (auto simp: a_def)
  have c6: "cmp v (x4 ! k) < 0" if "ptr + (L + M + E) \<le> k" "k < ptr + n" for k using that x4(4) [of k] e by (simp add: a_def)
  have mins: "(if L > M then M else L) = min L M" "(if E > G then G else E) = min G E" by auto
  have ds: "ptr_diff (ptr + n) (pt_pgt t) = Some E" "ptr_diff (pt_pgt t) (pt_pi t) = Some G" "ptr_diff (ptr + n) G = Some (ptr + (L + M + E))"
    "ptr_diff (pt_gt t) (pt_i t) = Some G" "ptr_diff n G = Some (L + M + E)" "ptr_diff (pt_plt t) ptr = Some L"
    "ptr_diff (pt_pi t) (pt_plt t) = Some M" "ptr_diff (pt_i t) (pt_lt t) = Some M" using t by (auto simp: ptr_diff_def)
  have "partition_segment cmp xs ptr n = Some (x4, M, L + M + E, ptr + (L + M + E))"
    using m(1) sw pl(1) x3(1) x4(1) unfolding partition_segment_def Let_def m4_def [symmetric] e unfolding a_def t(6) [symmetric]
    by (simp add: ds mins)
  moreover have "seg_perm ptr (ptr + n) xs x4" using sw pl(2) x3(2) x4(2) by (blast intro: seg_perm_trans)
  ultimately show ?thesis using c4 c5 c6 t(4,8) by (intro exI [of _ x4] exI [of _ M] exI [of _ "L + M + E"] exI [of _ v]) auto
qed

text \<open>The segments on the stack are disjoint; an entry is not below the depth limit of the entries under it.\<close>

fun segs_ok :: "nat \<Rightarrow> nat \<Rightarrow> segment list \<Rightarrow> bool" where
  "segs_ok lo hi [] \<longleftrightarrow> True"
| "segs_ok lo hi ((p, n, d) # st) \<longleftrightarrow> lo \<le> p \<and> p + n \<le> hi \<and> (\<forall>(q, m, e) \<in> set st. p + n \<le> q \<or> q + m \<le> p) \<and> segs_ok lo hi st"

fun stack_ok :: "segment list \<Rightarrow> bool" where
  "stack_ok [] \<longleftrightarrow> True"
| "stack_ok ((p, n, d) # st) \<longleftrightarrow> length st \<le> d \<and> d \<le> 50 \<and> stack_ok st"

fun stack_weight :: "segment list \<Rightarrow> nat" where
  "stack_weight [] = 0"
| "stack_weight ((p, n, d) # st) = 2 * n + 1 + stack_weight st"

section \<open>Comparisons\<close>

text \<open>
  What the comparison says about a relation \<open>R\<close>. The relation that holds always satisfies this for every comparison, so that the facts below show
  that the sort is safe and permutes the elements, whatever the comparison does.
\<close>

locale cmp_rel =
  fixes cmp :: "'a cmp_f" and R :: "'a \<Rightarrow> 'a \<Rightarrow> bool"
  assumes le: "cmp x y \<le> 0 \<Longrightarrow> R x y" and ge: "cmp x y \<ge> 0 \<Longrightarrow> R y x" and tr: "R x y \<Longrightarrow> R y z \<Longrightarrow> R x z"
begin

lemma R_refl: "R x x"
  using le [of x x] ge [of x x] by linarith

text \<open>Insertion sort.\<close>

lemma insert_loop_ok:
  assumes "ptr \<le> pj" "pj < e" "e \<le> length xs"
    and "\<And>i j. ptr \<le> i \<Longrightarrow> i < j \<Longrightarrow> j < e \<Longrightarrow> j \<noteq> pj \<Longrightarrow> R (xs ! i) (xs ! j)"
  shows "\<exists>ys. insert_loop cmp xs ptr pj = Some ys \<and> seg_perm ptr e xs ys \<and>
    (\<forall>i j. ptr \<le> i \<longrightarrow> i < j \<longrightarrow> j < e \<longrightarrow> R (ys ! i) (ys ! j))"
  using assms
proof (induction pj arbitrary: xs)
  case 0
  have "R (xs ! i) (xs ! j)" if "ptr \<le> i" "i < j" "j < e" for i j using that 0(4) [of i j] 0(1) by simp
  then show ?case by simp
next
  case (Suc pj)
  show ?case
  proof (cases "Suc pj > ptr")
    case False
    then have "Suc pj = ptr" using Suc.prems(1) by simp
    then have "R (xs ! i) (xs ! j)" if "ptr \<le> i" "i < j" "j < e" for i j using that Suc.prems(4) [of i j] by simp
    with False show ?thesis by simp
  next
    case True
    have d: "cmp_at cmp xs pj (Suc pj) = Some (cmp (xs ! pj) (xs ! Suc pj))" using Suc.prems by (intro cmp_at_ok) auto
    show ?thesis
    proof (cases "cmp (xs ! pj) (xs ! Suc pj) > 0")
      case False
      then have r: "R (xs ! pj) (xs ! Suc pj)" by (intro le) simp
      have "R (xs ! i) (xs ! j)" if ij: "ptr \<le> i" "i < j" "j < e" for i j
      proof (cases "j = Suc pj")
        case True
        show ?thesis
        proof (cases "i = pj")
          case False
          then have "R (xs ! i) (xs ! pj)" using ij True Suc.prems by (intro Suc.prems(4)) auto
          with r True show ?thesis using tr by blast
        qed (use r True in simp)
      qed (use ij Suc.prems(4) in blast)
      with False True d show ?thesis by simp
    next
      case gt: True
      let ?ys = "xs[Suc pj := xs ! pj, pj := xs ! Suc pj]"
      have sw: "swap xs (Suc pj) pj = Some ?ys \<and> seg_perm ptr e xs ?ys" using Suc.prems True by (intro swap_ok) auto
      have len: "Suc pj < length xs" using Suc.prems by simp
      have r: "R (xs ! Suc pj) (xs ! pj)" using gt by (intro ge) simp
      have "R (?ys ! i) (?ys ! j)" if ij: "ptr \<le> i" "i < j" "j < e" "j \<noteq> pj" for i j
      proof (cases "j = Suc pj")
        case j: True
        then have i: "i = pj \<or> R (xs ! i) (xs ! pj)" using ij Suc.prems(4) [of i pj] Suc.prems(2) by (cases "i = pj") auto
        show ?thesis using i j ij len r by (auto simp: nth_list_update)
      next
        case False
        have "R (xs ! pj) (xs ! j)" if "pj < j" using Suc.prems(4) [of pj j] ij that False True by auto
        moreover have "R (xs ! Suc pj) (xs ! j)" if "pj < j" using Suc.prems(1) Suc.prems(4) [of "Suc pj" j] ij that False by auto
        moreover have "R (xs ! i) (xs ! j)" using Suc.prems(4) [of i j] ij False by auto
        ultimately show ?thesis using ij len False by (auto simp: nth_list_update)
      qed
      then obtain ys where ys: "insert_loop cmp ?ys ptr pj = Some ys" "seg_perm ptr e ?ys ys"
        "\<forall>i j. ptr \<le> i \<longrightarrow> i < j \<longrightarrow> j < e \<longrightarrow> R (ys ! i) (ys ! j)"
        using Suc.IH [of ?ys] True Suc.prems by auto
      with sw d gt True show ?thesis using seg_perm_trans by fastforce
    qed
  qed
qed

lemma insertion_loop_ok:
  assumes "ptr \<le> p" "p + k \<le> length xs" and "\<And>i j. ptr \<le> i \<Longrightarrow> i < j \<Longrightarrow> j < p \<Longrightarrow> R (xs ! i) (xs ! j)"
  shows "\<exists>ys. insertion_loop cmp xs ptr p k = Some ys \<and> seg_perm ptr (p + k) xs ys \<and>
    (\<forall>i j. ptr \<le> i \<longrightarrow> i < j \<longrightarrow> j < p + k \<longrightarrow> R (ys ! i) (ys ! j))"
  using assms
proof (induction k arbitrary: xs p)
  case 0
  then show ?case by simp
next
  case (Suc k)
  obtain ys where ys: "insert_loop cmp xs ptr p = Some ys" "seg_perm ptr (Suc p) xs ys"
    "\<forall>i j. ptr \<le> i \<longrightarrow> i < j \<longrightarrow> j < Suc p \<longrightarrow> R (ys ! i) (ys ! j)"
    using insert_loop_ok [of ptr p "Suc p" xs] Suc.prems by (auto simp: less_Suc_eq)
  then obtain zs where "insertion_loop cmp ys ptr (Suc p) k = Some zs" "seg_perm ptr (Suc p + k) ys zs"
    "\<forall>i j. ptr \<le> i \<longrightarrow> i < j \<longrightarrow> j < Suc p + k \<longrightarrow> R (zs ! i) (zs ! j)"
    using Suc.IH [of "Suc p" ys] Suc.prems seg_perm_length [OF ys(2)] by auto
  moreover have "seg_perm ptr (Suc p + k) xs ys" using ys(2) by (rule seg_perm_mono) auto
  ultimately show ?case using ys(1) seg_perm_trans by fastforce
qed

text \<open>Heap sort. The elements below the node \<open>lo\<close> need not be in heap order.\<close>

definition par :: "nat \<Rightarrow> nat" where
  "par k = (k - 1) div 2"

definition heap_from :: "nat \<Rightarrow> nat \<Rightarrow> nat \<Rightarrow> 'a list \<Rightarrow> bool" where
  "heap_from b lo n xs \<longleftrightarrow> (\<forall>k. 0 < k \<longrightarrow> k < n \<longrightarrow> lo \<le> par k \<longrightarrow> R (xs ! (b + k)) (xs ! (b + par k)))"

definition heap_but :: "nat \<Rightarrow> nat \<Rightarrow> nat \<Rightarrow> nat \<Rightarrow> 'a list \<Rightarrow> bool" where
  "heap_but r b lo n xs \<longleftrightarrow>
     (\<forall>k. 0 < k \<longrightarrow> k < n \<longrightarrow> lo \<le> par k \<longrightarrow> par k \<noteq> r \<longrightarrow> R (xs ! (b + k)) (xs ! (b + par k))) \<and>
     (\<forall>k. 0 < k \<longrightarrow> k < n \<longrightarrow> par k = r \<longrightarrow> 0 < r \<longrightarrow> lo \<le> par r \<longrightarrow> R (xs ! (b + k)) (xs ! (b + par r)))"

lemma par_iff: "0 < k \<Longrightarrow> par k = r \<longleftrightarrow> k = r * 2 + 1 \<or> k = r * 2 + 2"
  unfolding par_def by presburger

lemma larger_child_ok:
  assumes "r * 2 + 1 < n" "b + n \<le> length xs"
  shows "\<exists>c. larger_child cmp xs b (r * 2 + 1) n = Some c \<and> 0 < c \<and> par c = r \<and> c < n \<and> r < c \<and>
    (\<forall>k. 0 < k \<longrightarrow> k < n \<longrightarrow> par k = r \<longrightarrow> R (xs ! (b + k)) (xs ! (b + c)))"
proof (cases "r * 2 + 1 < n - 1")
  case False
  then have "larger_child cmp xs b (r * 2 + 1) n = Some (r * 2 + 1)" by (simp add: larger_child_def)
  moreover have "k = r * 2 + 1" if "0 < k" "k < n" "par k = r" for k using that par_iff [of k r] False by linarith
  ultimately show ?thesis using assms par_iff [of "r * 2 + 1" r] R_refl by auto
next
  case True
  let ?l = "b + (r * 2 + 1)"
  have d: "cmp_at cmp xs ?l (?l + 1) = Some (cmp (xs ! ?l) (xs ! (?l + 1)))" using assms True by (intro cmp_at_ok) auto
  define c where "c = (if cmp (xs ! ?l) (xs ! (?l + 1)) \<le> 0 then r * 2 + 2 else r * 2 + 1)"
  have e: "larger_child cmp xs b (r * 2 + 1) n = Some c" using True d by (simp add: larger_child_def c_def)
  have "R (xs ! ?l) (xs ! (b + c))" "R (xs ! (?l + 1)) (xs ! (b + c))"
    using R_refl le [of "xs ! ?l" "xs ! (?l + 1)"] ge [of "xs ! ?l" "xs ! (?l + 1)"] by (auto simp: c_def)
  then have "R (xs ! (b + k)) (xs ! (b + c))" if "k = r * 2 + 1 \<or> k = r * 2 + 2" for k using that by (elim disjE) simp_all
  then have "R (xs ! (b + k)) (xs ! (b + c))" if "0 < k" "par k = r" for k using that par_iff [of k r] by blast
  moreover have "0 < c" "par c = r" "c < n" "r < c" using True par_iff [of c r] by (auto simp: c_def)
  ultimately show ?thesis using e by blast
qed

lemma sift_down_ok:
  assumes "heap_but r b lo n xs" "lo \<le> r" "r < n" "b + n \<le> length xs"
  shows "\<exists>ys. sift_down cmp xs b r n = Some ys \<and> seg_perm b (b + n) xs ys \<and> heap_from b lo n ys"
  using assms
proof (induction "n - r" arbitrary: r xs rule: less_induct)
  case less
  note H = less.prems(1) [unfolded heap_but_def, THEN conjunct1, rule_format]
  note H2 = less.prems(1) [unfolded heap_but_def, THEN conjunct2, rule_format]
  show ?case
  proof (cases "r * 2 + 1 < n")
    case False
    have "par k \<noteq> r" if "0 < k" "k < n" for k using that par_iff [of k r] False by auto
    then have "heap_from b lo n xs" using H by (auto simp: heap_from_def)
    with False show ?thesis by (simp add: sift_down.simps)
  next
    case True
    from larger_child_ok [OF True less.prems(4)] obtain c where
      c: "larger_child cmp xs b (r * 2 + 1) n = Some c" "0 < c" "par c = r" "c < n" "r < c"
        "\<And>k. 0 < k \<Longrightarrow> k < n \<Longrightarrow> par k = r \<Longrightarrow> R (xs ! (b + k)) (xs ! (b + c))" by blast
    have d: "cmp_at cmp xs (b + r) (b + c) = Some (cmp (xs ! (b + r)) (xs ! (b + c)))" using c less.prems by (intro cmp_at_ok) auto
    show ?thesis
    proof (cases "cmp (xs ! (b + r)) (xs ! (b + c)) > 0")
      case gt: True
      then have "R (xs ! (b + c)) (xs ! (b + r))" by (intro ge) simp
      then have "heap_from b lo n xs" using H c(6) tr unfolding heap_from_def by metis
      with gt True c(1) d show ?thesis by (simp add: sift_down.simps [of cmp xs])
    next
      case False
      then have rc: "R (xs ! (b + r)) (xs ! (b + c))" by (intro le) simp
      let ?ys = "xs[b + r := xs ! (b + c), b + c := xs ! (b + r)]"
      have sw: "swap xs (b + r) (b + c) = Some ?ys \<and> seg_perm b (b + n) xs ?ys" using c less.prems by (intro swap_ok) auto
      have nth: "?ys ! (b + k) = (if k = c then xs ! (b + r) else if k = r then xs ! (b + c) else xs ! (b + k))" if "k < n" for k
        using that c less.prems by (simp add: nth_list_update)
      have parn: "par k < n" if "k < n" for k using that by (auto simp: par_def)
      have "heap_but c b lo n ?ys" unfolding heap_but_def
      proof (intro conjI allI impI)
        fix k assume k: "0 < k" "k < n" "lo \<le> par k" "par k \<noteq> c"
        consider "k = c" | "k \<noteq> c" "par k = r" "k \<noteq> r" | "k = r" "k \<noteq> c" "par k \<noteq> r" | "k \<noteq> c" "k \<noteq> r" "par k \<noteq> r"
          using k(1) by (cases "k = c"; cases "par k = r"; cases "k = r") (auto simp: par_def)
        then show "R (?ys ! (b + k)) (?ys ! (b + par k))"
        proof cases
          case 3
          then have "R (xs ! (b + c)) (xs ! (b + par r))" using H2 [of c] c k by auto
          with 3 k show ?thesis using nth [of k] nth [of "par k"] parn [of k] by simp
        qed (use k c rc H [of k] nth [of k] nth [of "par k"] parn [of k] c(6) [of k] in simp_all)
      next
        fix k assume k: "0 < k" "k < n" "par k = c" "0 < c" "lo \<le> par c"
        then have "k \<noteq> c" "k \<noteq> r" using c(5) par_iff [of k c] by auto
        with k show "R (?ys ! (b + k)) (?ys ! (b + par c))" using nth [of k] nth [of r] H [of k] c less.prems by simp
      qed
      then obtain ys where "sift_down cmp ?ys b c n = Some ys" "seg_perm b (b + n) ?ys ys" "heap_from b lo n ys"
        using less.hyps [of c ?ys] c(3-5) less.prems(2-4) diff_less_mono2 [of r c n] by auto
      with sw d False True c(1) show ?thesis using seg_perm_trans by (fastforce simp: sift_down.simps [of cmp xs])
    qed
  qed
qed

lemma heapify_ok:
  assumes "heap_from b i n xs" "i \<le> n" "b + n \<le> length xs"
  shows "\<exists>ys. heapify cmp xs b i n = Some ys \<and> seg_perm b (b + n) xs ys \<and> heap_from b 0 n ys"
  using assms
proof (induction i arbitrary: xs)
  case (Suc i)
  have "heap_but i b i n xs" using Suc.prems(1) by (auto simp: heap_but_def heap_from_def par_def)
  then obtain ys where ys: "sift_down cmp xs b i n = Some ys" "seg_perm b (b + n) xs ys" "heap_from b i n ys"
    using sift_down_ok [of i b i n xs] Suc.prems by auto
  then obtain zs where "heapify cmp ys b i n = Some zs" "seg_perm b (b + n) ys zs" "heap_from b 0 n zs"
    using Suc.IH [of ys] Suc.prems seg_perm_length [OF ys(2)] by auto
  with ys show ?case using seg_perm_trans by fastforce
qed simp

lemma heap_root: "heap_from b 0 n xs \<Longrightarrow> k < n \<Longrightarrow> R (xs ! (b + k)) (xs ! b)"
proof (induction k rule: less_induct)
  case (less k)
  show ?case
  proof (cases "k = 0")
    case False
    then have "par k < k" by (simp add: par_def)
    then have "R (xs ! (b + par k)) (xs ! b)" using less by simp
    moreover have "R (xs ! (b + k)) (xs ! (b + par k))" using less.prems False by (simp add: heap_from_def)
    ultimately show ?thesis using tr by blast
  qed (simp add: R_refl)
qed

lemma heap_extract_ok:
  assumes "heap_from b 0 (Suc i) xs" "i < n" "b + n \<le> length xs"
    and "\<And>j k. i < j \<Longrightarrow> j < n \<Longrightarrow> k < j \<Longrightarrow> R (xs ! (b + k)) (xs ! (b + j))"
  shows "\<exists>ys. heap_extract cmp xs b i = Some ys \<and> seg_perm b (b + n) xs ys \<and>
    (\<forall>j k. j < n \<longrightarrow> k < j \<longrightarrow> R (ys ! (b + k)) (ys ! (b + j)))"
  using assms
proof (induction i arbitrary: xs)
  case 0
  then show ?case by auto
next
  case (Suc i)
  let ?ys = "xs[b := xs ! (b + Suc i), b + Suc i := xs ! b]"
  have sw: "swap xs b (b + Suc i) = Some ?ys \<and> seg_perm b (b + n) xs ?ys"
    using Suc.prems by (intro swap_ok) auto
  have sp: "seg_perm b (b + Suc (Suc i)) xs ?ys" using Suc.prems swap_ok [of b b "b + Suc (Suc i)" "b + Suc i" xs] by simp
  have nth: "?ys ! (b + k) = (if k = Suc i then xs ! b else if k = 0 then xs ! (b + Suc i) else xs ! (b + k))" if "k < n" for k
    using that Suc.prems by (simp add: nth_list_update)
  have "heap_but 0 b 0 (Suc i) ?ys" unfolding heap_but_def
    using Suc.prems(1,2) nth by (auto simp: heap_from_def par_def)
  then obtain zs where zs: "sift_down cmp ?ys b 0 (Suc i) = Some zs" "seg_perm b (b + Suc i) ?ys zs" "heap_from b 0 (Suc i) zs"
    using sift_down_ok [of 0 b 0 "Suc i" ?ys] Suc.prems by auto
  have len: "length zs = length xs" using seg_perm_length [OF zs(2)] by simp
  have sp2: "seg_perm b (b + Suc (Suc i)) xs zs" using sp seg_perm_mono [OF zs(2), of b "b + Suc (Suc i)"] by (auto intro: seg_perm_trans)
  have keep: "zs ! (b + j) = ?ys ! (b + j)" if "i < j" "j < n" for j using zs(2) that Suc.prems by (auto simp: seg_perm_def)
  have order: "R (zs ! (b + k)) (zs ! (b + j))" if j: "i < j" "j < n" "k < j" for j k
  proof -
    obtain m where m: "b \<le> m" "m < b + max (Suc k) (Suc (Suc i))" "m < length xs" "zs ! (b + k) = xs ! m"
    proof (cases "k < Suc (Suc i)")
      case True
      then obtain m where "b \<le> m" "m < b + Suc (Suc i)" "zs ! (b + k) = xs ! m"
        using seg_perm_in [OF sp2, of "b + k"] Suc.prems by auto
      then show ?thesis using that [of m] Suc.prems by auto
    next
      case False
      then have "zs ! (b + k) = xs ! (b + k)" using sp2 j Suc.prems by (auto simp: seg_perm_def)
      then show ?thesis using that [of "b + k"] j Suc.prems by auto
    qed
    show ?thesis
    proof (cases "j = Suc i")
      case True
      then have "zs ! (b + j) = xs ! b" using keep [of j] j nth [of j] by simp
      moreover have "R (xs ! (b + (m - b))) (xs ! b)" using m True j by (intro heap_root [OF Suc.prems(1)]) auto
      ultimately show ?thesis using m by simp
    next
      case False
      then have "zs ! (b + j) = xs ! (b + j)" using keep [of j] j nth [of j] by simp
      moreover have "R (xs ! (b + (m - b))) (xs ! (b + j))" using m False j by (intro Suc.prems(4)) auto
      ultimately show ?thesis using m by simp
    qed
  qed
  then obtain us where us: "heap_extract cmp zs b i = Some us" "seg_perm b (b + n) zs us"
    "\<forall>j k. j < n \<longrightarrow> k < j \<longrightarrow> R (us ! (b + k)) (us ! (b + j))"
    using Suc.IH [of zs] zs(3) Suc.prems len by auto
  have "seg_perm b (b + n) xs us" using sw seg_perm_mono [OF zs(2), of b "b + n"] us(2) Suc.prems by (auto intro: seg_perm_trans)
  with sw zs us show ?case by simp
qed

lemma heapsortx_ok:
  assumes "b + n \<le> length xs"
  shows "\<exists>ys. heapsortx cmp xs b n = Some ys \<and> seg_perm b (b + n) xs ys \<and>
    (\<forall>i j. b \<le> i \<longrightarrow> i < j \<longrightarrow> j < b + n \<longrightarrow> R (ys ! i) (ys ! j))"
proof (cases "n > 1")
  case True
  have "heap_from b (n div 2) n xs" by (auto simp: heap_from_def par_def)
  then obtain ys where ys: "heapify cmp xs b (n div 2) n = Some ys" "seg_perm b (b + n) xs ys" "heap_from b 0 n ys"
    using heapify_ok [of b "n div 2" n xs] assms by auto
  have pre: "heap_from b 0 (Suc (n - 1)) ys" "n - 1 < n" "b + n \<le> length ys" using True ys(3) assms seg_perm_length [OF ys(2)] by auto
  have "R (ys ! (b + k)) (ys ! (b + j))" if "n - 1 < j" "j < n" "k < j" for j k using that by simp
  from heap_extract_ok [OF pre this] obtain zs where zs: "heap_extract cmp ys b (n - 1) = Some zs" "seg_perm b (b + n) ys zs"
    "\<forall>j k. j < n \<longrightarrow> k < j \<longrightarrow> R (zs ! (b + k)) (zs ! (b + j))" by blast
  have "R (zs ! i) (zs ! j)" if "b \<le> i" "i < j" "j < b + n" for i j
    using zs(3) [rule_format, of "j - b" "i - b"] that by auto
  with True ys zs show ?thesis using seg_perm_trans by (fastforce simp: heapsortx_def)
qed (auto simp: heapsortx_def)

text \<open>Quick sort: elements in the wrong order are in one of the segments still to be sorted.\<close>

definition ordered :: "nat \<Rightarrow> nat \<Rightarrow> segment list \<Rightarrow> 'a list \<Rightarrow> bool" where
  "ordered lo hi segs xs \<longleftrightarrow> (\<forall>i j. lo \<le> i \<longrightarrow> i < j \<longrightarrow> j < hi \<longrightarrow>
     R (xs ! i) (xs ! j) \<or> (\<exists>(p, n, d) \<in> set segs. p \<le> i \<and> j < p + n))"

definition pending :: "nat \<Rightarrow> nat \<Rightarrow> segment list \<Rightarrow> 'a list \<Rightarrow> bool" where
  "pending lo hi segs xs \<longleftrightarrow> hi \<le> length xs \<and> segs_ok lo hi segs \<and> ordered lo hi segs xs"

lemma pending_perm:
  assumes I: "pending lo hi ((p, n, d) # st) xs" and perm: "seg_perm p (p + n) xs ys"
  shows "pending lo hi ((p, n, d) # st) ys"
proof -
  have b: "lo \<le> p" "p + n \<le> hi" "hi \<le> length xs" and dis: "\<And>q m e. (q, m, e) \<in> set st \<Longrightarrow> p + n \<le> q \<or> q + m \<le> p"
    and ok: "segs_ok lo hi ((p, n, d) # st)" and ord: "ordered lo hi ((p, n, d) # st) xs" using I by (auto simp: pending_def)
  have "R (ys ! i) (ys ! j) \<or> (\<exists>(q, m, e) \<in> set ((p, n, d) # st). q \<le> i \<and> j < q + m)" if ij: "lo \<le> i" "i < j" "j < hi" for i j
  proof (cases "p \<le> i \<and> j < p + n")
    case False
    have mv: "\<exists>m. ys ! k = xs ! m \<and> (if p \<le> k \<and> k < p + n then p \<le> m \<and> m < p + n else m = k)" if "k < hi" for k
      using seg_perm_in [OF perm, of k] seg_perm_out [OF perm, of k] that b by (cases "p \<le> k \<and> k < p + n") auto
    obtain i' where i': "ys ! i = xs ! i'" "if p \<le> i \<and> i < p + n then p \<le> i' \<and> i' < p + n else i' = i" using mv [of i] ij by auto
    obtain j' where j': "ys ! j = xs ! j'" "if p \<le> j \<and> j < p + n then p \<le> j' \<and> j' < p + n else j' = j" using mv [of j] ij by auto
    have "i' < j'" "lo \<le> i'" "j' < hi" using i'(2) j'(2) ij False b by (auto split: if_splits)
    then consider "R (xs ! i') (xs ! j')" | q m e where "(q, m, e) \<in> set ((p, n, d) # st)" "q \<le> i'" "j' < q + m"
      using ord unfolding ordered_def by blast
    then show ?thesis
    proof cases
      case 2
      show ?thesis
      proof (cases "(q, m, e) = (p, n, d)")
        case True
        then show ?thesis using 2 i'(2) j'(2) False ij by (auto split: if_splits)
      next
        case no: False
        then have "p + n \<le> q \<or> q + m \<le> p" using dis 2(1) by auto
        then have "i' = i" "j' = j" using 2 i'(2) j'(2) \<open>i' < j'\<close> by (auto split: if_splits)
        then show ?thesis using 2 by blast
      qed
    qed (use i' j' in simp)
  qed auto
  then show ?thesis using ok b seg_perm_length [OF perm] unfolding pending_def ordered_def by auto
qed

lemma pending_split:
  assumes I: "pending lo hi ((p, n, d) # st) xs" and b: "lt < gt" "gt \<le> n"
    and c: "\<And>k. p \<le> k \<Longrightarrow> k < p + lt \<Longrightarrow> cmp v (xs ! k) > 0" "\<And>k. p + lt \<le> k \<Longrightarrow> k < p + gt \<Longrightarrow> is_pivot cmp v (xs ! k)"
      "\<And>k. p + gt \<le> k \<Longrightarrow> k < p + n \<Longrightarrow> cmp v (xs ! k) < 0"
  shows "pending lo hi ((p, lt, d1) # (p + gt, n - gt, d2) # st) xs"
proof -
  have pv: "R v x \<and> R x v" if "is_pivot cmp v x" for x using that R_refl le [of v x] ge [of v x] by (auto simp: is_pivot_def)
  have lo_side: "R (xs ! k) v" if "p \<le> k" "k < p + gt" for k
    using that c(1) [of k] c(2) [of k] pv [of "xs ! k"] ge [of v "xs ! k"] by (cases "k < p + lt") auto
  have hi_side: "R v (xs ! k)" if "p + lt \<le> k" "k < p + n" for k
    using that c(2) [of k] c(3) [of k] pv [of "xs ! k"] le [of v "xs ! k"] by (cases "k < p + gt") auto
  have ord: "ordered lo hi ((p, n, d) # st) xs" using I by (simp add: pending_def)
  have "ordered lo hi ((p, lt, d1) # (p + gt, n - gt, d2) # st) xs" unfolding ordered_def
  proof (intro allI impI)
    fix i j assume ij: "lo \<le> i" "i < j" "j < hi"
    consider "R (xs ! i) (xs ! j)" | "\<exists>(q, m, e) \<in> set st. q \<le> i \<and> j < q + m" | "p \<le> i" "j < p + n" "\<not> R (xs ! i) (xs ! j)"
      using ord ij unfolding ordered_def by fastforce
    then show "R (xs ! i) (xs ! j) \<or> (\<exists>(q, m, e) \<in> set ((p, lt, d1) # (p + gt, n - gt, d2) # st). q \<le> i \<and> j < q + m)"
    proof cases
      case 3
      have "j < p + lt \<or> p + gt \<le> i"
      proof (rule ccontr)
        assume "\<not> (j < p + lt \<or> p + gt \<le> i)"
        then show False using 3 lo_side [of i] hi_side [of j] tr [of "xs ! i" v "xs ! j"] by auto
      qed
      then show ?thesis using 3 b by auto
    qed auto
  qed
  then show ?thesis using I b by (auto simp: pending_def)
qed

lemma pending_swap: "pending lo hi (s # t # st) xs \<Longrightarrow> pending lo hi (t # s # st) xs"
  by (cases s; cases t) (auto simp: pending_def ordered_def)

lemma pending_done:
  assumes "pending lo hi ((p, n, d) # st) xs" "\<And>i j. p \<le> i \<Longrightarrow> i < j \<Longrightarrow> j < p + n \<Longrightarrow> R (xs ! i) (xs ! j)"
  shows "pending lo hi st xs"
proof -
  have "R (xs ! i) (xs ! j) \<or> (\<exists>(q, m, e) \<in> set st. q \<le> i \<and> j < q + m)" if "lo \<le> i" "i < j" "j < hi" for i j
  proof -
    have "R (xs ! i) (xs ! j) \<or> p \<le> i \<and> j < p + n \<or> (\<exists>(q, m, e) \<in> set st. q \<le> i \<and> j < q + m)"
      using assms(1) that by (simp add: pending_def ordered_def)
    then show ?thesis using assms(2) that by blast
  qed
  then show ?thesis using assms(1) by (simp add: pending_def ordered_def)
qed

lemma split_loop_ok:
  assumes "pending lo hi ((ptr, n, d) # st) xs" "length st \<le> d" "d \<le> 50" "stack_ok st"
  shows "\<exists>ys st' p' n'. split_loop cmp xs st ptr n d = Some (ys, st', p', n') \<and> seg_perm lo hi xs ys \<and>
    pending lo hi ((p', n', 0) # st') ys \<and> stack_ok st' \<and> stack_weight st' + 2 * n' \<le> stack_weight st + 2 * n"
  using assms
proof (induction n arbitrary: xs st ptr d rule: less_induct)
  case (less n)
  have fit: "lo \<le> ptr" "ptr + n \<le> hi" "hi \<le> length xs" using less.prems(1) by (auto simp: pending_def)
  consider "n \<le> 6" | "6 < n" "d = 50" | "6 < n" "d < 50" using less.prems(3) by linarith
  then show ?case
  proof cases
    case 1
    have "pending lo hi ((ptr, n, 0) # st) xs" using less.prems(1) by (auto simp: pending_def ordered_def)
    with 1 less.prems show ?thesis by (auto simp: split_loop.simps [of cmp xs])
  next
    case 2
    obtain ys where ys: "heapsortx cmp xs ptr n = Some ys" "seg_perm ptr (ptr + n) xs ys"
      "\<forall>i j. ptr \<le> i \<longrightarrow> i < j \<longrightarrow> j < ptr + n \<longrightarrow> R (ys ! i) (ys ! j)" using heapsortx_ok [of ptr n xs] fit by auto
    have p: "pending lo hi ((ptr, n, d) # st) ys" using pending_perm [OF less.prems(1) ys(2)] .
    then have "pending lo hi st ys" using ys(3) by (auto intro: pending_done)
    then have "pending lo hi ((ptr, 0, 0) # st) ys" using p by (auto simp: pending_def ordered_def)
    then show ?thesis using 2 ys less.prems seg_perm_mono [OF ys(2), of lo hi] fit by (auto simp: split_loop.simps [of cmp xs])
  next
    case 3
    from partition_segment_ok [OF 3(1), of ptr xs cmp] fit obtain ys lt gt v where
      ps: "partition_segment cmp xs ptr n = Some (ys, lt, gt, ptr + gt)" "seg_perm ptr (ptr + n) xs ys" "lt < gt" "gt \<le> n"
      and c: "\<And>k. ptr \<le> k \<Longrightarrow> k < ptr + lt \<Longrightarrow> cmp v (ys ! k) > 0" "\<And>k. ptr + lt \<le> k \<Longrightarrow> k < ptr + gt \<Longrightarrow> is_pivot cmp v (ys ! k)"
        "\<And>k. ptr + gt \<le> k \<Longrightarrow> k < ptr + n \<Longrightarrow> cmp v (ys ! k) < 0" by auto
    have perm: "seg_perm lo hi xs ys" using seg_perm_mono [OF ps(2)] fit by auto
    have sp: "pending lo hi ((ptr, lt, d + 1) # (ptr + gt, n - gt, d + 1) # st) ys"
      by (rule pending_split [OF pending_perm [OF less.prems(1) ps(2)] ps(3,4) c])
    have push: "push_segment st s = Some (s # st)" for s using less.prems(2) 3 by (simp add: push_segment_def)
    have so: "stack_ok ((q, m, d + 1) # st)" for q m using less.prems 3 by auto
    define s where "s = (if lt > n - gt then (ptr, lt, d + 1) else (ptr + gt, n - gt, d + 1))"
    define p' m where "p' = (if lt > n - gt then ptr + gt else ptr)" and "m = (if lt > n - gt then n - gt else lt)"
    have eq: "split_loop cmp xs st ptr n d = split_loop cmp ys (s # st) p' m (d + 1)"
      using 3 ps(1,4) push by (simp add: split_loop.simps [of cmp xs] ptr_diff_def s_def p'_def m_def)
    have "pending lo hi ((p', m, d + 1) # s # st) ys" using sp pending_swap [OF sp] by (auto simp: s_def p'_def m_def)
    moreover have "length (s # st) \<le> d + 1" "d + 1 \<le> 50" "stack_ok (s # st)" using less.prems 3 so by (auto simp: s_def)
    moreover have "m < n" using ps(3,4) by (auto simp: m_def)
    ultimately obtain zs st' q k where zs: "split_loop cmp ys (s # st) p' m (d + 1) = Some (zs, st', q, k)" "seg_perm lo hi ys zs"
      "pending lo hi ((q, k, 0) # st') zs" "stack_ok st'" "stack_weight st' + 2 * k \<le> stack_weight (s # st) + 2 * m"
      using less.IH by blast
    have "stack_weight (s # st) + 2 * m \<le> stack_weight st + 2 * n" using ps(3,4) by (auto simp: s_def m_def)
    with zs eq perm show ?thesis using seg_perm_trans by fastforce
  qed
qed

lemma sort_loop_ok:
  assumes "pending lo hi st xs" "stack_ok st"
  shows "\<exists>ys. sort_loop cmp xs st = Some ys \<and> seg_perm lo hi xs ys \<and> pending lo hi [] ys"
  using assms
proof (induction "stack_weight st" arbitrary: xs st rule: less_induct)
  case less
  show ?case
  proof (cases st)
    case Nil
    then show ?thesis using less.prems by (simp add: sort_loop.simps [of cmp xs])
  next
    case (Cons s st1)
    obtain ptr n d where s: "s = (ptr, n, d)" by (cases s)
    have pre: "pending lo hi ((ptr, n, d) # st1) xs" "length st1 \<le> d" "d \<le> 50" "stack_ok st1" using less.prems Cons s by auto
    from split_loop_ok [OF pre] obtain ys st2 q k where ys: "split_loop cmp xs st1 ptr n d = Some (ys, st2, q, k)" "seg_perm lo hi xs ys"
      "pending lo hi ((q, k, 0) # st2) ys" "stack_ok st2" "stack_weight st2 + 2 * k \<le> stack_weight st1 + 2 * n" by blast
    have fit: "lo \<le> q" "q + k \<le> hi" "hi \<le> length ys" using ys(3) by (auto simp: pending_def)
    obtain zs where zs: "insertion_loop cmp ys q (q + 1) (k - 1) = Some zs" "seg_perm q (q + k) ys zs"
      "\<And>i j. q \<le> i \<Longrightarrow> i < j \<Longrightarrow> j < q + k \<Longrightarrow> R (zs ! i) (zs ! j)"
    proof (cases "k = 0")
      case False
      then show thesis using that insertion_loop_ok [of q "q + 1" "k - 1" ys] fit by auto
    qed (use that in auto)
    have "pending lo hi st2 zs" using pending_done [OF pending_perm [OF ys(3) zs(2)] zs(3)] .
    then obtain us where "sort_loop cmp zs st2 = Some us" "seg_perm lo hi zs us" "pending lo hi [] us"
      using less.hyps [of st2 zs] ys(4,5) Cons s by auto
    moreover have "seg_perm lo hi xs zs" using ys(2) seg_perm_mono [OF zs(2) fit(1,2)] by (rule seg_perm_trans)
    ultimately show ?thesis using ys(1) zs(1) Cons s seg_perm_trans by (fastforce simp: sort_loop.simps [of cmp xs])
  qed
qed

lemma rqsort_ok:
  assumes "base + n \<le> length xs"
  shows "\<exists>ys. rqsort cmp xs base n = Some ys \<and> seg_perm base (base + n) xs ys \<and>
    (\<forall>i j. base \<le> i \<longrightarrow> i < j \<longrightarrow> j < base + n \<longrightarrow> R (ys ! i) (ys ! j))"
proof (cases "n < 2")
  case False
  have "pending base (base + n) [(base, n, 0)] xs" using assms by (auto simp: pending_def ordered_def)
  from sort_loop_ok [OF this] obtain ys where ys: "sort_loop cmp xs [(base, n, 0)] = Some ys" "seg_perm base (base + n) xs ys"
    "pending base (base + n) [] ys" by auto
  with False show ?thesis by (auto simp: rqsort_def push_segment_def pending_def ordered_def)
qed (auto simp: rqsort_def)

end

interpretation any_cmp: cmp_rel cmp "\<lambda>_ _. True" for cmp
  by unfold_locales auto

text \<open>The contract of a comparison function: a total preorder.\<close>

locale comparator =
  fixes cmp :: "'a cmp_f"
  assumes flip: "cmp x y \<ge> 0 \<longleftrightarrow> cmp y x \<le> 0" and cmp_trans: "cmp x y \<le> 0 \<Longrightarrow> cmp y z \<le> 0 \<Longrightarrow> cmp x z \<le> 0"

sublocale comparator \<subseteq> cmp_rel cmp "\<lambda>x y. cmp x y \<le> 0"
  by unfold_locales (use flip cmp_trans in blast)+

lemma comparator_key:
  assumes "\<And>x y. cmp x y \<le> 0 \<longleftrightarrow> key x \<le> key y" "\<And>x y. cmp x y \<ge> 0 \<longleftrightarrow> key y \<le> (key x :: int)"
  shows "comparator cmp"
  using assms by unfold_locales auto

lemmas js_TA_cmp_defs = js_TA_cmp_int8_def js_TA_cmp_uint8_def js_TA_cmp_int16_def js_TA_cmp_uint16_def js_TA_cmp_int32_def js_TA_cmp_uint32_def
  js_TA_cmp_int64_def js_TA_cmp_uint64_def

lemma js_TA_cmp_le:
  "js_TA_cmp_int8 a b \<le> 0 \<longleftrightarrow> sint a \<le> sint b" "js_TA_cmp_uint8 a b \<le> 0 \<longleftrightarrow> uint a \<le> uint b"
  "js_TA_cmp_int16 c d \<le> 0 \<longleftrightarrow> sint c \<le> sint d" "js_TA_cmp_uint16 c d \<le> 0 \<longleftrightarrow> uint c \<le> uint d"
  "js_TA_cmp_int32 e f \<le> 0 \<longleftrightarrow> sint e \<le> sint f" "js_TA_cmp_uint32 e f \<le> 0 \<longleftrightarrow> uint e \<le> uint f"
  "js_TA_cmp_int64 g h \<le> 0 \<longleftrightarrow> sint g \<le> sint h" "js_TA_cmp_uint64 g h \<le> 0 \<longleftrightarrow> uint g \<le> uint h"
  by (auto simp: js_TA_cmp_defs word_sless_alt word_less_def)

lemma js_TA_cmp_ge:
  "js_TA_cmp_int8 a b \<ge> 0 \<longleftrightarrow> sint b \<le> sint a" "js_TA_cmp_uint8 a b \<ge> 0 \<longleftrightarrow> uint b \<le> uint a"
  "js_TA_cmp_int16 c d \<ge> 0 \<longleftrightarrow> sint d \<le> sint c" "js_TA_cmp_uint16 c d \<ge> 0 \<longleftrightarrow> uint d \<le> uint c"
  "js_TA_cmp_int32 e f \<ge> 0 \<longleftrightarrow> sint f \<le> sint e" "js_TA_cmp_uint32 e f \<ge> 0 \<longleftrightarrow> uint f \<le> uint e"
  "js_TA_cmp_int64 g h \<ge> 0 \<longleftrightarrow> sint h \<le> sint g" "js_TA_cmp_uint64 g h \<ge> 0 \<longleftrightarrow> uint h \<le> uint g"
  by (auto simp: js_TA_cmp_defs word_sless_alt word_less_def)

interpretation int8: comparator js_TA_cmp_int8 by (rule comparator_key [OF js_TA_cmp_le(1) js_TA_cmp_ge(1)])
interpretation uint8: comparator js_TA_cmp_uint8 by (rule comparator_key [OF js_TA_cmp_le(2) js_TA_cmp_ge(2)])
interpretation int16: comparator js_TA_cmp_int16 by (rule comparator_key [OF js_TA_cmp_le(3) js_TA_cmp_ge(3)])
interpretation uint16: comparator js_TA_cmp_uint16 by (rule comparator_key [OF js_TA_cmp_le(4) js_TA_cmp_ge(4)])
interpretation int32: comparator js_TA_cmp_int32 by (rule comparator_key [OF js_TA_cmp_le(5) js_TA_cmp_ge(5)])
interpretation uint32: comparator js_TA_cmp_uint32 by (rule comparator_key [OF js_TA_cmp_le(6) js_TA_cmp_ge(6)])
interpretation int64: comparator js_TA_cmp_int64 by (rule comparator_key [OF js_TA_cmp_le(7) js_TA_cmp_ge(7)])
interpretation uint64: comparator js_TA_cmp_uint64 by (rule comparator_key [OF js_TA_cmp_le(8) js_TA_cmp_ge(8)])

section \<open>Segments of a list\<close>

definition segment_of :: "nat \<Rightarrow> nat \<Rightarrow> 'a list \<Rightarrow> 'a list" where
  "segment_of p n xs = take n (drop p xs)"

lemma seg_perm_segment:
  assumes s: "seg_perm p (p + n) xs ys" and fit: "p + n \<le> length xs"
  shows "take p ys = take p xs" "drop (p + n) ys = drop (p + n) xs" "mset (segment_of p n ys) = mset (segment_of p n xs)"
proof -
  have len: "length ys = length xs" by (rule seg_perm_length [OF s])
  show t: "take p ys = take p xs" by (rule nth_equalityI) (use s len fit in \<open>auto intro: seg_perm_out\<close>)
  show d: "drop (p + n) ys = drop (p + n) xs" by (rule nth_equalityI) (use s len fit in \<open>auto intro: seg_perm_out\<close>)
  have split: "zs = take p zs @ segment_of p n zs @ drop (p + n) zs" for zs :: "'a list"
    by (metis add.commute append_take_drop_id drop_drop segment_of_def)
  have "mset ys = mset xs" using s by (simp add: seg_perm_def)
  moreover have "mset ys = mset (take p ys) + mset (segment_of p n ys) + mset (drop (p + n) ys)" by (subst split) simp
  moreover have "mset xs = mset (take p xs) + mset (segment_of p n xs) + mset (drop (p + n) xs)" by (subst split) simp
  ultimately show "mset (segment_of p n ys) = mset (segment_of p n xs)" by (simp add: t d)
qed

lemma sorted_segment:
  assumes "\<forall>i j. p \<le> i \<longrightarrow> i < j \<longrightarrow> j < p + n \<longrightarrow> R (ys ! i) (ys ! j)" "p + n \<le> length ys"
  shows "sorted_wrt R (segment_of p n ys)"
  using assms by (auto simp: sorted_wrt_iff_nth_less segment_of_def)

text \<open>Sorting by a key of a linear order is determined by the elements.\<close>

lemma keyed_sort:
  assumes cmp: "\<And>x y. cmp x y \<le> 0 \<longleftrightarrow> key x \<le> (key y :: int)" and fit: "base + n \<le> length xs"
    and ok: "\<exists>ys. rqsort cmp xs base n = Some ys \<and> seg_perm base (base + n) xs ys \<and>
      (\<forall>i j. base \<le> i \<longrightarrow> i < j \<longrightarrow> j < base + n \<longrightarrow> cmp (ys ! i) (ys ! j) \<le> 0)"
  shows "\<exists>ys. rqsort cmp xs base n = Some ys \<and> map key (segment_of base n ys) = sort (map key (segment_of base n xs))"
proof -
  obtain ys where ys: "rqsort cmp xs base n = Some ys" "seg_perm base (base + n) xs ys"
    "\<forall>i j. base \<le> i \<longrightarrow> i < j \<longrightarrow> j < base + n \<longrightarrow> cmp (ys ! i) (ys ! j) \<le> 0" using ok by blast
  have "sorted_wrt (\<lambda>x y. cmp x y \<le> 0) (segment_of base n ys)"
    using ys(3) fit seg_perm_length [OF ys(2)] by (intro sorted_segment) auto
  then have "sorted (map key (segment_of base n ys))" by (simp add: sorted_wrt_map cmp)
  moreover have "mset (map key (segment_of base n ys)) = mset (map key (segment_of base n xs))"
    using seg_perm_segment(3) [OF ys(2) fit] by simp
  ultimately show ?thesis using ys(1) by (metis properties_for_sort)
qed

section \<open>Elements as bytes\<close>

definition swapped :: "'a list \<Rightarrow> nat \<Rightarrow> nat \<Rightarrow> nat \<Rightarrow> 'a list" where
  "swapped b ap bp n = map (\<lambda>k. if ap \<le> k \<and> k < ap + n then b ! (bp + (k - ap)) else if bp \<le> k \<and> k < bp + n then b ! (ap + (k - bp)) else b ! k) [0..<length b]"

definition apart :: "nat \<Rightarrow> nat \<Rightarrow> nat \<Rightarrow> bool" where
  "apart ap bp n \<longleftrightarrow> ap = bp \<or> ap + n \<le> bp \<or> bp + n \<le> ap"

lemma length_swapped [simp]: "length (swapped b ap bp n) = length b"
  by (simp add: swapped_def)

lemma swapped_nth: "k < length b \<Longrightarrow> swapped b ap bp n ! k =
    (if ap \<le> k \<and> k < ap + n then b ! (bp + (k - ap)) else if bp \<le> k \<and> k < bp + n then b ! (ap + (k - bp)) else b ! k)"
  by (simp add: swapped_def)

lemma exchange_unit_eq:
  assumes "apart ap bp w" "ap + w \<le> length b" "bp + w \<le> length b"
  shows "exchange_unit w b ap bp = Some (swapped b ap bp w)"
proof -
  let ?t = "take w (drop ap b)" and ?u = "take w (drop bp b)"
  have tu: "length ?t = w" "length ?u = w" using assms by auto
  obtain b1 where b1: "blit b ap ?u = Some b1" using assms(2) by (simp only: blit_def tu) simp
  obtain b2 where b2: "blit b1 bp ?t = Some b2" using assms(3) length_blit [OF b1] by (simp only: blit_def tu) simp
  have len: "length b1 = length b" "length b2 = length b" using length_blit [OF b1] length_blit [OF b2] by auto
  have "b2 = swapped b ap bp w"
  proof (rule nth_equalityI)
    fix k assume "k < length b2"
    then have k: "k < length b" by (simp add: len)
    have "b2 ! k = (if bp \<le> k \<and> k < bp + w then b ! (ap + (k - bp)) else if ap \<le> k \<and> k < ap + w then b ! (bp + (k - ap)) else b ! k)"
    proof -
      have t: "?t ! (k - bp) = b ! (ap + (k - bp))" if "bp \<le> k \<and> k < bp + w"
        using that assms(2) nth_take [of "k - bp" w "drop ap b"] nth_drop [of ap b "k - bp"] by auto
      have u: "?u ! (k - ap) = b ! (bp + (k - ap))" if "ap \<le> k \<and> k < ap + w"
        using that assms(3) nth_take [of "k - ap" w "drop bp b"] nth_drop [of bp b "k - ap"] by auto
      show ?thesis using nth_blit [OF b1 k] nth_blit [OF b2, of k] k t u unfolding tu len by presburger
    qed
    then show "b2 ! k = swapped b ap bp w ! k" using assms(1) k by (auto simp: swapped_nth apart_def)
  qed (simp add: len)
  then show ?thesis using assms b1 b2 by (simp add: exchange_unit_def slice_def)
qed

lemma swapped_same: "swapped b ap ap n = b"
  by (rule nth_equalityI) (auto simp: swapped_nth)

lemma swapped_step:
  assumes "apart ap bp (w + n)" "ap + (w + n) \<le> length b" "bp + (w + n) \<le> length b"
  shows "swapped (swapped b ap bp w) (ap + w) (bp + w) n = swapped b ap bp (w + n)"
proof (rule nth_equalityI)
  fix k assume "k < length (swapped (swapped b ap bp w) (ap + w) (bp + w) n)"
  then have k: "k < length b" by simp
  show "swapped (swapped b ap bp w) (ap + w) (bp + w) n ! k = swapped b ap bp (w + n) ! k"
  proof (cases "ap = bp")
    case False
    then have dis: "ap + (w + n) \<le> bp \<or> bp + (w + n) \<le> ap" using assms(1) by (simp add: apart_def)
    consider "ap + w \<le> k" "k < ap + w + n" | "bp + w \<le> k" "k < bp + w + n" "\<not> (ap + w \<le> k \<and> k < ap + w + n)"
      | "\<not> (ap + w \<le> k \<and> k < ap + w + n)" "\<not> (bp + w \<le> k \<and> k < bp + w + n)" by blast
    then show ?thesis
    proof cases
      case 1
      define k' where "k' = bp + (k - ap)"
      have k': "bp + w + (k - (ap + w)) = k'" "k' < length b" "\<not> (ap \<le> k' \<and> k' < ap + w)" "\<not> (bp \<le> k' \<and> k' < bp + w)"
        using 1 assms(3) dis by (auto simp: k'_def)
      have "swapped (swapped b ap bp w) (ap + w) (bp + w) n ! k = swapped b ap bp w ! k'" using 1 k k'(1) by (simp add: swapped_nth)
      also have "\<dots> = b ! k'" using k'(2) by (simp only: swapped_nth k'(3,4) if_False)
      also have "b ! k' = swapped b ap bp (w + n) ! k" using 1 k by (simp add: swapped_nth k'_def)
      finally show ?thesis .
    next
      case 2
      define k' where "k' = ap + (k - bp)"
      have k': "ap + w + (k - (bp + w)) = k'" "k' < length b" "\<not> (ap \<le> k' \<and> k' < ap + w)" "\<not> (bp \<le> k' \<and> k' < bp + w)"
        using 2 assms(2) dis by (auto simp: k'_def)
      have out: "\<not> (ap \<le> k \<and> k < ap + (w + n))" using 2 dis by auto
      have "swapped (swapped b ap bp w) (ap + w) (bp + w) n ! k = swapped b ap bp w ! k'" using 2 k k'(1) by (auto simp: swapped_nth)
      also have "\<dots> = b ! k'" using k'(2) by (simp only: swapped_nth k'(3,4) if_False)
      also have "b ! k' = swapped b ap bp (w + n) ! k" using 2 k out by (auto simp: swapped_nth k'_def)
      finally show ?thesis .
    next
      case 3
      then have "swapped (swapped b ap bp w) (ap + w) (bp + w) n ! k = swapped b ap bp w ! k" using k by (subst swapped_nth) (simp_all only: length_swapped if_False)
      also have "\<dots> = swapped b ap bp (w + n) ! k" using 3 k dis by (auto simp: swapped_nth)
      finally show ?thesis .
    qed
  qed (simp add: swapped_same)
qed simp

lemma exchange_units_eq:
  "apart ap bp (n * w) \<Longrightarrow> ap + n * w \<le> length b \<Longrightarrow> bp + n * w \<le> length b \<Longrightarrow> exchange_units w n b ap bp = Some (swapped b ap bp (n * w))"
proof (induction n arbitrary: b ap bp)
  case 0
  have "swapped b ap bp 0 = b" by (rule nth_equalityI) (auto simp: swapped_nth)
  then show ?case by simp
next
  case (Suc n)
  have "exchange_unit w b ap bp = Some (swapped b ap bp w)" using Suc.prems by (intro exchange_unit_eq) (auto simp: apart_def)
  moreover have "exchange_units w n (swapped b ap bp w) (ap + w) (bp + w) = Some (swapped (swapped b ap bp w) (ap + w) (bp + w) (n * w))"
    using Suc.prems by (intro Suc.IH) (auto simp: apart_def)
  ultimately show ?case using swapped_step [of ap bp w "n * w" b] Suc.prems by simp
qed

lemma dvd_of_low_bits:
  assumes "2 ^ j dvd (base OR sz) AND (15 :: nat)" "j \<le> 4"
  shows "2 ^ j dvd sz"
proof -
  have "(base OR sz) AND 15 = take_bit 4 (base OR sz)" by (simp add: take_bit_eq_mask mask_eq_exp_minus_1)
  then have "take_bit j ((base OR sz) AND 15) = take_bit j (base OR sz)" using assms(2) by (simp only: take_bit_take_bit min_absorb1)
  moreover have "take_bit j ((base OR sz) AND 15) = 0" using assms(1) by (simp only: take_bit_eq_0_iff)
  ultimately have "take_bit j base OR take_bit j sz = 0" by (simp only: take_bit_or)
  then show ?thesis by (simp add: or_eq_0_iff take_bit_eq_0_iff)
qed

lemma exchange_func_eq:
  assumes "n = sz \<or> sz dvd n \<and> 16 < sz" "apart ap bp n" "ap + n \<le> length b" "bp + n \<le> length b" "0 < sz"
  shows "exchange_func base sz b ap bp n = Some (swapped b ap bp n)"
proof -
  define k where "k = (base OR sz) AND 15"
  have many: "exchange_units w (n div w) b ap bp = Some (swapped b ap bp n)" if "w dvd sz" for w
  proof -
    have "w dvd n" using assms(1) that by auto
    then show ?thesis using exchange_units_eq [of ap bp "n div w" w b] assms by simp
  qed
  have one: "exchange_unit sz b ap bp = Some (swapped b ap bp n)" if "sz \<le> 16" using that assms exchange_unit_eq [of ap bp sz b] by auto
  have d: "2 ^ j dvd k \<Longrightarrow> j \<le> 4 \<Longrightarrow> 2 ^ j dvd sz" for j using dvd_of_low_bits [of j base sz] by (simp add: k_def)
  have d4: "k = 0 \<Longrightarrow> 16 dvd sz" using d [of 4] by simp
  have d3: "k = 8 \<Longrightarrow> 8 dvd sz" using d [of 3] by simp
  have d2: "k \<in> {4, 12} \<Longrightarrow> 4 dvd sz" using d [of 2] by auto
  have d1: "k \<in> {2, 6, 10, 14} \<Longrightarrow> 2 dvd sz" using d [of 1] by auto
  show ?thesis
    unfolding exchange_func_def Let_def k_def [symmetric]
    using many [of 1] many one d4 d3 d2 d1
    by (auto simp: exchange_bytes_def exchange_one_byte_def exchange_int16s_def exchange_one_int16_def exchange_int32s_def exchange_one_int32_def
      exchange_int64s_def exchange_one_int64_def exchange_int128s_def exchange_one_int128_def)
qed

lemma exchange_block_eq:
  assumes "sz dvd n" "apart ap bp n" "ap + n \<le> length b" "bp + n \<le> length b" "0 < sz"
  shows "exchange_func base (sz OR 128) b ap bp n = Some (swapped b ap bp n)"
proof -
  define k where "k = (base OR sz) AND 15"
  have low: "x AND 15 = take_bit 4 x" for x :: nat by (simp add: take_bit_eq_mask mask_eq_exp_minus_1)
  have "take_bit 4 (128 :: nat) = 0" by (simp add: take_bit_eq_mod)
  then have k: "(base OR (sz OR 128)) AND 15 = k" unfolding k_def low take_bit_or by simp
  have "bit (sz OR 128) 7" by (simp add: bit_or_iff bit_0)
  then have big: "sz OR 128 \<noteq> 16" "sz OR 128 \<noteq> 8" "sz OR 128 \<noteq> 4" "sz OR 128 \<noteq> 2" "sz OR 128 \<noteq> 1" by auto
  have many: "exchange_units w (n div w) b ap bp = Some (swapped b ap bp n)" if "w dvd sz" for w
    using exchange_units_eq [of ap bp "n div w" w b] assms that dvd_trans [OF that assms(1)] by simp
  have d: "2 ^ j dvd k \<Longrightarrow> j \<le> 4 \<Longrightarrow> 2 ^ j dvd sz" for j using dvd_of_low_bits [of j base sz] by (simp add: k_def)
  have d4: "k = 0 \<Longrightarrow> 16 dvd sz" using d [of 4] by simp
  have d3: "k = 8 \<Longrightarrow> 8 dvd sz" using d [of 3] by simp
  have d2: "k \<in> {4, 12} \<Longrightarrow> 4 dvd sz" using d [of 2] by auto
  have d1: "k \<in> {2, 6, 10, 14} \<Longrightarrow> 2 dvd sz" using d [of 1] by auto
  show ?thesis
    unfolding exchange_func_def Let_def k
    using many [of 1] many d4 d3 d2 d1 big
    by (auto simp: exchange_bytes_def exchange_int16s_def exchange_int32s_def exchange_int64s_def exchange_int128s_def)
qed

text \<open>The elements of \<open>sz\<close> bytes in a block.\<close>

definition elems :: "nat \<Rightarrow> u8 list \<Rightarrow> u8 list list" where
  "elems sz b = map (\<lambda>k. take sz (drop (k * sz) b)) [0..<length b div sz]"

lemma length_elems [simp]: "length (elems sz b) = length b div sz"
  by (simp add: elems_def)

lemma elems_fit: "k < length b div sz \<Longrightarrow> k * sz + sz \<le> length b"
  by (metis Suc_leI div_times_less_eq_dividend mult_Suc add.commute le_trans mult_le_mono1)

lemma elems_nth: "k < length b div sz \<Longrightarrow> length (elems sz b ! k) = sz \<and> (\<forall>r < sz. elems sz b ! k ! r = b ! (k * sz + r))"
proof -
  assume k: "k < length b div sz"
  then have "sz \<le> length b - k * sz" using elems_fit [of k b sz] by simp
  with k elems_fit [OF k] show ?thesis by (simp add: elems_def)
qed

lemma elems_eqI:
  assumes "length xs = length b div sz" "\<And>k. k < length b div sz \<Longrightarrow> length (xs ! k) = sz \<and> (\<forall>r < sz. xs ! k ! r = b ! (k * sz + r))"
  shows "xs = elems sz b"
  by (rule nth_equalityI) (use assms elems_nth [of _ b sz] in \<open>auto intro!: nth_equalityI\<close>)

lemma index_block:
  assumes r: "r < sz"
  shows "i * sz \<le> k * sz + r \<and> k * sz + r < i * sz + n * sz \<longleftrightarrow> i \<le> k \<and> k < i + (n :: nat)"
proof -
  have k: "(k * sz + r) div sz = k" using r by simp
  have "i * sz \<le> k * sz + r \<longleftrightarrow> i \<le> k" using r k less_eq_div_iff_mult_less_eq [of sz i "k * sz + r"] by simp
  moreover have "k * sz + r < (i + n) * sz \<longleftrightarrow> k < i + n" using r k div_less_iff_less_mult [of sz "k * sz + r" "i + n"] by simp
  ultimately show ?thesis by (simp add: algebra_simps)
qed

text \<open>Swapping blocks of bytes swaps blocks of elements.\<close>

lemma elems_swapped:
  assumes sz: "0 < sz" and fit: "i + n \<le> length b div sz" "j + n \<le> length b div sz" and k: "k < length b div sz"
  shows "elems sz (swapped b (i * sz) (j * sz) (n * sz)) ! k =
    (if i \<le> k \<and> k < i + n then elems sz b ! (j + (k - i)) else if j \<le> k \<and> k < j + n then elems sz b ! (i + (k - j)) else elems sz b ! k)"
proof (rule nth_equalityI)
  let ?m = "if i \<le> k \<and> k < i + n then j + (k - i) else if j \<le> k \<and> k < j + n then i + (k - j) else k"
  have m: "?m < length b div sz" using fit k by auto
  have e: "(if i \<le> k \<and> k < i + n then elems sz b ! (j + (k - i)) else if j \<le> k \<and> k < j + n then elems sz b ! (i + (k - j)) else elems sz b ! k) = elems sz b ! ?m" by simp
  have k': "k < length (swapped b (i * sz) (j * sz) (n * sz)) div sz" using k by simp
  show "length (elems sz (swapped b (i * sz) (j * sz) (n * sz)) ! k) = length (if i \<le> k \<and> k < i + n then elems sz b ! (j + (k - i))
      else if j \<le> k \<and> k < j + n then elems sz b ! (i + (k - j)) else elems sz b ! k)"
    unfolding e using elems_nth [OF m] elems_nth [OF k'] by simp
  fix r assume "r < length (elems sz (swapped b (i * sz) (j * sz) (n * sz)) ! k)"
  then have r: "r < sz" using elems_nth [OF k'] by simp
  have len: "k * sz + r < length b" using elems_fit [OF k] r by simp
  have ix: "j * sz + (k * sz + r - i * sz) = (j + (k - i)) * sz + r" if ik: "i \<le> k" for i j
  proof -
    obtain d where "k = i + d" using le_Suc_ex [OF ik] by blast
    then show ?thesis by (simp add: algebra_simps)
  qed
  have "elems sz (swapped b (i * sz) (j * sz) (n * sz)) ! k ! r = swapped b (i * sz) (j * sz) (n * sz) ! (k * sz + r)" using elems_nth [OF k'] r by simp
  also have "\<dots> = (if i \<le> k \<and> k < i + n then b ! (j * sz + (k * sz + r - i * sz)) else if j \<le> k \<and> k < j + n then b ! (i * sz + (k * sz + r - j * sz)) else b ! (k * sz + r))"
    by (simp only: swapped_nth [OF len] index_block [OF r])
  also have "\<dots> = b ! (?m * sz + r)"
  proof -
    consider "i \<le> k \<and> k < i + n" | "\<not> (i \<le> k \<and> k < i + n)" "j \<le> k \<and> k < j + n" | "\<not> (i \<le> k \<and> k < i + n)" "\<not> (j \<le> k \<and> k < j + n)" by blast
    then show ?thesis
    proof cases
      case 1
      then show ?thesis using ix [of i j] by (simp only: if_True simp_thms)
    next
      case 2
      then show ?thesis using ix [of j i] by (simp only: if_True if_False simp_thms)
    next
      case 3
      then show ?thesis by (simp only: if_False)
    qed
  qed
  also have "\<dots> = elems sz b ! ?m ! r" using elems_nth [OF m] r by simp
  finally show "elems sz (swapped b (i * sz) (j * sz) (n * sz)) ! k ! r = (if i \<le> k \<and> k < i + n then elems sz b ! (j + (k - i))
      else if j \<le> k \<and> k < j + n then elems sz b ! (i + (k - j)) else elems sz b ! k) ! r" unfolding e .
qed

lemma swap_elems:
  assumes "0 < sz" "i < length b div sz" "j < length b div sz"
  shows "(elems sz b)[i := elems sz b ! j, j := elems sz b ! i] = elems sz (swapped b (i * sz) (j * sz) sz)"
proof (rule nth_equalityI)
  fix k assume "k < length ((elems sz b)[i := elems sz b ! j, j := elems sz b ! i])"
  then have k: "k < length b div sz" by simp
  show "(elems sz b)[i := elems sz b ! j, j := elems sz b ! i] ! k = elems sz (swapped b (i * sz) (j * sz) sz) ! k"
    using elems_swapped [OF assms(1), of i 1 b j k] assms k by (auto simp: nth_list_update)
qed simp

lemma swap_block_elems:
  assumes "0 < sz" "i + n \<le> j" "j + n \<le> length b div sz"
  shows "swap_block (elems sz b) i j n = Some (elems sz (swapped b (i * sz) (j * sz) (n * sz)))"
proof -
  have "i \<le> i" "j + n \<le> length (elems sz b)" using assms by auto
  from swap_block_ok [of i i n j "j + n" "elems sz b"] assms obtain ys where ys: "swap_block (elems sz b) i j n = Some ys" "length ys = length b div sz"
    "\<And>k. ys ! k = (if i \<le> k \<and> k < i + n then elems sz b ! (j + (k - i)) else if j \<le> k \<and> k < j + n then elems sz b ! (i + (k - j)) else elems sz b ! k)"
    by (auto dest: seg_perm_length)
  have "ys = elems sz (swapped b (i * sz) (j * sz) (n * sz))"
    by (rule nth_equalityI) (use ys(2,3) elems_swapped [OF assms(1), of i n b j] assms in auto)
  with ys(1) show ?thesis by simp
qed

section \<open>Properties\<close>

text \<open>
  C11. The sort is safe for every comparison, also one that contradicts itself: it ends, reads and writes only the array, never needs more than the 50 entries of
  its stack, and leaves a permutation of the segment it was called for and everything else unchanged.
\<close>

theorem rqsort_permutes:
  assumes "base + nmemb \<le> length xs"
  shows "\<exists>ys. rqsort cmp xs base nmemb = Some ys \<and> mset (segment_of base nmemb ys) = mset (segment_of base nmemb xs) \<and>
    take base ys = take base xs \<and> drop (base + nmemb) ys = drop (base + nmemb) xs"
  using any_cmp.rqsort_ok [OF assms] seg_perm_segment [OF _ assms] by blast

theorem rqsort_permutes_witness:
  "\<exists>ys. rqsort (\<lambda>_ _. 1) [3, 1, 2 :: nat] 0 3 = Some ys \<and> mset ys = {#1, 2, 3#}"
  using rqsort_permutes [of 0 3 "[3, 1, 2 :: nat]" "\<lambda>_ _. 1"] by (auto simp: segment_of_def add_mset_commute)

text \<open>
  C10. The sort sorts: when the comparison is a total preorder, the segment is in ascending order afterwards and a permutation of what it was.
\<close>

theorem rqsort_sorts:
  assumes "\<And>x y. cmp x y \<ge> 0 \<longleftrightarrow> cmp y x \<le> 0" "\<And>x y z. cmp x y \<le> 0 \<Longrightarrow> cmp y z \<le> 0 \<Longrightarrow> cmp x z \<le> 0" "base + nmemb \<le> length xs"
  shows "\<exists>ys. rqsort cmp xs base nmemb = Some ys \<and> sorted_wrt (\<lambda>x y. cmp x y \<le> 0) (segment_of base nmemb ys) \<and>
    mset (segment_of base nmemb ys) = mset (segment_of base nmemb xs)"
proof -
  have c: "cmp_rel cmp (\<lambda>x y. cmp x y \<le> 0)" by unfold_locales (use assms(1,2) in blast)+
  from cmp_rel.rqsort_ok [OF c assms(3)] obtain ys where ys: "rqsort cmp xs base nmemb = Some ys" "seg_perm base (base + nmemb) xs ys"
    "\<forall>i j. base \<le> i \<longrightarrow> i < j \<longrightarrow> j < base + nmemb \<longrightarrow> cmp (ys ! i) (ys ! j) \<le> 0" by blast
  then show ?thesis using seg_perm_segment(3) [OF ys(2) assms(3)] seg_perm_length [OF ys(2)] assms(3) by (auto intro: sorted_segment)
qed

theorem rqsort_sorts_witness:
  "\<exists>ys. rqsort js_TA_cmp_uint8 [3, 1, 2] 0 3 = Some ys \<and> sorted_wrt (\<lambda>x y. js_TA_cmp_uint8 x y \<le> 0) ys"
proof -
  have "\<exists>ys. rqsort js_TA_cmp_uint8 [3, 1, 2] 0 3 = Some ys \<and> sorted_wrt (\<lambda>x y. js_TA_cmp_uint8 x y \<le> 0) (segment_of 0 3 ys) \<and>
    mset (segment_of 0 3 ys) = mset (segment_of 0 3 [3, 1, 2])"
    by (rule rqsort_sorts) (auto simp: js_TA_cmp_le js_TA_cmp_ge)
  then obtain ys where ys: "rqsort js_TA_cmp_uint8 [3, 1, 2] 0 3 = Some ys" "sorted_wrt (\<lambda>x y. js_TA_cmp_uint8 x y \<le> 0) (segment_of 0 3 ys)" by blast
  from any_cmp.rqsort_ok [of 0 3 "[3, 1, 2]" js_TA_cmp_uint8] ys(1) have "length ys = 3" by (auto dest: seg_perm_length)
  with ys show ?thesis by (auto simp: segment_of_def)
qed

text \<open>
  C13. Sorting a typed array: with each of the comparisons of integer arrays the elements are in numerical order afterwards, signed or unsigned as the
  type of the array says. The subtraction of the narrow types and the comparison of the wide ones give the same order.
\<close>

theorem typed_array_sort:
  assumes "base + nmemb \<le> length a8" "base + nmemb \<le> length a16" "base + nmemb \<le> length a32" "base + nmemb \<le> length a64"
  shows "(\<exists>ys. rqsort js_TA_cmp_int8 a8 base nmemb = Some ys \<and> map sint (segment_of base nmemb ys) = sort (map sint (segment_of base nmemb a8))) \<and>
    (\<exists>ys. rqsort js_TA_cmp_uint8 a8 base nmemb = Some ys \<and> map uint (segment_of base nmemb ys) = sort (map uint (segment_of base nmemb a8))) \<and>
    (\<exists>ys. rqsort js_TA_cmp_int16 a16 base nmemb = Some ys \<and> map sint (segment_of base nmemb ys) = sort (map sint (segment_of base nmemb a16))) \<and>
    (\<exists>ys. rqsort js_TA_cmp_uint16 a16 base nmemb = Some ys \<and> map uint (segment_of base nmemb ys) = sort (map uint (segment_of base nmemb a16))) \<and>
    (\<exists>ys. rqsort js_TA_cmp_int32 a32 base nmemb = Some ys \<and> map sint (segment_of base nmemb ys) = sort (map sint (segment_of base nmemb a32))) \<and>
    (\<exists>ys. rqsort js_TA_cmp_uint32 a32 base nmemb = Some ys \<and> map uint (segment_of base nmemb ys) = sort (map uint (segment_of base nmemb a32))) \<and>
    (\<exists>ys. rqsort js_TA_cmp_int64 a64 base nmemb = Some ys \<and> map sint (segment_of base nmemb ys) = sort (map sint (segment_of base nmemb a64))) \<and>
    (\<exists>ys. rqsort js_TA_cmp_uint64 a64 base nmemb = Some ys \<and> map uint (segment_of base nmemb ys) = sort (map uint (segment_of base nmemb a64)))"
proof (intro conjI)
qed (rule keyed_sort, rule js_TA_cmp_le, rule assms, rule int8.rqsort_ok uint8.rqsort_ok int16.rqsort_ok uint16.rqsort_ok int32.rqsort_ok uint32.rqsort_ok
    int64.rqsort_ok uint64.rqsort_ok, rule assms)+

theorem typed_array_sort_witness:
  "\<exists>ys. rqsort js_TA_cmp_int8 [0, 255, 128] 0 3 = Some ys \<and> map sint (take 3 ys) = [- 128, - 1, 0]"
  using typed_array_sort [of 0 3 "[0, 255, 128]" "[0, 0, 0]" "[0, 0, 0]" "[0, 0, 0]"] by (simp add: segment_of_def)

text \<open>
  C12. The exchange functions refine the swaps of elements. Whatever the alignment of the array and the size of the elements, the function chosen for
  \<open>size\<close> swaps two elements of the array of \<open>size\<close> bytes each, and the one chosen for \<open>size | 128\<close>, used as \<open>swap_block\<close>, swaps two blocks of \<open>n\<close> elements.
\<close>

theorem exchange_refines_swap:
  assumes "0 < sz" "i < length b div sz" "j < length b div sz"
  shows "(\<exists>b'. exchange_func base sz b (i * sz) (j * sz) sz = Some b' \<and> swap (elems sz b) i j = Some (elems sz b')) \<and>
    (\<forall>n. i + n \<le> j \<longrightarrow> j + n \<le> length b div sz \<longrightarrow>
      (\<exists>b'. exchange_func base (sz OR 128) b (i * sz) (j * sz) (n * sz) = Some b' \<and> swap_block (elems sz b) i j n = Some (elems sz b')))"
proof (intro conjI allI impI)
  have ij: "i * sz + sz \<le> length b" "j * sz + sz \<le> length b" using assms elems_fit by auto
  have "apart (i * sz) (j * sz) sz" using mult_le_mono1 [of "Suc i" j sz] mult_le_mono1 [of "Suc j" i sz] by (cases i j rule: linorder_cases) (auto simp: apart_def)
  then have "exchange_func base sz b (i * sz) (j * sz) sz = Some (swapped b (i * sz) (j * sz) sz)" using assms ij by (intro exchange_func_eq) auto
  moreover have "swap (elems sz b) i j = Some (elems sz (swapped b (i * sz) (j * sz) sz))"
    using swap_elems [OF assms] assms by (simp add: swap_def)
  ultimately show "\<exists>b'. exchange_func base sz b (i * sz) (j * sz) sz = Some b' \<and> swap (elems sz b) i j = Some (elems sz b')" by blast
next
  fix n assume n: "i + n \<le> j" "j + n \<le> length b div sz"
  have fit1: "i * sz + n * sz \<le> j * sz" using mult_le_mono1 [OF n(1), of sz] by (simp add: add_mult_distrib)
  have "(j + n) * sz \<le> length b" using mult_le_mono1 [OF n(2), of sz] div_times_less_eq_dividend [of "length b" sz] by (rule order_trans)
  then have fit2: "j * sz + n * sz \<le> length b" by (simp add: add_mult_distrib)
  have "exchange_func base (sz OR 128) b (i * sz) (j * sz) (n * sz) = Some (swapped b (i * sz) (j * sz) (n * sz))"
    using assms fit1 fit2 by (intro exchange_block_eq) (auto simp: apart_def)
  moreover have "swap_block (elems sz b) i j n = Some (elems sz (swapped b (i * sz) (j * sz) (n * sz)))" using swap_block_elems [OF assms(1) n] .
  ultimately show "\<exists>b'. exchange_func base (sz OR 128) b (i * sz) (j * sz) (n * sz) = Some b' \<and> swap_block (elems sz b) i j n = Some (elems sz b')" by blast
qed

theorem exchange_refines_swap_witness:
  "\<exists>b'. exchange_func 8 2 [1, 2, 3, 4, 5, 6] 0 4 2 = Some b' \<and> swap (elems 2 [1, 2, 3, 4, 5, 6]) 0 2 = Some (elems 2 b')"
  using exchange_refines_swap [of 2 0 "[1, 2, 3, 4, 5, 6]" 2 8] by simp

end
