(* ===== verification/BufferProtocol.thy ===== *)
theory BufferProtocol
  imports DynBuf
begin

text \<open>
  How the libraries use the helpers of \<^verbatim>\<open>cutils.c\<close>: a code generator issues appends of all kinds to a growing buffer, ignores their results, tests
  the error flag once; messages are built by bounded string operations. The first is
  one more interpretation of the locale \<open>error_buffer\<close>, on sequences that mix the appending operations.
\<close>

section \<open>Mixed appends\<close>

datatype dbuf_op = Put "u8 list" | Putc u8 | Put_u16 u16 | Put_u32 u32 | Put_u64 u64

fun run_op :: "DynBuf \<Rightarrow> dbuf_op \<Rightarrow> (int \<times> DynBuf) option" where
  "run_op s (Put data) = dbuf_put s data"
| "run_op s (Putc c) = dbuf_putc s c"
| "run_op s (Put_u16 v) = dbuf_put_u16 s v"
| "run_op s (Put_u32 v) = dbuf_put_u32 s v"
| "run_op s (Put_u64 v) = dbuf_put_u64 s v"

fun op_bytes :: "dbuf_op \<Rightarrow> u8 list" where
  "op_bytes (Put data) = data"
| "op_bytes (Putc c) = [c]"
| "op_bytes (Put_u16 v) = u16_bytes v"
| "op_bytes (Put_u32 v) = u32_bytes v"
| "op_bytes (Put_u64 v) = u64_bytes v"

lemma run_op_put: "run_op s c = dbuf_put s (op_bytes c)"
  by (cases c) (simp_all add: dbuf_putc_def dbuf_put_u16_def dbuf_put_u32_def dbuf_put_u64_def)

interpretation dbuf_mixed: error_buffer run_op dbuf_ok dbuf_bytes dbuf_error op_bytes
  unfolding run_op_put by unfold_locales (rule dbuf_chunks.put_step)

section \<open>Strings\<close>

lemma strlen_at:
  assumes "slice buf off (length d + 1) = Some (d @ [0])" "0 \<notin> set d"
  shows "strlen (drop off buf) = Some (length d)"
proof -
  have "take (length d + 1) (drop off buf) = d @ [0]" using assms(1) by (simp add: slice_Some_iff)
  then have "drop off buf = d @ 0 # drop (length d + 1) (drop off buf)" by (metis append.assoc append_Cons append_Nil append_take_drop_id)
  then show ?thesis using strlen_eq [OF assms(2)] by metis
qed

lemma blit_append:
  assumes "slice buf off (length d + 1) = Some (d @ [0])" "length d + length ys \<le> n" "off + n \<le> length buf"
  shows "blit buf (off + length d) ys = blit buf off (d @ ys)"
proof -
  have "take (length d) (drop off buf) = d" using assms(1) by (auto simp: slice_Some_iff take_Suc_conv_app_nth dest: arg_cong [of _ _ "take (length d)"])
  then have "take (off + length d) buf = take off buf @ d" by (simp add: take_add)
  then show ?thesis using assms by (simp add: blit_def add.assoc)
qed

section \<open>Properties\<close>

text \<open>
  C19. The sticky error protocol. After any sequence of appends whose results were ignored, a buffer without error holds everything that was
  appended, in order, and an error set by any of them, or before, is still set; no append writes outside the block.
\<close>

theorem dbuf_error_protocol:
  assumes "dbuf_ok s" "length (dbuf_bytes s) + length (concat (map op_bytes ops)) < 2 ^ 64"
  shows "\<exists>s'. run_ops run_op s ops = Some s' \<and> dbuf_ok s' \<and> (dbuf_error s \<longrightarrow> dbuf_error s') \<and>
    (\<not> dbuf_error s' \<longrightarrow> dbuf_bytes s' = dbuf_bytes s @ concat (map op_bytes ops))"
  using assms by (rule dbuf_mixed.run_ops_spec)

theorem dbuf_error_protocol_witness:
  "\<exists>s'. run_ops run_op dbuf_init [Put [1, 2], Put_u16 0x304, Putc 5] = Some s' \<and> (\<not> dbuf_error s' \<longrightarrow> dbuf_bytes s' = [1, 2, 4, 3, 5])"
proof -
  have ok: "dbuf_ok dbuf_init" and e: "dbuf_bytes dbuf_init = []"
    using default_realloc.realloc_contract_axioms by (simp_all add: dbuf_ok_def dbuf_init_def dbuf_init2_def dbuf_bytes_def)
  have b: "concat (map op_bytes [Put [1, 2], Put_u16 0x304, Putc 5]) = [1, 2, 4, 3, 5]" by (simp add: u16_bytes_def)
  from dbuf_error_protocol [OF ok, of "[Put [1, 2], Put_u16 0x304, Putc 5]"] show ?thesis unfolding b e by auto
qed

text \<open>
  C20. Bounded concatenation. \<open>pstrcat\<close> on a buffer of \<open>buf_size\<close> bytes that holds the string \<open>d\<close> leaves the first \<open>buf_size - 1\<close> characters of
  \<open>d\<close> followed by \<open>s\<close>, always terminated, and changes no byte outside the buffer.
\<close>

theorem pstrcat_bounded:
  assumes "0 \<notin> set d" "0 \<notin> set s" "slice buf off (length d + 1) = Some (d @ [0])" "length d < n" "off + n \<le> length buf"
  shows "pstrcat buf off (int n) (s @ 0 # r) = blit buf off (take (n - 1) (d @ s) @ [0])"
proof -
  have "pstrcat buf off (int n) (s @ 0 # r) = pstrcpy buf (off + length d) (int n - int (length d)) (s @ 0 # r)"
    using strlen_at [OF assms(3,1)] assms(4) by (simp add: pstrcat_def)
  also have "\<dots> = blit buf (off + length d) (take (nat (int n - int (length d)) - 1) s @ [0])"
    using assms by (intro pstrcpy_eq) auto
  also have "nat (int n - int (length d)) - 1 = n - 1 - length d" using assms(4) by simp
  also have "blit buf (off + length d) (take (n - 1 - length d) s @ [0]) = blit buf off (d @ take (n - 1 - length d) s @ [0])"
    using assms by (intro blit_append [of _ _ _ _ n]) auto
  also have "d @ take (n - 1 - length d) s @ [0] = take (n - 1) (d @ s) @ [0]" using assms(4) by simp
  finally show ?thesis .
qed

theorem pstrcat_bounded_witness:
  "pstrcat [1, 2, 0, 9, 9] 0 4 [3, 4, 5, 0] = Some [1, 2, 3, 0, 9]"
  using pstrcat_bounded [of "[1, 2]" "[3, 4, 5]" "[1, 2, 0, 9, 9]" 0 4 "[]"] by (simp add: slice_def blit_def)

end
