(* ===== verification/SubjectChars.thy ===== *)
theory SubjectChars
  imports RegexpSafety
begin

text \<open>
  Characters of the subject and classes of characters in the matcher of \<^verbatim>\<open>libregexp.c\<close>: going back over the characters read, the character macros as a decoder of UTF-16, the
  end of the loop over the body of a simple quantifier, and the tests for white space and identifiers on the table driven definitions.
\<close>

section \<open>Going back\<close>

lemma get_prev_of_get:
  assumes g: "GET_CHAR ct buf p (length buf) = Some (c, p')" and m: "\<not> mid_pair ct buf p" and ok: "pos_ok ct buf p"
  shows "GET_PREV_CHAR ct buf p' 0 = Some (c, p)"
proof (cases "ct = 0")
  case True
  with g show ?thesis by (auto simp: GET_CHAR_def GET_PREV_CHAR_def ptr_back_def bind_Some_iff)
next
  case False
  then obtain c0 where c0: "get_u16 buf p = Some c0" using g by (auto simp: GET_CHAR_def bind_Some_iff)
  consider c1 where "ct = 2" "is_hi_surrogate c0" "get_u16 buf (p + 2) = Some c1" "is_lo_surrogate c1" "p' = p + 4" "c = from_surrogates c0 c1"
    | "p' = p + 2" "c = c0"
  proof (cases "is_hi_surrogate c0 \<and> ct = 2 \<and> p + 2 < length buf")
    case hi: True
    then obtain c1 where c1: "get_u16 buf (p + 2) = Some c1" using g c0 by (auto simp: GET_CHAR_def bind_Some_iff)
    with that g c0 hi show ?thesis by (cases "is_lo_surrogate c1") (auto simp: GET_CHAR_def)
  next
    case no: False
    with g c0 False have "p' = p + 2" "c = c0" by (auto simp: GET_CHAR_def)
    with that(2) show ?thesis .
  qed
  then show ?thesis
  proof cases
    case 1
    then show ?thesis using c0 by (simp add: GET_PREV_CHAR_def ptr_back_def)
  next
    case 2
    show ?thesis
    proof (cases "ct = 2 \<and> is_lo_surrogate c0 \<and> 0 < p")
      case True
      then have p2: "2 \<le> p" using ok even_next [of 0 p] by (simp add: pos_ok_def)
      then obtain c2 where "get_u16 buf (p - 2) = Some c2" using get_u16_total [of "p - 2" buf] ok by (fastforce simp: pos_ok_def)
      then show ?thesis using m 2 c0 True p2 by (auto simp: GET_PREV_CHAR_def ptr_back_def mid_pair_def)
    qed (use 2 c0 False in \<open>auto simp: GET_PREV_CHAR_def ptr_back_def\<close>)
  qed
qed

lemma gets_not_mid:
  assumes "gets (Suc n) ct buf p q" "buf_ok ct buf" "pos_ok ct buf p"
  shows "\<not> mid_pair ct buf q"
proof (cases "ct = 2")
  case True
  from assms(1) obtain c q1 where q1: "gets n ct buf p q1" "GET_CHAR ct buf q1 (length buf) = Some (c, q)" by auto
  from GET_CHAR_not_mid [OF q1(2)] gets_pos_ok [OF q1(1) assms(2,3)] assms(2) True show ?thesis by (simp add: pos_ok_def buf_ok_def)
qed (simp add: mid_pair_def)

lemma prev_chars_gets:
  assumes "buf_ok ct buf" "pos_ok ct buf p" "\<not> mid_pair ct buf p"
  shows "gets n ct buf p q \<Longrightarrow> prev_chars n ct buf q 0 = Some p"
proof (induction n arbitrary: q)
  case (Suc n)
  then obtain c q1 where q1: "gets n ct buf p q1" "GET_CHAR ct buf q1 (length buf) = Some (c, q)" by auto
  have "\<not> mid_pair ct buf q1" using gets_not_mid [of _ ct buf p q1] q1(1) assms by (cases n) auto
  with prev_of_get [OF q1(2)] gets_pos_ok [OF q1(1) assms(1,2)] Suc.IH [OF q1(1)] show ?case by simp
qed simp

section \<open>Subjects in UTF-16\<close>

text \<open>
  UTF-16. A code point is one unit below 0x10000 and a surrogate pair above. A text is stored as the little-endian bytes of its units. Every sequence of units is the
  encoding of one text in which no code point of a high surrogate stands before one of a low surrogate: JavaScript strings may hold surrogates on their own.
\<close>

definition utf16_units :: "nat \<Rightarrow> u16 list" where
  "utf16_units n = (if n < 0x10000 then [of_nat n] else [of_nat (0xd800 + (n - 0x10000) div 0x400), of_nat (0xdc00 + (n - 0x10000) mod 0x400)])"

definition utf16_bytes :: "nat list \<Rightarrow> u8 list" where
  "utf16_bytes cs = concat (map u16_bytes (concat (map utf16_units cs)))"

fun text_ok :: "nat list \<Rightarrow> bool" where
  "text_ok [] \<longleftrightarrow> True"
| "text_ok [c] \<longleftrightarrow> c \<le> 0x10ffff"
| "text_ok (c # d # cs) \<longleftrightarrow> c \<le> 0x10ffff \<and> \<not> (c \<in> {0xd800 ..< 0xdc00} \<and> d \<in> {0xdc00 ..< 0xe000}) \<and> text_ok (d # cs)"

lemma utf16_bytes_simps [simp]:
  "utf16_bytes [] = []"
  "utf16_bytes (cs @ ds) = utf16_bytes cs @ utf16_bytes ds"
  by (simp_all add: utf16_bytes_def)

lemma utf16_bytes_Cons: "utf16_bytes (c # cs) = utf16_bytes [c] @ utf16_bytes cs"
  by (simp add: utf16_bytes_def)

lemma utf16_bytes_unit: "c < 0x10000 \<Longrightarrow> utf16_bytes [c] = u16_bytes (of_nat c)"
  by (simp add: utf16_bytes_def utf16_units_def)

lemma text_ok_append:
  "text_ok (cs @ ds) \<longleftrightarrow> text_ok cs \<and> text_ok ds \<and>
     (cs \<noteq> [] \<and> ds \<noteq> [] \<longrightarrow> \<not> (last cs \<in> {0xd800 ..< 0xdc00} \<and> hd ds \<in> {0xdc00 ..< 0xe000}))"
  by (induction cs rule: text_ok.induct) (auto simp: neq_Nil_conv, (cases ds; auto)+)

lemma get_u16_mid: "length a = i \<Longrightarrow> get_u16 (a @ u16_bytes v @ b) i = Some (ucast v)"
  by (simp add: get_u16_def slice_def)

lemma unit_value: "n < 0x10000 \<Longrightarrow> (ucast (of_nat n :: u16) :: u32) = of_nat n"
  by (simp add: unat_eq_iff unat_of_nat unat_ucast_up word_unat_eq_iff)

lemma surrogate_nat:
  "n < 0x10000 \<Longrightarrow> is_hi_surrogate (of_nat n) \<longleftrightarrow> n \<in> {0xd800 ..< 0xdc00}"
  "n < 0x10000 \<Longrightarrow> is_lo_surrogate (of_nat n) \<longleftrightarrow> n \<in> {0xdc00 ..< 0xe000}"
  by (auto simp: is_hi_surrogate_def is_lo_surrogate_def word_le_nat_alt word_less_nat_alt unat_of_nat)

lemma unat_mask_10: "unat (w AND 0x3ff :: u32) = unat w mod 0x400"
  using unat_and_mask [of w 10] by (simp add: mask_eq_exp_minus_1)

lemma from_surrogates_pair:
  assumes "m < 0x100000"
  shows "from_surrogates (of_nat (0xd800 + m div 0x400)) (of_nat (0xdc00 + m mod 0x400)) = of_nat (m + 0x10000)"
proof -
  let ?h = "of_nat (0xd800 + m div 0x400) AND 0x3ff :: u32" and ?l = "of_nat (0xdc00 + m mod 0x400) AND 0x3ff :: u32"
  have d: "m div 0x400 < 0x400" using assms by simp
  have v: "unat (of_nat k AND 0x3ff :: u32) = k mod 0x400" if "k < 0x10000" for k using that by (simp add: unat_mask_10 unat_of_nat)
  have s: "(0xd800 + k) mod 0x400 = k mod 0x400" "(0xdc00 + k) mod 0x400 = k mod 0x400" for k :: nat
    using mod_mult_self3 [of 54 "0x400" k] mod_mult_self3 [of 55 "0x400" k] by simp_all
  have "m mod 0x400 < 0x400" by simp
  then have "0xd800 + m div 0x400 < 0x10000" "0xdc00 + m mod 0x400 < 0x10000" using d by linarith+
  from this [THEN v] have h: "unat ?h = m div 0x400" and l: "unat ?l = m mod 0x400" using d by (simp_all only: s mod_less mod_mod_trivial)
  have "unat (push_bit 10 ?h) = m div 0x400 * 0x400" using h d by (simp add: push_bit_eq_mult unat_mult_lem [THEN iffD1])
  then have "unat (push_bit 10 ?h OR ?l) = m mod 0x400 OR m div 0x400 * 0x400" using l by (simp add: unsigned_or_eq or.commute)
  also have "\<dots> = m" using or_nat_disjoint [of "m mod 0x400" 10 "m div 0x400 * 0x400"] by simp
  finally have "push_bit 10 ?h OR ?l = of_nat m" by (metis of_nat_unat ucast_id)
  then show ?thesis by (simp add: from_surrogates_def)
qed

text \<open>The first and the last unit of a code point.\<close>

lemma pair_bytes:
  assumes "0x10000 \<le> c" "c \<le> 0x10ffff"
  obtains hi lo where "utf16_bytes [c] = u16_bytes hi @ u16_bytes lo" "is_hi_surrogate (ucast hi)" "is_lo_surrogate (ucast lo)"
    "from_surrogates (ucast hi) (ucast lo) = of_nat c"
proof -
  define m where "m = c - 0x10000"
  have m: "m < 0x100000" "c = m + 0x10000" and d: "m div 0x400 < 0x400" using assms by (auto simp: m_def)
  let ?h = "0xd800 + m div 0x400" and ?l = "0xdc00 + m mod 0x400"
  have l: "?h < 0x10000" "?l < 0x10000" "?h \<in> {0xd800 ..< 0xdc00}" "?l \<in> {0xdc00 ..< 0xe000}" using d by auto
  have "utf16_bytes [c] = u16_bytes (of_nat ?h) @ u16_bytes (of_nat ?l)" using m by (simp add: utf16_bytes_def utf16_units_def del: of_nat_add)
  with that [of "of_nat ?h" "of_nat ?l"] show thesis
    using l from_surrogates_pair [OF m(1)] m(2) by (simp add: unit_value surrogate_nat del: of_nat_add)
qed

lemma first_unit:
  assumes "c \<le> 0x10ffff"
  obtains v r where "utf16_bytes [c] = u16_bytes v @ r" "is_lo_surrogate (ucast v) \<longleftrightarrow> c \<in> {0xdc00 ..< 0xe000}"
proof (cases "c < 0x10000")
  case True
  with that [of "of_nat c" "[]"] show thesis by (simp add: utf16_bytes_unit unit_value surrogate_nat)
next
  case False
  then obtain hi lo where "utf16_bytes [c] = u16_bytes hi @ u16_bytes lo" "is_hi_surrogate (ucast hi)" using pair_bytes assms by (metis not_less)
  with that [of hi "u16_bytes lo"] surrogates_disjoint False show thesis by auto
qed

lemma last_unit:
  assumes "c \<le> 0x10ffff"
  obtains v r where "utf16_bytes [c] = r @ u16_bytes v" "is_hi_surrogate (ucast v) \<longleftrightarrow> c \<in> {0xd800 ..< 0xdc00}"
proof (cases "c < 0x10000")
  case True
  with that [of "[]" "of_nat c"] show thesis by (simp add: utf16_bytes_unit unit_value surrogate_nat)
next
  case False
  then obtain hi lo where "utf16_bytes [c] = u16_bytes hi @ u16_bytes lo" "is_lo_surrogate (ucast lo)" using pair_bytes assms by (metis not_less)
  with that [of "u16_bytes hi" lo] surrogates_disjoint False show thesis by auto
qed

lemma get_char_text:
  assumes "text_ok (c # ys)"
  shows "GET_CHAR 2 (a @ utf16_bytes (c # ys)) (length a) (length (a @ utf16_bytes (c # ys))) = Some (of_nat c, length (a @ utf16_bytes [c]))"
proof (cases "c < 0x10000")
  case True
  have g: "get_u16 (a @ u16_bytes (of_nat c) @ utf16_bytes ys) (length a) = Some (of_nat c)" by (simp add: get_u16_mid unit_value True)
  show ?thesis
  proof (cases "c \<in> {0xd800 ..< 0xdc00} \<and> ys \<noteq> []")
    case hi: True
    then obtain d zs where ys: "ys = d # zs" "d \<le> 0x10ffff" "d \<notin> {0xdc00 ..< 0xe000}" using assms by (cases ys; cases "tl ys") auto
    from first_unit [OF ys(2)] obtain v r where v: "utf16_bytes [d] = u16_bytes v @ r" "\<not> is_lo_surrogate (ucast v)" using ys(3) by metis
    have "get_u16 ((a @ u16_bytes (of_nat c)) @ u16_bytes v @ r @ utf16_bytes zs) (length a + 2) = Some (ucast v)" by (rule get_u16_mid) simp
    with g v(2) True show ?thesis unfolding GET_CHAR_def by (simp add: ys(1) utf16_bytes_Cons [of c "d # zs"] utf16_bytes_Cons [of d zs] utf16_bytes_unit v(1))
  next
    case False
    with g True show ?thesis unfolding GET_CHAR_def
      by (auto simp: utf16_bytes_Cons [of c ys] utf16_bytes_unit surrogate_nat)
  qed
next
  case False
  with assms obtain hi lo where p: "utf16_bytes [c] = u16_bytes hi @ u16_bytes lo" "is_hi_surrogate (ucast hi)" "is_lo_surrogate (ucast lo)"
    "from_surrogates (ucast hi) (ucast lo) = of_nat c" using pair_bytes [of c] by (cases ys) auto
  have "get_u16 (a @ u16_bytes hi @ u16_bytes lo @ utf16_bytes ys) (length a) = Some (ucast hi)" by (simp add: get_u16_mid)
  moreover have "get_u16 ((a @ u16_bytes hi) @ u16_bytes lo @ utf16_bytes ys) (length a + 2) = Some (ucast lo)" by (rule get_u16_mid) simp
  ultimately show ?thesis unfolding GET_CHAR_def by (simp add: utf16_bytes_Cons [of c ys] p)
qed

lemma get_prev_char_text:
  assumes "text_ok (xs @ [c])"
  shows "GET_PREV_CHAR 2 (utf16_bytes (xs @ [c]) @ b) (length (utf16_bytes (xs @ [c]))) 0 = Some (of_nat c, length (utf16_bytes xs))"
proof (cases "c < 0x10000")
  case True
  let ?a = "utf16_bytes xs"
  have g: "get_u16 (?a @ u16_bytes (of_nat c) @ b) (length ?a) = Some (of_nat c)" by (simp add: get_u16_mid unit_value True)
  show ?thesis
  proof (cases "c \<in> {0xdc00 ..< 0xe000} \<and> xs \<noteq> []")
    case lo: True
    then obtain zs d where xs: "xs = zs @ [d]" by (metis rev_exhaust)
    with assms lo have d: "d \<le> 0x10ffff" "d \<notin> {0xd800 ..< 0xdc00}" by (auto simp: text_ok_append)
    from last_unit [OF d(1)] obtain v r where v: "utf16_bytes [d] = r @ u16_bytes v" "\<not> is_hi_surrogate (ucast v)" using d(2) by metis
    have "get_u16 ((utf16_bytes zs @ r) @ u16_bytes v @ u16_bytes (of_nat c) @ b) (length (utf16_bytes zs @ r)) = Some (ucast v)" by (rule get_u16_mid) simp
    with g v(2) True show ?thesis unfolding GET_PREV_CHAR_def by (simp add: utf16_bytes_unit xs utf16_bytes_Cons [of d "[c]"] v(1) ptr_back_def)
  next
    case False
    with g True show ?thesis unfolding GET_PREV_CHAR_def by (auto simp: utf16_bytes_unit surrogate_nat ptr_back_def)
  qed
next
  case False
  let ?a = "utf16_bytes xs"
  from False assms obtain hi lo where p: "utf16_bytes [c] = u16_bytes hi @ u16_bytes lo" "is_hi_surrogate (ucast hi)" "is_lo_surrogate (ucast lo)"
    "from_surrogates (ucast hi) (ucast lo) = of_nat c" using pair_bytes [of c] by (auto simp: text_ok_append)
  have "get_u16 (?a @ u16_bytes hi @ u16_bytes lo @ b) (length ?a) = Some (ucast hi)" by (simp add: get_u16_mid)
  moreover have "get_u16 ((?a @ u16_bytes hi) @ u16_bytes lo @ b) (length ?a + 2) = Some (ucast lo)" by (rule get_u16_mid) simp
  ultimately show ?thesis unfolding GET_PREV_CHAR_def by (simp add: p ptr_back_def)
qed

text \<open>Every subject of 16-bit characters is such a text.\<close>

lemma unit_text:
  assumes "text_ok cs"
  shows "\<exists>ds. text_ok ds \<and> utf16_bytes ds = u16_bytes u @ utf16_bytes cs"
proof (cases "\<exists>d es. cs = d # es \<and> unat u \<in> {0xd800 ..< 0xdc00} \<and> d \<in> {0xdc00 ..< 0xe000}")
  case True
  then obtain d es h l where c: "cs = d # es" "unat u = 0xd800 + h" "d = 0xdc00 + l" and b: "h < 0x400" "l < 0x400"
    by (auto simp: le_iff_add)
  let ?m = "h * 0x400 + l"
  have dm: "?m div 0x400 = h" "?m mod 0x400 = l" and m: "0x10000 + ?m \<le> 0x10ffff" using b by auto
  have "u = of_nat (0xd800 + h)" using c(2) by (metis of_nat_unat ucast_id)
  then have e: "utf16_bytes [0x10000 + ?m] = u16_bytes u @ utf16_bytes [d]"
    using b c(3) dm by (simp add: utf16_bytes_def utf16_units_def)
  have "text_ok ((0x10000 + ?m) # es)" using assms m c(1) by (cases es) auto
  with e show ?thesis unfolding c(1) using utf16_bytes_Cons [of d es] utf16_bytes_Cons [of "0x10000 + ?m" es] by (intro exI [of _ "(0x10000 + ?m) # es"]) simp
next
  case False
  have u: "unat u < 0x10000" using unsigned_less [of u] by simp
  then have "utf16_bytes (unat u # cs) = u16_bytes u @ utf16_bytes cs" by (simp add: utf16_bytes_Cons [of "unat u" cs] utf16_bytes_unit)
  moreover have "text_ok (unat u # cs)" using assms False u by (cases cs) auto
  ultimately show ?thesis by blast
qed

lemma subject_is_text:
  assumes "even (length buf)"
  shows "\<exists>cs. text_ok cs \<and> utf16_bytes cs = buf"
proof -
  have "length us = 2 * n \<Longrightarrow> \<exists>cs. text_ok cs \<and> utf16_bytes cs = us" for n and us :: "u8 list"
  proof (induction n arbitrary: us)
    case 0
    then show ?case by (intro exI [of _ "[]"]) simp
  next
    case (Suc n)
    then obtain x y vs where us: "us = x # y # vs" "length vs = 2 * n" by (cases us; cases "tl us") auto
    from Suc.IH [OF us(2)] obtain cs where "text_ok cs" "utf16_bytes cs = vs" by blast
    with unit_text [of cs "le_word [x, y]"] us(1) show ?case using u16_bytes_le_word [of "[x, y]"] by (auto simp del: le_word.simps)
  qed
  with assms show ?thesis by (auto elim: evenE)
qed

section \<open>Tables of characters\<close>

definition white_space :: "int set" where
  "white_space = {9 .. 13} \<union> {32, 0xa0, 0x1680} \<union> {0x2000 .. 0x200a} \<union> {0x2028, 0x2029, 0x202f, 0x205f, 0x3000, 0xfeff}"

lemma space_table: "lre_is_space c = Some (c \<in> white_space)"
proof -
  have "(length char_range_s - 1) div 2 = Suc (Suc (Suc (Suc (Suc (Suc (Suc (Suc (Suc (Suc 0)))))))))" by (simp add: char_range_s_def)
  then have "lre_is_space c = Some (if c < 9 then False else if c < 14 then True else if c < 32 then False else if c < 33 then True else if c < 160 then False else if c < 161 then True else if c < 5760 then False else if c < 5761 then True else if c < 8192 then False else if c < 8203 then True else if c < 8232 then False else if c < 8234 then True else if c < 8239 then False else if c < 8240 then True else if c < 8287 then False else if c < 8288 then True else if c < 12288 then False else if c < 12289 then True else if c < 65279 then False else if c < 65280 then True else False)"
    by (simp add: lre_is_space_def char_range_s_def rd_def split del: if_split cong: if_cong) (simp split: if_splits)
  moreover have "(if c < 9 then False else if c < 14 then True else if c < 32 then False else if c < 33 then True else if c < 160 then False else if c < 161 then True else if c < 5760 then False else if c < 5761 then True else if c < 8192 then False else if c < 8203 then True else if c < 8232 then False else if c < 8234 then True else if c < 8239 then False else if c < 8240 then True else if c < 8287 then False else if c < 8288 then True else if c < 12288 then False else if c < 12289 then True else if c < 65279 then False else if c < 65280 then True else False) = (c \<in> white_space)"
    unfolding white_space_def by (simp split: if_splits) linarith
  ultimately show ?thesis by simp
qed

text \<open>The bit of a character in the tables for ASCII.\<close>

definition table_bit :: "u32 list \<Rightarrow> nat \<Rightarrow> bool" where
  "table_bit tab n = bit (tab ! (n div 32)) (n mod 32)"

lemma ident_ascii_at:
  assumes "c < 128" "length tab = 4"
  shows "ident_ascii tab c = Some (table_bit tab (unat c))"
proof -
  have "unat c < 128" using assms(1) by (simp add: word_less_nat_alt)
  then have "unat (drop_bit 5 c) < 4" by (simp add: unat_drop_bit)
  moreover have "drop_bit n w AND 1 \<noteq> 0 \<longleftrightarrow> bit w n" for w :: u32 and n
    by (simp add: and_one_eq bit_iff_odd_drop_bit odd_iff_mod_2_eq_one)
  ultimately show ?thesis using assms(2) by (simp add: ident_ascii_def table_bit_def unat_drop_bit unat_and_mask_numeral)
qed

lemma below_128:
  assumes "list_all P [0..<128]" "c < (128 :: u32)"
  shows "P (unat c)"
proof -
  have "unat c < 128" using assms(2) by (simp add: word_less_nat_alt)
  with assms(1) show ?thesis by (simp add: list_all_iff)
qed

lemma start_table: "list_all (\<lambda>n. table_bit lre_id_start_table_ascii n = (65 \<le> n \<and> n \<le> 90 \<or> 97 \<le> n \<and> n \<le> 122 \<or> n = 36 \<or> n = 95)) [0..<128]"
  by code_simp

lemma continue_table: "list_all (\<lambda>n. table_bit lre_id_continue_table_ascii n = (48 \<le> n \<and> n \<le> 57 \<or> 65 \<le> n \<and> n \<le> 90 \<or> 97 \<le> n \<and> n \<le> 122 \<or> n = 36 \<or> n = 95)) [0..<128]"
  by code_simp

section \<open>Properties\<close>

text \<open>
  C6. Reading and going back. From a position that is not inside a surrogate pair, reading a character and going back gives the same character and position, and
  going back over \<open>n\<close> characters read one after the other ends at the start: this is how a greedy quantifier gives characters back.
\<close>

theorem chars_forward_back:
  assumes "buf_ok ct buf" "pos_ok ct buf p" "\<not> mid_pair ct buf p"
  shows "(\<forall>c p'. GET_CHAR ct buf p (length buf) = Some (c, p') \<longrightarrow> GET_PREV_CHAR ct buf p' 0 = Some (c, p)) \<and>
    (\<forall>n q. gets n ct buf p q \<longrightarrow> prev_chars n ct buf q 0 = Some p)"
  using get_prev_of_get [OF _ assms(3,2)] prev_chars_gets [OF assms] by blast

theorem chars_forward_back_witness:
  "prev_chars 1 2 [0x3d, 0xd8, 0x00, 0xde] 4 0 = Some 0"
proof -
  have "buf_ok 2 [0x3d, 0xd8, 0x00, 0xde]" "pos_ok 2 [0x3d, 0xd8, 0x00, 0xde] 0" "\<not> mid_pair 2 [0x3d, 0xd8, 0x00, 0xde] 0"
    by (simp_all add: buf_ok_def pos_ok_def mid_pair_def)
  from conjunct2 [OF chars_forward_back [OF this]] have f: "gets n 2 [0x3d, 0xd8, 0x00, 0xde] 0 q \<Longrightarrow> prev_chars n 2 [0x3d, 0xd8, 0x00, 0xde] q 0 = Some 0" for n q by blast
  have "GET_CHAR 2 [0x3d, 0xd8, 0x00, 0xde] 0 4 = Some (0x1f600, 4)" by code_simp
  then show ?thesis by (intro f) (auto simp: eval_nat_numeral)
qed

text \<open>
  C5. Running the body of a simple quantifier ends: with one step for every byte of code left, the nested run returns; it changes neither captures nor the counter
  stack nor the state stack, and when it matches it has read as many characters as the quantifier says.
\<close>

theorem simple_body_terminates:
  assumes "subject_ok s" "here_ok s th" "simple_body bc (th_pc th) n" "length bc - th_pc th < fuel"
  shows "\<exists>res th'. lre_exec_backtrack fuel bc s th True = Ret (res, s, th') \<and> th_capture th' = th_capture th \<and> th_stack th' = th_stack th \<and>
    (res = R_no_match \<or> (\<exists>p. res = R_match p \<and> gets n (ex_cbuf_type s) (ex_cbuf s) (th_cptr th) p))"
  using body_run [OF assms(1-3), of fuel] assms(4) unfolding body_result_def by auto

theorem simple_body_terminates_witness:
  "\<exists>s th. simple_body [1, 97, 0, 10] (th_pc th) 1 \<and> (\<exists>res th'. lre_exec_backtrack 5 [1, 97, 0, 10] s th True = Ret (res, s, th'))"
proof -
  let ?s = "\<lparr>ex_cbuf = [97], ex_cbuf_addr = 4096, ex_cbuf_end = 1, ex_cbuf_type = 0, ex_capture_count = 0, ex_stack_size_max = 0, ex_multi_line = False,
    ex_ignore_case = False, ex_is_utf16 = False, ex_opaque = 0, ex_lre_realloc = c_realloc 32 undefined, ex_state_size = 32, ex_state_stack = [],
    ex_state_stack_size = 0, ex_state_stack_len = 0\<rparr>"
  let ?th = "\<lparr>th_pc = 0, th_cptr = 0, th_capture = [], th_stack = [], th_stack_len = 0\<rparr>"
  have 1: "subject_ok ?s" by (simp add: subject_ok_def buf_ok_def)
  have 2: "here_ok ?s ?th" by (simp add: here_ok_def blocks_ok_def captures_ok_def pos_ok_def)
  have 3: "simple_body [1, 97, 0, 10] (th_pc ?th) 1" by code_simp
  from simple_body_terminates [OF 1 2 3, of 5] obtain res th' where "lre_exec_backtrack 5 [1, 97, 0, 10] ?s ?th True = Ret (res, ?s, th')" by auto
  with 3 show ?thesis by blast
qed

text \<open>
  C7. The character macros decode UTF-16. In a subject that holds the units of a text, reading at the start of a code point gives that code point and the start of the
  next one, and going back from there gives it again with its start; surrogates that belong to no pair count as characters of their own. By \<open>subject_is_text\<close> every
  subject of 16-bit characters holds such a text.
\<close>

theorem chars_decode_utf16:
  assumes "text_ok (xs @ c # ys)"
  shows "GET_CHAR 2 (utf16_bytes (xs @ c # ys)) (length (utf16_bytes xs)) (length (utf16_bytes (xs @ c # ys)))
       = Some (of_nat c, length (utf16_bytes (xs @ [c]))) \<and>
     GET_PREV_CHAR 2 (utf16_bytes (xs @ c # ys)) (length (utf16_bytes (xs @ [c]))) 0 = Some (of_nat c, length (utf16_bytes xs))"
proof -
  have "text_ok (c # ys)" "text_ok (xs @ [c])" using assms text_ok_append [of xs "c # ys"] text_ok_append [of "xs @ [c]" ys] by auto
  then show ?thesis using get_char_text [of c ys "utf16_bytes xs"] get_prev_char_text [of xs c "utf16_bytes ys"]
    by (simp add: utf16_bytes_Cons [of c ys])
qed

theorem chars_decode_utf16_witness:
  "GET_CHAR 2 (utf16_bytes [0x61, 0x1f600, 0xdc00]) 2 8 = Some (0x1f600, 6) \<and> GET_PREV_CHAR 2 (utf16_bytes [0x61, 0x1f600, 0xdc00]) 8 0 = Some (0xdc00, 6)"
proof -
  have "length (utf16_bytes [0x61, 0x1f600, 0xdc00]) = 8" "length (utf16_bytes [0x61]) = 2" "length (utf16_bytes [0x61, 0x1f600]) = 6"
    by (simp_all add: utf16_bytes_def utf16_units_def)
  then show ?thesis using chars_decode_utf16 [of "[0x61]" "0x1f600" "[0xdc00]"] chars_decode_utf16 [of "[0x61, 0x1f600]" "0xdc00" "[]"] by simp
qed

text \<open>
  C28. The table of white space is the one of ECMAScript, line terminators included, and the two tables for ASCII identifiers are letters, dollar and
  underscore, and those with the digits.
\<close>

theorem class_tables_correct:
  "lre_is_space c = Some (c \<in> white_space) \<and>
   (k < 128 \<longrightarrow> lre_js_is_ident_first k = Some (k \<in> {0x41 .. 0x5a} \<union> {0x61 .. 0x7a} \<union> {0x24, 0x5f}) \<and>
      lre_js_is_ident_next k = Some (k \<in> {0x30 .. 0x39} \<union> {0x41 .. 0x5a} \<union> {0x61 .. 0x7a} \<union> {0x24, 0x5f}))"
proof (intro conjI impI)
  show "lre_is_space c = Some (c \<in> white_space)" by (simp add: space_table)
  assume k: "k < 128"
  have e: "k = 0x24 \<longleftrightarrow> unat k = 36" "k = 0x5f \<longleftrightarrow> unat k = 95" using unat_eq_iff [of k "0x24"] unat_eq_iff [of k "0x5f"] by auto
  show "lre_js_is_ident_first k = Some (k \<in> {0x41 .. 0x5a} \<union> {0x61 .. 0x7a} \<union> {0x24, 0x5f})"
    using below_128 [OF start_table k] k by (auto simp: lre_js_is_ident_first_def ident_ascii_at word_le_nat_alt e lre_id_start_table_ascii_def [THEN arg_cong [of _ _ length]] lre_id_continue_table_ascii_def [THEN arg_cong [of _ _ length]])
  show "lre_js_is_ident_next k = Some (k \<in> {0x30 .. 0x39} \<union> {0x41 .. 0x5a} \<union> {0x61 .. 0x7a} \<union> {0x24, 0x5f})"
    using below_128 [OF continue_table k] k by (auto simp: lre_js_is_ident_next_def ident_ascii_at word_le_nat_alt e lre_id_start_table_ascii_def [THEN arg_cong [of _ _ length]] lre_id_continue_table_ascii_def [THEN arg_cong [of _ _ length]])
qed

theorem class_tables_correct_witness:
  "lre_is_space 0x2003 = Some True \<and> lre_js_is_ident_first 0x24 = Some True \<and> lre_js_is_ident_first 0x30 = Some False"
  using class_tables_correct [of "0x2003" "0x24"] class_tables_correct [of 0 "0x30"] by (simp add: white_space_def)

end
