(* ===== verification/LiteralSearch.thy ===== *)
theory LiteralSearch
  imports RegexpCompile
begin

text \<open>
  The compiler and the matcher of \<^verbatim>\<open>libregexp.c\<close> together, on literal patterns: what the parser and the emit functions do
  on a pattern of plain characters, on every path and with every outcome of the allocator, the code they leave, and the run of that code on a subject, which
  finds the first occurrence. The loop over the start positions of a pattern that is not sticky goes through the backtracking stack of the matcher.
\<close>

section \<open>Appending, with the reason of a failure\<close>

text \<open>
  \<open>puts c b b'\<close>: the bytes \<open>c\<close> were appended to \<open>b\<close>, or a request for at most twice the final size was refused and \<open>b'\<close> has its error flag set.
\<close>

definition refused :: "'a realloc_fun \<Rightarrow> nat \<Rightarrow> bool" where
  "refused f n \<longleftrightarrow> (\<exists>opq b m. m \<le> n \<and> f opq b m = None)"

definition puts :: "u8 list \<Rightarrow> DynBuf \<Rightarrow> DynBuf \<Rightarrow> bool" where
  "puts c b b' \<longleftrightarrow> buf_wf b' \<and> db_realloc_func b' = db_realloc_func b \<and> db_size b' \<le> db_size b + length c \<and>
     (db_error b' \<longrightarrow> db_error b \<or> refused (db_realloc_func b) (2 * (db_size b + length c))) \<and>
     (\<not> db_error b' \<longrightarrow> \<not> db_error b \<and> dbuf_bytes b' = dbuf_bytes b @ c)"

lemma refused_mono: "refused f n \<Longrightarrow> n \<le> m \<Longrightarrow> refused f m"
  unfolding refused_def using order_trans by blast

lemma puts_trans:
  assumes "puts c b b'" "puts d b' b''"
  shows "puts (c @ d) b b''"
proof -
  have "db_error b'' \<longrightarrow> db_error b \<or> refused (db_realloc_func b) (2 * (db_size b + length (c @ d)))"
    using assms refused_mono [of "db_realloc_func b" "2 * (db_size b + length c)" "2 * (db_size b + length (c @ d))"]
      refused_mono [of "db_realloc_func b" "2 * (db_size b' + length d)" "2 * (db_size b + length (c @ d))"] by (auto simp: puts_def)
  with assms show ?thesis by (auto simp: puts_def)
qed

lemma puts_refl: "buf_wf b \<Longrightarrow> puts [] b b"
  by (simp add: puts_def)

lemma putsD: "puts c b b' \<Longrightarrow> buf_wf b'"
  by (simp add: puts_def)

lemma realloc_puts:
  assumes "dbuf_realloc b n = (r, b')" "buf_wf b" "n \<le> db_size b + len" "n < 2 ^ 64"
  shows "db_realloc_func b' = db_realloc_func b \<and> db_size b' = db_size b \<and>
    (db_error b' \<longrightarrow> db_error b \<or> refused (db_realloc_func b) (2 * (db_size b + len)))"
proof (cases "n > db_allocated_size b \<and> \<not> db_error b")
  case True
  define m where "m = (if size_t (db_allocated_size b * 3) div 2 > n then size_t (db_allocated_size b * 3) div 2 else n)"
  have "db_allocated_size b < 2 ^ 31" using assms(2) by (simp add: buf_wf_def)
  then have "m \<le> 2 * (db_size b + len)" using True assms(3) by (auto simp: m_def size_t_def)
  then have "db_realloc_func b (db_opaque b) (db_buf b) m = None \<Longrightarrow> refused (db_realloc_func b) (2 * (db_size b + len))"
    unfolding refused_def by blast
  with True assms(1) show ?thesis by (auto simp: dbuf_realloc_def Let_def simp flip: m_def split: option.splits)
next
  case False
  with assms(1) show ?thesis by (auto simp: dbuf_realloc_def split: if_splits)
qed

lemma put_puts:
  assumes "buf_wf b" "length c < 2 ^ 63"
  obtains r b' where "dbuf_put b c = Some (r, b')" "puts c b b'"
proof -
  have n: "db_size b + length c < 2 ^ 64" using buf_wf_bytes(2) [OF assms(1)] assms(2) by simp
  have "dbuf_ok b" using assms(1) by (simp add: buf_wf_def)
  then obtain r b' where p: "dbuf_put b c = Some (r, b')" by (rule dbuf_put_cases [OF _ n])
  have wf: "buf_wf b'" using dbuf_put_any(1) [OF p assms(1)] .
  obtain r1 b1 where g: "(if size_t (db_size b + length c) > db_allocated_size b
      then dbuf_realloc b (size_t (db_size b + length c)) else (0, b)) = (r1, b1)" by (metis surj_pair)
  have b1: "db_error b' = db_error b1" "db_realloc_func b' = db_realloc_func b1" "db_size b' \<le> db_size b1 + length c"
    using p unfolding dbuf_put_def Let_def g by (auto simp: bind_Some_iff size_t_def split: if_splits)
  have "db_realloc_func b1 = db_realloc_func b \<and> db_size b1 = db_size b \<and>
    (db_error b1 \<longrightarrow> db_error b \<or> refused (db_realloc_func b) (2 * (db_size b + length c)))"
    using g realloc_puts [OF _ assms(1), of "db_size b + length c" r1 b1 "length c"] n by (auto split: if_splits)
  with b1 wf dbuf_put_D [OF p] assms have "puts c b b'" unfolding puts_def by auto
  with that p show thesis by blast
qed


text \<open>The emit functions on the state of the compiler; \<open>with_code s b\<close> is \<open>s\<close> with another buffer.\<close>

abbreviation with_code :: "REParseState \<Rightarrow> DynBuf \<Rightarrow> REParseState" where
  "with_code s b \<equiv> s\<lparr>ps_byte_code := b\<rparr>"

lemma emit_op_puts:
  assumes "buf_wf (ps_byte_code s)"
  obtains b where "re_emit_op s opcode = Some (with_code s b)" "puts [opc opcode] (ps_byte_code s) b"
proof -
  obtain r b where "dbuf_put (ps_byte_code s) ([opc opcode]) = Some (r, b)" "puts ([opc opcode]) (ps_byte_code s) b"
    by (rule put_puts [OF assms, of "[opc opcode]"]) simp
  with that [of b] show thesis by (simp add: re_emit_op_def dbuf_putc_def)
qed

lemma emit_u16_puts:
  assumes "buf_wf (ps_byte_code s)"
  obtains b where "emit_u16 s v = Some (with_code s b)" "puts (u16_bytes (ucast v)) (ps_byte_code s) b"
proof -
  obtain r b where "dbuf_put (ps_byte_code s) (u16_bytes (ucast v)) = Some (r, b)" "puts (u16_bytes (ucast v)) (ps_byte_code s) b"
    by (rule put_puts [OF assms, of "u16_bytes (ucast v)"]) simp
  with that [of b] show thesis by (simp add: emit_u16_def dbuf_put_u16_def)
qed

lemma emit_u32_puts:
  assumes "buf_wf (ps_byte_code s)"
  obtains b where "emit_u32 s v = Some (with_code s b)" "puts (u32_bytes v) (ps_byte_code s) b"
proof -
  obtain r b where "dbuf_put (ps_byte_code s) (u32_bytes v) = Some (r, b)" "puts (u32_bytes v) (ps_byte_code s) b"
    by (rule put_puts [OF assms, of "u32_bytes v"]) simp
  with that [of b] show thesis by (simp add: emit_u32_def dbuf_put_u32_def)
qed

lemma emit_op_u8_puts:
  assumes "buf_wf (ps_byte_code s)"
  obtains b where "re_emit_op_u8 s opcode v = Some (with_code s b)" "puts [opc opcode, ucast v] (ps_byte_code s) b"
proof -
  obtain b1 where b1: "re_emit_op s opcode = Some (with_code s b1)" "puts [opc opcode] (ps_byte_code s) b1" by (rule emit_op_puts [OF assms])
  obtain r b2 where b2: "dbuf_put b1 [ucast v] = Some (r, b2)" "puts [ucast v] b1 b2" by (rule put_puts [OF putsD [OF b1(2)], of "[ucast v]"]) simp
  from that [of b2] b1(1) b2(1) puts_trans [OF b1(2) b2(2)] show thesis by (simp add: re_emit_op_u8_def dbuf_putc_def)
qed

lemma emit_op_u16_puts:
  assumes "buf_wf (ps_byte_code s)"
  obtains b where "re_emit_op_u16 s opcode v = Some (with_code s b)" "puts (opc opcode # u16_bytes (ucast v)) (ps_byte_code s) b"
proof -
  obtain b1 where b1: "re_emit_op s opcode = Some (with_code s b1)" "puts [opc opcode] (ps_byte_code s) b1" by (rule emit_op_puts [OF assms])
  obtain b2 where b2: "emit_u16 (with_code s b1) v = Some (with_code (with_code s b1) b2)" "puts (u16_bytes (ucast v)) b1 b2"
    by (rule emit_u16_puts [of "with_code s b1" v]) (use putsD [OF b1(2)] in simp_all)
  from that [of b2] b1(1) b2(1) puts_trans [OF b1(2) b2(2)] show thesis by (simp add: re_emit_op_u16_def)
qed

lemma emit_op_u32_puts:
  assumes "buf_wf (ps_byte_code s)"
  obtains pos b where "re_emit_op_u32 s opcode v = Some (pos, with_code s b)" "puts (opc opcode # u32_bytes v) (ps_byte_code s) b"
proof -
  obtain b1 where b1: "re_emit_op s opcode = Some (with_code s b1)" "puts [opc opcode] (ps_byte_code s) b1" by (rule emit_op_puts [OF assms])
  obtain b2 where b2: "emit_u32 (with_code s b1) v = Some (with_code (with_code s b1) b2)" "puts (u32_bytes v) b1 b2"
    by (rule emit_u32_puts [of "with_code s b1" v]) (use putsD [OF b1(2)] in simp_all)
  from that [of "db_size b1" b2] b1(1) b2(1) puts_trans [OF b1(2) b2(2)] show thesis by (simp add: re_emit_op_u32_def)
qed

section \<open>The code of a literal pattern\<close>

text \<open>ASCII characters that are not part of the syntax of patterns.\<close>

definition plain_char :: "u8 \<Rightarrow> bool" where
  "plain_char c \<longleftrightarrow> c < 128 \<and> c \<notin> {0, 0x5E, 0x24, 0x5C, 0x2E, 0x2A, 0x2B, 0x3F, 0x28, 0x29, 0x5B, 0x5D, 0x7B, 0x7D, 0x7C}"

definition lit_code :: "u8 list \<Rightarrow> u8 list" where
  "lit_code cs = concat (map (\<lambda>c. opc REOP_char # u16_bytes (ucast c)) cs)"

definition search_code :: "bool \<Rightarrow> u8 list" where
  "search_code sticky = (if sticky then []
     else (opc REOP_split_goto_first # u32_bytes (1 + 5)) @ [opc REOP_any] @ (opc REOP_goto # u32_bytes (- (5 + 1 + 5))))"

definition literal_body :: "bool \<Rightarrow> u8 list \<Rightarrow> u8 list" where
  "literal_body sticky cs = search_code sticky @ [opc REOP_save_start, 0] @ lit_code cs @ [opc REOP_save_end, 0] @ [opc REOP_match]"

definition literal_bytecode :: "u32 \<Rightarrow> u8 list \<Rightarrow> u8 list" where
  "literal_bytecode re_flags cs = (let body = literal_body (re_flags AND ucast LRE_FLAG_STICKY \<noteq> 0) cs in
     [ucast re_flags, 1, 0] @ u32_bytes (of_nat (length body)) @ body)"

lemma char_of_byte: "(word_of_int (uint c) :: u32) = ucast (c :: u8)"
  by (metis ucast_eq)

lemma plain_term:
  assumes c: "rd (ps_buf s) (ps_buf_ptr s) = Some c" "plain_char c" and d: "rd (ps_buf s) (ps_buf_ptr s + 1) = Some d" "d = 0 \<or> plain_char d"
    and i: "\<not> ps_ignore_case s" and wf: "buf_wf (ps_byte_code s)"
  obtains b where "re_parse_term parse_disj s False = Some (0, with_code s b\<lparr>ps_buf_ptr := ps_buf_ptr s + 1\<rparr>)"
    "puts (opc REOP_char # u16_bytes (ucast c)) (ps_byte_code s) b"
proof -
  have lt: "uint c < 128" using c(2) by (simp add: plain_char_def word_less_def)
  have w: "(ucast c :: u32) \<le> 0xffff" using lt by (simp add: word_le_def uint_up_ucast is_up)
  have u: "ucast (ucast c :: u32) = (ucast c :: u16)" by (rule bit_word_eqI) (auto simp: bit_simps)
  obtain b where b: "re_emit_op_u16 s REOP_char (ucast c) = Some (with_code s b)" "puts (opc REOP_char # u16_bytes (ucast c)) (ps_byte_code s) b"
    by (rule emit_op_u16_puts [OF wf, of REOP_char "ucast c"]) (simp add: u)
  have n: "c \<noteq> 0" "c \<noteq> 0x5E" "c \<noteq> 0x24" "c \<noteq> 0x5C" "c \<noteq> 0x2E" "c \<noteq> 0x2A" "c \<noteq> 0x2B" "c \<noteq> 0x3F" "c \<noteq> 0x28" "c \<noteq> 0x5B" "c \<noteq> 0x5D" "c \<noteq> 0x7B" "c \<noteq> 0x7D" "\<not> 128 \<le> c"
    using c(2) by (auto simp: plain_char_def)
  have "get_class_atom s (ps_buf_ptr s) False = Some (uint c, None, ps_buf_ptr s + 1, s)"
    using c n by (simp add: get_class_atom_def class_normal_char_def)
  then have "re_parse_atom parse_disj s False = Some (0, ps_buf_ptr s + 1, Some (code_size s), ps_capture_count s, with_code s b)"
    using c n i lt b(1) w by (simp add: re_parse_atom_def term_class_atom_def term_char_def emit_if_def char_of_byte CLASS_RANGE_BASE_def)
  moreover have "parse_quantifier (with_code s b) (ps_buf_ptr s + 1) = Some (0, None, ps_buf_ptr s + 1, with_code s b)"
    using d by (auto simp: parse_quantifier_def plain_char_def)
  ultimately have "re_parse_term parse_disj s False = Some (0, with_code s b\<lparr>ps_buf_ptr := ps_buf_ptr s + 1\<rparr>)" by (simp add: re_parse_term_def)
  with that b(2) show thesis by blast
qed


lemma lit_code_Cons: "lit_code (c # cs) = (opc REOP_char # u16_bytes (ucast c)) @ lit_code cs"
  by (simp add: lit_code_def)

lemma literal_loop:
  assumes "ps_buf s = cs @ [0]" "ps_buf_end s = length cs" "ps_buf_ptr s \<le> length cs" "list_all plain_char cs" "\<not> ps_ignore_case s" "buf_wf (ps_byte_code s)"
  shows "\<exists>b. alternative_loop parse_disj False start s = Some (0, with_code s b\<lparr>ps_buf_ptr := length cs\<rparr>) \<and>
    puts (lit_code (drop (ps_buf_ptr s) cs)) (ps_byte_code s) b"
  using assms
proof (induction "length cs - ps_buf_ptr s" arbitrary: s)
  case 0
  then have "ps_buf_ptr s = length cs" by simp
  with 0 puts_refl [of "ps_byte_code s"] show ?case by (intro exI [of _ "ps_byte_code s"]) (simp add: alternative_loop.simps lit_code_def)
next
  case (Suc n)
  let ?i = "ps_buf_ptr s"
  have i: "?i < length cs" using Suc.hyps(2) by simp
  have c: "rd (ps_buf s) ?i = Some (cs ! ?i)" "plain_char (cs ! ?i)" using Suc.prems i by (simp_all add: rd_def nth_append list_all_length)
  obtain d where d: "rd (ps_buf s) (?i + 1) = Some d" "d = 0 \<or> plain_char d"
    using Suc.prems i by (cases "?i + 1 < length cs") (auto simp: rd_def nth_append list_all_length)
  obtain b where b: "re_parse_term parse_disj s False = Some (0, with_code s b\<lparr>ps_buf_ptr := ?i + 1\<rparr>)"
    "puts (opc REOP_char # u16_bytes (ucast (cs ! ?i))) (ps_byte_code s) b"
    by (rule plain_term [OF c d Suc.prems(5,6)])
  let ?s = "with_code s b\<lparr>ps_buf_ptr := ?i + 1\<rparr>"
  have "\<exists>b2. alternative_loop parse_disj False start ?s = Some (0, with_code ?s b2\<lparr>ps_buf_ptr := length cs\<rparr>) \<and>
      puts (lit_code (drop (ps_buf_ptr ?s) cs)) (ps_byte_code ?s) b2"
    using Suc.hyps(2) Suc.prems putsD [OF b(2)] i by (intro Suc.hyps(1)) simp_all
  then obtain b2 where b2: "alternative_loop parse_disj False start ?s = Some (0, with_code s b2\<lparr>ps_buf_ptr := length cs\<rparr>)"
    "puts (lit_code (drop (?i + 1) cs)) b b2" by auto
  have "alternative_loop parse_disj False start s = alternative_loop parse_disj False start ?s"
    using Suc.prems(2) i c b(1) by (subst alternative_loop.simps) (auto simp: plain_char_def try_ok_def)
  moreover have "lit_code (drop ?i cs) = (opc REOP_char # u16_bytes (ucast (cs ! ?i))) @ lit_code (drop (?i + 1) cs)"
    using i by (simp add: lit_code_Cons flip: Cons_nth_drop_Suc)
  ultimately show ?case using b2 puts_trans [OF b(2) b2(2)] by metis
qed

lemma literal_disjunction:
  assumes "ps_buf s = cs @ [0]" "ps_buf_end s = length cs" "ps_buf_ptr s = 0" "list_all plain_char cs" "\<not> ps_ignore_case s" "buf_wf (ps_byte_code s)"
  obtains b where "re_parse_disjunction (Suc depth) False s = Some (0, with_code s b\<lparr>ps_buf_ptr := length cs\<rparr>)"
    "puts (lit_code cs) (ps_byte_code s) b"
proof -
  obtain b where b: "alternative_loop (re_parse_disjunction depth) False (code_size s) s = Some (0, with_code s b\<lparr>ps_buf_ptr := length cs\<rparr>)"
    "puts (lit_code cs) (ps_byte_code s) b" using literal_loop [of s cs] assms by (metis drop_0 le0)
  with assms(1) that show thesis by (simp add: re_parse_alternative_def try_ok_def disjunction_loop.simps rd_def nth_append)
qed

lemma header_puts:
  assumes "buf_wf (ps_byte_code s)"
  obtains b where "put_header s = Some (with_code s b)" "puts ([ucast (ps_re_flags s), 0, 0] @ u32_bytes 0) (ps_byte_code s) b"
proof -
  obtain r1 b1 where 1: "dbuf_put (ps_byte_code s) [ucast (ps_re_flags s)] = Some (r1, b1)" "puts [ucast (ps_re_flags s)] (ps_byte_code s) b1"
    by (rule put_puts [OF assms, of "[ucast (ps_re_flags s)]"]) simp
  obtain r2 b2 where 2: "dbuf_put b1 [0] = Some (r2, b2)" "puts [0] b1 b2" by (rule put_puts [OF putsD [OF 1(2)], of "[0]"]) simp
  obtain r3 b3 where 3: "dbuf_put b2 [0] = Some (r3, b3)" "puts [0] b2 b3" by (rule put_puts [OF putsD [OF 2(2)], of "[0]"]) simp
  obtain r4 b4 where 4: "dbuf_put b3 (u32_bytes 0) = Some (r4, b4)" "puts (u32_bytes 0) b3 b4" by (rule put_puts [OF putsD [OF 3(2)], of "u32_bytes 0"]) simp
  from that [of b4] 1 2 3 4 puts_trans [OF puts_trans [OF puts_trans [OF 1(2) 2(2)] 3(2)] 4(2)]
  show thesis by (simp add: put_header_def dbuf_putc_def dbuf_put_u32_def)
qed

lemma search_puts:
  assumes "buf_wf (ps_byte_code s)"
  obtains b where "(if ps_re_flags s AND ucast LRE_FLAG_STICKY \<noteq> 0 then Some s
           else do {
             (pos, s) \<leftarrow> re_emit_op_u32 s REOP_split_goto_first (1 + 5);
             s \<leftarrow> re_emit_op s REOP_any;
             map_option snd (re_emit_op_u32 s REOP_goto (- (5 + 1 + 5))) }) = Some (with_code s b)"
    "puts (search_code (ps_re_flags s AND ucast LRE_FLAG_STICKY \<noteq> 0)) (ps_byte_code s) b"
proof (cases "ps_re_flags s AND ucast LRE_FLAG_STICKY \<noteq> 0")
  case True
  with that [of "ps_byte_code s"] puts_refl [OF assms] show thesis by (simp add: search_code_def)
next
  case False
  obtain pos1 b1 where 1: "re_emit_op_u32 s REOP_split_goto_first (1 + 5) = Some (pos1, with_code s b1)"
    "puts (opc REOP_split_goto_first # u32_bytes (1 + 5)) (ps_byte_code s) b1" by (rule emit_op_u32_puts [OF assms])
  obtain b2 where 2: "re_emit_op (with_code s b1) REOP_any = Some (with_code s b2)" "puts [opc REOP_any] b1 b2"
    by (rule emit_op_puts [of "with_code s b1" REOP_any]) (use putsD [OF 1(2)] in simp_all)
  obtain pos3 b3 where 3: "re_emit_op_u32 (with_code s b2) REOP_goto (- (5 + 1 + 5)) = Some (pos3, with_code s b3)"
    "puts (opc REOP_goto # u32_bytes (- (5 + 1 + 5))) b2 b3"
    by (rule emit_op_u32_puts [of "with_code s b2" REOP_goto "- (5 + 1 + 5)"]) (use putsD [OF 2(2)] in simp_all)
  from that [of b3] False 1(1) 2(1) 3(1) puts_trans [OF 1(2) puts_trans [OF 2(2) 3(2)]] show thesis by (simp add: search_code_def)
qed


lemma literal_compile_code:
  assumes "ps_buf s = cs @ [0]" "ps_buf_end s = length cs" "ps_buf_ptr s = 0" "list_all plain_char cs" "\<not> ps_ignore_case s" "buf_wf (ps_byte_code s)"
  obtains b where "compile_code (Suc depth) s =
      Some (if db_error b then re_parse_out_of_memory (with_code (s\<lparr>ps_buf_ptr := length cs\<rparr>) b) else (0, with_code (s\<lparr>ps_buf_ptr := length cs\<rparr>) b))"
    "puts (([ucast (ps_re_flags s), 0, 0] @ u32_bytes 0) @ literal_body (ps_re_flags s AND ucast LRE_FLAG_STICKY \<noteq> 0) cs) (ps_byte_code s) b"
proof -
  obtain b1 where 1: "put_header s = Some (with_code s b1)" "puts ([ucast (ps_re_flags s), 0, 0] @ u32_bytes 0) (ps_byte_code s) b1"
    by (rule header_puts [OF assms(6)])
  let ?s1 = "with_code s b1" and ?sticky = "ps_re_flags s AND ucast LRE_FLAG_STICKY \<noteq> 0"
  obtain b2 where 2: "(if ps_re_flags ?s1 AND ucast LRE_FLAG_STICKY \<noteq> 0 then Some ?s1
           else do {
             (pos, s) \<leftarrow> re_emit_op_u32 ?s1 REOP_split_goto_first (1 + 5);
             s \<leftarrow> re_emit_op s REOP_any;
             map_option snd (re_emit_op_u32 s REOP_goto (- (5 + 1 + 5))) }) = Some (with_code s b2)"
    "puts (search_code ?sticky) b1 b2" by (rule search_puts [of ?s1]) (use putsD [OF 1(2)] in simp_all)
  obtain b3 where 3: "re_emit_op_u8 (with_code s b2) REOP_save_start 0 = Some (with_code s b3)" "puts [opc REOP_save_start, 0] b2 b3"
    by (rule emit_op_u8_puts [of "with_code s b2" REOP_save_start 0]) (use putsD [OF 2(2)] in simp_all)
  obtain b4 where 4: "re_parse_disjunction (Suc depth) False (with_code s b3) = Some (0, with_code s b4\<lparr>ps_buf_ptr := length cs\<rparr>)"
    "puts (lit_code cs) b3 b4"
    by (rule literal_disjunction [of "with_code s b3" cs]) (use putsD [OF 3(2)] assms in simp_all)
  let ?s = "with_code (s\<lparr>ps_buf_ptr := length cs\<rparr>)"
  obtain b5 where 5: "re_emit_op_u8 (?s b4) REOP_save_end 0 = Some (?s b5)" "puts [opc REOP_save_end, 0] b4 b5"
    by (rule emit_op_u8_puts [of "?s b4" REOP_save_end 0]) (use putsD [OF 4(2)] in simp_all)
  obtain b6 where 6: "re_emit_op (?s b5) REOP_match = Some (?s b6)" "puts [opc REOP_match] b5 b6"
    by (rule emit_op_puts [of "?s b5" REOP_match]) (use putsD [OF 5(2)] in simp_all)
  have e: "with_code s b4\<lparr>ps_buf_ptr := length cs\<rparr> = ?s b4" by simp
  have "compile_code (Suc depth) s = Some (if db_error b6 then re_parse_out_of_memory (?s b6) else (0, ?s b6))"
    using 2(1) assms(1) unfolding compile_code_def 1(1)
    by (simp add: 3(1) 4(1) e 5(1) 6(1) try_ok_def dbuf_error_def rd_def nth_append del: re_parse_disjunction.simps)
  moreover have "puts (([ucast (ps_re_flags s), 0, 0] @ u32_bytes 0) @ literal_body ?sticky cs) (ps_byte_code s) b6"
    unfolding literal_body_def by (intro puts_trans [OF 1(2)] puts_trans [OF 2(2)] puts_trans [OF 3(2)] puts_trans [OF 4(2)] puts_trans [OF 5(2)] 6(2))
  ultimately show thesis by (rule that)
qed

text \<open>No instruction of a literal pattern uses a counter.\<close>

lemma stack_step:
  assumes "op_at (c @ r) 0 = Some (opcode, length c)" "snd (reopcode_info ! unat (c ! 0)) = length c" "c \<noteq> []"
    "opcode \<notin> {REOP_push_i32, REOP_push_char_pos, REOP_drop, REOP_bne_char_pos}" "length a + length c \<le> n"
  shows "stack_size_loop (a @ c @ r) n (length a) 0 0 = stack_size_loop ((a @ c) @ r) n (length (a @ c)) 0 0"
proof -
  have "op_at (a @ c @ r) (length a) = Some (opcode, length c)" using op_at_append2 [of a "c @ r" 0] assms(1) by simp
  moreover have "length a < n" using assms(3,5) by (cases c) simp_all
  ultimately show ?thesis using assms by (subst stack_size_loop.simps) (simp add: nth_append)
qed

lemma opc_info: "snd (reopcode_info ! unat (opc opcode)) = op_size opcode"
  using reop_opc [of opcode] by (auto simp: reop_def rd_Some_iff)

lemma stack_op:
  assumes "length args + 1 = op_size opcode" "opcode \<notin> {REOP_push_i32, REOP_push_char_pos, REOP_drop, REOP_bne_char_pos, REOP_range, REOP_range32}"
    "length a + op_size opcode \<le> n"
  shows "stack_size_loop (a @ (opc opcode # args) @ r) n (length a) 0 0 = stack_size_loop ((a @ (opc opcode # args)) @ r) n (length (a @ (opc opcode # args))) 0 0"
  by (rule stack_step) (use assms in \<open>auto simp: op_at_opc opc_info\<close>)

lemma stack_lit:
  "length a + length (lit_code cs) \<le> n \<Longrightarrow>
   stack_size_loop (a @ lit_code cs @ r) n (length a) 0 0 = stack_size_loop ((a @ lit_code cs) @ r) n (length (a @ lit_code cs)) 0 0"
proof (induction cs arbitrary: a)
  case (Cons c cs)
  let ?c = "opc REOP_char # u16_bytes (ucast c)"
  have "stack_size_loop (a @ ?c @ lit_code cs @ r) n (length a) 0 0 = stack_size_loop ((a @ ?c) @ lit_code cs @ r) n (length (a @ ?c)) 0 0"
    by (rule stack_op) (use Cons.prems in \<open>simp_all add: op_sizes lit_code_Cons\<close>)
  also have "\<dots> = stack_size_loop (((a @ ?c) @ lit_code cs) @ r) n (length ((a @ ?c) @ lit_code cs)) 0 0"
    by (rule Cons.IH) (use Cons.prems in \<open>simp add: lit_code_Cons\<close>)
  finally show ?case by (simp add: lit_code_Cons)
qed (simp add: lit_code_def)


lemma literal_stack:
  "stack_size_loop (literal_body sticky cs @ r) (length (literal_body sticky cs)) 0 0 0 = Some (Some 0)"
proof -
  define n where "n = length (literal_body sticky cs)"
  let ?p = "search_code sticky" and ?st = "opc REOP_save_start # [0]" and ?en = "opc REOP_save_end # [0]" and ?m = "opc REOP_match # []"
  let ?split = "opc REOP_split_goto_first # u32_bytes (1 + 5)" and ?any = "opc REOP_any # []" and ?goto = "opc REOP_goto # u32_bytes (- (5 + 1 + 5))"
  have n: "n = length ?p + 2 + length (lit_code cs) + 3" by (simp add: n_def literal_body_def)
  let ?rest = "?st @ lit_code cs @ ?en @ ?m @ r"
  have p: "stack_size_loop (?p @ ?rest) n 0 0 0 = stack_size_loop (?p @ ?rest) n (length ?p) 0 0"
  proof (cases sticky)
    case True
    then show ?thesis by (simp add: search_code_def)
  next
    case False
    then have l: "length ?p = 11" by (simp add: search_code_def)
    have "stack_size_loop ([] @ ?split @ (?any @ ?goto @ ?rest)) n (length ([] :: u8 list)) 0 0 = stack_size_loop (([] @ ?split) @ (?any @ ?goto @ ?rest)) n (length ([] @ ?split)) 0 0"
      by (rule stack_op) (use l n in \<open>simp_all add: op_sizes\<close>)
    also have "\<dots> = stack_size_loop ((?split @ ?any) @ ?goto @ ?rest) n (length (?split @ ?any)) 0 0"
      using stack_op [of "[]" REOP_any ?split n "?goto @ ?rest"] l n by (simp add: op_sizes)
    also have "\<dots> = stack_size_loop (((?split @ ?any) @ ?goto) @ ?rest) n (length ((?split @ ?any) @ ?goto)) 0 0"
      by (rule stack_op) (use l n in \<open>simp_all add: op_sizes\<close>)
    finally show ?thesis using False by (simp add: search_code_def)
  qed
  have "stack_size_loop (?p @ ?st @ (lit_code cs @ ?en @ ?m @ r)) n (length ?p) 0 0 = stack_size_loop ((?p @ ?st) @ lit_code cs @ ?en @ ?m @ r) n (length (?p @ ?st)) 0 0"
    by (rule stack_op) (use n in \<open>simp_all add: op_sizes\<close>)
  also have "\<dots> = stack_size_loop (((?p @ ?st) @ lit_code cs) @ ?en @ ?m @ r) n (length ((?p @ ?st) @ lit_code cs)) 0 0"
    by (rule stack_lit) (use n in simp)
  also have "\<dots> = stack_size_loop ((((?p @ ?st) @ lit_code cs) @ ?en) @ ?m @ r) n (length (((?p @ ?st) @ lit_code cs) @ ?en)) 0 0"
    by (rule stack_op) (use n in \<open>simp_all add: op_sizes\<close>)
  also have "\<dots> = stack_size_loop (((((?p @ ?st) @ lit_code cs) @ ?en) @ ?m) @ r) n (length ((((?p @ ?st) @ lit_code cs) @ ?en) @ ?m)) 0 0"
    by (rule stack_op) (use n in \<open>simp_all add: op_sizes\<close>)
  also have "\<dots> = Some (Some 0)" using n by (subst stack_size_loop.simps) simp
  finally show ?thesis using p unfolding n_def by (simp add: literal_body_def)
qed

lemma patch_total:
  "pos < length (db_buf (ps_byte_code s)) \<Longrightarrow> \<exists>s'. patch_u8 s pos v = Some s' \<and> length (db_buf (ps_byte_code s')) = length (db_buf (ps_byte_code s)) \<and>
     code_size s' = code_size s \<and> ps_group_names s' = ps_group_names s \<and> ps_capture_count s' = ps_capture_count s"
  "pos + 4 \<le> length (db_buf (ps_byte_code s)) \<Longrightarrow> \<exists>s'. patch_u32 s pos w = Some s' \<and> code_size s' = code_size s \<and>
     ps_group_names s' = ps_group_names s \<and> ps_capture_count s' = ps_capture_count s"
  by (auto simp: patch_u8_def patch_u32_def put_u32_def wr_def blit_def code_size_def)

lemma literal_finish:
  assumes "\<not> err s" "st_ok s" "code s = hdr @ body" "length hdr = 7" "ps_capture_count s = 1" "db_size (ps_group_names s) = 0"
  obtains s' where "finish_code s 0 = Some s'" "slice (db_buf (ps_byte_code s')) 0 (code_size s') = Some ([hdr ! 0, 1, 0] @ u32_bytes (of_nat (length body)) @ body)"
proof -
  have sz: "code_size s = 7 + length body" using code_size_eq [OF assms(2)] assms(3,4) by simp
  then have l: "7 \<le> length (db_buf (ps_byte_code s))" using assms(2) by (simp add: code_size_def st_ok_def buf_wf_def dbuf_ok_def)
  obtain s1 where 1: "patch_u8 s 1 (of_nat (ps_capture_count s)) = Some s1" "length (db_buf (ps_byte_code s1)) = length (db_buf (ps_byte_code s))"
    "code_size s1 = code_size s" "ps_group_names s1 = ps_group_names s" "ps_capture_count s1 = ps_capture_count s" using patch_total(1) [of 1 s] l by fastforce
  obtain s2 where 2: "patch_u8 s1 2 0 = Some s2" "length (db_buf (ps_byte_code s2)) = length (db_buf (ps_byte_code s))"
    "code_size s2 = code_size s" "ps_group_names s2 = ps_group_names s" "ps_capture_count s2 = ps_capture_count s" using patch_total(1) [of 2 s1] 1 l by fastforce
  obtain s3 where 3: "patch_u32 s2 3 (of_nat (length body)) = Some s3"
    "code_size s3 = code_size s" "ps_group_names s3 = ps_group_names s" "ps_capture_count s3 = ps_capture_count s" using patch_total(2) [of 3 s2] 2 l by fastforce
  have "finish_code s 0 = Some s3"
    using 1 2 3 assms(5,6) sz by (simp add: finish_code_def Let_def RE_HEADER_CAPTURE_COUNT_def RE_HEADER_STACK_SIZE_def RE_HEADER_LEN_def)
  moreover have "code s3 = [hdr ! 0, 1, 0] @ u32_bytes (of_nat (length body)) @ body" "st_ok s3"
    using patch_header [OF 1(1) 2(1) 3(1) assms(1-4)] assms(5) by auto
  moreover from this(2) have "slice (db_buf (ps_byte_code s3)) 0 (code_size s3) = Some (code s3)"
    by (simp add: slice_def code_def dbuf_bytes_def code_size_def st_ok_def buf_wf_def dbuf_ok_def)
  ultimately show thesis using that by metis
qed


lemma literal_compile:
  assumes contract: "realloc_contract realloc8" "small_blocks realloc8" and cs: "list_all plain_char cs"
    and flags: "re_flags AND ucast LRE_FLAG_IGNORECASE = 0" and m: "error_msg_size \<le> int (length error_msg)" "error_msg \<noteq> []"
  obtains r msg where "lre_compile (Suc depth) realloc8 realloc32 error_msg error_msg_size (cs @ [0]) (length cs) re_flags = Some (r, msg)"
    "r = None \<and> refused realloc8 (2 * length (literal_bytecode re_flags cs)) \<or> r = Some (literal_bytecode re_flags cs)"
proof -
  define s0 where "s0 = init_parse_state realloc8 realloc32 (cs @ [0]) (length cs) re_flags"
  let ?body = "literal_body (re_flags AND ucast LRE_FLAG_STICKY \<noteq> 0) cs" and ?hdr = "[ucast re_flags, 0, 0] @ u32_bytes 0"
  have s0: "ps_buf s0 = cs @ [0]" "ps_buf_end s0 = length cs" "ps_buf_ptr s0 = 0" "\<not> ps_ignore_case s0" "buf_wf (ps_byte_code s0)"
    "db_realloc_func (ps_byte_code s0) = realloc8" "db_size (ps_byte_code s0) = 0" "\<not> err s0" "code s0 = []" "ps_re_flags s0 = re_flags"
    "ps_capture_count s0 = 1" "db_size (ps_group_names s0) = 0"
    using contract dbuf_init2_ok [OF contract(1), of 0] flags
    by (auto simp: s0_def init_parse_state_def buf_wf_def dbuf_init2_def code_def dbuf_bytes_def err_def)
  have len: "length (literal_bytecode re_flags cs) = 7 + length ?body" by (simp add: literal_bytecode_def Let_def)
  let ?s = "with_code (s0\<lparr>ps_buf_ptr := length cs\<rparr>)"
  obtain b where c: "compile_code (Suc depth) s0 = Some (if db_error b then re_parse_out_of_memory (?s b) else (0, ?s b))"
    and p: "puts (?hdr @ ?body) (ps_byte_code s0) b"
    by (rule literal_compile_code [OF s0(1-3) cs s0(4,5), of depth]) (simp add: s0(10))
  show thesis
  proof (cases "db_error b")
    case True
    let ?u = "msg ''out of memory''"
    obtain r where u: "ps_u (snd (re_parse_out_of_memory (?s b))) = ?u @ 0 # r" and z: "0 \<notin> set ?u"
      by (simp add: re_parse_out_of_memory_def re_parse_error_def vsnprintf_bytes_def TMP_BUF_SIZE_def msg_def)
    have "\<exists>e. pstrcpy error_msg 0 error_msg_size (?u @ 0 # r) = Some e"
    proof (cases "0 < error_msg_size")
      case True
      then show ?thesis using pstrcpy_eq [OF z True, of 0 error_msg r] m(1) by (auto simp: blit_def)
    qed (simp add: pstrcpy_def)
    then obtain e where "pstrcpy error_msg 0 error_msg_size (ps_u (snd (re_parse_out_of_memory (?s b)))) = Some e" by (auto simp: u)
    moreover have "fst (re_parse_out_of_memory (?s b)) = - 1" by (simp add: re_parse_out_of_memory_def re_parse_error_def Let_def)
    ultimately have "lre_compile (Suc depth) realloc8 realloc32 error_msg error_msg_size (cs @ [0]) (length cs) re_flags = Some (None, e)"
      using c True by (simp add: lre_compile_def split_beta flip: s0_def)
    moreover have "refused realloc8 (2 * length (literal_bytecode re_flags cs))" using p True s0 len by (simp add: puts_def err_def)
    ultimately show thesis using that by blast
  next
    case False
    have ok: "\<not> err (?s b)" "st_ok (?s b)" "code (?s b) = ?hdr @ ?body"
      using p False s0 by (auto simp: puts_def err_def st_ok_def code_def CAPTURE_COUNT_MAX_def)
    have cap: "ps_capture_count (?s b) = 1" "db_size (ps_group_names (?s b)) = 0" using s0 by simp_all
    obtain s' where f: "finish_code (?s b) 0 = Some s'" "slice (db_buf (ps_byte_code s')) 0 (code_size s') = Some (literal_bytecode re_flags cs)"
      by (rule literal_finish [OF ok _ cap]) (simp_all add: literal_bytecode_def Let_def)
    have sz: "code_size (?s b) = 7 + length ?body" using code_size_eq [OF ok(2)] ok(3) by simp
    obtain rest where "db_buf b = ?hdr @ ?body @ rest" using code_alloc [OF ok(2)] ok(3) by auto
    then have "compute_stack_size (db_buf b) (code_size (?s b)) = Some (Some 0)"
      using literal_stack [of _ cs rest] by (simp add: sz compute_stack_size_def RE_HEADER_LEN_def)
    then have "lre_compile (Suc depth) realloc8 realloc32 error_msg error_msg_size (cs @ [0]) (length cs) re_flags =
        Some (Some (literal_bytecode re_flags cs), error_msg[0 := 0])"
      using c False f m(2) by (simp add: lre_compile_def wr_def flip: s0_def)
    then show thesis using that by blast
  qed
qed

section \<open>Running the code\<close>

text \<open>
  \<open>ends bc s th R\<close>: with enough steps the matcher returns a result for which \<open>R\<close> holds.
\<close>

definition ends :: "u8 list \<Rightarrow> REExecContext \<Rightarrow> thread \<Rightarrow> (exec_ret \<Rightarrow> thread \<Rightarrow> bool) \<Rightarrow> bool" where
  "ends bc s th R \<longleftrightarrow> (\<exists>N r s' th'. R r th' \<and> (\<forall>fuel \<ge> N. lre_exec_backtrack fuel bc s th False = Ret (r, s', th')))"

lemma ends_Suc:
  assumes "\<And>fuel. N \<le> fuel \<Longrightarrow> lre_exec_backtrack (Suc fuel) bc s th False = Ret (r, s', th')" "R r th'"
  shows "ends bc s th R"
  unfolding ends_def
proof (intro exI conjI allI impI)
  fix fuel assume "Suc N \<le> fuel"
  then show "lre_exec_backtrack fuel bc s th False = Ret (r, s', th')" using assms(1) [of "fuel - 1"] by (cases fuel) auto
qed (rule assms(2))

lemma ends_next: "exec_op bc s th = Some (Op_next s1 th1) \<Longrightarrow> ends bc s1 th1 R \<Longrightarrow> ends bc s th R"
  by (auto simp: ends_def [of bc s1] intro!: ends_Suc)

lemma ends_error: "exec_op bc s th = Some (Op_error s1 th1) \<Longrightarrow> R R_error th1 \<Longrightarrow> ends bc s th R"
  by (rule ends_Suc) auto

lemma ends_no_match:
  "exec_op bc s th = Some (Op_no_match th1) \<Longrightarrow> unwind bc False s th1 = Some (Finished False s2 th2) \<Longrightarrow> R R_no_match th2 \<Longrightarrow> ends bc s th R"
  by (rule ends_Suc) auto

lemma ends_resume:
  "exec_op bc s th = Some (Op_no_match th1) \<Longrightarrow> unwind bc False s th1 = Some (Resume s2 th2) \<Longrightarrow> ends bc s2 th2 R \<Longrightarrow> ends bc s th R"
  by (auto simp: ends_def [of bc s2] intro!: ends_Suc)

lemma ends_match:
  "exec_op bc s th = Some (Op_match th1) \<Longrightarrow> unwind bc True s th1 = Some (Finished True s2 th2) \<Longrightarrow> R (R_match (th_cptr th2)) th2 \<Longrightarrow> ends bc s th R"
  by (rule ends_Suc) auto


text \<open>A subject of 8-bit or 16-bit characters.\<close>

definition subject_bytes :: "nat \<Rightarrow> nat list \<Rightarrow> u8 list" where
  "subject_bytes ct us = (if ct = 0 then map of_nat us else concat (map (\<lambda>u. u16_bytes (of_nat u)) us))"

definition fits_type :: "nat \<Rightarrow> nat list \<Rightarrow> bool" where
  "fits_type ct us \<longleftrightarrow> (ct = 0 \<and> (\<forall>u \<in> set us. u < 2 ^ 8)) \<or> (ct = 1 \<and> (\<forall>u \<in> set us. u < 2 ^ 16))"

definition occurs_at :: "u8 list \<Rightarrow> nat list \<Rightarrow> nat \<Rightarrow> bool" where
  "occurs_at cs us i \<longleftrightarrow> take (length cs) (drop i us) = map unat cs"

definition subject_ctx :: "REExecContext \<Rightarrow> nat \<Rightarrow> nat list \<Rightarrow> bool" where
  "subject_ctx s ct us \<longleftrightarrow> fits_type ct us \<and> ex_cbuf s = subject_bytes ct us \<and> ex_cbuf_end s = length us * 2 ^ ct \<and> ex_cbuf_type s = ct \<and>
     ex_capture_count s = 1 \<and> ex_stack_size_max s = 0 \<and> \<not> ex_ignore_case s"

lemma unit_bytes: "length (concat (map (\<lambda>u. u16_bytes (of_nat u)) us)) = 2 * length us"
  by (induction us) auto

lemma get_char_subject:
  assumes "fits_type ct us" "i < length us"
  shows "GET_CHAR ct (subject_bytes ct us) (i * 2 ^ ct) e = Some (of_nat (us ! i), Suc i * 2 ^ ct)"
proof (cases "ct = 0")
  case True
  with assms have "us ! i < 2 ^ 8" by (simp add: fits_type_def)
  then have "(ucast (of_nat (us ! i) :: u8) :: u32) = of_nat (us ! i)" by (simp add: unat_eq_iff unat_of_nat unat_ucast_up word_unat_eq_iff)
  with True assms(2) show ?thesis by (simp add: GET_CHAR_def subject_bytes_def)
next
  case False
  with assms have ct: "ct = 1" and u: "us ! i < 2 ^ 16" by (auto simp: fits_type_def)
  let ?b = "\<lambda>us. concat (map (\<lambda>u. u16_bytes (of_nat u)) us)"
  have "us = take i us @ us ! i # drop (Suc i) us" using assms(2) by (rule id_take_nth_drop)
  then have "?b us = ?b (take i us @ us ! i # drop (Suc i) us)" by (rule arg_cong)
  also have "\<dots> = ?b (take i us) @ u16_bytes (of_nat (us ! i)) @ ?b (drop (Suc i) us)" by (simp only: map_append list.map concat_append concat.simps)
  finally have "?b us = ?b (take i us) @ u16_bytes (of_nat (us ! i)) @ ?b (drop (Suc i) us)" .
  moreover have "length (?b (take i us)) = i * 2" using unit_bytes [of "take i us"] assms(2) by simp
  ultimately have "get_u16 (?b us) (i * 2) = Some (ucast (of_nat (us ! i) :: u16))" by (simp add: get_u16_def slice_def)
  moreover have "(ucast (of_nat (us ! i) :: u16) :: u32) = of_nat (us ! i)" using u by (simp add: unat_eq_iff unat_of_nat unat_ucast_up word_unat_eq_iff)
  ultimately show ?thesis by (simp add: GET_CHAR_def subject_bytes_def ct)
qed

lemma byte_via_u16: "(ucast (ucast (c :: u8) :: u16) :: u32) = ucast c"
  by (simp add: word_unat_eq_iff unat_ucast_up)

lemma exec_char:
  assumes ctx: "subject_ctx s ct us" and pc: "bc = a @ (opc REOP_char # u16_bytes (ucast (c :: u8))) @ r" "th_pc th = length a" and i: "th_cptr th = i * 2 ^ ct" "i \<le> length us"
  shows "exec_op bc s th = Some (if i < length us \<and> us ! i = unat c then Op_next s (th\<lparr>th_pc := length a + 3, th_cptr := Suc i * 2 ^ ct\<rparr>)
    else Op_no_match (th\<lparr>th_pc := length a + 3, th_cptr := (if i < length us then Suc i else i) * 2 ^ ct\<rparr>))"
proof -
  have g: "get_u16 bc (length a + 1) = Some (ucast c)"
    using pc(1) by (simp add: get_u16_def slice_def byte_via_u16)
  have b: "rd bc (length a) = Some (opc REOP_char)" using pc(1) by (simp add: rd_def nth_append)
  have e: "exec_op bc s th = match_char s (th\<lparr>th_pc := length a + 3\<rparr>) (\<lambda>x. Some (ucast c = x))"
    using pc(2) b g by (simp add: exec_op_def reop_opc numeral_3_eq_3)
  show ?thesis
  proof (cases "i < length us")
    case False
    with i ctx show ?thesis by (simp add: e match_char_def subject_ctx_def)
  next
    case True
    then have u: "us ! i < 2 ^ 16" using ctx by (auto simp: subject_ctx_def fits_type_def dest!: bspec [OF _ nth_mem])
    then have "(ucast c :: u32) = of_nat (us ! i) \<longleftrightarrow> us ! i = unat c" by (auto simp: word_unat_eq_iff unat_ucast_up unat_of_nat)
    moreover have "GET_CHAR ct (ex_cbuf s) (i * 2 ^ ct) (length us * 2 ^ ct) = Some (of_nat (us ! i), Suc i * 2 ^ ct)"
      using get_char_subject [of ct us i] True ctx by (simp add: subject_ctx_def)
    ultimately show ?thesis using True i ctx by (simp add: e match_char_def subject_ctx_def canonicalize_if_def)
  qed
qed

lemma occurs_Cons: "occurs_at (c # cs) us i \<longleftrightarrow> i < length us \<and> us ! i = unat c \<and> occurs_at cs us (Suc i)"
  by (cases "i < length us") (simp_all add: occurs_at_def flip: Cons_nth_drop_Suc)

lemma lit_run:
  assumes ctx: "subject_ctx s ct us"
  shows "\<lbrakk>bc = a @ lit_code cs @ r; th_pc th = length a; th_cptr th = i * 2 ^ ct; i \<le> length us;
      occurs_at cs us i \<Longrightarrow> ends bc s (th\<lparr>th_pc := length (a @ lit_code cs), th_cptr := (i + length cs) * 2 ^ ct\<rparr>) R;
      \<And>th0 pc' p'. \<not> occurs_at cs us i \<Longrightarrow> exec_op bc s th0 = Some (Op_no_match (th\<lparr>th_pc := pc', th_cptr := p'\<rparr>)) \<Longrightarrow> ends bc s th0 R\<rbrakk> \<Longrightarrow>
    ends bc s th R"
proof (induction cs arbitrary: a i th)
  case Nil
  then have "th\<lparr>th_pc := length a, th_cptr := i * 2 ^ ct\<rparr> = th" by (cases th) simp
  with Nil show ?case by (simp add: occurs_at_def lit_code_def)
next
  case (Cons c cs)
  let ?c = "opc REOP_char # u16_bytes (ucast c)"
  have bc: "bc = a @ ?c @ (lit_code cs @ r)" using Cons.prems(1) by (simp add: lit_code_Cons)
  note e = exec_char [OF ctx bc Cons.prems(2-4)]
  show ?case
  proof (cases "i < length us \<and> us ! i = unat c")
    case False
    with e Cons.prems(6) occurs_Cons [of c cs us i] show ?thesis by auto
  next
    case True
    let ?th = "th\<lparr>th_pc := length a + 3, th_cptr := Suc i * 2 ^ ct\<rparr>"
    have "ends bc s ?th R"
    proof (rule Cons.IH [of "a @ ?c" ?th "Suc i"])
      show "bc = (a @ ?c) @ lit_code cs @ r" using bc by simp
      show "ends bc s (?th\<lparr>th_pc := length ((a @ ?c) @ lit_code cs), th_cptr := (Suc i + length cs) * 2 ^ ct\<rparr>) R" if "occurs_at cs us (Suc i)"
        using Cons.prems(5) that True occurs_Cons [of c cs us i] by (simp add: lit_code_Cons)
      show "ends bc s th0 R" if "\<not> occurs_at cs us (Suc i)" "exec_op bc s th0 = Some (Op_no_match (?th\<lparr>th_pc := pc', th_cptr := p'\<rparr>))" for th0 pc' p'
        using Cons.prems(6) [of th0 p' pc'] that occurs_Cons [of c cs us i] by simp
    qed (use True in simp_all)
    with e True show ?thesis by (intro ends_next [of bc s th s ?th]) simp_all
  qed
qed


lemma get_u32_at: "get_u32 (a @ (x # u32_bytes v) @ r) (length a + 1) = Some v"
  by (simp add: get_u32_def slice_def)

lemma rd_at: "rd (a @ (x # c) @ r) (length a) = Some x"
  by (simp add: rd_def nth_append)

lemma rd_at1: "rd (a @ (x # y # c) @ r) (length a + 1) = Some y"
  by (simp add: rd_def nth_append)

lemma attempt:
  assumes ctx: "subject_ctx s ct us" and bc: "bc = a @ [opc REOP_save_start, 0] @ lit_code cs @ [opc REOP_save_end, 0] @ [opc REOP_match]"
    and th: "th_pc th = length a" "th_cptr th = i * 2 ^ ct" "i \<le> length us" "th_capture th = x # y # rest"
    and found: "\<And>th1. occurs_at cs us i \<Longrightarrow> th_capture th1 = Some (i * 2 ^ ct) # Some ((i + length cs) * 2 ^ ct) # rest \<Longrightarrow>
        (\<exists>s2. unwind bc True s th1 = Some (Finished True s2 th1)) \<and> R (R_match (th_cptr th1)) th1"
    and fail: "\<And>th0 pc' p'. \<not> occurs_at cs us i \<Longrightarrow>
        exec_op bc s th0 = Some (Op_no_match (th\<lparr>th_capture := Some (i * 2 ^ ct) # y # rest, th_pc := pc', th_cptr := p'\<rparr>)) \<Longrightarrow> ends bc s th0 R"
  shows "ends bc s th R"
proof -
  let ?a2 = "a @ [opc REOP_save_start, 0]" and ?fin = "(i + length cs) * 2 ^ ct"
  let ?th = "th\<lparr>th_pc := length ?a2, th_capture := Some (i * 2 ^ ct) # y # rest\<rparr>"
  have cc: "ex_capture_count s = 1" using ctx by (simp add: subject_ctx_def)
  have "exec_op bc s th = Some (Op_next s ?th)"
    using rd_at [of a "opc REOP_save_start" "[0]"] rd_at1 [of a "opc REOP_save_start" 0 "[]"] th bc cc
    by (simp add: exec_op_def reop_opc wr_def)
  moreover have "ends bc s ?th R"
  proof (rule lit_run [OF ctx, of bc ?a2 cs "[opc REOP_save_end, 0] @ [opc REOP_match]" ?th i])
    show "bc = ?a2 @ lit_code cs @ [opc REOP_save_end, 0] @ [opc REOP_match]" using bc by simp
    assume o: "occurs_at cs us i"
    let ?a3 = "?a2 @ lit_code cs"
    let ?th3 = "?th\<lparr>th_pc := length ?a3, th_cptr := ?fin\<rparr>"
    let ?th4 = "?th\<lparr>th_pc := length (?a3 @ [opc REOP_save_end, 0]), th_cptr := ?fin, th_capture := Some (i * 2 ^ ct) # Some ?fin # rest\<rparr>"
    have "exec_op bc s ?th3 = Some (Op_next s ?th4)"
      using rd_at [of ?a3 "opc REOP_save_end" "[0]"] rd_at1 [of ?a3 "opc REOP_save_end" 0 "[]"] bc cc
      by (simp add: exec_op_def reop_opc wr_def Let_def)
    moreover have "exec_op bc s ?th4 = Some (Op_match ?th4)"
      using rd_at [of "?a3 @ [opc REOP_save_end, 0]" "opc REOP_match" "[]" "[]"] bc by (simp add: exec_op_def reop_opc Let_def)
    moreover obtain s2 where "unwind bc True s ?th4 = Some (Finished True s2 ?th4)" "R (R_match (th_cptr ?th4)) ?th4" using found [OF o, of ?th4] by auto
    ultimately show "ends bc s ?th3 R" by (blast intro: ends_next ends_match)
  next
    show "ends bc s th0 R" if "\<not> occurs_at cs us i" "exec_op bc s th0 = Some (Op_no_match (?th\<lparr>th_pc := pc', th_cptr := p'\<rparr>))" for th0 pc' p'
      using fail [OF that(1), of th0 p' pc'] that(2) by simp
  qed (use th in simp_all)
  ultimately show ?thesis by (rule ends_next)
qed

text \<open>A sticky pattern is tried at one position.\<close>

lemma sticky_run:
  assumes ctx: "subject_ctx s ct us" "ex_state_stack_len s = 0" and bc: "bc = hdr @ literal_body True cs"
    and th: "th_pc th = length hdr" "th_cptr th = i * 2 ^ ct" "i \<le> length us" "th_capture th = x # y # rest"
  shows "ends bc s th (\<lambda>r th'. if occurs_at cs us i then (\<exists>p. r = R_match p) \<and> th_capture th' = Some (i * 2 ^ ct) # Some ((i + length cs) * 2 ^ ct) # rest
    else r = R_no_match)"
proof (rule attempt [OF ctx(1) _ th])
  show "bc = hdr @ [opc REOP_save_start, 0] @ lit_code cs @ [opc REOP_save_end, 0] @ [opc REOP_match]" using bc by (simp add: literal_body_def search_code_def)
qed (use ctx(2) in \<open>auto simp: unwind.simps intro: ends_no_match\<close>)


text \<open>
  The search: one state of the state stack holds the start position. \<open>first_at\<close> is the first occurrence from a position on. A matcher that has not yet
  allocated its state stack asks for 8 states.
\<close>

definition first_at :: "u8 list \<Rightarrow> nat list \<Rightarrow> nat \<Rightarrow> nat option" where
  "first_at cs us i = List.find (occurs_at cs us) [i ..< Suc (length us)]"

definition found_at :: "u8 list \<Rightarrow> nat \<Rightarrow> captures \<Rightarrow> nat option \<Rightarrow> exec_ret \<Rightarrow> thread \<Rightarrow> bool" where
  "found_at cs ct rest j r th \<longleftrightarrow> (case j of None \<Rightarrow> r = R_no_match
     | Some j \<Rightarrow> (\<exists>p. r = R_match p) \<and> th_capture th = Some (j * 2 ^ ct) # Some ((j + length cs) * 2 ^ ct) # rest)"

definition ready :: "REExecContext \<Rightarrow> bool" where
  "ready s \<longleftrightarrow> ex_state_stack_len s = 0 \<and> 1 \<le> ex_state_stack_size s \<and> 1 \<le> length (ex_state_stack s)"

definition idle :: "thread \<Rightarrow> nat \<Rightarrow> nat \<Rightarrow> captures \<Rightarrow> bool" where
  "idle th pc p rest \<longleftrightarrow> th_pc th = pc \<and> th_cptr th = p \<and> th_capture th = None # None # rest \<and> th_stack th = [] \<and> th_stack_len th = 0"

lemma first_at_step: "i \<le> length us \<Longrightarrow> first_at cs us i = (if occurs_at cs us i then Some i else first_at cs us (Suc i))"
  by (simp add: first_at_def upt_rec [of i] del: upt_Suc)

lemma first_at_end: "first_at cs us (Suc (length us)) = None"
  by (simp add: first_at_def)

text \<open>Pushing the start position on a stack that has room, and taking it back.\<close>

definition pushed :: "REExecContext \<Rightarrow> nat \<Rightarrow> nat \<Rightarrow> REExecContext \<Rightarrow> bool" where
  "pushed s pc p s' \<longleftrightarrow> ex_state_stack_len s' = 1 \<and> 1 \<le> ex_state_stack_size s' \<and>
     (\<exists>rs r. ex_state_stack s' = rs # r \<and> rs_type rs = RE_EXEC_STATE_SPLIT \<and> rs_stack_len rs = 0 \<and> rs_cptr rs = p \<and> rs_pc rs = pc \<and>
        rs_capture rs = [None, None] \<and> rs_stack rs = [])"

lemma push_ready:
  assumes "ready s" "subject_ctx s ct us" "idle th q p rest"
  obtains s' where "push_state s th pc p RE_EXEC_STATE_SPLIT 0 = Some (0, s')" "subject_ctx s' ct us" "pushed s pc p s'"
proof -
  obtain x r where "ex_state_stack s = x # r" using assms(1) by (cases "ex_state_stack s") (auto simp: ready_def)
  then show thesis using assms that
    by (auto simp: push_state_def grow_state_stack_def ready_def idle_def subject_ctx_def pushed_def slice_def wr_def numeral_2_eq_2)
qed

lemma unwind_pushed:
  assumes "pushed s0 pc p s" "subject_ctx s ct us"
  shows "\<exists>s'. unwind bc True s th1 = Some (Finished True s' th1)"
    and "idle th q p' rest \<Longrightarrow> \<exists>s'. unwind bc False s (th\<lparr>th_capture := x # y # rest, th_pc := pc', th_cptr := q'\<rparr>) = Some (Resume s' (th\<lparr>th_pc := pc, th_cptr := p\<rparr>)) \<and>
      ready s' \<and> subject_ctx s' ct us"
proof -
  obtain rs r where s: "ex_state_stack_len s = 1" "1 \<le> ex_state_stack_size s" "ex_state_stack s = rs # r" "rs_type rs = RE_EXEC_STATE_SPLIT" "rs_stack_len rs = 0"
    "rs_cptr rs = p" "rs_pc rs = pc" "rs_capture rs = [None, None]" "rs_stack rs = []"
    using assms(1) by (auto simp: pushed_def)
  have cc: "ex_capture_count s = 1" using assms(2) by (simp add: subject_ctx_def)
  show "\<exists>s'. unwind bc True s th1 = Some (Finished True s' th1)"
    using s by (simp add: unwind.simps [of bc True s] unwind.simps [of bc True "drop_state s"]) (simp add: drop_state_def)
  assume i: "idle th q p' rest"
  then have th: "th\<lparr>th_capture := None # None # rest, th_stack := [], th_stack_len := 0\<rparr> = th" by (cases th) (simp add: idle_def)
  let ?th = "th\<lparr>th_capture := x # y # rest, th_pc := pc', th_cptr := q'\<rparr>"
  have "pop_state s rs ?th = Some (th\<lparr>th_capture := None # None # rest, th_stack := [], th_stack_len := 0\<rparr>\<lparr>th_pc := pc, th_cptr := p\<rparr>)"
    using s cc i by (simp add: pop_state_def pop_state1_def slice_def blit_def idle_def)
  then have "unwind bc False s ?th = Some (Resume (drop_state s) (th\<lparr>th_pc := pc, th_cptr := p\<rparr>))"
    using s unfolding th by (simp add: unwind.simps [of bc False s] resume_at_def)
  moreover have "ready (drop_state s)" "subject_ctx (drop_state s) ct us" using s assms(2) by (auto simp: ready_def drop_state_def subject_ctx_def)
  ultimately show "\<exists>s'. unwind bc False s ?th = Some (Resume s' (th\<lparr>th_pc := pc, th_cptr := p\<rparr>)) \<and> ready s' \<and> subject_ctx s' ct us" by blast
qed


lemma search_ops:
  assumes "bc = hdr @ literal_body False cs" "length hdr = 7"
  shows "rd bc 7 = Some (opc REOP_split_goto_first)" "get_u32 bc 8 = Some 6" "pc_add bc 12 6 = Some 18"
    "rd bc 12 = Some (opc REOP_any)" "rd bc 13 = Some (opc REOP_goto)" "get_u32 bc 14 = Some (- 11)" "pc_add bc 18 (- 11) = Some 7"
    "\<exists>a. length a = 18 \<and> bc = a @ [opc REOP_save_start, 0] @ lit_code cs @ [opc REOP_save_end, 0] @ [opc REOP_match]"
proof -
  let ?split = "opc REOP_split_goto_first # u32_bytes 6" and ?any = "[opc REOP_any]" and ?goto = "opc REOP_goto # u32_bytes (- 11)"
  let ?rest = "[opc REOP_save_start, 0] @ lit_code cs @ [opc REOP_save_end, 0] @ [opc REOP_match]"
  have bc: "bc = hdr @ ?split @ ?any @ ?goto @ ?rest" using assms(1) by (simp add: literal_body_def search_code_def)
  show "rd bc 7 = Some (opc REOP_split_goto_first)" using rd_at [of hdr] assms(2) unfolding bc by simp
  show "get_u32 bc 8 = Some 6" using get_u32_at [of hdr "opc REOP_split_goto_first" 6 "?any @ ?goto @ ?rest"] assms(2) unfolding bc by simp
  show "rd bc 12 = Some (opc REOP_any)" using rd_at [of "hdr @ ?split" "opc REOP_any" "[]" "?goto @ ?rest"] assms(2) unfolding bc by simp
  show "rd bc 13 = Some (opc REOP_goto)" using rd_at [of "hdr @ ?split @ ?any" "opc REOP_goto" "u32_bytes (- 11)" ?rest] assms(2) unfolding bc by simp
  show "get_u32 bc 14 = Some (- 11)" using get_u32_at [of "hdr @ ?split @ ?any" "opc REOP_goto" "- 11" ?rest] assms(2) unfolding bc by simp
  have l: "18 \<le> length bc" using assms(2) unfolding bc by simp
  have "sint (6 :: u32) = 6" "sint (- 11 :: u32) = - 11" by simp_all
  with l show "pc_add bc 12 6 = Some 18" "pc_add bc 18 (- 11) = Some 7" by (simp_all add: pc_add_def)
  show "\<exists>a. length a = 18 \<and> bc = a @ ?rest" using assms(2) unfolding bc by (intro exI [of _ "hdr @ ?split @ ?any @ ?goto"]) simp
qed

lemma scan_step:
  assumes bc: "bc = hdr @ literal_body False cs" "length hdr = 7" and ctx: "subject_ctx s ct us" "ready s"
    and th: "idle th 12 (i * 2 ^ ct) rest" "i \<le> length us"
    and last: "i = length us \<Longrightarrow> found_at cs ct rest j R_no_match (th\<lparr>th_pc := 13\<rparr>)"
    and going: "i < length us \<Longrightarrow> ends bc s (th\<lparr>th_pc := 7, th_cptr := Suc i * 2 ^ ct\<rparr>) (found_at cs ct rest j)"
  shows "ends bc s th (found_at cs ct rest j)"
proof -
  note ops = search_ops [OF bc]
  have e: "exec_op bc s th = match_any s (th\<lparr>th_pc := 13\<rparr>) (\<lambda>c. True)" using ops th by (simp add: exec_op_def idle_def reop_opc)
  show ?thesis
  proof (cases "i < length us")
    case False
    then have "exec_op bc s th = Some (Op_no_match (th\<lparr>th_pc := 13\<rparr>))" using e th ctx by (simp add: match_any_def idle_def subject_ctx_def)
    moreover have "unwind bc False s (th\<lparr>th_pc := 13\<rparr>) = Some (Finished False s (th\<lparr>th_pc := 13\<rparr>))"
      using ctx(2) by (simp add: unwind.simps ready_def)
    ultimately show ?thesis using last False th(2) by (auto intro: ends_no_match)
  next
    case True
    let ?th = "th\<lparr>th_pc := 13, th_cptr := Suc i * 2 ^ ct\<rparr>"
    have "GET_CHAR ct (ex_cbuf s) (i * 2 ^ ct) (ex_cbuf_end s) = Some (of_nat (us ! i), Suc i * 2 ^ ct)"
      using get_char_subject [of ct us i] True ctx(1) by (simp add: subject_ctx_def)
    then have "exec_op bc s th = Some (Op_next s ?th)" using e th ctx(1) True by (simp add: match_any_def idle_def subject_ctx_def)
    moreover have "exec_op bc s ?th = Some (Op_next s (th\<lparr>th_pc := 7, th_cptr := Suc i * 2 ^ ct\<rparr>))"
      using ops by (simp add: exec_op_def reop_opc Let_def)
    ultimately show ?thesis using going [OF True] by (blast intro: ends_next)
  qed
qed

lemma try_at:
  assumes bc: "bc = hdr @ literal_body False cs" "length hdr = 7" and th: "idle th 7 (i * 2 ^ ct) rest" "i \<le> length us"
    and push: "push_state s th 12 (i * 2 ^ ct) RE_EXEC_STATE_SPLIT 0 = Some (0, s1)" "subject_ctx s1 ct us" "pushed s 12 (i * 2 ^ ct) s1"
    and go_on: "\<And>s'. ready s' \<Longrightarrow> subject_ctx s' ct us \<Longrightarrow>
        ends bc s' (th\<lparr>th_pc := 12, th_cptr := i * 2 ^ ct\<rparr>) (found_at cs ct rest (first_at cs us (Suc i)))"
  shows "ends bc s th (found_at cs ct rest (first_at cs us i))"
proof -
  note ops = search_ops [OF bc]
  obtain a where a: "length a = 18" "bc = a @ [opc REOP_save_start, 0] @ lit_code cs @ [opc REOP_save_end, 0] @ [opc REOP_match]" using ops(8) by blast
  let ?th = "th\<lparr>th_pc := 18\<rparr>"
  have "exec_op bc s th = Some (Op_next s1 ?th)" using ops th(1) push(1) by (simp add: exec_op_def idle_def reop_opc save_and_go_def)
  moreover have "ends bc s1 ?th (found_at cs ct rest (first_at cs us i))"
  proof (rule attempt [OF push(2) a(2), of ?th i None None rest])
    show "(\<exists>s2. unwind bc True s1 th1 = Some (Finished True s2 th1)) \<and> found_at cs ct rest (first_at cs us i) (R_match (th_cptr th1)) th1"
      if "occurs_at cs us i" "th_capture th1 = Some (i * 2 ^ ct) # Some ((i + length cs) * 2 ^ ct) # rest" for th1
      using unwind_pushed(1) [OF push(3,2)] that first_at_step [OF th(2), of cs] by (simp add: found_at_def)
    show "ends bc s1 th0 (found_at cs ct rest (first_at cs us i))"
      if no: "\<not> occurs_at cs us i" and e: "exec_op bc s1 th0 = Some (Op_no_match (?th\<lparr>th_capture := Some (i * 2 ^ ct) # None # rest, th_pc := pc', th_cptr := p'\<rparr>))"
      for th0 pc' p'
    proof -
      let ?t = "th\<lparr>th_capture := Some (i * 2 ^ ct) # None # rest, th_pc := pc', th_cptr := p'\<rparr>"
      obtain s' where s': "unwind bc False s1 ?t = Some (Resume s' (th\<lparr>th_pc := 12, th_cptr := i * 2 ^ ct\<rparr>))" "ready s'" "subject_ctx s' ct us"
        using unwind_pushed(2) [OF push(3,2) th(1)] by blast
      have "exec_op bc s1 th0 = Some (Op_no_match ?t)" using e by simp
      from ends_resume [OF this s'(1)] go_on [OF s'(2,3)] no first_at_step [OF th(2), of cs] show ?thesis by simp
    qed
  qed (use th a(1) in \<open>simp_all add: idle_def\<close>)
  ultimately show ?thesis by (rule ends_next)
qed

lemma idle_move: "idle th pc p rest \<Longrightarrow> idle (th\<lparr>th_pc := pc', th_cptr := p'\<rparr>) pc' p' rest"
  by (simp add: idle_def)

lemma scan_from:
  assumes bc: "bc = hdr @ literal_body False cs" "length hdr = 7"
  shows "subject_ctx s ct us \<Longrightarrow> ready s \<Longrightarrow> idle th 12 (i * 2 ^ ct) rest \<Longrightarrow> i \<le> length us \<Longrightarrow>
    ends bc s th (found_at cs ct rest (first_at cs us (Suc i)))"
proof (induction "length us - i" arbitrary: s th i)
  case 0
  then have "i = length us" by simp
  with 0 show ?case by (intro scan_step [OF bc 0(2-5)]) (simp_all add: first_at_end found_at_def)
next
  case (Suc n)
  show ?case
  proof (rule scan_step [OF bc Suc.prems])
    assume i: "i < length us"
    let ?th = "th\<lparr>th_pc := 7, th_cptr := Suc i * 2 ^ ct\<rparr>"
    have th: "idle ?th 7 (Suc i * 2 ^ ct) rest" using Suc.prems(3) by (rule idle_move)
    obtain s1 where s1: "push_state s ?th 12 (Suc i * 2 ^ ct) RE_EXEC_STATE_SPLIT 0 = Some (0, s1)" "subject_ctx s1 ct us" "pushed s 12 (Suc i * 2 ^ ct) s1"
      by (rule push_ready [OF Suc.prems(2,1) th])
    show "ends bc s ?th (found_at cs ct rest (first_at cs us (Suc i)))"
    proof (rule try_at [OF bc th _ s1])
      show "ends bc s' (?th\<lparr>th_pc := 12, th_cptr := Suc i * 2 ^ ct\<rparr>) (found_at cs ct rest (first_at cs us (Suc (Suc i))))"
        if "ready s'" "subject_ctx s' ct us" for s'
        using Suc.hyps(2) i by (intro Suc.hyps(1) that idle_move [OF th]) simp_all
    qed (use i in simp)
  qed (use Suc.hyps(2) in simp)
qed

text \<open>The first start position, with the allocation of the state stack.\<close>

definition fresh :: "REExecState realloc_fun \<Rightarrow> REExecContext \<Rightarrow> bool" where
  "fresh f s \<longleftrightarrow> ex_state_stack_len s = 0 \<and> ex_state_stack_size s = 0 \<and> ex_state_stack s = [] \<and> ex_opaque s = 0 \<and> ex_lre_realloc s = f \<and> ex_state_size s = 48"

lemma push_fresh:
  assumes "fresh f s" "subject_ctx s ct us" "idle th q p rest" "realloc_contract f"
  shows "f 0 [] 8 = None \<Longrightarrow> \<exists>s'. push_state s th pc p RE_EXEC_STATE_SPLIT 0 = Some (- 1, s')"
    and "f 0 [] 8 = Some b \<Longrightarrow> \<exists>s'. push_state s th pc p RE_EXEC_STATE_SPLIT 0 = Some (0, s') \<and> subject_ctx s' ct us \<and> pushed s pc p s'"
proof -
  show "f 0 [] 8 = None \<Longrightarrow> \<exists>s'. push_state s th pc p RE_EXEC_STATE_SPLIT 0 = Some (- 1, s')"
    using assms(1) by (simp add: fresh_def push_state_def grow_state_stack_def Let_def)
  assume f: "f 0 [] 8 = Some b"
  then have "length b = 8" by (rule realloc_contract.realloc_length [OF assms(4)])
  then obtain x r where b: "b = x # r" by (cases b) auto
  have "grow_state_stack s = (0, s\<lparr>ex_state_stack_size := 8, ex_state_stack := b, ex_opaque := Suc 0\<rparr>)"
    using assms(1) f by (simp add: fresh_def grow_state_stack_def Let_def)
  with assms(1-3) b show "\<exists>s'. push_state s th pc p RE_EXEC_STATE_SPLIT 0 = Some (0, s') \<and> subject_ctx s' ct us \<and> pushed s pc p s'"
    by (simp add: push_state_def idle_def fresh_def subject_ctx_def pushed_def slice_def wr_def numeral_2_eq_2)
qed

lemma search_run:
  assumes bc: "bc = hdr @ literal_body False cs" "length hdr = 7" and ctx: "subject_ctx s ct us" "fresh f s" "realloc_contract f"
    and th: "idle th 7 (i * 2 ^ ct) rest" "i \<le> length us"
  shows "ends bc s th (\<lambda>r th'. if f 0 [] 8 = None then r = R_error else found_at cs ct rest (first_at cs us i) r th')"
proof (cases "f 0 [] 8")
  case None
  note ops = search_ops [OF bc]
  obtain s' where "push_state s th 12 (i * 2 ^ ct) RE_EXEC_STATE_SPLIT 0 = Some (- 1, s')" using push_fresh(1) [OF ctx(2,1) th(1) ctx(3) None] by blast
  then have "exec_op bc s th = Some (Op_error s' th)" using ops th(1) by (simp add: exec_op_def idle_def reop_opc save_and_go_def)
  then show ?thesis using None by (auto intro: ends_error)
next
  case (Some b)
  obtain s1 where s1: "push_state s th 12 (i * 2 ^ ct) RE_EXEC_STATE_SPLIT 0 = Some (0, s1)" "subject_ctx s1 ct us" "pushed s 12 (i * 2 ^ ct) s1"
    using push_fresh(2) [OF ctx(2,1) th(1) ctx(3) Some] by blast
  have "ends bc s th (found_at cs ct rest (first_at cs us i))"
    by (rule try_at [OF bc th s1]) (intro scan_from [OF bc] idle_move [OF th(1)] th(2))
  with Some show ?thesis by simp
qed


text \<open>The entry point of the matcher.\<close>

lemma flag_of_byte: "re_flags AND ucast (m :: u8) = (0 :: u32) \<longleftrightarrow> ucast re_flags AND m = 0"
proof -
  have "ucast (ucast re_flags AND m) = re_flags AND ucast m" by (rule bit_word_eqI) (auto simp: bit_simps dest: bit_imp_le_length)
  moreover have "(ucast w :: u32) = 0 \<longleftrightarrow> w = 0" for w :: u8 by (simp add: word_unat_eq_iff unat_ucast_up)
  ultimately show ?thesis by metis
qed

definition match_result :: "u8 list \<Rightarrow> nat \<Rightarrow> captures \<Rightarrow> nat option \<Rightarrow> int \<times> captures \<Rightarrow> bool" where
  "match_result cs ct rest j res \<longleftrightarrow> (case j of None \<Rightarrow> fst res = 0
     | Some j \<Rightarrow> res = (1, Some (j * 2 ^ ct) # Some ((j + length cs) * 2 ^ ct) # rest))"

lemma in_range:
  assumes "i \<le> n" "n * 2 ^ ct < 2 ^ 31"
  shows "\<not> (int n * 2 ^ ct > 0x7fffffff \<or> int i * 2 ^ ct > 0x7fffffff)"
proof -
  have "\<not> int m * 2 ^ ct > 0x7fffffff" if "m * 2 ^ ct < 2 ^ 31" for m
  proof -
    have "int (m * 2 ^ ct) < 2 ^ 31" using that by (metis of_nat_less_iff of_nat_numeral of_nat_power)
    then show ?thesis by simp
  qed
  moreover have "i * 2 ^ ct \<le> n * 2 ^ ct" using assms(1) by simp
  ultimately show ?thesis using assms(2) le_less_trans by blast
qed

lemma exec_entry:
  assumes hd: "rd bc RE_HEADER_FLAGS = Some fl" "rd bc RE_HEADER_CAPTURE_COUNT = Some 1" "rd bc RE_HEADER_STACK_SIZE = Some 0"
    and fl: "fl AND LRE_FLAG_IGNORECASE = 0" "fl AND LRE_FLAG_UTF16 = 0"
    and sub: "fits_type ct us" "i \<le> length us" "length us * 2 ^ ct < 2 ^ 31"
  obtains s th where "subject_ctx s ct us" "fresh f s" "idle th 7 (i * 2 ^ ct) rest"
    "\<forall>fuel. lre_exec fuel f addr (x # y # rest) bc (subject_bytes ct us) i (length us) ct =
       (case lre_exec_backtrack fuel bc s th False of Fault \<Rightarrow> Fault | Timeout \<Rightarrow> Timeout
        | Ret (ret, s, th) \<Rightarrow> Ret (case ret of R_error \<Rightarrow> - 1 | R_no_match \<Rightarrow> 0 | R_match p \<Rightarrow> 1, th_capture th))"
proof -
  let ?s = "\<lparr>ex_cbuf = subject_bytes ct us, ex_cbuf_addr = addr, ex_cbuf_end = length us * 2 ^ ct, ex_cbuf_type = ct,
                   ex_capture_count = 1, ex_stack_size_max = 0, ex_multi_line = (fl AND LRE_FLAG_MULTILINE \<noteq> 0),
                   ex_ignore_case = (fl AND LRE_FLAG_IGNORECASE \<noteq> 0), ex_is_utf16 = (fl AND LRE_FLAG_UTF16 \<noteq> 0),
                   ex_opaque = 0, ex_lre_realloc = f, ex_state_size = 48,
                   ex_state_stack = [], ex_state_stack_size = 0, ex_state_stack_len = 0\<rparr>"
  let ?th = "\<lparr>th_pc = RE_HEADER_LEN, th_cptr = i * 2 ^ ct, th_capture = None # None # rest, th_stack = [], th_stack_len = 0\<rparr>"
  have small: "\<not> (int (length us) * 2 ^ ct > 0x7fffffff \<or> int i * 2 ^ ct > 0x7fffffff)" by (rule in_range [OF sub(2,3)])
  have "subject_ctx ?s ct us" "fresh f ?s" "idle ?th 7 (i * 2 ^ ct) rest"
    using sub fl by (simp_all add: subject_ctx_def fresh_def idle_def RE_HEADER_LEN_def)
  moreover have "lre_exec fuel f addr (x # y # rest) bc (subject_bytes ct us) i (length us) ct =
       (case lre_exec_backtrack fuel bc ?s ?th False of Fault \<Rightarrow> Fault | Timeout \<Rightarrow> Timeout
        | Ret (ret, s, th) \<Rightarrow> Ret (case ret of R_error \<Rightarrow> - 1 | R_no_match \<Rightarrow> 0 | R_match p \<Rightarrow> 1, th_capture th))" for fuel
    using small by (simp add: lre_exec_def hd fl blit_def numeral_2_eq_2)
  ultimately show thesis using that [of ?s ?th] by blast
qed

lemma exec_ends:
  assumes flags: "re_flags AND ucast LRE_FLAG_IGNORECASE = 0" "re_flags AND ucast LRE_FLAG_UTF16 = 0"
    and sub: "fits_type ct us" "i \<le> length us" "length us * 2 ^ ct < 2 ^ 31"
    and run: "\<And>s th. subject_ctx s ct us \<Longrightarrow> fresh f s \<Longrightarrow> idle th 7 (i * 2 ^ ct) rest \<Longrightarrow> ends (literal_bytecode re_flags cs) s th R"
  shows "\<exists>N ret th'. R ret th' \<and> (\<forall>fuel \<ge> N. lre_exec fuel f addr (x # y # rest) (literal_bytecode re_flags cs) (subject_bytes ct us) i (length us) ct =
    Ret (case ret of R_error \<Rightarrow> - 1 | R_no_match \<Rightarrow> 0 | R_match p \<Rightarrow> 1, th_capture th'))"
proof -
  let ?bc = "literal_bytecode re_flags cs" and ?fl = "ucast re_flags :: u8"
  have fl: "?fl AND LRE_FLAG_IGNORECASE = 0" "?fl AND LRE_FLAG_UTF16 = 0" using flags by (simp_all add: flag_of_byte)
  have hd: "rd ?bc RE_HEADER_FLAGS = Some ?fl" "rd ?bc RE_HEADER_CAPTURE_COUNT = Some 1" "rd ?bc RE_HEADER_STACK_SIZE = Some 0"
    by (simp_all add: literal_bytecode_def Let_def rd_def RE_HEADER_FLAGS_def RE_HEADER_CAPTURE_COUNT_def RE_HEADER_STACK_SIZE_def)
  obtain s th where e: "subject_ctx s ct us" "fresh f s" "idle th 7 (i * 2 ^ ct) rest"
    "\<forall>fuel. lre_exec fuel f addr (x # y # rest) ?bc (subject_bytes ct us) i (length us) ct =
       (case lre_exec_backtrack fuel ?bc s th False of Fault \<Rightarrow> Fault | Timeout \<Rightarrow> Timeout
        | Ret (ret, s, th) \<Rightarrow> Ret (case ret of R_error \<Rightarrow> - 1 | R_no_match \<Rightarrow> 0 | R_match p \<Rightarrow> 1, th_capture th))"
    by (rule exec_entry [OF hd fl sub, where f = f and rest = rest and addr = addr and x = x and y = y])
  from run [OF e(1-3)] obtain N ret s' th' where "R ret th'" "\<And>fuel. N \<le> fuel \<Longrightarrow> lre_exec_backtrack fuel ?bc s th False = Ret (ret, s', th')"
    unfolding ends_def by blast
  with e(4) show ?thesis by (intro exI [of _ N] exI [of _ ret] exI [of _ th']) simp
qed

text \<open>The result of the search for \<open>cs\<close> in \<open>us\<close> from \<open>i\<close> on.\<close>

definition search_result :: "bool \<Rightarrow> bool \<Rightarrow> u8 list \<Rightarrow> nat \<Rightarrow> nat list \<Rightarrow> nat \<Rightarrow> captures \<Rightarrow> int \<times> captures \<Rightarrow> bool" where
  "search_result sticky no_memory cs ct us i rest res \<longleftrightarrow>
     (if sticky then match_result cs ct rest (if occurs_at cs us i then Some i else None) res
      else if no_memory then fst res = - 1
      else match_result cs ct rest (first_at cs us i) res)"

section \<open>Properties\<close>

text \<open>
  C3. Literal patterns from source text to match. For a pattern of plain characters the compiler returns bytecode unless the allocator refuses
  a block of at most twice the size of the code, and running that bytecode ends and finds the pattern: without the sticky flag the result is the first
  occurrence at or after the start position (-1 if the state stack cannot be allocated), with it the one at the start position, and capture 0 is the
  place of the occurrence. The subject has 8-bit or 16-bit characters.
\<close>

theorem literal_pattern_found:
  assumes "realloc_contract realloc8" "small_blocks realloc8" "realloc_contract f" "list_all plain_char cs"
    and "re_flags AND ucast LRE_FLAG_IGNORECASE = 0" "re_flags AND ucast LRE_FLAG_UTF16 = 0"
    and "error_msg_size \<le> int (length error_msg)" "error_msg \<noteq> []"
    and "fits_type ct us" "i \<le> length us" "length us * 2 ^ ct < 2 ^ 31"
  shows "\<exists>bc msg. lre_compile (Suc depth) realloc8 realloc32 error_msg error_msg_size (cs @ [0]) (length cs) re_flags = Some (bc, msg) \<and>
    (case bc of None \<Rightarrow> refused realloc8 (6 * length cs + 46)
     | Some bc \<Rightarrow> \<exists>N res. (\<forall>fuel \<ge> N. lre_exec fuel f addr (x # y # rest) bc (subject_bytes ct us) i (length us) ct = Ret res) \<and>
         search_result (re_flags AND ucast LRE_FLAG_STICKY \<noteq> 0) (f 0 [] 8 = None) cs ct us i rest res)"
proof -
  let ?sticky = "re_flags AND ucast LRE_FLAG_STICKY \<noteq> 0"
  define hdr where "hdr = [ucast re_flags, 1, 0] @ u32_bytes (of_nat (length (literal_body ?sticky cs)))"
  have bc: "literal_bytecode re_flags cs = hdr @ literal_body ?sticky cs" "length hdr = 7" by (simp_all add: hdr_def literal_bytecode_def Let_def)
  have "length (lit_code cs) = 3 * length cs" by (induction cs) (simp_all add: lit_code_def)
  then have len: "2 * length (literal_bytecode re_flags cs) \<le> 6 * length cs + 46" by (simp add: bc literal_body_def search_code_def)
  obtain r msg where c: "lre_compile (Suc depth) realloc8 realloc32 error_msg error_msg_size (cs @ [0]) (length cs) re_flags = Some (r, msg)"
    "r = None \<and> refused realloc8 (2 * length (literal_bytecode re_flags cs)) \<or> r = Some (literal_bytecode re_flags cs)"
    by (rule literal_compile [OF assms(1,2,4,5,7,8)])
  define R where "R = (\<lambda>r th'. if ?sticky then found_at cs ct rest (if occurs_at cs us i then Some i else None) r th'
    else if f 0 [] 8 = None then r = R_error else found_at cs ct rest (first_at cs us i) r th')"
  have "ends (literal_bytecode re_flags cs) s th R" if s: "subject_ctx s ct us" "fresh f s" and th: "idle th 7 (i * 2 ^ ct) rest" for s th
  proof (cases ?sticky)
    case True
    have "ends (literal_bytecode re_flags cs) s th (\<lambda>r th'. if occurs_at cs us i then (\<exists>p. r = R_match p) \<and> th_capture th' = Some (i * 2 ^ ct) # Some ((i + length cs) * 2 ^ ct) # rest
      else r = R_no_match)"
      by (rule sticky_run [OF s(1), of _ hdr cs]) (use s th bc True assms(10) in \<open>auto simp: fresh_def idle_def\<close>)
    then show ?thesis using True by (auto simp: R_def found_at_def ends_def split: if_splits)
  next
    case False
    then show ?thesis using search_run [OF _ bc(2) s assms(3) th assms(10)] bc(1) by (simp add: R_def)
  qed
  from exec_ends [OF assms(5,6,9-11) this] obtain N ret th' where
    N: "R ret th'" "\<And>fuel. N \<le> fuel \<Longrightarrow> lre_exec fuel f addr (x # y # rest) (literal_bytecode re_flags cs) (subject_bytes ct us) i (length us) ct =
      Ret (case ret of R_error \<Rightarrow> - 1 | R_no_match \<Rightarrow> 0 | R_match p \<Rightarrow> 1, th_capture th')" by blast
  show ?thesis
  proof (cases r)
    case None
    with c len show ?thesis by (auto intro: refused_mono)
  next
    case (Some b)
    let ?res = "(case ret of R_error \<Rightarrow> - 1 | R_no_match \<Rightarrow> 0 | R_match p \<Rightarrow> 1, th_capture th') :: int \<times> captures"
    have "found_at cs ct rest j ret th' \<Longrightarrow> match_result cs ct rest j ?res" for j
      by (auto simp: found_at_def match_result_def split: option.splits)
    with N(1) have "search_result ?sticky (f 0 [] 8 = None) cs ct us i rest ?res" unfolding R_def search_result_def by (simp split: if_splits)
    with N(2) have "\<exists>N res. (\<forall>fuel \<ge> N. lre_exec fuel f addr (x # y # rest) (literal_bytecode re_flags cs) (subject_bytes ct us) i (length us) ct = Ret res) \<and>
         search_result ?sticky (f 0 [] 8 = None) cs ct us i rest res" by blast
    with c Some show ?thesis by simp
  qed
qed

text \<open>The pattern \<open>/ab/\<close> in the subject \<open>xabab\<close> of 16-bit characters: the first occurrence is at index 1.\<close>

theorem literal_pattern_found_witness:
  "\<exists>bc msg N. lre_compile (Suc 0) (limited_realloc 128) cr_default_realloc [0] 1 ([0x61, 0x62] @ [0]) (length [0x61 :: u8, 0x62]) 0 = Some (Some bc, msg) \<and>
    (\<forall>fuel \<ge> N. lre_exec fuel (c_realloc 48 undefined) 0 [None, None] bc (subject_bytes 1 [0x78, 0x61, 0x62, 0x61, 0x62]) 0
      (length [0x78 :: nat, 0x61, 0x62, 0x61, 0x62]) 1 = Ret (1, [Some 2, Some 6]))"
proof -
  let ?cs = "[0x61, 0x62] :: u8 list" and ?us = "[0x78, 0x61, 0x62, 0x61, 0x62] :: nat list" and ?f = "c_realloc 48 undefined :: REExecState realloc_fun"
  have p: "list_all plain_char ?cs" by (simp add: plain_char_def)
  have fl: "(0 :: u32) AND ucast LRE_FLAG_IGNORECASE = 0" "(0 :: u32) AND ucast LRE_FLAG_UTF16 = 0" by simp_all
  have ft: "fits_type 1 ?us" by (simp add: fits_type_def)
  have small: "1 \<le> int (length [0 :: u8])" "[0 :: u8] \<noteq> []" "0 \<le> length ?us" "length ?us * 2 ^ 1 < 2 ^ 31" by simp_all
  have r: "\<not> refused (limited_realloc 128) (6 * length ?cs + 46)"
    by (auto simp: refused_def limited_realloc_def dbuf_default_realloc_def PTRDIFF_MAX_def)
  have res: "res = (1, [Some 2, Some 6])" if "search_result ((0 :: u32) AND ucast LRE_FLAG_STICKY \<noteq> 0) (?f 0 [] 8 = None) ?cs 1 ?us 0 [] res" for res
    using that by (simp add: search_result_def match_result_def first_at_def occurs_at_def c_realloc_def upt_rec)
  have l: "small_blocks (limited_realloc 128)" by (rule limited_small) simp
  obtain bc msg where c: "lre_compile (Suc 0) (limited_realloc 128) cr_default_realloc [0] 1 (?cs @ [0]) (length ?cs) 0 = Some (bc, msg)"
    and b: "case bc of None \<Rightarrow> refused (limited_realloc 128) (6 * length ?cs + 46)
     | Some bc \<Rightarrow> \<exists>N res. (\<forall>fuel \<ge> N. lre_exec fuel ?f 0 [None, None] bc (subject_bytes 1 ?us) 0 (length ?us) 1 = Ret res) \<and>
         search_result ((0 :: u32) AND ucast LRE_FLAG_STICKY \<noteq> 0) (?f 0 [] 8 = None) ?cs 1 ?us 0 [] res"
    using literal_pattern_found [OF limited.realloc_contract_axioms l c_state_realloc.realloc_contract_axioms [of 48 undefined] p fl small(1,2) ft small(3,4),
      where depth = 0 and ?realloc32.0 = cr_default_realloc and addr = 0 and x = None and y = None and rest = "[]"] by blast
  from b r obtain bc' where bc': "bc = Some bc'" by (cases bc) auto
  with b obtain N res where "\<forall>fuel \<ge> N. lre_exec fuel ?f 0 [None, None] bc' (subject_bytes 1 ?us) 0 (length ?us) 1 = Ret res"
    "search_result ((0 :: u32) AND ucast LRE_FLAG_STICKY \<noteq> 0) (?f 0 [] 8 = None) ?cs 1 ?us 0 [] res" by auto
  with res c bc' show ?thesis by blast
qed

end
