(* ===== verification/KnownDefects.thy ===== *)
theory KnownDefects
  imports LiteralSearch
begin

text \<open>
  Theorems on behaviour of \<^verbatim>\<open>libregexp.c\<close> that its authors cannot have meant: a non-greedy loop over an empty match that never ends, a back reference
  by name compiled for another group, and a store outside the code buffer after an allocation failure.
\<close>

section \<open>A loop without end\<close>

text \<open>The sticky pattern \<open>/(?:)*?b/y\<close> and its code: the split at 9 tries the character at 19 first and pushes the jump at 14, which goes back to 9.\<close>

definition lazy_pattern :: "u8 list" where
  "lazy_pattern = [0x28, 0x3F, 0x3A, 0x29, 0x2A, 0x3F, 0x62, 0]"

definition lazy_code :: "u8 list" where
  "lazy_code = [32, 1, 0, 18, 0, 0, 0, 11, 0, 8, 5, 0, 0, 0, 7, 246, 255, 255, 255, 1, 98, 0, 12, 0, 10]"

lemma lazy_compiled: "lre_compile 2 (limited_realloc 128) cr_default_realloc [0] 1 lazy_pattern 7 32 = Some (Some lazy_code, [0])"
  by code_simp

lemma lazy_ops:
  "rd lazy_code 7 = Some (opc REOP_save_start)" "rd lazy_code 8 = Some 0"
  "rd lazy_code 9 = Some (opc REOP_split_goto_first)" "get_u32 lazy_code 10 = Some 5" "pc_add lazy_code 14 5 = Some 19"
  "rd lazy_code 14 = Some (opc REOP_goto)" "get_u32 lazy_code 15 = Some (- 10)" "pc_add lazy_code 19 (- 10) = Some 9"
  by (code_simp; simp)+

lemma lazy_char: "lazy_code = take 19 lazy_code @ (opc REOP_char # u16_bytes (ucast (0x62 :: u8))) @ [12, 0, 10]"
  by code_simp

lemma timeout_next:
  assumes "exec_op bc s th = Some (Op_next s1 th1)" "\<And>fuel'. fuel' < fuel \<Longrightarrow> lre_exec_backtrack fuel' bc s1 th1 False = Timeout"
  shows "lre_exec_backtrack fuel bc s th False = Timeout"
  using assms by (cases fuel) auto

lemma timeout_resume:
  assumes "exec_op bc s th = Some (Op_no_match th1)" "unwind bc False s th1 = Some (Resume s2 th2)"
    "\<And>fuel'. fuel' < fuel \<Longrightarrow> lre_exec_backtrack fuel' bc s2 th2 False = Timeout"
  shows "lre_exec_backtrack fuel bc s th False = Timeout"
  using assms by (cases fuel) auto

definition at_split :: "thread \<Rightarrow> nat \<Rightarrow> captures \<Rightarrow> bool" where
  "at_split th p rest \<longleftrightarrow> th_pc th = 9 \<and> th_cptr th = p \<and> (\<exists>x y. th_capture th = x # y # rest) \<and> th_stack th = [] \<and> th_stack_len th = 0"

lemma round:
  assumes grow: "grow_state_stack s = (0, s')" "ready s'" "subject_ctx s' ct us" and th: "at_split th (i * 2 ^ ct) rest"
    and i: "i \<le> length us" "\<not> occurs_at [0x62] us i"
  obtains s1 th1 s2 th2 where "exec_op lazy_code s th = Some (Op_next s1 (th\<lparr>th_pc := 19\<rparr>))"
    "exec_op lazy_code s1 (th\<lparr>th_pc := 19\<rparr>) = Some (Op_no_match th1)" "unwind lazy_code False s1 th1 = Some (Resume s2 th2)"
    "exec_op lazy_code s2 th2 = Some (Op_next s2 th)" "ready s2" "subject_ctx s2 ct us"
proof -
  obtain e r where e: "ex_state_stack s' = e # r" using grow(2) by (cases "ex_state_stack s'") (auto simp: ready_def)
  obtain x y where cap: "th_capture th = x # y # rest" using th by (auto simp: at_split_def)
  let ?rs = "\<lparr>rs_type = RE_EXEC_STATE_SPLIT, rs_stack_len = 0, rs_count = 0, rs_cptr = i * 2 ^ ct, rs_pc = 14, rs_capture = [x, y], rs_stack = []\<rparr>"
  let ?s1 = "s'\<lparr>ex_state_stack := ?rs # r, ex_state_stack_len := 1\<rparr>"
  have cc: "ex_capture_count s' = 1" "ex_stack_size_max s' = 0" using grow(3) by (simp_all add: subject_ctx_def)
  have "push_state s th 14 (i * 2 ^ ct) RE_EXEC_STATE_SPLIT 0 = Some (0, ?s1)"
    using grow(1,2) th cap e cc by (simp add: push_state_def ready_def at_split_def slice_def wr_def numeral_2_eq_2)
  then have 1: "exec_op lazy_code s th = Some (Op_next ?s1 (th\<lparr>th_pc := 19\<rparr>))"
    using th by (simp add: exec_op_def at_split_def lazy_ops reop_opc save_and_go_def)
  have ctx: "subject_ctx ?s1 ct us" using grow(3) by (simp add: subject_ctx_def)
  have "\<not> (i < length us \<and> us ! i = unat (0x62 :: u8))" using i occurs_Cons [of "0x62" "[]" us i] by (auto simp: occurs_at_def)
  then obtain pc' p' where 2: "exec_op lazy_code ?s1 (th\<lparr>th_pc := 19\<rparr>) = Some (Op_no_match (th\<lparr>th_pc := pc', th_cptr := p'\<rparr>))"
    using exec_char [OF ctx lazy_char, of "th\<lparr>th_pc := 19\<rparr>" i] th i(1) by (simp add: at_split_def lazy_code_def)
  let ?th2 = "th\<lparr>th_pc := 14\<rparr>"
  have "th\<lparr>th_pc := 14, th_cptr := i * 2 ^ ct, th_capture := x # y # rest, th_stack := [], th_stack_len := 0\<rparr> = ?th2"
    using th cap by (cases th) (simp add: at_split_def)
  then have "unwind lazy_code False ?s1 (th\<lparr>th_pc := pc', th_cptr := p'\<rparr>) = Some (Resume (drop_state ?s1) ?th2)"
    using cap cc th by (simp add: unwind.simps resume_at_def pop_state_def pop_state1_def slice_def blit_def at_split_def numeral_2_eq_2)
  moreover have "exec_op lazy_code (drop_state ?s1) ?th2 = Some (Op_next (drop_state ?s1) th)"
    using th by (cases th) (simp add: exec_op_def at_split_def lazy_ops reop_opc Let_def)
  moreover have "ready (drop_state ?s1)" "subject_ctx (drop_state ?s1) ct us" using grow(2) ctx by (simp_all add: ready_def drop_state_def subject_ctx_def)
  ultimately show thesis using that 1 2 by blast
qed


lemma no_end:
  assumes th: "at_split th (i * 2 ^ ct) rest" and i: "i \<le> length us" "\<not> occurs_at [0x62] us i"
  shows "grow_state_stack s = (0, s') \<Longrightarrow> ready s' \<Longrightarrow> subject_ctx s' ct us \<Longrightarrow> lre_exec_backtrack fuel lazy_code s th False = Timeout"
proof (induction fuel arbitrary: s s' rule: less_induct)
  case (less fuel)
  obtain s1 th1 s2 th2 where r: "exec_op lazy_code s th = Some (Op_next s1 (th\<lparr>th_pc := 19\<rparr>))"
    "exec_op lazy_code s1 (th\<lparr>th_pc := 19\<rparr>) = Some (Op_no_match th1)" "unwind lazy_code False s1 th1 = Some (Resume s2 th2)"
    "exec_op lazy_code s2 th2 = Some (Op_next s2 th)" "ready s2" "subject_ctx s2 ct us" by (rule round [OF less.prems th i])
  have "grow_state_stack s2 = (0, s2)" using r(5) by (simp add: grow_state_stack_def ready_def)
  then have "fuel' < fuel \<Longrightarrow> lre_exec_backtrack fuel' lazy_code s2 th False = Timeout" for fuel' using less.IH r(5,6) by blast
  then show ?case by (intro timeout_next [OF r(1)] timeout_resume [OF r(2,3)] timeout_next [OF r(4)]) simp
qed

lemma lazy_start:
  assumes sub: "fits_type ct us" "i \<le> length us" "length us * 2 ^ ct < 2 ^ 31" "\<not> occurs_at [0x62] us i" and f: "realloc_contract f" "f 0 [] 8 = Some b"
  shows "lre_exec fuel f addr (x # y # rest) lazy_code (subject_bytes ct us) i (length us) ct = Timeout"
proof -
  have run: "lre_exec_backtrack fuel lazy_code s th False = Timeout"
    if s: "subject_ctx s ct us" "fresh f s" and th: "idle th 7 (i * 2 ^ ct) rest" for s th
  proof (rule timeout_next)
    show "exec_op lazy_code s th = Some (Op_next s (th\<lparr>th_pc := 9, th_capture := Some (i * 2 ^ ct) # None # rest\<rparr>))"
      using s th by (simp add: exec_op_def idle_def lazy_ops reop_opc subject_ctx_def wr_def)
    let ?s' = "s\<lparr>ex_state_stack_size := 8, ex_state_stack := b, ex_opaque := Suc 0\<rparr>"
    have "grow_state_stack s = (0, ?s')" using s(2) f(2) by (simp add: fresh_def grow_state_stack_def Let_def)
    moreover have "ready ?s'" "subject_ctx ?s' ct us"
      using realloc_contract.realloc_length [OF f] s by (simp_all add: ready_def fresh_def subject_ctx_def)
    ultimately show "lre_exec_backtrack fuel' lazy_code s (th\<lparr>th_pc := 9, th_capture := Some (i * 2 ^ ct) # None # rest\<rparr>) False = Timeout" for fuel'
      using th by (intro no_end [OF _ sub(2,4), of _ ct rest s ?s']) (simp_all add: at_split_def idle_def)
  qed
  have hd: "rd lazy_code RE_HEADER_FLAGS = Some 32" "rd lazy_code RE_HEADER_CAPTURE_COUNT = Some 1" "rd lazy_code RE_HEADER_STACK_SIZE = Some 0"
    by (simp_all add: lazy_code_def rd_def RE_HEADER_FLAGS_def RE_HEADER_CAPTURE_COUNT_def RE_HEADER_STACK_SIZE_def)
  have fl: "(32 :: u8) AND LRE_FLAG_IGNORECASE = 0" "(32 :: u8) AND LRE_FLAG_UTF16 = 0" by code_simp+
  obtain s th where e: "subject_ctx s ct us" "fresh f s" "idle th 7 (i * 2 ^ ct) rest"
    "\<forall>fuel. lre_exec fuel f addr (x # y # rest) lazy_code (subject_bytes ct us) i (length us) ct =
       (case lre_exec_backtrack fuel lazy_code s th False of Fault \<Rightarrow> Fault | Timeout \<Rightarrow> Timeout
        | Ret (ret, s, th) \<Rightarrow> Ret (case ret of R_error \<Rightarrow> - 1 | R_no_match \<Rightarrow> 0 | R_match p \<Rightarrow> 1, th_capture th))"
    by (rule exec_entry [OF hd fl sub(1-3), where f = f and rest = rest and addr = addr and x = x and y = y])
  from run [OF e(1-3)] e(4) show ?thesis by simp
qed


section \<open>Properties\<close>

text \<open>
  C29. A loop without end. The bytecode the compiler makes of \<open>/(?:)*?b/y\<close> never returns on a subject that has no \<open>b\<close> at the start position, however
  many steps it is given, unless the state stack cannot be allocated: the code of a non-greedy quantifier does not test that an iteration advances.
\<close>

theorem lazy_loop_never_ends:
  assumes "realloc_contract f" "f 0 [] 8 \<noteq> None" "fits_type ct us" "i \<le> length us" "length us * 2 ^ ct < 2 ^ 31" "\<not> occurs_at [0x62] us i"
  shows "\<exists>bc. lre_compile 2 (limited_realloc 128) cr_default_realloc [0] 1 lazy_pattern 7 32 = Some (Some bc, [0]) \<and>
    (\<forall>fuel. lre_exec fuel f addr (x # y # rest) bc (subject_bytes ct us) i (length us) ct = Timeout)"
  using assms lazy_compiled lazy_start [OF assms(3-6,1)] by blast

theorem lazy_loop_never_ends_witness:
  "\<exists>bc. lre_compile 2 (limited_realloc 128) cr_default_realloc [0] 1 lazy_pattern 7 32 = Some (Some bc, [0]) \<and>
    (\<forall>fuel. lre_exec fuel (c_realloc 48 undefined) 0 [None, None] bc (subject_bytes 0 [0x61]) 0 (length [0x61 :: nat]) 0 = Timeout)"
  by (rule lazy_loop_never_ends [OF c_state_realloc.realloc_contract_axioms]) (simp_all add: c_realloc_def fits_type_def occurs_at_def)

section \<open>Single defects\<close>

text \<open>
  In \<open>\k<b>(?<a>(x))(?<b>y)\<close> the group \<open>b\<close> is number 3; the reference is compiled for number 2.
\<close>

lemma named_reference_off:
  "lre_compile 3 (limited_realloc 1024) cr_default_realloc [0] 1
     [0x5C, 0x6B, 0x3C, 0x62, 0x3E, 0x28, 0x3F, 0x3C, 0x61, 0x3E, 0x28, 0x78, 0x29, 0x29, 0x28, 0x3F, 0x3C, 0x62, 0x3E, 0x79, 0x29, 0] 21 32 =
   Some (Some ([160, 4, 0, 25, 0, 0, 0, 11, 0] @ [opc REOP_back_reference, 2] @
     [11, 1, 11, 2, 1, 120, 0, 12, 2, 12, 1, 11, 3, 1, 121, 0, 12, 3, 12, 0, 10, 97, 0, 0, 98, 0]), [0])"
  by code_simp

text \<open>With an allocator that refuses more than 32 bytes, compiling \<open>/ab|c/y\<close> stores outside the code buffer.\<close>

lemma unchecked_patch: "lre_compile 2 (limited_realloc 32) cr_default_realloc [0] 1 [0x61, 0x62, 0x7C, 0x63, 0] 4 32 = None"
  by code_simp

end
