(* ===== verification/Spec2Isabelle.thy ===== *)
theory Spec2Isabelle
  imports Utf8 UnicodeSets ClassMatch MpDiv GcMark QSort BufferProtocol SubjectChars KnownDefects
begin

text \<open>
  Verification of the C libraries of the QuickJS engine that the plugin is built on (\<^verbatim>\<open>src/cxx/quickjs\<close>).

  \<^bold>\<open>The program.\<close> The plugin embeds a JavaScript engine. The engine (\<^verbatim>\<open>quickjs.c\<close>) uses four libraries of its own: \<^verbatim>\<open>cutils\<close> (byte and string
  helpers, a growing buffer, the UTF-8 codec), \<^verbatim>\<open>libunicode\<close> (compressed Unicode tables, case conversion, properties, sets of
  characters), \<^verbatim>\<open>libregexp\<close> (a compiler of regular expressions to bytecode and a backtracking matcher) and \<^verbatim>\<open>libbf\<close> (arbitrary precision numbers),
  and keeps its objects on the linked lists of \<^verbatim>\<open>list.h\<close>. \<^verbatim>\<open>libregexp\<close> calls the other libraries: the compiler writes code and group names into
  growing buffers, reads the pattern as UTF-8, builds classes as character ranges from the Unicode tables and folds them with the case conversion, which the matcher uses again.

  \<^bold>\<open>Conventions.\<close> A C block is a list; an access outside it is \<open>None\<close>, which stands for undefined behaviour (the C code makes no test there), and so is a failed
  assertion. The result of an operation is the C result together with the new state. Characters, bytecode, table entries, points of ranges, limbs and the sizes that a theorem lets wrap are
  machine words at the width of the source. Positions and values of type \<open>size_t\<close> are natural numbers, with \<open>mod 2 ^ 64\<close> written out where the source relies on it. Lengths and positions
  of type \<open>int\<close> are natural numbers or integers too: their overflow is undefined behaviour, which is modelled where it bounds a theorem (the loops of \<open>mp_sub\<close> and \<open>mp_neg\<close>
  and the shift of the subject's length in \<open>lre_exec\<close>), but not for the points of a character range, which every caller keeps far below the 715827883 at which \<open>cr_realloc\<close> would overflow.

  An allocator is the function the code is given; it gets the number of the request as its \<open>opaque\<close> argument, so that it may refuse any of them. What is assumed of it is the contract of
  \<open>realloc\<close>, the locale \<open>realloc_contract\<close>, interpreted on the default allocators, which refuse blocks above \<open>PTRDIFF_MAX\<close>, and on allocators with a limit. Every theorem
  on code that allocates covers refused requests. The byte code and the group names of the compiler are given one allocator function, and requests are numbered for each of the two buffers.

  \<^bold>\<open>The theories.\<close>

  \<^item> \<open>Prelude\<close>: machine types, reads and writes of blocks, lemmas on lists and words.

  \<^item> \<open>Cutils\<close> (\<^verbatim>\<open>cutils.h\<close>, the string helpers of \<^verbatim>\<open>cutils.c\<close>), \<open>DynBuf\<close> (the growing buffer, its invariant and, in
    the locale \<open>error_buffer\<close>, the protocol of ignoring results and testing the sticky error flag at the end), \<open>BufferProtocol\<close> (that protocol for mixed appends, and
    bounded concatenation), \<open>Utf8\<close> (the codec and its round trip in both directions), \<open>QSort\<close> (\<open>rqsort\<close>, its heap sort and insertion sort, the exchange functions on bytes and the
    comparisons of integer typed arrays). The comparison of \<open>rqsort\<close> is a function of two elements: comparators that keep state in \<open>opaque\<close>, as \<open>js_array_cmp_generic\<close> does, are not represented.

  \<^item> \<open>CharRange\<close> (the \<open>cr_\<close> functions: compression in place, union, intersection, symmetric difference and complement are those of sets; the locale
    \<open>interval_union\<close>), \<open>UnicodeTables\<close> (\<^verbatim>\<open>libunicode-table.h\<close>, entry by entry), \<open>CaseConv\<close> (the locale \<open>run_table\<close> for the binary search over runs),
    \<open>PropTable\<close> (\<open>lre_is_in_table\<close> and its index), \<open>UnicodeProps\<close> (the decoders, the stack machine and the lookup by name) and \<open>UnicodeSets\<close> (the sets they compute).

  \<^item> \<open>RegexpOps\<close> (opcodes, canonicalization, the passes over code), \<open>RegexpEmit\<close> and \<open>RegexpParse\<close> (the compiler), \<open>RegexpExec\<close> (the matcher).
    \<open>RegexpSafety\<close> has a bytecode verifier and the safety of the matcher on verified code. \<open>RegexpCode\<close>, \<open>RangeParity\<close>, \<open>EmitSpec\<close>, \<open>QuantSpec\<close> and
    \<open>RegexpCompile\<close> show that the compiler emits verified code: fragments of code that can be appended, shifted and patched, the code of the quantifiers, and
    the induction over the recursive descent. Two theories go through compiler and matcher together: in \<open>ClassMatch\<close> the range instruction of a class decides membership, in \<open>LiteralSearch\<close>
    a pattern of plain characters is compiled and found at its first occurrence. \<open>SubjectChars\<close> has the character macros (they decode UTF-16 in both directions), the termination of the bodies of
    simple quantifiers and the tables of white space and identifiers. \<open>KnownDefects\<close> proves three defects of \<^verbatim>\<open>libregexp.c\<close> on the same definitions.

  \<^item> \<open>Limbs\<close> (a store of limb arrays and the loops over them), \<open>MpArith\<close> and \<open>MpDiv\<close> (the \<open>mp_\<close> routines of \<^verbatim>\<open>libbf.c\<close>): schoolbook
    addition, subtraction, multiplication and division compute the operations on the numbers the arrays stand for, for every overlap the loops allow.

  \<^item> \<open>LinkedList\<close> (\<^verbatim>\<open>list.h\<close>: the pointer operations refine those on sequences; the locale \<open>intrusive_lists\<close>) and \<open>GcMark\<close> (the cycle collector of \<^verbatim>\<open>quickjs.c\<close>:
    \<open>mark_children\<close> for all kinds of objects and the passes over the two lists find exactly the garbage).

  \<^bold>\<open>Fuel and bounds.\<close> The interpreter loop \<open>lre_exec_backtrack\<close> need not end on every input, so it takes the number of turns as fuel, and using it up is the result
  \<open>Timeout\<close>: the safety theorems hold for every number of turns. The recursion of the parser is bounded by the caller's stack check, whose limit is
  the first argument of the parsing functions; every limit is covered. The loops of the collector, of the correction step in the division and the three loops of \<open>rqsort\<close> (\<open>part_loop\<close>, \<open>split_loop\<close>,
  \<open>sort_loop\<close>) are \<open>partial_function\<close>s, and their theorems prove that they return. For literal patterns \<open>LiteralSearch\<close> proves that some number of turns is enough; \<open>KnownDefects\<close> has a
  pattern for which none is. All other loops are recursive functions with termination proofs. The compiler theorems assume an allocator that gives no block of
  2 GiB or more, as the code keeps sizes in \<open>int\<close>, and the safety of the matcher a subject of less than 2 GiB, as the engine's longest strings are.

  \<^bold>\<open>Not modelled.\<close> In \<^verbatim>\<open>libbf.c\<close>: the FFT multiplication and the subquadratic division, which are
  parameters with their contracts as hypotheses of the routines that call them, the square root, and the floating point and decimal layers. In \<^verbatim>\<open>libunicode.c\<close>: normalization
  (\<open>unicode_normalize\<close> with its decompositions, compositions and combining classes). The compiler is verified for memory safety only through the code it returns: that it stays in its own buffer is false
  after a refused allocation (\<open>KnownDefects\<close>). In \<^verbatim>\<open>quickjs.c\<close>: all but the
  collector's passes and the comparisons of integer typed arrays; the marking functions that the classes register are a parameter, and freeing the garbage needs the finalizers of all
  classes. The interpreter, the parser
  and the built-in objects of the engine are not modelled, nor are the command line tools, the generator of the Unicode tables (its output is) and the Dart and C++ glue.
\<close>

end
